(* ===== verification/Harmonik_Prelude.thy ===== *)
theory Harmonik_Prelude
  imports Main "HOL-Library.Word" "HOL-Library.List_Lexorder" "HOL-Library.Char_ord"
begin

text \<open>
  Shared base of the development: names for the basic types of the Go code, the run of a
  reactor over an event list, the generic contracts (locales) that several components share,
  and lemmas on lists and options used by more than one component.

  Conventions. A Go \<^verbatim>\<open>string\<close> is a \<^typ>\<open>string\<close>. A \<^verbatim>\<open>time.Time\<close> is the number of
  nanoseconds since the zero time (1 January of year 1, UTC) as an \<^typ>\<open>int\<close>, so the zero
  time is \<open>0\<close> and \<^verbatim>\<open>.UTC()\<close>, which changes the location and not the instant, is the identity.
  A nil-able pointer is an \<open>option\<close>. A function that returns \<^verbatim>\<open>(v, error)\<close> has a sum type with
  \<open>Inl\<close> the error.
\<close>

section \<open>Names of basic types\<close>

type_synonym BeadID = string
type_synonym go_time = int
type_synonym go_duration = "64 word"
type_synonym float64_bits = "64 word"

section \<open>Printing numbers\<close>

text \<open>The decimal digits of a natural number and the \<^verbatim>\<open>%d\<close> verb of \<^verbatim>\<open>fmt\<close>.\<close>

definition digit_char :: "nat \<Rightarrow> char" where
  "digit_char d = char_of (48 + d)"

fun nat_digits :: "nat \<Rightarrow> string" where
  "nat_digits n = (if n < 10 then [digit_char n] else nat_digits (n div 10) @ [digit_char (n mod 10)])"

declare nat_digits.simps [simp del]

definition itoa :: "int \<Rightarrow> string" where
  "itoa n = (if n < 0 then CHR 0x2D # nat_digits (nat (- n)) else nat_digits (nat n))"

section \<open>Lemma collections\<close>

named_theorems status_ops
  \<open>definitions of the status-changing operations of the queue package\<close>

named_theorems step_defs
  \<open>definitions of the per-phase steps of the reactors\<close>

section \<open>Running a reactor over a list of events\<close>

text \<open>
  \<open>run_events\<close> is the loop of \<^verbatim>\<open>substrate.Run\<close>: take the next event, step, hand the actions to
  the effector, until the source is exhausted.
\<close>

fun run_events :: "('s \<Rightarrow> 'e \<Rightarrow> 's \<times> 'a list) \<Rightarrow> 's \<Rightarrow> 'e list \<Rightarrow> 's \<times> 'a list" where
  "run_events step s [] = (s, [])"
| "run_events step s (e # es) =
     (let (s', as) = step s e; (s'', bs) = run_events step s' es in (s'', as @ bs))"

lemma run_events_append:
  "run_events step s (es @ fs) =
     (let (s', as) = run_events step s es; (s'', bs) = run_events step s' fs in (s'', as @ bs))"
  by (induction es arbitrary: s) (auto simp: Let_def split: prod.splits)

lemma run_events_snoc:
  "run_events step s (es @ [e]) =
     (fst (step (fst (run_events step s es)) e),
      snd (run_events step s es) @ snd (step (fst (run_events step s es)) e))"
  by (simp add: run_events_append Let_def split: prod.splits)

lemma fst_run_events_Cons:
  "fst (run_events step s (e # es)) = fst (run_events step (fst (step s e)) es)"
  by (simp add: Let_def split: prod.splits)

lemma fst_run_events_append:
  "fst (run_events step s (es @ fs)) = fst (run_events step (fst (run_events step s es)) fs)"
  by (simp add: run_events_append Let_def split: prod.splits)

lemma run_events_action:
  assumes "a \<in> set (snd (run_events step s es))"
  shows "\<exists>pre e post. es = pre @ e # post \<and> a \<in> set (snd (step (fst (run_events step s pre)) e))"
  using assms
proof (induction es rule: rev_induct)
  case Nil
  then show ?case by simp
next
  case (snoc e es)
  then show ?case by (fastforce simp: run_events_snoc)
qed

text \<open>A reactor with terminal states: no event moves it once it is terminal.\<close>

locale reactor =
  fixes step :: "'s \<Rightarrow> 'e \<Rightarrow> 's \<times> 'a list"
    and terminal :: "'s \<Rightarrow> bool"
  assumes absorbing: "terminal s \<Longrightarrow> step s e = (s, [])"
begin

lemma run_absorbing: "terminal s \<Longrightarrow> run_events step s es = (s, [])"
  by (induction es) (auto simp: absorbing)

lemma run_after_terminal:
  "terminal (fst (run_events step s es)) \<Longrightarrow>
   run_events step s (es @ fs) = run_events step s es"
  by (cases "run_events step s es") (simp add: run_events_append run_absorbing)

end

text \<open>
  A reactor with a state invariant that relates the state to all actions emitted so far:
  the form in which every "at most once" and every bound on emitted actions is proved.
\<close>

locale reactor_history = reactor step terminal
  for step :: "'s \<Rightarrow> 'e \<Rightarrow> 's \<times> 'a list" and terminal :: "'s \<Rightarrow> bool" +
  fixes start :: 's and inv :: "'s \<Rightarrow> 'a list \<Rightarrow> bool"
  assumes inv_start: "inv start []"
    and inv_step: "inv s as \<Longrightarrow> inv (fst (step s e)) (as @ snd (step s e))"
begin

lemma run_inv: "inv (fst (run_events step start es)) (snd (run_events step start es))"
proof (induction es rule: rev_induct)
  case Nil
  show ?case by (simp add: inv_start)
next
  case (snoc e es)
  then show ?case by (simp add: run_events_snoc inv_step)
qed

end

section \<open>Guarded status transitions\<close>

text \<open>
  The operations of \<^verbatim>\<open>status_transition.go\<close> share one contract: the operation refuses every
  status outside its source set and otherwise ends in its target status.
\<close>

locale guarded_transition =
  fixes op :: "'x \<Rightarrow> 'err + 'x"
    and status :: "'x \<Rightarrow> 'st"
    and from_ok :: "'st \<Rightarrow> bool"
    and to_st :: 'st
  assumes refuses: "\<not> from_ok (status x) \<Longrightarrow> \<exists>e. op x = Inl e"
    and reaches: "op x = Inr y \<Longrightarrow> status y = to_st"
begin

lemma success_guard: "op x = Inr y \<Longrightarrow> from_ok (status x)"
  using refuses by (metis Inl_Inr_False)

lemma not_repeatable:
  assumes "\<not> from_ok to_st" and "op x = Inr y"
  shows "\<exists>e. op y = Inl e"
  using assms reaches refuses by metis

end

section \<open>Lists\<close>

text \<open>\<open>find_index P xs\<close>: the first index whose element satisfies \<open>P\<close>, as a Go loop finds it.\<close>

fun find_index :: "('a \<Rightarrow> bool) \<Rightarrow> 'a list \<Rightarrow> nat option" where
  "find_index P [] = None"
| "find_index P (x # xs) = (if P x then Some 0 else map_option Suc (find_index P xs))"

lemma find_index_None: "find_index P xs = None \<longleftrightarrow> (\<forall>x \<in> set xs. \<not> P x)"
  by (induction xs) auto

lemma find_index_SomeD:
  "find_index P xs = Some i \<Longrightarrow> i < length xs \<and> P (xs ! i) \<and> (\<forall>j < i. \<not> P (xs ! j))"
proof (induction xs arbitrary: i)
  case Nil
  then show ?case by simp
next
  case (Cons x xs)
  show ?case
  proof (cases "P x")
    case True
    with Cons.prems show ?thesis by simp
  next
    case False
    with Cons.prems obtain k where k: "find_index P xs = Some k" and i: "i = Suc k" by auto
    from Cons.IH [OF k] False i show ?thesis
      by (auto simp: nth_Cons split: nat.splits)
  qed
qed

lemma filter_list_update_other:
  "i < length xs \<Longrightarrow> \<not> P (xs ! i) \<Longrightarrow> \<not> P y \<Longrightarrow> filter P (xs[i := y]) = filter P xs"
  by (induction xs arbitrary: i) (auto split: nat.splits)

lemma list_all_update:
  "list_all P xs \<Longrightarrow> P y \<Longrightarrow> list_all P (xs[i := y])"
  using set_update_subset_insert [of xs i y] by (auto simp: list_all_iff)

lemma length_filter_update_less:
  assumes "i < length xs" "P (xs ! i)" "\<not> P y"
  shows "length (filter P (xs[i := y])) < length (filter P xs)"
  using assms by (induction xs arbitrary: i) (auto split: nat.splits)

lemma set_pairs:
  "set [f i j. i \<leftarrow> xs, j \<leftarrow> ys, P i j] = {f i j |i j. i \<in> set xs \<and> j \<in> set ys \<and> P i j}"
  by auto

lemma set_concat_enumerate:
  "r \<in> set (concat (map (\<lambda>(k, x). F k x) (enumerate 0 xs))) \<longleftrightarrow> (\<exists>k < length xs. r \<in> set (F k (xs ! k)))"
proof -
  have "(k, x) \<in> set (enumerate 0 xs) \<longleftrightarrow> k < length xs \<and> x = xs ! k" for k x
    by (auto simp: in_set_enumerate_eq)
  then show ?thesis by (simp add: Bex_def split_paired_Ex)
qed

end
