(* ===== verification/Queue_Types.thy ===== *)
theory Queue_Types
  imports Harmonik_Prelude
begin

text \<open>
  The data of the queue package (\<^verbatim>\<open>internal/queue/types.go\<close>, \<^verbatim>\<open>preclaim_terminal.go\<close>,
  \<^verbatim>\<open>clone.go\<close>) and its status transitions (\<^verbatim>\<open>status_transition.go\<close>, \<^verbatim>\<open>resume.go\<close>).

  The Go status types are strings read from JSON, so a stored value may be none of the declared
  constants: every status type has an \<open>Other\<close> constructor for such a value (the empty string
  included). An operation on a pointer takes an \<open>option\<close>; it returns the mutated value, and on
  an error the caller's value is unchanged.
\<close>

section \<open>Statuses\<close>

datatype QueueStatus =
    QueueStatusActive | QueueStatusPausedByFailure | QueueStatusPausedByDrain
  | QueueStatusPausedByBudget | QueueStatusCompleted | QueueStatusCancelled
  | QueueStatusOther string

datatype GroupKind = GroupKindWave | GroupKindStream | GroupKindOther string

datatype GroupStatus =
    GroupStatusPending | GroupStatusActive | GroupStatusCompleteSuccess
  | GroupStatusCompleteWithFailures | GroupStatusOther string

datatype ItemStatus =
    ItemStatusPending | ItemStatusDispatched | ItemStatusCompleted | ItemStatusFailed
  | ItemStatusDeferredForLedgerDep | ItemStatusOther string

datatype PreclaimTerminalCause =
    PreclaimTerminalMaxAttempts | PreclaimTerminalCrossQueue
  | PreclaimTerminalDependencyRefusal | PreclaimTerminalCauseOther string

datatype GroupCompletionOutcome =
    GroupCompletionOutcomeCompleted | GroupCompletionOutcomeFailed
  | GroupCompletionOutcomeOther string

section \<open>Records\<close>

record PreclaimTerminalBinding =
  pt_RunID :: string
  pt_ClaimTransitionID :: string
  pt_Cause :: PreclaimTerminalCause

record Item =
  item_BeadID :: BeadID
  item_Status :: ItemStatus
  item_RunID :: "string option"
  item_PreclaimTerminal :: "PreclaimTerminalBinding option"
  item_AppendedAt :: "go_time option"
  item_Context :: string
  item_WorkflowMode :: string
  item_WorkflowRef :: string
  item_TemplateParams :: "(string \<rightharpoonup> string) option"
  item_Attempts :: int
  item_LastFailureReason :: string
  item_ReviewLoopFailures :: int

record Group =
  group_GroupIndex :: int
  group_Kind :: GroupKind
  group_Status :: GroupStatus
  group_Items :: "Item list"
  group_CreatedAt :: go_time
  group_StartedAt :: "go_time option"
  group_CompletedAt :: "go_time option"

record Queue =
  queue_SchemaVersion :: int
  queue_QueueID :: string
  queue_FailedRecoveryReceiptID :: "string option"
  queue_Name :: string
  queue_Workers :: int
  queue_SpendCapUSD :: float64_bits
  queue_DefaultHarness :: string
  queue_LocalOnly :: bool
  queue_WorkerTarget :: string
  queue_SubmittedAt :: go_time
  queue_Groups :: "Group list"
  queue_Status :: QueueStatus
  queue_ResumeOnStart :: bool

definition schemaVersion :: int where "schemaVersion = 1"
definition QueueNameMain :: string where "QueueNameMain = ''main''"
definition MaxItemAttempts :: int where "MaxItemAttempts = 3"
definition MaxReviewLoopFailures :: int where "MaxReviewLoopFailures = 2"

text \<open>The Go zero values of the three structs.\<close>

definition zeroItem :: Item where
  "zeroItem = \<lparr>item_BeadID = [], item_Status = ItemStatusOther [], item_RunID = None,
     item_PreclaimTerminal = None, item_AppendedAt = None, item_Context = [],
     item_WorkflowMode = [], item_WorkflowRef = [], item_TemplateParams = None,
     item_Attempts = 0, item_LastFailureReason = [], item_ReviewLoopFailures = 0\<rparr>"

definition zeroGroup :: Group where
  "zeroGroup = \<lparr>group_GroupIndex = 0, group_Kind = GroupKindOther [],
     group_Status = GroupStatusOther [], group_Items = [], group_CreatedAt = 0,
     group_StartedAt = None, group_CompletedAt = None\<rparr>"

definition zeroQueue :: Queue where
  "zeroQueue = \<lparr>queue_SchemaVersion = 0, queue_QueueID = [],
     queue_FailedRecoveryReceiptID = None, queue_Name = [], queue_Workers = 0,
     queue_SpendCapUSD = 0, queue_DefaultHarness = [], queue_LocalOnly = False,
     queue_WorkerTarget = [], queue_SubmittedAt = 0, queue_Groups = [],
     queue_Status = QueueStatusOther [], queue_ResumeOnStart = False\<rparr>"

section \<open>Detached copies\<close>

text \<open>
  \<open>clonePointer\<close> allocates a new cell with the same value; on values it is the identity, and so
  are the clone functions built from it, which \<open>CloneQueue_id\<close> below proves.
\<close>

definition clonePointer :: "'a option \<Rightarrow> 'a option" where
  "clonePointer v = (case v of None \<Rightarrow> None | Some x \<Rightarrow> Some x)"

definition cloneQueueItem :: "Item \<Rightarrow> Item" where
  "cloneQueueItem it = it\<lparr>item_RunID := clonePointer (item_RunID it),
     item_PreclaimTerminal := clonePointer (item_PreclaimTerminal it),
     item_AppendedAt := clonePointer (item_AppendedAt it)\<rparr>"

definition cloneQueueGroup :: "Group \<Rightarrow> Group" where
  "cloneQueueGroup g = g\<lparr>group_StartedAt := clonePointer (group_StartedAt g),
     group_CompletedAt := clonePointer (group_CompletedAt g),
     group_Items := map cloneQueueItem (group_Items g)\<rparr>"

definition CloneQueue :: "Queue option \<Rightarrow> Queue option" where
  "CloneQueue q = (case q of None \<Rightarrow> None
     | Some q \<Rightarrow> Some (q\<lparr>
         queue_FailedRecoveryReceiptID := clonePointer (queue_FailedRecoveryReceiptID q),
         queue_Groups := map cloneQueueGroup (queue_Groups q)\<rparr>))"

section \<open>Predicates on statuses\<close>

definition groupIsTerminal :: "GroupStatus \<Rightarrow> bool" where
  "groupIsTerminal s \<longleftrightarrow> s = GroupStatusCompleteSuccess \<or> s = GroupStatusCompleteWithFailures"

definition itemIsTerminal :: "ItemStatus \<Rightarrow> bool" where
  "itemIsTerminal s \<longleftrightarrow> s = ItemStatusCompleted \<or> s = ItemStatusFailed"

fun allItemsTerminal_from :: "Item list \<Rightarrow> bool" where
  "allItemsTerminal_from [] = True"
| "allItemsTerminal_from (it # its) =
     (if \<not> itemIsTerminal (item_Status it) then False else allItemsTerminal_from its)"

definition allItemsTerminal :: "Group \<Rightarrow> bool" where
  "allItemsTerminal g = allItemsTerminal_from (group_Items g)"

text \<open>The loop of \<^verbatim>\<open>countOutcomes\<close> carries the two counters.\<close>

fun countOutcomes_from :: "Item list \<Rightarrow> int \<times> int \<Rightarrow> int \<times> int" where
  "countOutcomes_from [] acc = acc"
| "countOutcomes_from (it # its) (s, f) =
     (case item_Status it of
        ItemStatusCompleted \<Rightarrow> countOutcomes_from its (s + 1, f)
      | ItemStatusFailed \<Rightarrow> countOutcomes_from its (s, f + 1)
      | _ \<Rightarrow> countOutcomes_from its (s, f))"

definition countOutcomes :: "Group \<Rightarrow> int \<times> int" where
  "countOutcomes g = countOutcomes_from (group_Items g) (0, 0)"

definition queueAcceptsItemCompletion :: "QueueStatus \<Rightarrow> bool" where
  "queueAcceptsItemCompletion s = (case s of
     QueueStatusActive \<Rightarrow> True | QueueStatusPausedByDrain \<Rightarrow> True
   | QueueStatusPausedByBudget \<Rightarrow> True | _ \<Rightarrow> False)"

section \<open>Status transitions\<close>

datatype QueueOpError =
    NilItem | NilGroup | NilQueue
  | ItemStatusRefused ItemStatus | GroupStatusRefused GroupStatus | QueueStatusRefused QueueStatus
  | BlockerEmpty | InvalidOutcome GroupCompletionOutcome
  | QueueHasNoGroups | GroupNotTerminal int | NoGroupFailed
  | GroupNotCompleteWithFailures int | GroupNotSuccessful int GroupStatus | ItemsNotTerminal

definition setItemStatus :: "Item \<Rightarrow> ItemStatus \<Rightarrow> Item" where
  [status_ops]: "setItemStatus it s = it\<lparr>item_Status := s\<rparr>"

definition setGroupStatus :: "Group \<Rightarrow> GroupStatus \<Rightarrow> Group" where
  [status_ops]: "setGroupStatus g s = g\<lparr>group_Status := s\<rparr>"

definition setQueueStatus :: "Queue \<Rightarrow> QueueStatus \<Rightarrow> Queue" where
  [status_ops]: "setQueueStatus q s = q\<lparr>queue_Status := s\<rparr>"

definition NewPendingItem :: "Item \<Rightarrow> Item" where
  [status_ops]: "NewPendingItem it = setItemStatus it ItemStatusPending"

definition NewPendingGroup :: "Group \<Rightarrow> Group" where
  [status_ops]: "NewPendingGroup g = setGroupStatus g GroupStatusPending"

definition NewActiveGroup :: "Group \<Rightarrow> Group" where
  [status_ops]: "NewActiveGroup g = setGroupStatus g GroupStatusActive"

definition NewActiveQueue :: "Queue \<Rightarrow> Queue" where
  [status_ops]: "NewActiveQueue q = setQueueStatus q QueueStatusActive"

definition DeferItemForLedgerDependency :: "Item option \<Rightarrow> QueueOpError + Item" where
  [status_ops]: "DeferItemForLedgerDependency item = (case item of None \<Rightarrow> Inl NilItem
   | Some it \<Rightarrow>
       if item_Status it \<noteq> ItemStatusPending then Inl (ItemStatusRefused (item_Status it))
       else Inr (setItemStatus it ItemStatusDeferredForLedgerDep))"

definition ResolveDeferredItem :: "Item option \<Rightarrow> QueueOpError + Item" where
  [status_ops]: "ResolveDeferredItem item = (case item of None \<Rightarrow> Inl NilItem
   | Some it \<Rightarrow>
       if item_Status it \<noteq> ItemStatusDeferredForLedgerDep
       then Inl (ItemStatusRefused (item_Status it))
       else Inr (setItemStatus it ItemStatusPending))"

definition FailDeferredItem :: "Item option \<Rightarrow> string \<Rightarrow> QueueOpError + Item" where
  [status_ops]: "FailDeferredItem item blocker = (case item of None \<Rightarrow> Inl NilItem
   | Some it \<Rightarrow>
       if item_Status it \<noteq> ItemStatusDeferredForLedgerDep
       then Inl (ItemStatusRefused (item_Status it))
       else if blocker = [] then Inl BlockerEmpty
       else Inr ((setItemStatus it ItemStatusFailed)\<lparr>
              item_LastFailureReason := ''dependency_failed:'' @ blocker\<rparr>))"

definition RecoverDispatchedItemToPending :: "Item option \<Rightarrow> QueueOpError + Item" where
  [status_ops]: "RecoverDispatchedItemToPending item = (case item of None \<Rightarrow> Inl NilItem
   | Some it \<Rightarrow>
       if item_Status it \<noteq> ItemStatusDispatched then Inl (ItemStatusRefused (item_Status it))
       else Inr ((setItemStatus it ItemStatusPending)\<lparr>item_RunID := None\<rparr>))"

definition ReconcileItemToCompleted :: "Item option \<Rightarrow> QueueOpError + Item" where
  [status_ops]: "ReconcileItemToCompleted item = (case item of None \<Rightarrow> Inl NilItem
   | Some it \<Rightarrow> (case item_Status it of
         ItemStatusPending \<Rightarrow> Inr (setItemStatus it ItemStatusCompleted)
       | ItemStatusDispatched \<Rightarrow> Inr (setItemStatus it ItemStatusCompleted)
       | ItemStatusDeferredForLedgerDep \<Rightarrow> Inr (setItemStatus it ItemStatusCompleted)
       | st \<Rightarrow> Inl (ItemStatusRefused st)))"

definition CompleteItem :: "Item option \<Rightarrow> GroupCompletionOutcome \<Rightarrow> QueueOpError + Item" where
  [status_ops]: "CompleteItem item outcome = (case item of None \<Rightarrow> Inl NilItem
   | Some it \<Rightarrow> (case outcome of
         GroupCompletionOutcomeCompleted \<Rightarrow> Inr (setItemStatus it ItemStatusCompleted)
       | GroupCompletionOutcomeFailed \<Rightarrow> Inr (setItemStatus it ItemStatusFailed)
       | GroupCompletionOutcomeOther _ \<Rightarrow> Inl (InvalidOutcome outcome)))"

definition ReactivateFailedItem :: "Item option \<Rightarrow> QueueOpError + Item" where
  [status_ops]: "ReactivateFailedItem item = (case item of None \<Rightarrow> Inl NilItem
   | Some it \<Rightarrow>
       if item_Status it \<noteq> ItemStatusFailed then Inl (ItemStatusRefused (item_Status it))
       else Inr ((setItemStatus it ItemStatusPending)\<lparr>item_Attempts := 0,
              item_LastFailureReason := [], item_RunID := None, item_PreclaimTerminal := None\<rparr>))"

definition ReactivateFailedGroup :: "Group option \<Rightarrow> QueueOpError + Group" where
  [status_ops]: "ReactivateFailedGroup grp = (case grp of None \<Rightarrow> Inl NilGroup
   | Some g \<Rightarrow>
       if group_Status g \<noteq> GroupStatusCompleteWithFailures
       then Inl (GroupStatusRefused (group_Status g))
       else Inr ((setGroupStatus g GroupStatusActive)\<lparr>group_CompletedAt := None\<rparr>))"

definition ResumeQueueFromFailure :: "Queue option \<Rightarrow> QueueOpError + Queue" where
  [status_ops]: "ResumeQueueFromFailure queue = (case queue of None \<Rightarrow> Inl NilQueue
   | Some q \<Rightarrow>
       if queue_Status q \<noteq> QueueStatusPausedByFailure
       then Inl (QueueStatusRefused (queue_Status q))
       else Inr (setQueueStatus q QueueStatusActive))"

text \<open>The loop of \<^verbatim>\<open>PauseQueueForFailure\<close>: refuse the first non-terminal group, remember a failure.\<close>

fun scanFailedGroups :: "Group list \<Rightarrow> bool \<Rightarrow> QueueOpError + bool" where
  "scanFailedGroups [] failed = Inr failed"
| "scanFailedGroups (g # gs) failed =
     (if \<not> groupIsTerminal (group_Status g) then Inl (GroupNotTerminal (group_GroupIndex g))
      else scanFailedGroups gs
             (if group_Status g = GroupStatusCompleteWithFailures then True else failed))"

definition PauseQueueForFailure :: "Queue option \<Rightarrow> QueueOpError + Queue" where
  [status_ops]: "PauseQueueForFailure queue = (case queue of None \<Rightarrow> Inl NilQueue
   | Some q \<Rightarrow>
       if queue_Status q \<noteq> QueueStatusActive then Inl (QueueStatusRefused (queue_Status q))
       else if queue_Groups q = [] then Inl QueueHasNoGroups
       else (case scanFailedGroups (queue_Groups q) False of
           Inl e \<Rightarrow> Inl e
         | Inr failed \<Rightarrow> if \<not> failed then Inl NoGroupFailed
                       else Inr (setQueueStatus q QueueStatusPausedByFailure)))"

definition PauseQueueForGroupFailure :: "Queue option \<Rightarrow> int \<Rightarrow> QueueOpError + Queue" where
  [status_ops]: "PauseQueueForGroupFailure queue groupIndex = (case queue of None \<Rightarrow> Inl NilQueue
   | Some q \<Rightarrow>
       if \<not> queueAcceptsItemCompletion (queue_Status q)
       then Inl (QueueStatusRefused (queue_Status q))
       else if list_ex (\<lambda>g. group_GroupIndex g = groupIndex
                 \<and> group_Status g = GroupStatusCompleteWithFailures) (queue_Groups q)
       then Inr ((setQueueStatus q QueueStatusPausedByFailure)\<lparr>queue_ResumeOnStart := False\<rparr>)
       else Inl (GroupNotCompleteWithFailures groupIndex))"

definition PauseQueueForDrain :: "Queue option \<Rightarrow> QueueOpError + Queue" where
  [status_ops]: "PauseQueueForDrain queue = (case queue of None \<Rightarrow> Inl NilQueue
   | Some q \<Rightarrow>
       if queue_Status q \<noteq> QueueStatusActive then Inl (QueueStatusRefused (queue_Status q))
       else Inr ((setQueueStatus q QueueStatusPausedByDrain)\<lparr>queue_ResumeOnStart := False\<rparr>))"

definition PauseQueueForRestart :: "Queue option \<Rightarrow> QueueOpError + Queue" where
  [status_ops]: "PauseQueueForRestart queue = (case queue of None \<Rightarrow> Inl NilQueue
   | Some q \<Rightarrow>
       if queue_Status q \<noteq> QueueStatusActive then Inl (QueueStatusRefused (queue_Status q))
       else Inr ((setQueueStatus q QueueStatusPausedByDrain)\<lparr>queue_ResumeOnStart := True\<rparr>))"

definition ResumeQueueFromDrain :: "Queue option \<Rightarrow> QueueOpError + Queue" where
  [status_ops]: "ResumeQueueFromDrain queue = (case queue of None \<Rightarrow> Inl NilQueue
   | Some q \<Rightarrow>
       if queue_Status q \<noteq> QueueStatusPausedByDrain
       then Inl (QueueStatusRefused (queue_Status q))
       else Inr ((setQueueStatus q QueueStatusActive)\<lparr>queue_ResumeOnStart := False\<rparr>))"

definition CompleteQueue :: "Queue option \<Rightarrow> QueueOpError + Queue" where
  [status_ops]: "CompleteQueue queue = (case queue of None \<Rightarrow> Inl NilQueue
   | Some q \<Rightarrow>
       if \<not> queueAcceptsItemCompletion (queue_Status q) \<and> queue_Status q \<noteq> QueueStatusCompleted
       then Inl (QueueStatusRefused (queue_Status q))
       else if queue_Groups q = [] then Inl QueueHasNoGroups
       else (case find (\<lambda>g. group_Status g \<noteq> GroupStatusCompleteSuccess) (queue_Groups q) of
           Some g \<Rightarrow> Inl (GroupNotSuccessful (group_GroupIndex g) (group_Status g))
         | None \<Rightarrow>
             if queue_Status q \<noteq> QueueStatusCompleted
             then Inr ((setQueueStatus q QueueStatusCompleted)\<lparr>queue_ResumeOnStart := False\<rparr>)
             else Inr q))"

definition InstallCommittedQueueStatus ::
    "Queue option \<Rightarrow> Queue option \<Rightarrow> QueueOpError + Queue" where
  [status_ops]: "InstallCommittedQueueStatus destination candidate =
     (case (destination, candidate) of
        (Some d, Some c) \<Rightarrow> Inr (setQueueStatus d (queue_Status c))
      | _ \<Rightarrow> Inl NilQueue)"

definition CompleteActiveGroup :: "Group option \<Rightarrow> go_time \<Rightarrow> QueueOpError + Group" where
  [status_ops]: "CompleteActiveGroup grp completedAt = (case grp of None \<Rightarrow> Inl NilGroup
   | Some g \<Rightarrow>
       if group_Status g \<noteq> GroupStatusActive then Inl (GroupStatusRefused (group_Status g))
       else if \<not> allItemsTerminal g then Inl ItemsNotTerminal
       else (let g' = (if snd (countOutcomes g) = 0
                       then setGroupStatus g GroupStatusCompleteSuccess
                       else setGroupStatus g GroupStatusCompleteWithFailures)
             in Inr (g'\<lparr>group_CompletedAt := Some completedAt\<rparr>)))"

definition ActivatePendingGroup :: "Group option \<Rightarrow> go_time \<Rightarrow> QueueOpError + Group" where
  [status_ops]: "ActivatePendingGroup grp startedAt = (case grp of None \<Rightarrow> Inl NilGroup
   | Some g \<Rightarrow>
       if group_Status g \<noteq> GroupStatusPending then Inl (GroupStatusRefused (group_Status g))
       else Inr ((setGroupStatus g GroupStatusActive)\<lparr>group_StartedAt := Some startedAt\<rparr>))"

section \<open>Recovery from failure\<close>

text \<open>
  \<open>RearmFailedItems\<close> and \<open>ResumeFromFailure\<close> of \<^verbatim>\<open>resume.go\<close>. The loop over the items skips an
  item whose reactivation reports an error, as the Go loop continues.
\<close>

fun rearmItems :: "Item list \<Rightarrow> Item list \<times> BeadID list" where
  "rearmItems [] = ([], [])"
| "rearmItems (it # its) =
     (let (its', ids) = rearmItems its in
      if item_Status it \<noteq> ItemStatusFailed then (it # its', ids)
      else (case ReactivateFailedItem (Some it) of
              Inl _ \<Rightarrow> (it # its', ids)
            | Inr it' \<Rightarrow> (it' # its', item_BeadID it' # ids)))"

definition rearmGroup :: "Group \<Rightarrow> Group \<times> BeadID list" where
  "rearmGroup g =
     (if length (filter (\<lambda>it. item_Status it = ItemStatusFailed) (group_Items g)) = 0
      then (g, [])
      else (let (its, ids) = rearmItems (group_Items g) in (g\<lparr>group_Items := its\<rparr>, ids)))"

definition RearmFailedItems :: "Group option \<Rightarrow> Group option \<times> BeadID list" where
  "RearmFailedItems grp = (case grp of None \<Rightarrow> (None, [])
   | Some g \<Rightarrow> (let (g', ids) = rearmGroup g in (Some g', ids)))"

text \<open>
  One iteration of the group loop. The flag is false for the early \<^verbatim>\<open>return nil, false\<close>, which
  leaves the groups mutated so far as they are.
\<close>

definition resumeGroup :: "Group \<Rightarrow> Group \<times> BeadID list \<times> bool" where
  "resumeGroup g = (let (g', ids) = rearmGroup g in
     if group_Status g' = GroupStatusCompleteWithFailures
     then (case ReactivateFailedGroup (Some g') of
             Inl _ \<Rightarrow> (g', ids, False) | Inr g'' \<Rightarrow> (g'', ids, True))
     else (g', ids, True))"

fun resumeGroups :: "Group list \<Rightarrow> Group list \<times> BeadID list \<times> bool" where
  "resumeGroups [] = ([], [], True)"
| "resumeGroups (g # gs) = (let (g', ids, ok) = resumeGroup g in
     if \<not> ok then (g' # gs, ids, False)
     else (let (gs', ids', ok') = resumeGroups gs in (g' # gs', ids @ ids', ok')))"

definition ResumeFromFailure :: "Queue option \<Rightarrow> Queue option \<times> BeadID list \<times> bool" where
  "ResumeFromFailure queue = (case queue of None \<Rightarrow> (None, [], False)
   | Some q \<Rightarrow>
       if queue_Status q \<noteq> QueueStatusPausedByFailure then (Some q, [], False)
       else (let (gs, ids, ok) = resumeGroups (queue_Groups q); q' = q\<lparr>queue_Groups := gs\<rparr> in
         if \<not> ok then (Some q', [], False)
         else (case ResumeQueueFromFailure (Some q') of
             Inl _ \<Rightarrow> (Some q', [], False)
           | Inr q'' \<Rightarrow> (Some q'', ids, True))))"

section \<open>Preclaim-terminal bindings\<close>

text \<open>
  \<open>uuid_v7\<close> stands for "the google/uuid parser accepts the string, the version is 7 and the
  canonical form is the string itself" (\<^verbatim>\<open>validatePreclaimUUIDv7\<close>, \<^verbatim>\<open>validateUUIDv7\<close>).
\<close>

datatype PreclaimError =
    PreclaimRunIDNotUUIDv7 | PreclaimClaimIDNotUUIDv7 | PreclaimCauseInvalid PreclaimTerminalCause
  | PreclaimItemNotFailed | PreclaimRunIDMismatch | PreclaimRunIDNotNil

definition validatePreclaimBinding ::
    "(string \<Rightarrow> bool) \<Rightarrow> PreclaimTerminalBinding \<Rightarrow> PreclaimError option" where
  "validatePreclaimBinding uuid_v7 b =
     (if \<not> uuid_v7 (pt_RunID b) then Some PreclaimRunIDNotUUIDv7
      else if \<not> uuid_v7 (pt_ClaimTransitionID b) then Some PreclaimClaimIDNotUUIDv7
      else (case pt_Cause b of
          PreclaimTerminalMaxAttempts \<Rightarrow> None
        | PreclaimTerminalCrossQueue \<Rightarrow> None
        | PreclaimTerminalDependencyRefusal \<Rightarrow> None
        | PreclaimTerminalCauseOther s \<Rightarrow> Some (PreclaimCauseInvalid (pt_Cause b))))"

definition validatePreclaimTerminalItem ::
    "(string \<Rightarrow> bool) \<Rightarrow> Item \<Rightarrow> PreclaimError option" where
  "validatePreclaimTerminalItem uuid_v7 it = (case item_PreclaimTerminal it of
     None \<Rightarrow> None
   | Some b \<Rightarrow> (case validatePreclaimBinding uuid_v7 b of
       Some e \<Rightarrow> Some e
     | None \<Rightarrow>
         if item_Status it \<noteq> ItemStatusFailed then Some PreclaimItemNotFailed
         else (case pt_Cause b of
             PreclaimTerminalDependencyRefusal \<Rightarrow>
               (if item_RunID it \<noteq> Some (pt_RunID b) then Some PreclaimRunIDMismatch else None)
           | PreclaimTerminalMaxAttempts \<Rightarrow>
               (if item_RunID it \<noteq> None then Some PreclaimRunIDNotNil else None)
           | PreclaimTerminalCrossQueue \<Rightarrow>
               (if item_RunID it \<noteq> None then Some PreclaimRunIDNotNil else None)
           | PreclaimTerminalCauseOther _ \<Rightarrow> None)))"

fun firstPreclaimError ::
    "(string \<Rightarrow> bool) \<Rightarrow> nat \<Rightarrow> Item list \<Rightarrow> (nat \<times> PreclaimError) option" where
  "firstPreclaimError uuid_v7 i [] = None"
| "firstPreclaimError uuid_v7 i (it # its) = (case validatePreclaimTerminalItem uuid_v7 it of
     Some e \<Rightarrow> Some (i, e) | None \<Rightarrow> firstPreclaimError uuid_v7 (Suc i) its)"

fun validatePreclaimGroups ::
    "(string \<Rightarrow> bool) \<Rightarrow> nat \<Rightarrow> Group list \<Rightarrow> (nat \<times> nat \<times> PreclaimError) option" where
  "validatePreclaimGroups uuid_v7 gi [] = None"
| "validatePreclaimGroups uuid_v7 gi (g # gs) =
     (case firstPreclaimError uuid_v7 0 (group_Items g) of
        Some (i, e) \<Rightarrow> Some (gi, i, e)
      | None \<Rightarrow> validatePreclaimGroups uuid_v7 (Suc gi) gs)"

datatype UnmarshalError =
    UnmarshalJSON string | ErrSchemaVersion int | UnmarshalPreclaim nat nat PreclaimError

text \<open>
  \<open>UnmarshalQueue\<close> after the JSON decoder: \<open>decode\<close> is \<^verbatim>\<open>json.Unmarshal\<close> into the struct.
\<close>

definition UnmarshalQueue ::
    "(string \<Rightarrow> bool) \<Rightarrow> (string \<Rightarrow> string + Queue) \<Rightarrow> string \<Rightarrow> UnmarshalError + Queue" where
  "UnmarshalQueue uuid_v7 decode data = (case decode data of
     Inl e \<Rightarrow> Inl (UnmarshalJSON e)
   | Inr q \<Rightarrow>
       if queue_SchemaVersion q \<noteq> schemaVersion then Inl (ErrSchemaVersion (queue_SchemaVersion q))
       else (case validatePreclaimGroups uuid_v7 0 (queue_Groups q) of
           Some (gi, i, e) \<Rightarrow> Inl (UnmarshalPreclaim gi i e)
         | None \<Rightarrow> Inr q))"

section \<open>Queue-level transitions as a step relation\<close>

text \<open>
  Two status writes outside the queue package: the daemon's spend meter pauses an active queue
  whose budget is spent and, on the first accrual of a new day, makes every queue so paused
  active again. Both check the status under the store's lock and write nothing else.
\<close>

definition pauseQueueByBudget :: "Queue \<Rightarrow> Queue" where
  "pauseQueueByBudget q =
     (if queue_Status q \<noteq> QueueStatusActive then q
      else q\<lparr>queue_Status := QueueStatusPausedByBudget\<rparr>)"

definition unpauseBudgetPausedQueue :: "Queue \<Rightarrow> Queue" where
  "unpauseBudgetPausedQueue q =
     (if queue_Status q \<noteq> QueueStatusPausedByBudget then q
      else q\<lparr>queue_Status := QueueStatusActive\<rparr>)"

text \<open>
  The placeholder queue a crew start writes when its queue has no file: it is born completed.
\<close>

definition ensureQueue_minimal :: "string \<Rightarrow> Queue" where
  "ensureQueue_minimal name = zeroQueue\<lparr>queue_SchemaVersion := 1, queue_Name := name,
     queue_Workers := 1, queue_Status := QueueStatusCompleted\<rparr>"

text \<open>
  Every way the program changes a queue's status, with one rule per operation.
  \<open>install_committed\<close> is the live queue of \<^verbatim>\<open>CompleteAndUnlinkResult\<close>: its clone was completed and
  written, and \<open>InstallCommittedQueueStatus\<close> copies the clone's status, and only that, back.
  Between two status changes everything but the status and the resume bit may change in any
  way (rule \<open>edit\<close>).
\<close>

inductive queue_transition :: "Queue \<Rightarrow> Queue \<Rightarrow> bool" where
  resume_failure: "ResumeQueueFromFailure (Some q) = Inr q' \<Longrightarrow> queue_transition q q'"
| pause_failure: "PauseQueueForFailure (Some q) = Inr q' \<Longrightarrow> queue_transition q q'"
| pause_group_failure: "PauseQueueForGroupFailure (Some q) i = Inr q' \<Longrightarrow> queue_transition q q'"
| pause_drain: "PauseQueueForDrain (Some q) = Inr q' \<Longrightarrow> queue_transition q q'"
| pause_restart: "PauseQueueForRestart (Some q) = Inr q' \<Longrightarrow> queue_transition q q'"
| resume_drain: "ResumeQueueFromDrain (Some q) = Inr q' \<Longrightarrow> queue_transition q q'"
| complete: "CompleteQueue (Some q) = Inr q' \<Longrightarrow> queue_transition q q'"
| install_committed: "CompleteQueue (CloneQueue (Some q)) = Inr c \<Longrightarrow>
    InstallCommittedQueueStatus (Some q) (Some c) = Inr q' \<Longrightarrow> queue_transition q q'"
| budget_pause: "queue_transition q (pauseQueueByBudget q)"
| budget_resume: "queue_transition q (unpauseBudgetPausedQueue q)"
| edit: "queue_Status q' = queue_Status q \<Longrightarrow> queue_ResumeOnStart q' = queue_ResumeOnStart q \<Longrightarrow>
    queue_transition q q'"

inductive queue_reachable :: "Queue \<Rightarrow> bool" where
  submitted: "\<not> queue_ResumeOnStart q \<Longrightarrow> queue_reachable (NewActiveQueue q)"
| crew_start: "queue_reachable (ensureQueue_minimal name)"
| step: "queue_reachable q \<Longrightarrow> queue_transition q q' \<Longrightarrow> queue_reachable q'"

text \<open>
  The mark of a restart drain belongs to a queue paused by drain. The one exception is a live
  queue that was completed out of such a pause: its status is new, its mark is not. \<open>l\<close> is that
  queue, as the completion of \<open>d\<close> leaves it.
\<close>

definition completion_leaves :: "Queue \<Rightarrow> Queue \<Rightarrow> bool" where
  "completion_leaves d l \<longleftrightarrow> (\<exists>c. CompleteQueue (CloneQueue (Some d)) = Inr c
     \<and> \<not> queue_ResumeOnStart c \<and> InstallCommittedQueueStatus (Some d) (Some c) = Inr l)"

definition completed_out_of_drain :: "Queue \<Rightarrow> bool" where
  "completed_out_of_drain q \<longleftrightarrow> (\<exists>d l. queue_reachable d \<and> queue_ResumeOnStart d
     \<and> queue_Status d = QueueStatusPausedByDrain \<and> completion_leaves d l \<and> queue_transition\<^sup>*\<^sup>* l q)"

section \<open>Lemmas on copies and counts\<close>

lemma clonePointer_id [simp]: "clonePointer v = v"
  by (cases v) (auto simp: clonePointer_def)

lemma cloneQueueItem_id [simp]: "cloneQueueItem it = it"
  by (simp add: cloneQueueItem_def)

lemma cloneQueueGroup_id [simp]: "cloneQueueGroup g = g"
  by (simp add: cloneQueueGroup_def map_idI)

lemma CloneQueue_id [simp]: "CloneQueue q = q"
  by (cases q) (auto simp: CloneQueue_def map_idI)

lemma allItemsTerminal_from_iff:
  "allItemsTerminal_from its \<longleftrightarrow> (\<forall>it \<in> set its. itemIsTerminal (item_Status it))"
  by (induction its) auto

lemma allItemsTerminal_iff:
  "allItemsTerminal g \<longleftrightarrow> (\<forall>it \<in> set (group_Items g). itemIsTerminal (item_Status it))"
  by (simp add: allItemsTerminal_def allItemsTerminal_from_iff)

lemma countOutcomes_from_eq:
  "countOutcomes_from its (s, f) =
     (s + int (length (filter (\<lambda>it. item_Status it = ItemStatusCompleted) its)),
      f + int (length (filter (\<lambda>it. item_Status it = ItemStatusFailed) its)))"
  by (induction its arbitrary: s f) (auto split: ItemStatus.splits)

lemma countOutcomes_eq:
  "countOutcomes g =
     (int (length (filter (\<lambda>it. item_Status it = ItemStatusCompleted) (group_Items g))),
      int (length (filter (\<lambda>it. item_Status it = ItemStatusFailed) (group_Items g))))"
  by (simp add: countOutcomes_def countOutcomes_from_eq)

lemma no_failures_iff:
  "snd (countOutcomes g) = 0 \<longleftrightarrow> (\<forall>it \<in> set (group_Items g). item_Status it \<noteq> ItemStatusFailed)"
  by (simp add: countOutcomes_eq filter_empty_conv)

lemma outcomes_total:
  "allItemsTerminal g \<Longrightarrow> fst (countOutcomes g) + snd (countOutcomes g) = int (length (group_Items g))"
proof -
  have "\<forall>it \<in> set its. itemIsTerminal (item_Status it) \<Longrightarrow>
      length (filter (\<lambda>it. item_Status it = ItemStatusCompleted) its)
      + length (filter (\<lambda>it. item_Status it = ItemStatusFailed) its) = length its" for its
    by (induction its) (auto simp: itemIsTerminal_def)
  then show "allItemsTerminal g \<Longrightarrow> ?thesis"
    unfolding countOutcomes_eq allItemsTerminal_iff by (simp flip: of_nat_add)
qed

section \<open>The guarded-transition contract, discharged for each operation\<close>

interpretation defer_item: guarded_transition
  "\<lambda>it. DeferItemForLedgerDependency (Some it)" item_Status
  "\<lambda>s. s = ItemStatusPending" ItemStatusDeferredForLedgerDep
  by unfold_locales (auto simp: status_ops split: if_splits)

interpretation resolve_item: guarded_transition
  "\<lambda>it. ResolveDeferredItem (Some it)" item_Status
  "\<lambda>s. s = ItemStatusDeferredForLedgerDep" ItemStatusPending
  by unfold_locales (auto simp: status_ops split: if_splits)

interpretation fail_item: guarded_transition
  "\<lambda>it. FailDeferredItem (Some it) blocker" item_Status
  "\<lambda>s. s = ItemStatusDeferredForLedgerDep" ItemStatusFailed
  by unfold_locales (auto simp: status_ops split: if_splits)

interpretation recover_item: guarded_transition
  "\<lambda>it. RecoverDispatchedItemToPending (Some it)" item_Status
  "\<lambda>s. s = ItemStatusDispatched" ItemStatusPending
  by unfold_locales (auto simp: status_ops split: if_splits)

interpretation reconcile_item: guarded_transition
  "\<lambda>it. ReconcileItemToCompleted (Some it)" item_Status
  "\<lambda>s. s \<in> {ItemStatusPending, ItemStatusDispatched, ItemStatusDeferredForLedgerDep}"
  ItemStatusCompleted
  by unfold_locales (auto simp: status_ops split: ItemStatus.splits)

interpretation reactivate_item: guarded_transition
  "\<lambda>it. ReactivateFailedItem (Some it)" item_Status
  "\<lambda>s. s = ItemStatusFailed" ItemStatusPending
  by unfold_locales (auto simp: status_ops split: if_splits)

interpretation reactivate_group: guarded_transition
  "\<lambda>g. ReactivateFailedGroup (Some g)" group_Status
  "\<lambda>s. s = GroupStatusCompleteWithFailures" GroupStatusActive
  by unfold_locales (auto simp: status_ops split: if_splits)

interpretation activate_group: guarded_transition
  "\<lambda>g. ActivatePendingGroup (Some g) t" group_Status
  "\<lambda>s. s = GroupStatusPending" GroupStatusActive
  by unfold_locales (auto simp: status_ops split: if_splits)

interpretation resume_failed_queue: guarded_transition
  "\<lambda>q. ResumeQueueFromFailure (Some q)" queue_Status
  "\<lambda>s. s = QueueStatusPausedByFailure" QueueStatusActive
  by unfold_locales (auto simp: status_ops split: if_splits)

interpretation pause_failed_queue: guarded_transition
  "\<lambda>q. PauseQueueForFailure (Some q)" queue_Status
  "\<lambda>s. s = QueueStatusActive" QueueStatusPausedByFailure
  by unfold_locales (auto simp: status_ops split: if_splits sum.splits)

interpretation pause_group_failed_queue: guarded_transition
  "\<lambda>q. PauseQueueForGroupFailure (Some q) i" queue_Status
  queueAcceptsItemCompletion QueueStatusPausedByFailure
  by unfold_locales (auto simp: status_ops split: if_splits)

interpretation drain_queue: guarded_transition
  "\<lambda>q. PauseQueueForDrain (Some q)" queue_Status
  "\<lambda>s. s = QueueStatusActive" QueueStatusPausedByDrain
  by unfold_locales (auto simp: status_ops split: if_splits)

interpretation restart_queue: guarded_transition
  "\<lambda>q. PauseQueueForRestart (Some q)" queue_Status
  "\<lambda>s. s = QueueStatusActive" QueueStatusPausedByDrain
  by unfold_locales (auto simp: status_ops split: if_splits)

interpretation resume_drained_queue: guarded_transition
  "\<lambda>q. ResumeQueueFromDrain (Some q)" queue_Status
  "\<lambda>s. s = QueueStatusPausedByDrain" QueueStatusActive
  by unfold_locales (auto simp: status_ops split: if_splits)

interpretation complete_queue: guarded_transition
  "\<lambda>q. CompleteQueue (Some q)" queue_Status
  "\<lambda>s. queueAcceptsItemCompletion s \<or> s = QueueStatusCompleted" QueueStatusCompleted
  by unfold_locales (auto simp: status_ops split: if_splits option.splits)

section \<open>The queue-level state machine\<close>

lemma resume_bit_step:
  "queue_transition q q' \<Longrightarrow> queue_ResumeOnStart q' \<Longrightarrow>
     queue_Status q' = QueueStatusPausedByDrain
   \<or> queue_ResumeOnStart q \<and> queue_Status q \<notin> {QueueStatusPausedByDrain, QueueStatusCompleted}
   \<or> queue_ResumeOnStart q \<and> queue_Status q = QueueStatusCompleted \<and> queue_Status q' = QueueStatusCompleted
   \<or> queue_ResumeOnStart q \<and> queue_Status q = QueueStatusPausedByDrain \<and> queue_Status q' = QueueStatusCompleted
     \<and> completion_leaves q q'"
proof (induction rule: queue_transition.induct)
  case (install_committed q c q')
  note fin = install_committed(1) [unfolded CloneQueue_id]
  have q': "q' = q\<lparr>queue_Status := QueueStatusCompleted\<rparr>"
    using install_committed(2) complete_queue.reaches [OF fin]
    by (simp add: InstallCommittedQueueStatus_def setQueueStatus_def)
  have c: "\<not> queue_ResumeOnStart c" if "queue_Status q = QueueStatusPausedByDrain"
    using fin that by (auto simp: status_ops split: if_splits option.splits)
  show ?case
  proof (cases "queue_Status q = QueueStatusPausedByDrain")
    case True
    with install_committed c show ?thesis unfolding completion_leaves_def by (simp add: q')
  qed (use install_committed(3) in \<open>simp add: q'\<close>)
qed (auto simp: status_ops pauseQueueByBudget_def unpauseBudgetPausedQueue_def
      split: if_splits sum.splits option.splits)

lemma resume_bit_reachable:
  "queue_reachable q \<Longrightarrow> queue_ResumeOnStart q \<Longrightarrow> queue_Status q = QueueStatusPausedByDrain
     \<or> queue_Status q = QueueStatusCompleted \<and> completed_out_of_drain q"
proof (induction rule: queue_reachable.induct)
  case (submitted q)
  then show ?case by (simp add: status_ops)
next
  case (crew_start name)
  then show ?case by (simp add: ensureQueue_minimal_def zeroQueue_def)
next
  case (step q q')
  from resume_bit_step [OF step(2) step(4)] step(3) show ?case
  proof (elim disjE conjE)
    assume "queue_Status q = QueueStatusPausedByDrain" "queue_ResumeOnStart q"
      "completion_leaves q q'" "queue_Status q' = QueueStatusCompleted"
    with step(1) show ?thesis unfolding completed_out_of_drain_def by blast
  next
    assume a: "queue_ResumeOnStart q" "queue_Status q = QueueStatusCompleted" "queue_Status q' = QueueStatusCompleted"
    with step(3) have "completed_out_of_drain q" by simp
    with step(2) have "completed_out_of_drain q'"
      unfolding completed_out_of_drain_def by (meson rtranclp.rtrancl_into_rtrancl)
    with a show ?thesis by simp
  qed auto
qed

text \<open>
  C21. The durable resume bit lets a daemon start resume a queue without asking. A reachable queue
  that carries it is paused by drain, with one exception the code leaves: a live queue that was
  completed out of a restart drain keeps the bit next to its completed status, because only the
  status of the written clone, which has cleared it, is copied back. The theorem pins the
  exception to a queue reached from that very completion. So a queue that failed while draining,
  an operator's drain, a budget pause and every active queue do not carry the bit, and the only
  step that sets it is the restart drain.
\<close>

theorem resume_bit_only_on_drain:
  assumes "queue_reachable q" and "queue_ResumeOnStart q"
  shows "(queue_Status q = QueueStatusPausedByDrain
      \<or> queue_Status q = QueueStatusCompleted \<and> completed_out_of_drain q)
    \<and> (\<forall>p. queue_transition p q \<and> \<not> queue_ResumeOnStart p \<longrightarrow> PauseQueueForRestart (Some p) = Inr q)"
proof -
  have "PauseQueueForRestart (Some p) = Inr q" if "queue_transition p q" "\<not> queue_ResumeOnStart p" for p
    using that assms(2)
    by (induction rule: queue_transition.induct)
       (auto simp: status_ops pauseQueueByBudget_def unpauseBudgetPausedQueue_def
          split: if_splits sum.splits option.splits)
  with resume_bit_reachable [OF assms] show ?thesis by blast
qed

lemma restart_of_new_queue:
  "PauseQueueForRestart (Some (NewActiveQueue zeroQueue)) =
   Inr (zeroQueue\<lparr>queue_Status := QueueStatusPausedByDrain, queue_ResumeOnStart := True\<rparr>)"
  by (simp add: status_ops)

theorem resume_bit_only_on_drain_witness:
  "\<exists>q. queue_reachable q \<and> queue_ResumeOnStart q \<and> queue_Status q = QueueStatusPausedByDrain"
proof -
  let ?q = "zeroQueue\<lparr>queue_Status := QueueStatusPausedByDrain, queue_ResumeOnStart := True\<rparr>"
  have r: "queue_reachable ?q"
    by (rule queue_reachable.step [OF queue_reachable.submitted
          queue_transition.pause_restart [OF restart_of_new_queue]])
       (simp add: zeroQueue_def)
  have b: "queue_ResumeOnStart ?q" by simp
  show ?thesis using r b resume_bit_only_on_drain [OF r b] by auto
qed

text \<open>The exception happens: a restart drain of a queue whose groups are all done, completed live.\<close>

lemma live_completion_keeps_bit:
  "\<exists>q. queue_reachable q \<and> queue_ResumeOnStart q \<and> queue_Status q = QueueStatusCompleted"
proof -
  let ?g = "zeroGroup\<lparr>group_Status := GroupStatusCompleteSuccess\<rparr>"
  let ?a = "(NewActiveQueue zeroQueue)\<lparr>queue_Groups := [?g]\<rparr>"
  let ?d = "?a\<lparr>queue_Status := QueueStatusPausedByDrain, queue_ResumeOnStart := True\<rparr>"
  let ?l = "?d\<lparr>queue_Status := QueueStatusCompleted\<rparr>"
  have "queue_reachable (NewActiveQueue zeroQueue)"
    by (rule queue_reachable.submitted) (simp add: zeroQueue_def)
  moreover have "queue_transition (NewActiveQueue zeroQueue) ?a"
    by (rule queue_transition.edit) simp_all
  moreover have "queue_transition ?a ?d"
    by (rule queue_transition.pause_restart) (simp add: status_ops)
  moreover have "queue_transition ?d ?l"
    by (rule queue_transition.install_committed [where c = "?l\<lparr>queue_ResumeOnStart := False\<rparr>"])
       (simp_all add: status_ops queueAcceptsItemCompletion_def)
  ultimately have "queue_reachable ?l" by (blast intro: queue_reachable.step)
  then show ?thesis by (intro exI [of _ ?l]) simp
qed

text \<open>
  C32. The status graph of a queue: every step of the operations that write a queue's status, the
  budget writes of the daemon's spend meter included, keeps the status or follows one of eleven
  edges. A completed or cancelled queue never changes status again, and no step cancels one. A
  queue paused by failure can only become active, and only through the explicit failure
  recovery. A queue paused for drain is released to active, is overtaken by a failure, or ends in
  completion; a queue paused by budget likewise, and it is entered from active only.
\<close>

theorem queue_status_graph:
  assumes "queue_transition q q'"
  shows "(queue_Status q' = queue_Status q \<or>
    (queue_Status q, queue_Status q') \<in>
      {(QueueStatusPausedByFailure, QueueStatusActive),
       (QueueStatusActive, QueueStatusPausedByFailure),
       (QueueStatusPausedByDrain, QueueStatusPausedByFailure),
       (QueueStatusPausedByBudget, QueueStatusPausedByFailure),
       (QueueStatusActive, QueueStatusPausedByDrain),
       (QueueStatusPausedByDrain, QueueStatusActive),
       (QueueStatusActive, QueueStatusPausedByBudget),
       (QueueStatusPausedByBudget, QueueStatusActive),
       (QueueStatusActive, QueueStatusCompleted),
       (QueueStatusPausedByDrain, QueueStatusCompleted),
       (QueueStatusPausedByBudget, QueueStatusCompleted)})
    \<and> (queue_Status q = QueueStatusPausedByFailure \<and> queue_Status q' \<noteq> QueueStatusPausedByFailure \<longrightarrow>
        ResumeQueueFromFailure (Some q) = Inr q')"
  using assms
proof (induction rule: queue_transition.induct)
  case (install_committed q c q')
  have "queue_Status q' = queue_Status c"
    using install_committed(2) by (auto simp: status_ops)
  then show ?case
    using complete_queue.reaches [OF install_committed(1) [unfolded CloneQueue_id]]
      complete_queue.success_guard [OF install_committed(1) [unfolded CloneQueue_id]]
    by (auto simp: queueAcceptsItemCompletion_def split: QueueStatus.splits)
next
  case (budget_pause q)
  then show ?case by (simp add: pauseQueueByBudget_def)
next
  case (budget_resume q)
  then show ?case by (simp add: unpauseBudgetPausedQueue_def)
qed (auto simp: status_ops queueAcceptsItemCompletion_def
        split: if_splits sum.splits option.splits QueueStatus.splits)

theorem queue_status_graph_witness:
  "queue_transition (NewActiveQueue zeroQueue)
     (zeroQueue\<lparr>queue_Status := QueueStatusPausedByDrain, queue_ResumeOnStart := True\<rparr>)
   \<and> (queue_Status (NewActiveQueue zeroQueue) = QueueStatusPausedByDrain
      \<or> queue_Status (NewActiveQueue zeroQueue) = QueueStatusActive)"
proof -
  have t: "queue_transition (NewActiveQueue zeroQueue)
     (zeroQueue\<lparr>queue_Status := QueueStatusPausedByDrain, queue_ResumeOnStart := True\<rparr>)"
    by (rule queue_transition.pause_restart [OF restart_of_new_queue])
  show ?thesis using t queue_status_graph [OF t] by auto
qed

lemma CompleteQueue_success:
  assumes "CompleteQueue (Some q) = Inr q'"
  shows "queue_Groups q' = queue_Groups q"
    and "queue_Groups q \<noteq> []"
    and "\<forall>g \<in> set (queue_Groups q). group_Status g = GroupStatusCompleteSuccess"
    and "queue_Status q' = QueueStatusCompleted"
  using assms by (auto simp: status_ops find_None_iff split: if_splits option.splits)

text \<open>
  Completing a queue succeeds exactly when its status accepts a completion (or it already
  is completed) and it has at least one group and every group completed successfully; the
  groups are kept, and completing the result again changes nothing.
\<close>

theorem CompleteQueue_spec:
  "((\<exists>q'. CompleteQueue (Some q) = Inr q') \<longleftrightarrow>
     (queueAcceptsItemCompletion (queue_Status q) \<or> queue_Status q = QueueStatusCompleted)
     \<and> queue_Groups q \<noteq> []
     \<and> list_all (\<lambda>g. group_Status g = GroupStatusCompleteSuccess) (queue_Groups q))
   \<and> (\<forall>q'. CompleteQueue (Some q) = Inr q' \<longrightarrow>
        queue_Groups q' = queue_Groups q \<and> queue_Status q' = QueueStatusCompleted
        \<and> CompleteQueue (Some q') = Inr q')"
  by (auto simp: status_ops list_all_iff find_None_iff find_Some_iff
        split: if_splits option.splits)

theorem CompleteQueue_spec_witness:
  "\<exists>q'. CompleteQueue (Some (zeroQueue\<lparr>queue_Status := QueueStatusPausedByDrain,
     queue_Groups := [zeroGroup\<lparr>group_Status := GroupStatusCompleteSuccess\<rparr>]\<rparr>)) = Inr q'
     \<and> CompleteQueue (Some q') = Inr q'"
proof -
  let ?q = "zeroQueue\<lparr>queue_Status := QueueStatusPausedByDrain,
     queue_Groups := [zeroGroup\<lparr>group_Status := GroupStatusCompleteSuccess\<rparr>]\<rparr>"
  have "\<exists>q'. CompleteQueue (Some ?q) = Inr q'"
    by (simp add: status_ops queueAcceptsItemCompletion_def)
  then show ?thesis using CompleteQueue_spec [of ?q] by blast
qed

section \<open>Failure recovery\<close>

definition rearmed :: "Item \<Rightarrow> Item" where
  "rearmed it = (if item_Status it = ItemStatusFailed
     then it\<lparr>item_Status := ItemStatusPending, item_Attempts := 0,
            item_LastFailureReason := [], item_RunID := None, item_PreclaimTerminal := None\<rparr>
     else it)"

definition failedBeads :: "Group \<Rightarrow> BeadID list" where
  "failedBeads g =
     map item_BeadID (filter (\<lambda>it. item_Status it = ItemStatusFailed) (group_Items g))"

lemma rearmItems_eq:
  "rearmItems its = (map rearmed its,
     map item_BeadID (filter (\<lambda>it. item_Status it = ItemStatusFailed) its))"
  by (induction its) (auto simp: rearmed_def status_ops)

lemma rearmed_id_if_no_failure:
  "filter (\<lambda>it. item_Status it = ItemStatusFailed) its = [] \<Longrightarrow> map rearmed its = its"
  by (induction its) (auto simp: rearmed_def split: if_splits)

lemma rearmGroup_eq:
  "rearmGroup g = (g\<lparr>group_Items := map rearmed (group_Items g)\<rparr>, failedBeads g)"
  by (auto simp: rearmGroup_def rearmItems_eq failedBeads_def rearmed_id_if_no_failure)

definition reopened :: "Group \<Rightarrow> Group" where
  "reopened g =
     (let g' = g\<lparr>group_Items := map rearmed (group_Items g)\<rparr> in
      if group_Status g = GroupStatusCompleteWithFailures
      then g'\<lparr>group_Status := GroupStatusActive, group_CompletedAt := None\<rparr> else g')"

lemma resumeGroup_eq: "resumeGroup g = (reopened g, failedBeads g, True)"
  by (simp add: resumeGroup_def rearmGroup_eq reopened_def status_ops)

lemma resumeGroups_eq: "resumeGroups gs = (map reopened gs, concat (map failedBeads gs), True)"
  by (induction gs) (auto simp: resumeGroup_eq)

text \<open>
  C39. Failure recovery. On a queue paused by failure, \<open>ResumeFromFailure\<close> never fails: the queue
  becomes active, every group that was complete-with-failures is active again, every failed item
  is pending with a fresh attempt budget, every other item is untouched, and the reported beads
  are the failed ones in group-then-item order. On any other queue it changes nothing.
\<close>

theorem ResumeFromFailure_spec:
  "ResumeFromFailure (Some q) =
     (if queue_Status q = QueueStatusPausedByFailure
      then (Some (q\<lparr>queue_Groups := map reopened (queue_Groups q),
                    queue_Status := QueueStatusActive\<rparr>),
            concat (map failedBeads (queue_Groups q)), True)
      else (Some q, [], False))"
  by (simp add: ResumeFromFailure_def resumeGroups_eq status_ops)

lemma reopened_no_failures:
  "group_Status (reopened g) \<noteq> GroupStatusCompleteWithFailures
   \<and> (\<forall>it \<in> set (group_Items (reopened g)). item_Status it \<noteq> ItemStatusFailed)"
  by (auto simp: reopened_def rearmed_def Let_def)

end
