(* ===== verification/Queue_State.thy ===== *)
theory Queue_State
  imports Queue_Types
begin

text \<open>
  Group advancement, item eligibility and ledger-dependency deferral
  (\<^verbatim>\<open>internal/queue/state.go\<close>, the event intents of \<^verbatim>\<open>event_intent.go\<close> and the ledger seam of
  \<^verbatim>\<open>validation.go\<close>).

  An \<^verbatim>\<open>EventIntent\<close> is modelled by its typed payload; the payload structs hold strings and
  integers only, so their JSON encoding cannot fail, and timestamps are kept as instants instead
  of their RFC 3339 text. The Beads ledger is an external service: a \<open>BeadLedger\<close> is a record of
  its two answers, taken as fixed for the duration of one call.
\<close>

section \<open>Event intents and the ledger seam\<close>

datatype EventIntent =
    QueueGroupStarted (ev_queue: string) (ev_group: int) (ev_kind: GroupKind)
      (ev_items: int) (ev_at: go_time)
  | QueueGroupCompleted (ev_queue: string) (ev_group: int) (ev_final: GroupStatus)
      (ev_success: int) (ev_fail: int) (ev_at: go_time) (ev_receipt: string)
  | QueuePaused (ev_queue: string) (ev_group: int) (ev_fail: int) (ev_at: go_time)
      (ev_reason: string)
  | QueueAppended (ev_queue: string) (ev_group: int) (ev_beads: "BeadID list") (ev_at: go_time)
  | QueueItemDeferredForLedgerDep (ev_queue: string) (ev_group: int) (ev_bead: BeadID)
      (ev_blocker: BeadID) (ev_at: go_time)

datatype BeadStatus = BeadStatusOpen | BeadStatusInProgress | BeadStatusNotFound
  | BeadStatusOther string

record BeadLedger =
  LookupStatus :: "BeadID \<Rightarrow> string + BeadStatus"
  BlocksEdge :: "BeadID \<Rightarrow> BeadID \<Rightarrow> string + bool"

section \<open>AdvanceGroup\<close>

datatype AdvanceError =
    ErrGroupNil | ErrQueueIDEmpty | ContextErr string | UnrecognisedGroupStatus GroupStatus

definition advancePending ::
    "Group \<Rightarrow> QueueStatus \<Rightarrow> string \<Rightarrow> go_time \<Rightarrow> AdvanceError + (GroupStatus \<times> EventIntent list)" where
  "advancePending g queueStatus queueID now =
     (if queueStatus \<noteq> QueueStatusActive then Inr (GroupStatusPending, [])
      else Inr (GroupStatusActive,
        [QueueGroupStarted queueID (group_GroupIndex g) (group_Kind g)
           (int (length (group_Items g))) now]))"

definition advanceActive ::
    "Group \<Rightarrow> string \<Rightarrow> go_time \<Rightarrow> AdvanceError + (GroupStatus \<times> EventIntent list)" where
  "advanceActive g queueID now =
     (if \<not> allItemsTerminal g then Inr (GroupStatusActive, [])
      else (let (successCount, failCount) = countOutcomes g in
        if failCount = 0
        then Inr (GroupStatusCompleteSuccess,
          [QueueGroupCompleted queueID (group_GroupIndex g) GroupStatusCompleteSuccess
             successCount failCount now []])
        else Inr (GroupStatusCompleteWithFailures,
          [QueueGroupCompleted queueID (group_GroupIndex g) GroupStatusCompleteWithFailures
             successCount failCount now [],
           QueuePaused queueID (group_GroupIndex g) failCount now ''group_failure''])))"

definition AdvanceGroup ::
    "string option \<Rightarrow> Group option \<Rightarrow> QueueStatus \<Rightarrow> string \<Rightarrow> go_time
     \<Rightarrow> AdvanceError + (GroupStatus \<times> EventIntent list)" where
  "AdvanceGroup ctxErr grp queueStatus queueID now = (case grp of
     None \<Rightarrow> Inl ErrGroupNil
   | Some g \<Rightarrow>
       if queueID = [] then Inl ErrQueueIDEmpty
       else (case ctxErr of Some e \<Rightarrow> Inl (ContextErr e)
         | None \<Rightarrow>
             if groupIsTerminal (group_Status g) then Inr (group_Status g, [])
             else (case group_Status g of
                 GroupStatusPending \<Rightarrow> advancePending g queueStatus queueID now
               | GroupStatusActive \<Rightarrow> advanceActive g queueID now
               | st \<Rightarrow> Inl (UnrecognisedGroupStatus st))))"

section \<open>Eligible items\<close>

text \<open>
  The Go functions return pointers into \<^verbatim>\<open>g.Items\<close>; a pointer \<^verbatim>\<open>&g.Items[i]\<close> is modelled by the
  position \<open>i\<close>.
\<close>

definition dispatchable :: "Item \<Rightarrow> bool" where
  "dispatchable it \<longleftrightarrow> item_Status it = ItemStatusPending \<and> item_Attempts it < MaxItemAttempts"

fun waveScan :: "nat \<Rightarrow> Item list \<Rightarrow> nat list" where
  "waveScan i [] = []"
| "waveScan i (it # its) =
     (if item_Status it = ItemStatusPending \<and> item_Attempts it < MaxItemAttempts
      then i # waveScan (Suc i) its else waveScan (Suc i) its)"

definition waveEligible :: "Group \<Rightarrow> nat list" where
  "waveEligible g = waveScan 0 (group_Items g)"

fun lastEligiblePending :: "nat \<Rightarrow> Item list \<Rightarrow> (BeadID \<rightharpoonup> nat) \<Rightarrow> (BeadID \<rightharpoonup> nat)" where
  "lastEligiblePending i [] m = m"
| "lastEligiblePending i (it # its) m = lastEligiblePending (Suc i) its
     (if item_Status it = ItemStatusPending \<and> item_Attempts it < MaxItemAttempts
      then m(item_BeadID it \<mapsto> i) else m)"

fun streamScan :: "(BeadID \<rightharpoonup> nat) \<Rightarrow> nat \<Rightarrow> Item list \<Rightarrow> nat list" where
  "streamScan m i [] = []"
| "streamScan m i (it # its) = (case item_Status it of
     ItemStatusPending \<Rightarrow>
       (if item_Attempts it \<ge> MaxItemAttempts then streamScan m (Suc i) its else [i])
   | ItemStatusDeferredForLedgerDep \<Rightarrow> streamScan m (Suc i) its
   | ItemStatusOther _ \<Rightarrow> streamScan m (Suc i) its
   | _ \<Rightarrow> (case m (item_BeadID it) of
         Some idx \<Rightarrow> if idx > i then [idx] else streamScan m (Suc i) its
       | None \<Rightarrow> streamScan m (Suc i) its))"

definition streamEligible :: "Group \<Rightarrow> nat list" where
  "streamEligible g =
     streamScan (lastEligiblePending 0 (group_Items g) Map.empty) 0 (group_Items g)"

definition EligibleItems :: "Group option \<Rightarrow> nat list" where
  "EligibleItems grp = (case grp of None \<Rightarrow> []
   | Some g \<Rightarrow>
       if group_Status g \<noteq> GroupStatusActive then []
       else (case group_Kind g of
           GroupKindWave \<Rightarrow> waveEligible g
         | GroupKindStream \<Rightarrow> streamEligible g
         | GroupKindOther _ \<Rightarrow> []))"

section \<open>ReevaluateDeferred\<close>

datatype DeferError =
    BlocksEdgeFailed BeadID BeadID string | LookupStatusFailed BeadID string
  | DeferOpFailed QueueOpError

text \<open>The inner loop over the possible blockers of one deferred item, with its two breaks.\<close>

datatype BlockerScan =
    AllResolved | StillBlocked | DependencyFailed BeadID | ScanError DeferError

fun scanBlockers :: "BeadLedger \<Rightarrow> Item list \<Rightarrow> nat \<Rightarrow> nat list \<Rightarrow> BlockerScan" where
  "scanBlockers L its i [] = AllResolved"
| "scanBlockers L its i (j # js) =
     (if j = i then scanBlockers L its i js
      else (let blocker = item_BeadID (its ! j); blocked = item_BeadID (its ! i) in
        case BlocksEdge L blocker blocked of
          Inl e \<Rightarrow> ScanError (BlocksEdgeFailed blocker blocked e)
        | Inr False \<Rightarrow> scanBlockers L its i js
        | Inr True \<Rightarrow>
            if item_Status (its ! j) = ItemStatusFailed then DependencyFailed blocker
            else if item_Status (its ! j) = ItemStatusCompleted then scanBlockers L its i js
            else (case LookupStatus L blocker of
                Inl e \<Rightarrow> ScanError (LookupStatusFailed blocker e)
              | Inr st \<Rightarrow>
                  if st = BeadStatusOpen \<or> st = BeadStatusInProgress then StillBlocked
                  else scanBlockers L its i js)))"

fun reevalFrom ::
    "BeadLedger \<Rightarrow> nat list \<Rightarrow> Item list \<Rightarrow> BeadID list \<Rightarrow> Item list \<times> BeadID list \<times> DeferError option"
where
  "reevalFrom L [] its undeferred = (its, undeferred, None)"
| "reevalFrom L (i # is) its undeferred =
     (if item_Status (its ! i) \<noteq> ItemStatusDeferredForLedgerDep
      then reevalFrom L is its undeferred
      else (case scanBlockers L its i [0..<length its] of
          ScanError e \<Rightarrow> (its, undeferred, Some e)
        | DependencyFailed b \<Rightarrow> (case FailDeferredItem (Some (its ! i)) b of
              Inl e \<Rightarrow> (its, undeferred, Some (DeferOpFailed e))
            | Inr it' \<Rightarrow> reevalFrom L is (its[i := it']) undeferred)
        | StillBlocked \<Rightarrow> reevalFrom L is its undeferred
        | AllResolved \<Rightarrow> (case ResolveDeferredItem (Some (its ! i)) of
              Inl e \<Rightarrow> (its, undeferred, Some (DeferOpFailed e))
            | Inr it' \<Rightarrow>
                reevalFrom L is (its[i := it']) (undeferred @ [item_BeadID (its ! i)]))))"

definition ReevaluateDeferred ::
    "Group option \<Rightarrow> BeadLedger option \<Rightarrow> Group option \<times> BeadID list \<times> DeferError option" where
  "ReevaluateDeferred grp ledger = (case (grp, ledger) of
     (Some g, Some L) \<Rightarrow>
       (let (its, undeferred, err) =
              reevalFrom L [0..<length (group_Items g)] (group_Items g) []
        in (Some (g\<lparr>group_Items := its\<rparr>), undeferred, err))
   | _ \<Rightarrow> (grp, [], None))"

section \<open>FailDeferredDependents\<close>

text \<open>
  The set \<^verbatim>\<open>failed\<close> is a Go map that only gains keys; it is modelled by its keys in order of
  insertion. Ranging over it has no fixed order: \<open>order i failed\<close> is the order in which the
  range at item \<open>i\<close> visits the keys, a parameter with \<open>set (order i failed) = set failed\<close>.
\<close>

fun firstBlocker ::
    "BeadLedger \<Rightarrow> BeadID list \<Rightarrow> BeadID \<Rightarrow> DeferError + BeadID option" where
  "firstBlocker L [] blocked = Inr None"
| "firstBlocker L (b # bs) blocked = (case BlocksEdge L b blocked of
     Inl e \<Rightarrow> Inl (BlocksEdgeFailed b blocked e)
   | Inr False \<Rightarrow> firstBlocker L bs blocked
   | Inr True \<Rightarrow> Inr (Some b))"

record FailScan =
  fs_items :: "Item list"
  fs_failed :: "BeadID list"
  fs_propagated :: "BeadID list"
  fs_changed :: bool

fun failPass ::
    "BeadLedger \<Rightarrow> (nat \<Rightarrow> BeadID list \<Rightarrow> BeadID list) \<Rightarrow> nat list \<Rightarrow> FailScan
     \<Rightarrow> FailScan \<times> DeferError option" where
  "failPass L order [] s = (s, None)"
| "failPass L order (i # is) s =
     (let it = fs_items s ! i in
      if item_Status it \<noteq> ItemStatusDeferredForLedgerDep \<or> item_BeadID it \<in> set (fs_failed s)
      then failPass L order is s
      else (case firstBlocker L (order i (fs_failed s)) (item_BeadID it) of
          Inl e \<Rightarrow> (s, Some e)
        | Inr None \<Rightarrow> failPass L order is s
        | Inr (Some b) \<Rightarrow> (case FailDeferredItem (Some it) b of
              Inl e \<Rightarrow> (s, Some (DeferOpFailed e))
            | Inr it' \<Rightarrow> failPass L order is
                (s\<lparr>fs_items := (fs_items s)[i := it'],
                   fs_failed := fs_failed s @ [item_BeadID it],
                   fs_propagated := fs_propagated s @ [item_BeadID it],
                   fs_changed := True\<rparr>))))"

abbreviation isDeferred :: "Item \<Rightarrow> bool" where
  "isDeferred it \<equiv> item_Status it = ItemStatusDeferredForLedgerDep"

definition deferredCount :: "Item list \<Rightarrow> nat" where
  "deferredCount its = length (filter isDeferred its)"

lemma failPass_length:
  "failPass L order is s = (s', e) \<Longrightarrow> length (fs_items s') = length (fs_items s)"
  by (induction L order "is" s arbitrary: s' e rule: failPass.induct)
     (fastforce simp: Let_def split: if_splits sum.splits option.splits)+

lemma FailDeferredItem_Inr:
  "FailDeferredItem (Some it) b = Inr it' \<Longrightarrow>
     isDeferred it \<and> b \<noteq> [] \<and> it' = it\<lparr>item_Status := ItemStatusFailed,
       item_LastFailureReason := ''dependency_failed:'' @ b\<rparr>"
  by (auto simp: status_ops split: if_splits)

lemma failPass_deferredCount:
  assumes "failPass L order is s = (s', e)" and "\<forall>i \<in> set is. i < length (fs_items s)"
  shows "deferredCount (fs_items s') \<le> deferredCount (fs_items s) \<and>
    (fs_changed s' \<longrightarrow> fs_changed s \<or> deferredCount (fs_items s') < deferredCount (fs_items s))"
  using assms
proof (induction "is" arbitrary: s)
  case Nil
  then show ?case by simp
next
  case (Cons i "is")
  let ?it = "fs_items s ! i"
  show ?case
  proof (cases "isDeferred ?it \<and> item_BeadID ?it \<notin> set (fs_failed s) \<and>
      (\<exists>b it'. firstBlocker L (order i (fs_failed s)) (item_BeadID ?it) = Inr (Some b)
             \<and> FailDeferredItem (Some ?it) b = Inr it')")
    case True
    then obtain b it' where d: "isDeferred ?it" "item_BeadID ?it \<notin> set (fs_failed s)"
      and fb: "firstBlocker L (order i (fs_failed s)) (item_BeadID ?it) = Inr (Some b)"
      and f: "FailDeferredItem (Some ?it) b = Inr it'" by blast
    define t where "t = s\<lparr>fs_items := (fs_items s)[i := it'],
        fs_failed := fs_failed s @ [item_BeadID ?it],
        fs_propagated := fs_propagated s @ [item_BeadID ?it], fs_changed := True\<rparr>"
    have rec: "failPass L order is t = (s', e)"
      using Cons.prems(1) d fb f by (simp add: t_def Let_def)
    have lt: "deferredCount (fs_items t) < deferredCount (fs_items s)"
      unfolding deferredCount_def t_def
      using Cons.prems(2) d FailDeferredItem_Inr [OF f]
      by (simp add: length_filter_update_less)
    have "\<forall>i \<in> set is. i < length (fs_items t)" using Cons.prems(2) by (simp add: t_def)
    from Cons.IH [OF rec this] lt show ?thesis by linarith
  next
    case False
    then have "failPass L order is s = (s', e) \<or> s' = s"
      using Cons.prems(1) by (auto simp: Let_def split: if_splits sum.splits option.splits)
    then show ?thesis using Cons.IH [of s] Cons.prems(2) by auto
  qed
qed

function failLoop ::
    "BeadLedger \<Rightarrow> (nat \<Rightarrow> BeadID list \<Rightarrow> BeadID list) \<Rightarrow> FailScan \<Rightarrow> FailScan \<times> DeferError option"
where
  "failLoop L order s =
     (case failPass L order [0..<length (fs_items s)] (s\<lparr>fs_changed := False\<rparr>) of
        (s', Some e) \<Rightarrow> (s', Some e)
      | (s', None) \<Rightarrow> if fs_changed s' then failLoop L order s' else (s', None))"
  by pat_completeness auto
termination
  by (relation "measure (\<lambda>(L, order, s). deferredCount (fs_items s))")
     (auto dest!: failPass_deferredCount [OF sym])

declare failLoop.simps [simp del]

definition FailDeferredDependents ::
    "(nat \<Rightarrow> BeadID list \<Rightarrow> BeadID list) \<Rightarrow> Group option \<Rightarrow> BeadID \<Rightarrow> BeadLedger option
     \<Rightarrow> Group option \<times> BeadID list \<times> DeferError option" where
  "FailDeferredDependents order grp failedBead ledger = (case (grp, ledger) of
     (Some g, Some L) \<Rightarrow>
       if failedBead = [] then (grp, [], None)
       else (let (s, err) = failLoop L order \<lparr>fs_items = group_Items g, fs_failed = [failedBead],
                    fs_propagated = [], fs_changed = True\<rparr>
             in (Some (g\<lparr>group_Items := fs_items s\<rparr>), fs_propagated s, err))
   | _ \<Rightarrow> (grp, [], None))"

section \<open>Group advancement\<close>

lemma AdvanceGroup_active_eq:
  assumes "group_Status g = GroupStatusActive" and "qid \<noteq> []"
  shows "AdvanceGroup None (Some g) qs qid now =
    (if \<not> allItemsTerminal g then Inr (GroupStatusActive, [])
     else if snd (countOutcomes g) = 0
     then Inr (GroupStatusCompleteSuccess,
       [QueueGroupCompleted qid (group_GroupIndex g) GroupStatusCompleteSuccess
          (fst (countOutcomes g)) 0 now []])
     else Inr (GroupStatusCompleteWithFailures,
       [QueueGroupCompleted qid (group_GroupIndex g) GroupStatusCompleteWithFailures
          (fst (countOutcomes g)) (snd (countOutcomes g)) now [],
        QueuePaused qid (group_GroupIndex g) (snd (countOutcomes g)) now ''group_failure'']))"
  using assms
  by (cases "countOutcomes g") (auto simp: AdvanceGroup_def advanceActive_def groupIsTerminal_def)

text \<open>
  Advancing an active group never fails, and it closes the group exactly when every item is
  terminal: with success when no item failed, with failures otherwise. The group-completed event
  accounts for every item (success plus failure count is the number of items), and a queue-paused
  event is emitted exactly for a group with failures. The stored transition
  \<open>CompleteActiveGroup\<close> reaches the same status whenever the decision is to close.
\<close>

theorem AdvanceGroup_active:
  assumes "group_Status g = GroupStatusActive" and "qid \<noteq> []"
  shows "\<exists>st evs. AdvanceGroup None (Some g) qs qid now = Inr (st, evs)
    \<and> (st = GroupStatusActive \<longleftrightarrow> \<not> allItemsTerminal g)
    \<and> (st = GroupStatusCompleteSuccess \<longleftrightarrow>
         list_all (\<lambda>it. item_Status it = ItemStatusCompleted) (group_Items g))
    \<and> list_all (\<lambda>ev. is_QueueGroupCompleted ev \<or> is_QueuePaused ev) evs
    \<and> list_all (\<lambda>ev. \<not> is_QueueGroupCompleted ev
         \<or> ev_final ev = st \<and> ev_success ev + ev_fail ev = int (length (group_Items g))) evs
    \<and> (list_ex is_QueuePaused evs \<longleftrightarrow> st = GroupStatusCompleteWithFailures)
    \<and> (allItemsTerminal g \<longrightarrow>
         (\<exists>g'. CompleteActiveGroup (Some g) now = Inr g' \<and> group_Status g' = st))"
proof -
  note total = outcomes_total [of g]
  have succ: "allItemsTerminal g \<and> snd (countOutcomes g) = 0 \<longleftrightarrow>
      list_all (\<lambda>it. item_Status it = ItemStatusCompleted) (group_Items g)"
    by (auto simp: allItemsTerminal_iff no_failures_iff list_all_iff itemIsTerminal_def)
  show ?thesis
    unfolding AdvanceGroup_active_eq [OF assms]
    using assms(1) total succ
    by (auto simp: CompleteActiveGroup_def setGroupStatus_def)
qed

theorem AdvanceGroup_active_witness:
  "\<exists>st evs. AdvanceGroup None (Some (zeroGroup\<lparr>group_Status := GroupStatusActive,
       group_Items := [zeroItem\<lparr>item_Status := ItemStatusFailed\<rparr>]\<rparr>))
       QueueStatusActive ''q'' 5 = Inr (st, evs) \<and> list_ex is_QueuePaused evs"
proof -
  let ?g = "zeroGroup\<lparr>group_Status := GroupStatusActive,
       group_Items := [zeroItem\<lparr>item_Status := ItemStatusFailed\<rparr>]\<rparr>"
  have t: "allItemsTerminal ?g" and f: "\<not> list_all (\<lambda>it. item_Status it = ItemStatusCompleted) (group_Items ?g)"
    by (simp_all add: allItemsTerminal_iff itemIsTerminal_def)
  show ?thesis
    using AdvanceGroup_active [of ?g "''q''" QueueStatusActive 5] t f
    by (auto simp: AdvanceGroup_active_eq)
qed

text \<open>
  A terminal group is absorbing, and a pending group starts exactly when the queue is
  active, with one group-started event that names its kind and item count.
\<close>

theorem AdvanceGroup_terminal_or_pending:
  assumes "qid \<noteq> []" and "groupIsTerminal (group_Status g) \<or> group_Status g = GroupStatusPending"
  shows "AdvanceGroup None (Some g) qs qid now = Inr
    (if group_Status g = GroupStatusPending \<and> qs = QueueStatusActive
     then (GroupStatusActive, [QueueGroupStarted qid (group_GroupIndex g) (group_Kind g)
             (int (length (group_Items g))) now])
     else (group_Status g, []))"
  using assms by (auto simp: AdvanceGroup_def advancePending_def groupIsTerminal_def)

theorem AdvanceGroup_terminal_or_pending_witness:
  "AdvanceGroup None (Some (zeroGroup\<lparr>group_Status := GroupStatusPending\<rparr>)) QueueStatusPausedByDrain
     ''q'' 5 = Inr (GroupStatusPending, [])"
  using AdvanceGroup_terminal_or_pending [of "''q''" "zeroGroup\<lparr>group_Status := GroupStatusPending\<rparr>"
      QueueStatusPausedByDrain 5] by simp

section \<open>Eligibility\<close>

lemma dispatchable_Other [simp]: "item_Status it \<noteq> ItemStatusPending \<Longrightarrow> \<not> dispatchable it"
  by (simp add: dispatchable_def)

lemma waveScan_eq:
  "waveScan k its = map ((+) k) (filter (\<lambda>i. dispatchable (its ! i)) [0..<length its])"
proof (induction its arbitrary: k)
  case Nil
  show ?case by simp
next
  case (Cons it its)
  have "[0..<length (it # its)] = 0 # map Suc [0..<length its]"
    by (metis length_Cons map_Suc_upt upt_rec zero_less_Suc)
  then show ?case
    by (simp add: Cons dispatchable_def filter_map comp_def)
qed

lemma lastEligiblePending_sound:
  "lastEligiblePending k its m b = Some idx \<Longrightarrow>
     m b = Some idx \<or> (k \<le> idx \<and> idx < k + length its \<and> dispatchable (its ! (idx - k))
        \<and> item_BeadID (its ! (idx - k)) = b)"
proof (induction k its m rule: lastEligiblePending.induct)
  case (1 i m)
  then show ?case by simp
next
  case (2 i it its m)
  from 2(1) [OF 2(2) [unfolded lastEligiblePending.simps]] show ?case
    by (auto simp: dispatchable_def nth_Cons Suc_diff_le split: if_splits nat.splits)
       (metis Suc_diff_le diff_Suc_Suc nat.inject not_less_eq_eq)+
qed

lemma streamScan_sound:
  assumes "idx \<in> set (streamScan m k its)"
  shows "streamScan m k its = [idx] \<and>
    ((\<exists>b. m b = Some idx) \<or> (k \<le> idx \<and> idx < k + length its \<and> dispatchable (its ! (idx - k))))"
  using assms
proof (induction m k its rule: streamScan.induct)
  case (1 m i)
  then show ?case by simp
next
  case (2 m i it its)
  have shift: "dispatchable (its ! (idx - Suc i)) \<Longrightarrow> Suc i \<le> idx \<Longrightarrow> dispatchable ((it # its) ! (idx - i))"
    by (simp add: Suc_diff_le)
  show ?case
    using 2 shift
    by (auto simp: dispatchable_def split: ItemStatus.splits if_splits option.splits)
qed

lemma streamScan_nonempty:
  "i < length its \<Longrightarrow> dispatchable (its ! i) \<Longrightarrow> streamScan m k its \<noteq> []"
proof (induction its arbitrary: i k)
  case Nil
  then show ?case by simp
next
  case (Cons it its)
  then show ?case
    by (cases i) (auto simp: dispatchable_def split: ItemStatus.splits if_splits option.splits)
qed

lemma streamScan_first:
  assumes "\<And>j idx. j < length its \<Longrightarrow> m (item_BeadID (its ! j)) = Some idx \<Longrightarrow> idx \<le> k + j"
  shows "streamScan m k its =
    (case find_index dispatchable its of None \<Rightarrow> [] | Some i \<Rightarrow> [k + i])"
  using assms
proof (induction its arbitrary: k)
  case Nil
  show ?case by simp
next
  case (Cons it its)
  have tl: "streamScan m (Suc k) its =
      (case find_index dispatchable its of None \<Rightarrow> [] | Some i \<Rightarrow> [Suc k + i])"
  proof (rule Cons.IH)
    show "idx \<le> Suc k + j" if "j < length its" "m (item_BeadID (its ! j)) = Some idx" for j idx
      using Cons.prems [of "Suc j" idx] that by simp
  qed
  have hd: "m (item_BeadID it) = Some idx \<Longrightarrow> idx \<le> k" for idx
    using Cons.prems [of 0 idx] by simp
  show ?case
  proof (cases "dispatchable it")
    case True
    then show ?thesis by (simp add: dispatchable_def)
  next
    case False
    then have "streamScan m k (it # its) = streamScan m (Suc k) its"
      using hd by (auto simp: dispatchable_def not_less split: ItemStatus.splits option.splits)
    with False tl show ?thesis by (simp split: option.splits)
  qed
qed

text \<open>
  C38. The eligible items of an active group. A wave offers exactly its dispatchable items (pending
  with attempts left), in list order. A stream offers at most one item, the item is dispatchable,
  and it offers one whenever any dispatchable item exists: neither a deferred, an in-flight nor
  an exhausted item blocks the ones behind it.
\<close>

theorem EligibleItems_sound_complete:
  assumes "group_Status g = GroupStatusActive"
  shows "(group_Kind g = GroupKindWave \<longrightarrow> EligibleItems (Some g) =
      filter (\<lambda>i. dispatchable (group_Items g ! i)) [0..<length (group_Items g)])
    \<and> (group_Kind g = GroupKindStream \<longrightarrow>
        length (EligibleItems (Some g)) \<le> 1
      \<and> (\<forall>i \<in> set (EligibleItems (Some g)).
           i < length (group_Items g) \<and> dispatchable (group_Items g ! i))
      \<and> (EligibleItems (Some g) = [] \<longleftrightarrow> \<not> list_ex dispatchable (group_Items g)))"
proof (intro conjI impI ballI)
  show "EligibleItems (Some g) =
      filter (\<lambda>i. dispatchable (group_Items g ! i)) [0..<length (group_Items g)]"
    if "group_Kind g = GroupKindWave"
    using assms that by (simp add: EligibleItems_def waveEligible_def waveScan_eq map_idI)
next
  assume k: "group_Kind g = GroupKindStream"
  let ?its = "group_Items g"
  let ?m = "lastEligiblePending 0 ?its Map.empty"
  have e: "EligibleItems (Some g) = streamScan ?m 0 ?its"
    using assms k by (simp add: EligibleItems_def streamEligible_def)
  have m: "i < length ?its \<and> dispatchable (?its ! i)" if "i \<in> set (streamScan ?m 0 ?its)" for i
    using streamScan_sound [OF that] lastEligiblePending_sound [of 0 ?its Map.empty] by fastforce
  show "i < length ?its" "dispatchable (?its ! i)" if "i \<in> set (EligibleItems (Some g))" for i
    using m that e by auto
  show "length (EligibleItems (Some g)) \<le> 1"
    using streamScan_sound [of _ ?m 0 ?its] e
    by (cases "streamScan ?m 0 ?its") fastforce+
  show "EligibleItems (Some g) = [] \<longleftrightarrow> \<not> list_ex dispatchable ?its"
  proof
    assume "EligibleItems (Some g) = []"
    then show "\<not> list_ex dispatchable ?its"
      using e streamScan_nonempty [of _ ?its ?m 0] by (auto simp: list_ex_length)
  next
    assume n: "\<not> list_ex dispatchable ?its"
    show "EligibleItems (Some g) = []"
    proof (rule ccontr)
      assume "EligibleItems (Some g) \<noteq> []"
      then obtain i where "i \<in> set (streamScan ?m 0 ?its)" using e by (cases "streamScan ?m 0 ?its") auto
      with m n show False by (auto simp: list_ex_length)
    qed
  qed
qed

definition example_stream :: Group where
  "example_stream = zeroGroup\<lparr>group_Status := GroupStatusActive, group_Kind := GroupKindStream,
     group_Items := [zeroItem\<lparr>item_BeadID := ''a'', item_Status := ItemStatusCompleted\<rparr>,
       zeroItem\<lparr>item_BeadID := ''b'', item_Status := ItemStatusPending\<rparr>,
       zeroItem\<lparr>item_BeadID := ''a'', item_Status := ItemStatusPending\<rparr>]\<rparr>"

theorem EligibleItems_sound_complete_witness:
  "group_Status example_stream = GroupStatusActive \<and> EligibleItems (Some example_stream) \<noteq> []"
proof -
  have "list_ex dispatchable (group_Items example_stream)"
    by (simp add: example_stream_def dispatchable_def zeroItem_def MaxItemAttempts_def)
  then show ?thesis
    using EligibleItems_sound_complete [of example_stream] by (simp add: example_stream_def)
qed

text \<open>
  A stream whose beads are pairwise different offers its first dispatchable item. With a
  repeated bead the order is different: a re-queued bead behind a finished item of the same bead
  is offered before an earlier pending item of another bead.
\<close>

theorem streamEligible_order:
  "(distinct (map item_BeadID (group_Items g)) \<longrightarrow>
      streamEligible g = (case find_index dispatchable (group_Items g) of
        None \<Rightarrow> [] | Some i \<Rightarrow> [i]))
   \<and> streamEligible example_stream = [2] \<and> dispatchable (group_Items example_stream ! 1)"
proof (intro conjI impI)
  assume d: "distinct (map item_BeadID (group_Items g))"
  let ?its = "group_Items g"
  let ?m = "lastEligiblePending 0 ?its Map.empty"
  have "idx \<le> 0 + j" if "j < length ?its" "?m (item_BeadID (?its ! j)) = Some idx" for j idx
    using lastEligiblePending_sound [OF that(2)] that(1) d
    by (auto simp: distinct_conv_nth)
  then have "streamScan ?m 0 ?its = (case find_index dispatchable ?its of None \<Rightarrow> [] | Some i \<Rightarrow> [0 + i])"
    by (rule streamScan_first)
  then show "streamEligible g = (case find_index dispatchable ?its of None \<Rightarrow> [] | Some i \<Rightarrow> [i])"
    by (simp add: streamEligible_def split: option.splits)
next
  show "streamEligible example_stream = [2]"
    by (simp add: streamEligible_def example_stream_def zeroItem_def MaxItemAttempts_def
        numeral_2_eq_2)
  show "dispatchable (group_Items example_stream ! 1)"
    by (simp add: example_stream_def dispatchable_def zeroItem_def MaxItemAttempts_def)
qed

theorem streamEligible_order_witness:
  "streamEligible (example_stream\<lparr>group_Items := tl (group_Items example_stream)\<rparr>) = [0]"
proof -
  let ?g = "example_stream\<lparr>group_Items := tl (group_Items example_stream)\<rparr>"
  have "distinct (map item_BeadID (group_Items ?g))" by (simp add: example_stream_def)
  with streamEligible_order [of ?g] show ?thesis
    by (simp add: example_stream_def dispatchable_def zeroItem_def MaxItemAttempts_def)
qed

end
