(* ===== verification/Queue_Deferral.thy ===== *)
theory Queue_Deferral
  imports Queue_State
begin

text \<open>
  Correctness of the ledger-dependency deferral of \<^verbatim>\<open>state.go\<close>: what \<open>ReevaluateDeferred\<close> decides
  for each deferred item, and that \<open>FailDeferredDependents\<close> fails exactly the descendants of the
  failed bead whatever the iteration order of its Go map.
\<close>

definition ledger_open :: "BeadLedger \<Rightarrow> BeadID \<Rightarrow> bool" where
  "ledger_open L b \<longleftrightarrow> LookupStatus L b = Inr BeadStatusOpen \<or> LookupStatus L b = Inr BeadStatusInProgress"

abbreviation edge :: "BeadLedger \<Rightarrow> BeadID \<Rightarrow> BeadID \<Rightarrow> bool" where
  "edge L a b \<equiv> BlocksEdge L a b = Inr True"

definition failed_by :: "Item \<Rightarrow> BeadID \<Rightarrow> Item" where
  "failed_by it b = it\<lparr>item_Status := ItemStatusFailed,
     item_LastFailureReason := ''dependency_failed:'' @ b\<rparr>"

lemma failed_by_BeadID [simp]: "item_BeadID (failed_by it b) = item_BeadID it"
  by (simp add: failed_by_def)

text \<open>
  What the pass sees of item \<open>j\<close> when it decides item \<open>i\<close> of \<open>its\<close>, with \<open>its'\<close> the items after the pass:
  the items before \<open>i\<close> are already decided. The first item that holds \<open>i\<close> is the first in-group blocker
  that failed, or that has not completed and is open in the ledger. Without one \<open>i\<close> is released; else
  it is failed or kept by that one.
\<close>

definition seenAt :: "Item list \<Rightarrow> Item list \<Rightarrow> nat \<Rightarrow> nat \<Rightarrow> Item" where
  "seenAt its its' i j = (if j < i then its' ! j else its ! j)"

definition holds :: "BeadLedger \<Rightarrow> Item list \<Rightarrow> Item list \<Rightarrow> nat \<Rightarrow> nat \<Rightarrow> bool" where
  "holds L its its' i j \<longleftrightarrow> j \<noteq> i \<and> edge L (item_BeadID (its ! j)) (item_BeadID (its ! i))
     \<and> (item_Status (seenAt its its' i j) = ItemStatusFailed
        \<or> item_Status (seenAt its its' i j) \<noteq> ItemStatusCompleted \<and> ledger_open L (item_BeadID (its ! j)))"

definition firstHolder :: "BeadLedger \<Rightarrow> Item list \<Rightarrow> Item list \<Rightarrow> nat \<Rightarrow> nat option" where
  "firstHolder L its its' i = find (holds L its its' i) [0..<length its]"

definition reeval_decision :: "BeadLedger \<Rightarrow> Item list \<Rightarrow> Item list \<Rightarrow> nat \<Rightarrow> Item" where
  "reeval_decision L its its' i = (case firstHolder L its its' i of
       None \<Rightarrow> (its ! i)\<lparr>item_Status := ItemStatusPending\<rparr>
     | Some j \<Rightarrow> if item_Status (seenAt its its' i j) = ItemStatusFailed then failed_by (its ! i) (item_BeadID (its ! j)) else its ! i)"

text \<open>The beads reached from \<open>root\<close> through deferred items of \<open>its\<close> along blocks edges.\<close>

inductive descendant :: "BeadLedger \<Rightarrow> Item list \<Rightarrow> BeadID \<Rightarrow> BeadID \<Rightarrow> bool" for L its root where
  root: "descendant L its root root"
| step: "descendant L its root b \<Longrightarrow> it \<in> set its \<Longrightarrow> isDeferred it \<Longrightarrow> edge L b (item_BeadID it) \<Longrightarrow>
     descendant L its root (item_BeadID it)"

section \<open>ReevaluateDeferred\<close>

text \<open>The scan for one item is the search for its first holder among the current items.\<close>

lemma scanBlockers_find:
  assumes "\<nexists>e. scanBlockers L its i js = ScanError e"
  shows "scanBlockers L its i js = (case find (holds L its its i) js of
       None \<Rightarrow> AllResolved
     | Some j \<Rightarrow> if item_Status (its ! j) = ItemStatusFailed then DependencyFailed (item_BeadID (its ! j)) else StillBlocked)"
  using assms
  by (induction js) (auto simp: holds_def seenAt_def ledger_open_def Let_def split: if_splits sum.splits bool.splits)

lemma find_holds_cong:
  assumes "\<And>j. j \<in> set js \<Longrightarrow> item_BeadID (its2 ! j) = item_BeadID (its ! j)" "item_BeadID (its2 ! i) = item_BeadID (its ! i)"
    and "\<And>j. j \<in> set js \<Longrightarrow> seenAt its2 its2' i j = seenAt its its' i j"
  shows "find (holds L its2 its2' i) js = find (holds L its its' i) js"
  using assms by (induction js) (auto simp: holds_def)

lemma ResolveDeferredItem_deferred: "isDeferred it \<Longrightarrow> ResolveDeferredItem (Some it) = Inr (it\<lparr>item_Status := ItemStatusPending\<rparr>)"
  by (simp add: status_ops)

lemma FailDeferredItem_deferred: "FailDeferredItem (Some it) b = Inr it' \<Longrightarrow> it' = failed_by it b"
  by (auto simp: failed_by_def dest!: FailDeferredItem_Inr)

text \<open>One iteration of the outer loop.\<close>

lemma reevalFrom_step:
  assumes "reevalFrom L (i # is) its und = (its', und', None)" and n: "i < length its"
  shows "\<exists>it1. reevalFrom L is (its[i := it1]) (und @ (if isDeferred (its ! i) \<and> firstHolder L its its i = None then [item_BeadID (its ! i)] else []))
       = (its', und', None) \<and> it1 = (if isDeferred (its ! i) then reeval_decision L its its i else its ! i)"
proof (cases "isDeferred (its ! i)")
  case False
  then show ?thesis using assms by simp
next
  case d: True
  have ok: "\<nexists>e. scanBlockers L its i [0..<length its] = ScanError e" using assms(1) d by auto
  note s = scanBlockers_find [OF ok, folded firstHolder_def]
  show ?thesis
  proof (cases "firstHolder L its its i")
    case None
    then show ?thesis using assms(1) d s by (simp add: reeval_decision_def ResolveDeferredItem_deferred)
  next
    case (Some j)
    then show ?thesis using assms(1) d s
      by (auto simp: reeval_decision_def seenAt_def list_update_id dest!: FailDeferredItem_deferred split: if_splits sum.splits)
  qed
qed

lemma reeval_decision_bead: "item_BeadID (reeval_decision L its its' i) = item_BeadID (its ! i)"
  by (simp add: reeval_decision_def split: option.splits)

lemma reevalFrom_exact:
  assumes "reevalFrom L [k..<n] its und = (its', und', None)" and "n = length its" and "k \<le> n"
  shows "length its' = n \<and> (\<forall>i<k. its' ! i = its ! i)
    \<and> (\<forall>i. k \<le> i \<and> i < n \<longrightarrow> its' ! i = (if isDeferred (its ! i) then reeval_decision L its its' i else its ! i))
    \<and> und' = und @ map (\<lambda>i. item_BeadID (its ! i)) (filter (\<lambda>i. isDeferred (its ! i) \<and> firstHolder L its its' i = None) [k..<n])"
  using assms
proof (induction "n - k" arbitrary: k its und)
  case 0
  then have "k = n" by simp
  with 0 show ?case by auto
next
  case (Suc m)
  have k: "k < length its" "[k..<n] = k # [Suc k..<n]" using Suc(2,4) by (auto simp: upt_conv_Cons)
  let ?its = "its[k := (if isDeferred (its ! k) then reeval_decision L its its k else its ! k)]"
  let ?und = "und @ (if isDeferred (its ! k) \<and> firstHolder L its its k = None then [item_BeadID (its ! k)] else [])"
  have r: "reevalFrom L [Suc k..<n] ?its ?und = (its', und', None)"
    using reevalFrom_step [OF Suc(3) [unfolded k(2)] k(1)] by auto
  have ih: "length its' = n \<and> (\<forall>i<Suc k. its' ! i = ?its ! i)
    \<and> (\<forall>i. Suc k \<le> i \<and> i < n \<longrightarrow> its' ! i = (if isDeferred (?its ! i) then reeval_decision L ?its its' i else ?its ! i))
    \<and> und' = ?und @ map (\<lambda>i. item_BeadID (?its ! i)) (filter (\<lambda>i. isDeferred (?its ! i) \<and> firstHolder L ?its its' i = None) [Suc k..<n])"
    by (rule Suc(1) [OF _ r]) (use Suc(2-4) k in auto)
  have bead: "item_BeadID (?its ! j) = item_BeadID (its ! j)" for j
    using k(1) by (cases "j = k") (simp_all add: reeval_decision_bead)
  have later: "firstHolder L ?its its' i = firstHolder L its its' i" if "k < i" for i
    unfolding firstHolder_def length_list_update
    by (rule find_holds_cong) (use bead that in \<open>auto simp: seenAt_def\<close>)
  have dec: "reeval_decision L ?its its' i = reeval_decision L its its' i" if "k < i" for i
    using that bead by (auto simp: reeval_decision_def later seenAt_def split: option.splits)
  have now: "firstHolder L its its' k = firstHolder L its its k"
    unfolding firstHolder_def by (rule find_holds_cong) (use ih k in \<open>auto simp: seenAt_def\<close>)
  have nowd: "reeval_decision L its its' k = reeval_decision L its its k"
    using ih k by (auto simp: reeval_decision_def now seenAt_def split: option.splits)
  have "its' ! i = (if isDeferred (its ! i) then reeval_decision L its its' i else its ! i)" if "k \<le> i" "i < n" for i
    using ih k that nowd dec [of i] by (cases "i = k") auto
  moreover have "filter (\<lambda>i. isDeferred (?its ! i) \<and> firstHolder L ?its its' i = None) [Suc k..<n]
      = filter (\<lambda>i. isDeferred (its ! i) \<and> firstHolder L its its' i = None) [Suc k..<n]"
    by (rule filter_cong) (auto simp: later)
  ultimately show ?case using ih k bead now by auto
qed

text \<open>
  C31. Re-evaluation of deferred items. When the ledger answers every question asked, a pass leaves
  every item that is not deferred untouched and decides each deferred item, in order, by its first
  holder: the first other item of the group that blocks it and has failed, or has not completed and is
  open in the ledger, as the pass finds it. Without a holder the item is released to pending; with a
  failed one it is failed with that blocker named in its reason; with another it stays deferred. The
  beads returned are those of the released items in order, and nothing else of the group changes.
\<close>

theorem ReevaluateDeferred_decides:
  assumes "ReevaluateDeferred (Some g) (Some L) = (Some g', undeferred, None)"
  shows "g' = g\<lparr>group_Items := group_Items g'\<rparr> \<and> length (group_Items g') = length (group_Items g)
    \<and> (\<forall>i < length (group_Items g). group_Items g' ! i =
        (if \<not> isDeferred (group_Items g ! i) then group_Items g ! i
         else (case find (\<lambda>j. j \<noteq> i \<and> BlocksEdge L (item_BeadID (group_Items g ! j)) (item_BeadID (group_Items g ! i)) = Inr True
                 \<and> (let st = item_Status (if j < i then group_Items g' ! j else group_Items g ! j) in
                     st = ItemStatusFailed \<or> st \<noteq> ItemStatusCompleted \<and> ledger_open L (item_BeadID (group_Items g ! j))))
               [0..<length (group_Items g)] of
             None \<Rightarrow> (group_Items g ! i)\<lparr>item_Status := ItemStatusPending\<rparr>
           | Some j \<Rightarrow> if item_Status (if j < i then group_Items g' ! j else group_Items g ! j) = ItemStatusFailed
               then failed_by (group_Items g ! i) (item_BeadID (group_Items g ! j)) else group_Items g ! i)))
    \<and> undeferred = map (\<lambda>i. item_BeadID (group_Items g ! i))
        (filter (\<lambda>i. isDeferred (group_Items g ! i) \<and> item_Status (group_Items g' ! i) = ItemStatusPending) [0..<length (group_Items g)])"
proof -
  let ?its = "group_Items g" and ?n = "length (group_Items g)"
  obtain its und where r: "reevalFrom L [0..<?n] ?its [] = (its, und, None)"
    and g: "g' = g\<lparr>group_Items := its\<rparr>" "undeferred = und"
    using assms by (auto simp: ReevaluateDeferred_def split: prod.splits)
  note e = reevalFrom_exact [OF r refl le0]
  have find: "find (\<lambda>j. j \<noteq> i \<and> BlocksEdge L (item_BeadID (?its ! j)) (item_BeadID (?its ! i)) = Inr True
                 \<and> (let st = item_Status (if j < i then its ! j else ?its ! j) in
                     st = ItemStatusFailed \<or> st \<noteq> ItemStatusCompleted \<and> ledger_open L (item_BeadID (?its ! j)))) [0..<?n]
      = firstHolder L ?its its i" for i
    unfolding firstHolder_def by (rule find_cong) (auto simp: holds_def seenAt_def Let_def)
  have "isDeferred (?its ! i) \<and> firstHolder L ?its its i = None \<longleftrightarrow> isDeferred (?its ! i) \<and> item_Status (its ! i) = ItemStatusPending"
    if "i < ?n" for i
    using e that by (auto simp: reeval_decision_def failed_by_def split: option.splits if_splits)
  then have "filter (\<lambda>i. isDeferred (?its ! i) \<and> firstHolder L ?its its i = None) [0..<?n]
      = filter (\<lambda>i. isDeferred (?its ! i) \<and> item_Status (its ! i) = ItemStatusPending) [0..<?n]"
    by (intro filter_cong) auto
  moreover have gi: "group_Items g' = its" using g(1) by simp
  ultimately show ?thesis
    unfolding gi find g(2) using e g(1)
    by (auto simp: reeval_decision_def seenAt_def split: option.splits)
qed

definition example_ledger :: BeadLedger where
  "example_ledger = \<lparr>LookupStatus = (\<lambda>b. Inr BeadStatusOpen),
     BlocksEdge = (\<lambda>a b. Inr (a = ''a'' \<and> b = ''b'' \<or> a = ''b'' \<and> b = ''c''))\<rparr>"

definition example_group :: Group where
  "example_group = zeroGroup\<lparr>group_Status := GroupStatusActive, group_Kind := GroupKindWave,
     group_Items := [zeroItem\<lparr>item_BeadID := ''a'', item_Status := ItemStatusCompleted\<rparr>,
       zeroItem\<lparr>item_BeadID := ''b'', item_Status := ItemStatusDeferredForLedgerDep\<rparr>,
       zeroItem\<lparr>item_BeadID := ''c'', item_Status := ItemStatusDeferredForLedgerDep\<rparr>]\<rparr>"

theorem ReevaluateDeferred_decides_witness:
  "\<exists>g'. ReevaluateDeferred (Some example_group) (Some example_ledger) = (Some g', [''b''], None)
     \<and> group_Items g' ! 1 = (group_Items example_group ! 1)\<lparr>item_Status := ItemStatusPending\<rparr>
     \<and> map item_Status (group_Items g') =
         [ItemStatusCompleted, ItemStatusPending, ItemStatusDeferredForLedgerDep]"
proof -
  let ?its = "[zeroItem\<lparr>item_BeadID := ''a'', item_Status := ItemStatusCompleted\<rparr>,
       zeroItem\<lparr>item_BeadID := ''b'', item_Status := ItemStatusPending\<rparr>,
       zeroItem\<lparr>item_BeadID := ''c'', item_Status := ItemStatusDeferredForLedgerDep\<rparr>]"
  have r: "ReevaluateDeferred (Some example_group) (Some example_ledger) =
      (Some (example_group\<lparr>group_Items := ?its\<rparr>), [''b''], None)"
    by (simp add: ReevaluateDeferred_def example_group_def example_ledger_def status_ops
        upt_rec numeral_2_eq_2)
  have l: "1 < length (group_Items example_group)" by (simp add: example_group_def)
  from ReevaluateDeferred_decides [OF r, THEN conjunct2, THEN conjunct2, THEN conjunct1, rule_format, OF l]
  have "group_Items (example_group\<lparr>group_Items := ?its\<rparr>) ! 1 = (group_Items example_group ! 1)\<lparr>item_Status := ItemStatusPending\<rparr>"
    by (simp add: example_group_def example_ledger_def ledger_open_def upt_rec)
  then show ?thesis using r by simp
qed

section \<open>FailDeferredDependents\<close>

lemma firstBlocker_Some:
  "firstBlocker L bs x = Inr (Some b) \<Longrightarrow> b \<in> set bs \<and> edge L b x"
  by (induction bs) (auto split: sum.splits bool.splits)

lemma firstBlocker_None:
  "firstBlocker L bs x = Inr None \<Longrightarrow> b \<in> set bs \<Longrightarrow> \<not> edge L b x"
  by (induction bs) (auto split: sum.splits bool.splits)

text \<open>
  The state of the propagation relative to the items \<open>its\<close> it started from: what has been failed
  so far is a descendant of the root, and every changed item was deferred and is failed by a bead
  that blocks it.
\<close>

definition propagation_inv :: "BeadLedger \<Rightarrow> Item list \<Rightarrow> BeadID \<Rightarrow> FailScan \<Rightarrow> bool" where
  "propagation_inv L its root s \<longleftrightarrow>
     length (fs_items s) = length its
   \<and> fs_failed s = root # fs_propagated s
   \<and> distinct (fs_failed s)
   \<and> (\<forall>b \<in> set (fs_failed s). descendant L its root b)
   \<and> (\<forall>k < length its. fs_items s ! k = its ! k \<or>
        isDeferred (its ! k) \<and> item_BeadID (its ! k) \<in> set (fs_propagated s)
        \<and> (\<exists>b \<in> set (fs_failed s). edge L b (item_BeadID (its ! k))
              \<and> fs_items s ! k = failed_by (its ! k) b))
   \<and> (\<forall>b \<in> set (fs_propagated s). \<exists>k < length its. item_BeadID (its ! k) = b
        \<and> isDeferred (its ! k) \<and> item_Status (fs_items s ! k) = ItemStatusFailed)"

lemma propagation_inv_step:
  assumes inv: "propagation_inv L its root s" and i: "i < length its"
    and d: "isDeferred (fs_items s ! i)" "item_BeadID (fs_items s ! i) \<notin> set (fs_failed s)"
    and b: "b \<in> set (fs_failed s)" "edge L b (item_BeadID (fs_items s ! i))"
    and f: "FailDeferredItem (Some (fs_items s ! i)) b = Inr it'"
  shows "propagation_inv L its root (s\<lparr>fs_items := (fs_items s)[i := it'],
      fs_failed := fs_failed s @ [item_BeadID (fs_items s ! i)],
      fs_propagated := fs_propagated s @ [item_BeadID (fs_items s ! i)], fs_changed := True\<rparr>)"
    (is "propagation_inv L its root ?t")
proof -
  have it': "it' = failed_by (fs_items s ! i) b"
    using FailDeferredItem_Inr [OF f] by (simp add: failed_by_def)
  have e: "fs_items s ! i = its ! i"
    using inv i d by (auto simp: propagation_inv_def failed_by_def)
  let ?x = "item_BeadID (its ! i)"
  have x: "descendant L its root ?x"
    using inv b d i unfolding e
    by (intro descendant.step [of L its root b]) (auto simp: propagation_inv_def)
  have items: "(fs_items s)[i := it'] ! k = its ! k \<or> isDeferred (its ! k)
      \<and> item_BeadID (its ! k) \<in> set (fs_propagated s @ [?x])
      \<and> (\<exists>c \<in> set (fs_failed s @ [?x]). edge L c (item_BeadID (its ! k))
            \<and> (fs_items s)[i := it'] ! k = failed_by (its ! k) c)" if "k < length its" for k
  proof (cases "k = i")
    case True
    then show ?thesis using inv i d b unfolding it' e by (auto simp: propagation_inv_def)
  next
    case False
    have "fs_items s ! k = its ! k \<or> isDeferred (its ! k)
        \<and> item_BeadID (its ! k) \<in> set (fs_propagated s)
        \<and> (\<exists>c \<in> set (fs_failed s). edge L c (item_BeadID (its ! k))
              \<and> fs_items s ! k = failed_by (its ! k) c)"
      using inv that unfolding propagation_inv_def by blast
    with False show ?thesis by auto
  qed
  have props: "\<exists>k < length its. item_BeadID (its ! k) = c \<and> isDeferred (its ! k)
      \<and> item_Status ((fs_items s)[i := it'] ! k) = ItemStatusFailed"
    if c: "c \<in> set (fs_propagated s @ [?x])" for c
  proof (cases "c = ?x")
    case True
    then show ?thesis using i d inv unfolding it' e
      by (intro exI [of _ i]) (simp add: failed_by_def propagation_inv_def)
  next
    case False
    then obtain k where "k < length its" "item_BeadID (its ! k) = c" "isDeferred (its ! k)"
        "item_Status (fs_items s ! k) = ItemStatusFailed"
      using inv c by (auto simp: propagation_inv_def)
    moreover from this have "k \<noteq> i" using False by auto
    ultimately show ?thesis by (intro exI [of _ k]) simp
  qed
  have inv': "length (fs_items s) = length its" "fs_failed s = root # fs_propagated s"
    "distinct (fs_failed s)" "\<forall>b \<in> set (fs_failed s). descendant L its root b"
    using inv unfolding propagation_inv_def by blast+
  have "length (fs_items ?t) = length its" "fs_failed ?t = root # fs_propagated ?t"
    using inv' by simp_all
  moreover have "distinct (fs_failed ?t)" using inv'(3) d(2) by simp
  moreover have "\<forall>b \<in> set (fs_failed ?t). descendant L its root b" using inv'(4) x e by simp
  ultimately show ?thesis
    unfolding propagation_inv_def using items props by (simp add: e)
qed

lemma failPass_inv:
  assumes "failPass L order is s = (s', None)" and "propagation_inv L its root s"
    and "\<forall>i \<in> set is. i < length its"
    and ord: "\<And>i F. set (order i F) = set F"
  shows "propagation_inv L its root s'"
  using assms(1-3)
proof (induction "is" arbitrary: s)
  case Nil
  then show ?case by simp
next
  case (Cons i "is")
  show ?case
  proof (cases "failPass L order is s = (s', None)")
    case True
    with Cons show ?thesis by simp
  next
    case False
    with Cons.prems(1) obtain b it' where
        d: "isDeferred (fs_items s ! i)" "item_BeadID (fs_items s ! i) \<notin> set (fs_failed s)"
      and b: "firstBlocker L (order i (fs_failed s)) (item_BeadID (fs_items s ! i)) = Inr (Some b)"
      and f: "FailDeferredItem (Some (fs_items s ! i)) b = Inr it'"
      and r: "failPass L order is (s\<lparr>fs_items := (fs_items s)[i := it'],
          fs_failed := fs_failed s @ [item_BeadID (fs_items s ! i)],
          fs_propagated := fs_propagated s @ [item_BeadID (fs_items s ! i)],
          fs_changed := True\<rparr>) = (s', None)"
      by (auto simp: Let_def split: if_splits sum.splits option.splits)
    have "b \<in> set (fs_failed s)" "edge L b (item_BeadID (fs_items s ! i))"
      using firstBlocker_Some [OF b] ord by auto
    with propagation_inv_step [OF Cons.prems(2) _ d _ _ f] Cons.IH [OF r] Cons.prems(3)
    show ?thesis by simp
  qed
qed

lemma failPass_keeps_changed:
  "failPass L order is s = (s', None) \<Longrightarrow> fs_changed s \<Longrightarrow> fs_changed s'"
  by (induction L order "is" s rule: failPass.induct)
     (auto simp: Let_def split: if_splits sum.splits option.splits)

lemma failPass_unchanged:
  assumes "failPass L order is s = (s', None)" and "\<not> fs_changed s'"
  shows "s' = s \<and> (\<forall>i \<in> set is. isDeferred (fs_items s ! i) \<longrightarrow>
     item_BeadID (fs_items s ! i) \<in> set (fs_failed s) \<or>
     (\<forall>b \<in> set (order i (fs_failed s)). \<not> edge L b (item_BeadID (fs_items s ! i))))"
  using assms
proof (induction "is" arbitrary: s)
  case Nil
  then show ?case by simp
next
  case (Cons i "is")
  from Cons.prems have
    "failPass L order is s = (s', None)" and
    "isDeferred (fs_items s ! i) \<longrightarrow> item_BeadID (fs_items s ! i) \<in> set (fs_failed s) \<or>
       firstBlocker L (order i (fs_failed s)) (item_BeadID (fs_items s ! i)) = Inr None"
    by (auto simp: Let_def split: if_splits sum.splits option.splits dest: failPass_keeps_changed)
  with Cons.IH [of s] Cons.prems(2) show ?case
    by (auto dest: firstBlocker_None)
qed

lemma propagation_inv_changed [simp]:
  "propagation_inv L its root (s\<lparr>fs_changed := c\<rparr>) = propagation_inv L its root s"
  by (simp add: propagation_inv_def)

lemma failLoop_correct:
  assumes "failLoop L order s = (s', None)" and "propagation_inv L its root s"
    and "\<forall>i F. set (order i F) = set F"
  shows "propagation_inv L its root s' \<and>
    (\<forall>i < length its. isDeferred (fs_items s' ! i) \<longrightarrow>
       item_BeadID (fs_items s' ! i) \<in> set (fs_failed s') \<or>
       (\<forall>b \<in> set (fs_failed s'). \<not> edge L b (item_BeadID (fs_items s' ! i))))"
  using assms
proof (induction L order s rule: failLoop.induct)
  case (1 L order s)
  note ord = 1(4) [rule_format]
  let ?is = "[0..<length (fs_items s)]"
  have len: "length (fs_items s) = length its" using 1(3) by (simp add: propagation_inv_def)
  obtain t where p: "failPass L order ?is (s\<lparr>fs_changed := False\<rparr>) = (t, None)"
    and rest: "if fs_changed t then failLoop L order t = (s', None) else s' = t"
    using 1(2) by (subst (asm) failLoop.simps) (auto split: prod.splits option.splits if_splits)
  have inv: "propagation_inv L its root t"
    by (rule failPass_inv [OF p _ _ ord]) (use 1(3) len in auto)
  show ?case
  proof (cases "fs_changed t")
    case True
    with 1(1) [OF p [symmetric]] rest inv 1(4) show ?thesis by auto
  next
    case False
    with rest have "s' = t" by simp
    with failPass_unchanged [OF p False] inv ord len show ?thesis by auto
  qed
qed

lemma propagation_complete:
  assumes inv: "propagation_inv L its root s"
    and closed: "\<forall>i < length its. isDeferred (fs_items s ! i) \<longrightarrow>
       item_BeadID (fs_items s ! i) \<in> set (fs_failed s) \<or>
       (\<forall>b \<in> set (fs_failed s). \<not> edge L b (item_BeadID (fs_items s ! i)))"
  shows "descendant L its root b \<Longrightarrow> b \<in> set (fs_failed s)"
proof (induction rule: descendant.induct)
  case root
  then show ?case using inv by (simp add: propagation_inv_def)
next
  case (step b it)
  from step.hyps(2) obtain k where k: "k < length its" "it = its ! k"
    by (auto simp: in_set_conv_nth)
  show ?case
  proof (cases "fs_items s ! k = its ! k")
    case True
    with k closed step show ?thesis by auto
  next
    case False
    with k inv show ?thesis by (auto simp: propagation_inv_def)
  qed
qed

text \<open>
  C20. Failure propagation. When the ledger answers every question, the beads that
  \<open>FailDeferredDependents\<close> fails are exactly the transitive dependents of the failed bead among
  the deferred items, each once, whatever order Go iterates its map in. An item is changed only
  if it was deferred and its bead is one of them, and its failure reason names a blocking bead
  that failed; everything else in the group, independent chains included, is untouched.
\<close>

theorem FailDeferredDependents_exact:
  assumes "FailDeferredDependents order (Some g) root (Some L) = (Some g', propagated, None)"
    and "root \<noteq> []" and "\<And>i F. set (order i F) = set F"
  shows "set propagated = {b. descendant L (group_Items g) root b} - {root}
    \<and> distinct propagated
    \<and> length (group_Items g') = length (group_Items g)
    \<and> (\<forall>k < length (group_Items g). group_Items g' ! k = group_Items g ! k \<or>
         isDeferred (group_Items g ! k) \<and> item_BeadID (group_Items g ! k) \<in> set propagated
         \<and> (\<exists>b \<in> set (root # propagated). edge L b (item_BeadID (group_Items g ! k))
              \<and> group_Items g' ! k = failed_by (group_Items g ! k) b))
    \<and> (\<forall>b \<in> set propagated. \<exists>k < length (group_Items g). item_BeadID (group_Items g ! k) = b
         \<and> isDeferred (group_Items g ! k) \<and> item_Status (group_Items g' ! k) = ItemStatusFailed)"
proof -
  let ?s = "\<lparr>fs_items = group_Items g, fs_failed = [root], fs_propagated = [], fs_changed = True\<rparr>"
  obtain s where l: "failLoop L order ?s = (s, None)"
    and g: "g' = g\<lparr>group_Items := fs_items s\<rparr>" "propagated = fs_propagated s"
    using assms(1,2) by (auto simp: FailDeferredDependents_def split: prod.splits)
  have "propagation_inv L (group_Items g) root ?s"
    by (simp add: propagation_inv_def descendant.root)
  from failLoop_correct [OF l this] assms(3)
  have inv: "propagation_inv L (group_Items g) root s"
    and c: "\<And>b. descendant L (group_Items g) root b \<Longrightarrow> b \<in> set (fs_failed s)"
    using propagation_complete by blast+
  have f: "fs_failed s = root # fs_propagated s" "distinct (fs_failed s)"
    and d: "\<forall>b \<in> set (fs_failed s). descendant L (group_Items g) root b"
    using inv unfolding propagation_inv_def by blast+
  have "set (fs_failed s) = {b. descendant L (group_Items g) root b}"
    using c d by blast
  then have "set (fs_propagated s) = {b. descendant L (group_Items g) root b} - {root}"
    using f by auto
  with inv f show ?thesis unfolding g by (simp add: propagation_inv_def)
qed

lemma firstBlocker_total:
  assumes "\<And>a b. \<exists>v. BlocksEdge L a b = Inr v"
  shows "\<exists>r. firstBlocker L bs x = Inr r"
proof (induction bs)
  case Nil
  show ?case by simp
next
  case (Cons b bs)
  obtain v where "BlocksEdge L b x = Inr v" using assms by blast
  with Cons show ?case by (cases v) auto
qed

definition beads_named :: "FailScan \<Rightarrow> bool" where
  "beads_named s \<longleftrightarrow> [] \<notin> set (fs_failed s) \<and> (\<forall>it \<in> set (fs_items s). item_BeadID it \<noteq> [])"

lemma failPass_total:
  assumes total: "\<And>a b. \<exists>v. BlocksEdge L a b = Inr v" and ord: "\<And>i F. set (order i F) = set F"
  shows "beads_named s \<Longrightarrow> \<forall>i \<in> set is. i < length (fs_items s) \<Longrightarrow>
    \<exists>s'. failPass L order is s = (s', None) \<and> beads_named s'"
proof (induction "is" arbitrary: s)
  case Nil
  then show ?case by simp
next
  case (Cons i "is")
  let ?it = "fs_items s ! i"
  obtain r where r: "firstBlocker L (order i (fs_failed s)) (item_BeadID ?it) = Inr r"
    using firstBlocker_total [OF total] by blast
  show ?case
  proof (cases "isDeferred ?it \<and> item_BeadID ?it \<notin> set (fs_failed s) \<and> r \<noteq> None")
    case True
    then obtain b where b: "r = Some b" by auto
    have ne: "b \<noteq> []" using firstBlocker_Some [of L _ _ b] r b ord Cons.prems(1)
      by (force simp: beads_named_def)
    have f: "FailDeferredItem (Some ?it) b = Inr (failed_by ?it b)"
      using True ne by (simp add: status_ops failed_by_def)
    define t where "t = s\<lparr>fs_items := (fs_items s)[i := failed_by ?it b],
        fs_failed := fs_failed s @ [item_BeadID ?it],
        fs_propagated := fs_propagated s @ [item_BeadID ?it], fs_changed := True\<rparr>"
    have nm: "item_BeadID ?it \<noteq> []" using Cons.prems by (auto simp: beads_named_def)
    have "item_BeadID x \<noteq> []" if "x \<in> set ((fs_items s)[i := failed_by ?it b])" for x
      using that nm Cons.prems(1) set_update_subset_insert [of "fs_items s" i "failed_by ?it b"]
      by (auto simp: beads_named_def)
    then have "beads_named t"
      using Cons.prems(1) nm nm [symmetric] by (simp add: beads_named_def t_def)
    then obtain s' where "failPass L order is t = (s', None) \<and> beads_named s'"
      using Cons.IH [of t] Cons.prems(2) by (auto simp: t_def)
    moreover have "failPass L order (i # is) s = failPass L order is t"
      using True r b f by (simp add: t_def Let_def)
    ultimately show ?thesis by simp
  next
    case False
    then have "failPass L order (i # is) s = failPass L order is s"
      using r by (auto simp: Let_def)
    with Cons show ?thesis by simp
  qed
qed

lemma failLoop_total:
  assumes "\<forall>a b. \<exists>v. BlocksEdge L a b = Inr v" and "\<forall>i F. set (order i F) = set F"
    and "beads_named s"
  shows "\<exists>s'. failLoop L order s = (s', None)"
  using assms
proof (induction L order s rule: failLoop.induct)
  case (1 L order s)
  let ?t = "s\<lparr>fs_changed := False\<rparr>"
  have "beads_named ?t" using 1(4) by (simp add: beads_named_def)
  then obtain t where p: "failPass L order [0..<length (fs_items s)] ?t = (t, None)"
    and n: "beads_named t"
    using failPass_total [of L order ?t "[0..<length (fs_items s)]"] 1(2,3) by auto
  show ?case
  proof (cases "fs_changed t")
    case True
    with 1(1) [OF p [symmetric]] 1(2,3) n p show ?thesis by (subst failLoop.simps) auto
  next
    case False
    with p show ?thesis by (subst failLoop.simps) simp
  qed
qed

text \<open>
  C30. Failure propagation always finishes: for a ledger that answers every edge question and a
  group whose items name their beads, the fixed-point loop ends and reports no error.
\<close>

theorem FailDeferredDependents_total:
  assumes "\<forall>a b. \<exists>v. BlocksEdge L a b = Inr v" and "\<forall>i F. set (order i F) = set F"
    and "\<forall>it \<in> set (group_Items g). item_BeadID it \<noteq> []"
  shows "\<exists>g' propagated. FailDeferredDependents order (Some g) root (Some L) = (Some g', propagated, None)"
proof (cases "root = []")
  case True
  then show ?thesis by (simp add: FailDeferredDependents_def)
next
  case False
  let ?s = "\<lparr>fs_items = group_Items g, fs_failed = [root], fs_propagated = [], fs_changed = True\<rparr>"
  have "beads_named ?s" using assms(3) False by (simp add: beads_named_def)
  from failLoop_total [OF assms(1,2) this] False show ?thesis
    by (auto simp: FailDeferredDependents_def)
qed

lemma example_ledger_total: "\<forall>a b. \<exists>v. BlocksEdge example_ledger a b = Inr v"
  by (simp add: example_ledger_def)

lemma example_group_named: "\<forall>it \<in> set (group_Items example_group). item_BeadID it \<noteq> []"
  by (simp add: example_group_def)

theorem FailDeferredDependents_total_witness:
  "\<exists>g' propagated. FailDeferredDependents (\<lambda>i F. rev F) (Some example_group) ''a'' (Some example_ledger)
     = (Some g', propagated, None)"
  using FailDeferredDependents_total [OF example_ledger_total _ example_group_named,
      of "\<lambda>i F. rev F"] by simp

theorem FailDeferredDependents_exact_witness:
  "\<exists>g' propagated. FailDeferredDependents (\<lambda>i F. F) (Some example_group) ''a'' (Some example_ledger)
       = (Some g', propagated, None)
     \<and> set propagated = {b. descendant example_ledger (group_Items example_group) ''a'' b} - {''a''}
     \<and> ''c'' \<in> set propagated"
proof -
  let ?s = "\<lparr>fs_items = group_Items example_group, fs_failed = [''a''], fs_propagated = [],
     fs_changed = True\<rparr>"
  have "beads_named ?s" using example_group_named by (simp add: beads_named_def)
  from failLoop_total [OF example_ledger_total _ this, of "\<lambda>i F. F"]
  obtain g' p where r: "FailDeferredDependents (\<lambda>i F. F) (Some example_group) ''a''
      (Some example_ledger) = (Some g', p, None)"
    by (auto simp: FailDeferredDependents_def)
  let ?its = "group_Items example_group"
  have "descendant example_ledger ?its ''a'' (item_BeadID (?its ! 1))"
    by (rule descendant.step [OF descendant.root]) (simp_all add: example_group_def example_ledger_def)
  then have "descendant example_ledger ?its ''a'' (item_BeadID (?its ! 2))"
    by (rule descendant.step) (simp_all add: example_group_def example_ledger_def)
  then have "descendant example_ledger ?its ''a'' ''c''" by (simp add: example_group_def)
  with FailDeferredDependents_exact [OF r] r show ?thesis by auto
qed

end
