(* ===== verification/Queue_Validation.thy ===== *)
theory Queue_Validation
  imports Queue_State
begin

text \<open>
  The validation pipeline of queue-submit and queue-append (\<^verbatim>\<open>internal/queue/validation.go\<close>) and its
  wire error codes (\<^verbatim>\<open>errors.go\<close>, \<^verbatim>\<open>recovery.go\<close>).

  \<open>Validate\<close> is a sequence of rules. Each rule is one definition that returns \<open>None\<close> to go on, or
  \<open>Some\<close> with a seam error (\<open>Inl\<close>) or a typed rejection (\<open>Inr\<close>) to stop. The detail map of a
  rejection keeps typed values: an enum value stands for its string, and the two formatted sources
  of the cross-queue rule are kept as their arguments. The length of the JSON encoding of the
  proposed queue is a parameter, since the encoder of the record types is outside the model.
\<close>

section \<open>Reasons, details and codes\<close>

datatype QueueValidationReason =
    ReasonQueueAlreadyActive | ReasonAppendTargetInvalid | ReasonQueueNotAdvancing
  | ReasonBeadNotFound | ReasonBeadNotOpen | ReasonBeadAlreadyDispatched | ReasonDuplicateBeadID
  | ReasonQueueTooLarge | ReasonHandlerPaused | ReasonQueueNameInvalid | ReasonOther string

datatype DetailValue =
    DNil | DString string | DInt int | DStrings "string list"
  | DQueueStatus QueueStatus | DGroupKind GroupKind | DGroupStatus GroupStatus | DBeadStatus BeadStatus
  | DInQueue string | DInQueueGroup string int

record ValidationError =
  ve_Reason :: QueueValidationReason
  ve_Detail :: "string \<rightharpoonup> DetailValue"

record LedgerDepPair =
  ldp_BeadID :: BeadID
  ldp_BlockerBeadID :: BeadID
  ldp_GroupIndex :: int

record HandlerPauseChecker =
  ResolvedAgentType :: "BeadID \<Rightarrow> string + string"
  IsHandlerPaused :: "string \<Rightarrow> string + bool"

fun reason_string :: "QueueValidationReason \<Rightarrow> string" where
  "reason_string ReasonQueueAlreadyActive = ''queue_already_active''"
| "reason_string ReasonAppendTargetInvalid = ''append_target_invalid''"
| "reason_string ReasonQueueNotAdvancing = ''queue_not_advancing''"
| "reason_string ReasonBeadNotFound = ''bead_not_found''"
| "reason_string ReasonBeadNotOpen = ''bead_not_open''"
| "reason_string ReasonBeadAlreadyDispatched = ''bead_already_dispatched''"
| "reason_string ReasonDuplicateBeadID = ''duplicate_bead_id''"
| "reason_string ReasonQueueTooLarge = ''queue_too_large''"
| "reason_string ReasonHandlerPaused = ''handler_paused''"
| "reason_string ReasonQueueNameInvalid = ''queue_name_invalid''"
| "reason_string (ReasonOther s) = s"

fun JSONRPCError :: "QueueValidationReason \<Rightarrow> int \<times> string" where
  "JSONRPCError ReasonQueueAlreadyActive = (-32010, reason_string ReasonQueueAlreadyActive)"
| "JSONRPCError ReasonAppendTargetInvalid = (-32011, reason_string ReasonAppendTargetInvalid)"
| "JSONRPCError ReasonQueueNotAdvancing = (-32012, reason_string ReasonQueueNotAdvancing)"
| "JSONRPCError ReasonBeadNotFound = (-32013, reason_string ReasonBeadNotFound)"
| "JSONRPCError ReasonBeadNotOpen = (-32014, reason_string ReasonBeadNotOpen)"
| "JSONRPCError ReasonBeadAlreadyDispatched = (-32015, reason_string ReasonBeadAlreadyDispatched)"
| "JSONRPCError ReasonDuplicateBeadID = (-32016, reason_string ReasonDuplicateBeadID)"
| "JSONRPCError ReasonQueueTooLarge = (-32017, reason_string ReasonQueueTooLarge)"
| "JSONRPCError ReasonHandlerPaused = (-32018, reason_string ReasonHandlerPaused)"
| "JSONRPCError ReasonQueueNameInvalid = (-32019, reason_string ReasonQueueNameInvalid)"
| "JSONRPCError (ReasonOther _) = (-32099, ''unknown_validation_reason'')"

datatype RecoveryReason =
    RecoveryReasonQueueNotFound | RecoveryReasonQueueNotRecoverable | RecoveryReasonQueueQuarantined
  | RecoveryReasonBeadNotOpen | RecoveryReasonReadFailed | RecoveryReasonWriteFailed
  | RecoveryReasonStaleSnapshot | RecoveryReasonOther string

record RecoveryError =
  re_Reason :: RecoveryReason
  re_NormalizedName :: string
  re_QueueID :: string
  re_ObservedStatus :: QueueStatus
  re_BeadID :: BeadID
  re_BeadStatus :: BeadStatus
  re_Cause :: "string option"

fun RecoveryJSONRPCError :: "RecoveryReason \<Rightarrow> int \<times> string" where
  "RecoveryJSONRPCError RecoveryReasonQueueNotFound = (-32030, ''queue_not_found'')"
| "RecoveryJSONRPCError RecoveryReasonQueueNotRecoverable = (-32031, ''queue_not_recoverable'')"
| "RecoveryJSONRPCError RecoveryReasonQueueQuarantined = (-32032, ''queue_quarantined'')"
| "RecoveryJSONRPCError RecoveryReasonBeadNotOpen = (-32033, ''recovery_bead_not_open'')"
| "RecoveryJSONRPCError RecoveryReasonReadFailed = (-32034, ''recovery_read_failed'')"
| "RecoveryJSONRPCError RecoveryReasonWriteFailed = (-32035, ''recovery_write_failed'')"
| "RecoveryJSONRPCError RecoveryReasonStaleSnapshot = (-32036, ''recovery_stale_snapshot'')"
| "RecoveryJSONRPCError (RecoveryReasonOther _) = (0, [])"

definition RecoveryError_Code :: "RecoveryError \<Rightarrow> int" where
  "RecoveryError_Code e = fst (RecoveryJSONRPCError (re_Reason e))"

section \<open>Queue names\<close>

definition maxQueueNameLen :: nat where "maxQueueNameLen = 64"

definition NormaliseQueueName :: "string \<Rightarrow> string" where
  "NormaliseQueueName name = (if name = [] then QueueNameMain else name)"

definition queueNameChar :: "char \<Rightarrow> bool" where
  "queueNameChar c \<longleftrightarrow> CHR ''a'' \<le> c \<and> c \<le> CHR ''z'' \<or> CHR ''0'' \<le> c \<and> c \<le> CHR ''9'' \<or> c = CHR ''-''"

text \<open>\<^verbatim>\<open>queueNameRE.MatchString\<close>, for the anchored pattern of one or more name characters.\<close>

definition queueNameMatch :: "string \<Rightarrow> bool" where
  "queueNameMatch name \<longleftrightarrow> name \<noteq> [] \<and> list_all queueNameChar name"

definition ValidateQueueName :: "string \<Rightarrow> bool \<times> string" where
  "ValidateQueueName name =
     (if name = [] then (False, ''name must not be empty after normalisation'')
      else if length name > maxQueueNameLen
      then (False, ''name length '' @ itoa (int (length name)) @ '' exceeds max '' @ itoa (int maxQueueNameLen))
      else if \<not> queueNameMatch name then (False, ''name must match [a-z0-9-]+'')
      else (True, []))"

section \<open>The request and the proposed queue\<close>

record ValidationRequest =
  vq_Groups :: "Group list"
  vq_ActiveQueue :: "Queue option"
  vq_OtherQueues :: "Queue option list"
  vq_QueueName :: string
  vq_IsAppend :: bool
  vq_AppendGroupIndex :: int
  vq_PauseChecker :: "HandlerPauseChecker option"

definition maxQueueJSON :: nat where "maxQueueJSON = 1048576"

text \<open>\<^verbatim>\<open>idx >= 0 && idx < len(groups)\<close>, the guard of every indexed access.\<close>

definition validIndex :: "int \<Rightarrow> 'a list \<Rightarrow> bool" where
  "validIndex idx xs \<longleftrightarrow> 0 \<le> idx \<and> idx < int (length xs)"

definition buildProposedQueue :: "ValidationRequest \<Rightarrow> Queue" where
  "buildProposedQueue req =
     (if \<not> vq_IsAppend req
      then (let proposed = NewActiveQueue (zeroQueue\<lparr>queue_SchemaVersion := 1,
                 queue_QueueID := ''00000000-0000-0000-0000-000000000000'', queue_Groups := vq_Groups req\<rparr>) in
        the (CloneQueue (Some proposed)))
      else (case CloneQueue (vq_ActiveQueue req) of
          None \<Rightarrow> zeroQueue
        | Some proposed \<Rightarrow>
            if validIndex (vq_AppendGroupIndex req) (queue_Groups proposed)
            then (let i = nat (vq_AppendGroupIndex req); g = queue_Groups proposed ! i;
                      g' = g\<lparr>group_Items := group_Items g
                             @ concat (map (\<lambda>ng. group_Items (cloneQueueGroup ng)) (vq_Groups req))\<rparr> in
              proposed\<lparr>queue_Groups := (queue_Groups proposed)[i := g']\<rparr>)
            else proposed))"

section \<open>The rules\<close>

datatype SeamError =
    LookupFailed string BeadID string | EdgeFailed BeadID BeadID string
  | AgentTypeFailed BeadID string | PausedFailed string string | MarshalFailed string

type_synonym check = "(SeamError + ValidationError) option"

definition reject :: "QueueValidationReason \<Rightarrow> (string \<times> DetailValue) list \<Rightarrow> check" where
  "reject r d = Some (Inr \<lparr>ve_Reason = r, ve_Detail = map_of d\<rparr>)"

definition ruleName :: "ValidationRequest \<Rightarrow> check" where
  "ruleName req =
     (if \<not> vq_IsAppend req \<and> vq_QueueName req \<noteq> []
      then (case ValidateQueueName (vq_QueueName req) of
          (True, _) \<Rightarrow> None
        | (False, detail) \<Rightarrow> reject ReasonQueueNameInvalid
            [(''name'', DString (vq_QueueName req)), (''detail'', DString detail)])
      else None)"

text \<open>QM-027: the statuses under which the slot of a name is free for a new submit.\<close>

definition slotFree :: "QueueStatus \<Rightarrow> bool" where
  "slotFree st \<longleftrightarrow> st = QueueStatusCompleted \<or> st = QueueStatusPausedByFailure \<or> st = QueueStatusOther []"

definition ruleSingleActive :: "ValidationRequest \<Rightarrow> check" where
  "ruleSingleActive req =
     (if \<not> vq_IsAppend req
      then (case vq_ActiveQueue req of
          None \<Rightarrow> None
        | Some q \<Rightarrow>
            if \<not> slotFree (queue_Status q)
            then reject ReasonQueueAlreadyActive
              [(''existing_queue_id'', DString (queue_QueueID q)), (''existing_status'', DQueueStatus (queue_Status q))]
            else None)
      else None)"

definition targetInvalid :: "int \<Rightarrow> DetailValue \<Rightarrow> DetailValue \<Rightarrow> check" where
  "targetInvalid idx kind st = reject ReasonAppendTargetInvalid
     [(''group_index'', DInt idx), (''actual_kind'', kind), (''actual_status'', st)]"

definition ruleAppendTarget :: "ValidationRequest \<Rightarrow> check" where
  "ruleAppendTarget req =
     (if vq_IsAppend req
      then (case vq_ActiveQueue req of
          None \<Rightarrow> targetInvalid (vq_AppendGroupIndex req) DNil DNil
        | Some q \<Rightarrow>
            if queue_Status q = QueueStatusPausedByFailure \<or> queue_Status q = QueueStatusPausedByDrain
            then reject ReasonQueueNotAdvancing [(''queue_status'', DQueueStatus (queue_Status q))]
            else if \<not> validIndex (vq_AppendGroupIndex req) (queue_Groups q)
            then targetInvalid (vq_AppendGroupIndex req) DNil DNil
            else (let target = queue_Groups q ! nat (vq_AppendGroupIndex req) in
              if group_Kind target \<noteq> GroupKindStream
              then targetInvalid (vq_AppendGroupIndex req) (DGroupKind (group_Kind target)) (DGroupStatus (group_Status target))
              else if group_Status target \<noteq> GroupStatusPending \<and> group_Status target \<noteq> GroupStatusActive
              then targetInvalid (vq_AppendGroupIndex req) (DGroupKind (group_Kind target)) (DGroupStatus (group_Status target))
              else None))
      else None)"

definition allBeadIDs :: "ValidationRequest \<Rightarrow> BeadID list" where
  "allBeadIDs req = concat (map (\<lambda>g. map item_BeadID (group_Items g)) (vq_Groups req))"

text \<open>The three ledger passes share the loop: stop at the first bead whose status fails the rule.\<close>

fun ledgerPass :: "string \<Rightarrow> BeadLedger \<Rightarrow> (BeadID \<Rightarrow> BeadStatus \<Rightarrow> check) \<Rightarrow> BeadID list \<Rightarrow> check" where
  "ledgerPass rule L test [] = None"
| "ledgerPass rule L test (b # bs) = (case LookupStatus L b of
       Inl err \<Rightarrow> Some (Inl (LookupFailed rule b err))
     | Inr st \<Rightarrow> (case test b st of Some r \<Rightarrow> Some r | None \<Rightarrow> ledgerPass rule L test bs))"

definition ruleExists :: "BeadLedger \<Rightarrow> BeadID list \<Rightarrow> check" where
  "ruleExists L ids = ledgerPass ''QM-020'' L (\<lambda>b st.
     if st = BeadStatusNotFound then reject ReasonBeadNotFound [(''bead_id'', DString b)] else None) ids"

definition ruleOpen :: "BeadLedger \<Rightarrow> BeadID list \<Rightarrow> check" where
  "ruleOpen L ids = ledgerPass ''QM-021'' L (\<lambda>b st.
     if st \<noteq> BeadStatusOpen \<and> st \<noteq> BeadStatusInProgress
     then reject ReasonBeadNotOpen [(''bead_id'', DString b), (''actual_status'', DBeadStatus st)] else None) ids"

definition ruleNotInProgress :: "BeadLedger \<Rightarrow> BeadID list \<Rightarrow> check" where
  "ruleNotInProgress L ids = ledgerPass ''QM-022'' L (\<lambda>b st.
     if st = BeadStatusInProgress then reject ReasonBeadAlreadyDispatched [(''bead_id'', DString b)] else None) ids"

text \<open>The beads of the non-terminal items, as the loops of EM-065 and QM-023 test them.\<close>

definition liveBeads :: "Group \<Rightarrow> BeadID list" where
  "liveBeads g = map item_BeadID (filter (\<lambda>it. item_Status it \<noteq> ItemStatusCompleted \<and> item_Status it \<noteq> ItemStatusFailed) (group_Items g))"

fun queuedOwn :: "string \<Rightarrow> int \<Rightarrow> int \<Rightarrow> Group list \<Rightarrow> (BeadID \<rightharpoonup> DetailValue) \<Rightarrow> (BeadID \<rightharpoonup> DetailValue)" where
  "queuedOwn name target gi [] m = m"
| "queuedOwn name target gi (g # gs) m =
     queuedOwn name target (gi + 1) gs
       (if gi = target then m else foldl (\<lambda>m b. m(b \<mapsto> DInQueueGroup name gi)) m (liveBeads g))"

fun queuedOther :: "Queue option list \<Rightarrow> (BeadID \<rightharpoonup> DetailValue) \<Rightarrow> (BeadID \<rightharpoonup> DetailValue)" where
  "queuedOther [] m = m"
| "queuedOther (None # oqs) m = queuedOther oqs m"
| "queuedOther (Some oq # oqs) m =
     queuedOther oqs (foldl (\<lambda>m b. if m b = None then m(b \<mapsto> DInQueue (queue_Name oq)) else m) m
       (concat (map liveBeads (queue_Groups oq))))"

definition em065Queued :: "ValidationRequest \<Rightarrow> (BeadID \<rightharpoonup> DetailValue)" where
  "em065Queued req = queuedOther (vq_OtherQueues req)
     (case vq_ActiveQueue req of
        Some q \<Rightarrow> if vq_IsAppend req
                  then queuedOwn (queue_Name q) (vq_AppendGroupIndex req) 0 (queue_Groups q) Map.empty
                  else Map.empty
      | None \<Rightarrow> Map.empty)"

fun firstQueued :: "(BeadID \<rightharpoonup> DetailValue) \<Rightarrow> BeadID list \<Rightarrow> check" where
  "firstQueued m [] = None"
| "firstQueued m (b # bs) = (case m b of
       Some source \<Rightarrow> reject ReasonBeadAlreadyDispatched [(''bead_id'', DString b), (''existing_queue'', source)]
     | None \<Rightarrow> firstQueued m bs)"

definition ruleCrossQueue :: "ValidationRequest \<Rightarrow> check" where
  "ruleCrossQueue req = firstQueued (em065Queued req) (allBeadIDs req)"

fun collectAgent :: "HandlerPauseChecker \<Rightarrow> string \<Rightarrow> BeadID list \<Rightarrow> SeamError + string list" where
  "collectAgent pc agent [] = Inr []"
| "collectAgent pc agent (b # bs) = (case ResolvedAgentType pc b of
       Inl err \<Rightarrow> Inl (AgentTypeFailed b err)
     | Inr at2 \<Rightarrow> (case collectAgent pc agent bs of
           Inl err \<Rightarrow> Inl err
         | Inr rest \<Rightarrow> Inr (if at2 = agent then b # rest else rest)))"

fun scanPaused :: "HandlerPauseChecker \<Rightarrow> BeadID list \<Rightarrow> BeadID list \<Rightarrow> check" where
  "scanPaused pc allIDs [] = None"
| "scanPaused pc allIDs (b # bs) = (case ResolvedAgentType pc b of
       Inl err \<Rightarrow> Some (Inl (AgentTypeFailed b err))
     | Inr agent \<Rightarrow> (case IsHandlerPaused pc agent of
           Inl err \<Rightarrow> Some (Inl (PausedFailed agent err))
         | Inr True \<Rightarrow> (case collectAgent pc agent allIDs of
               Inl err \<Rightarrow> Some (Inl err)
             | Inr beads \<Rightarrow> reject ReasonHandlerPaused [(''agent_type'', DString agent), (''bead_ids'', DStrings beads)])
         | Inr False \<Rightarrow> scanPaused pc allIDs bs))"

definition rulePaused :: "ValidationRequest \<Rightarrow> check" where
  "rulePaused req = (case vq_PauseChecker req of
       None \<Rightarrow> None
     | Some pc \<Rightarrow> scanPaused pc (allBeadIDs req) (allBeadIDs req))"

text \<open>The two nested seen-maps of QM-023: per group and over the request.\<close>

fun dupInGroup :: "BeadID list \<Rightarrow> BeadID set \<Rightarrow> BeadID set \<Rightarrow> BeadID + BeadID set" where
  "dupInGroup [] intra seen = Inr seen"
| "dupInGroup (b # bs) intra seen =
     (if b \<in> intra then Inl b
      else if b \<in> seen then Inl b
      else dupInGroup bs (insert b intra) (insert b seen))"

fun dupInGroups :: "Group list \<Rightarrow> BeadID set \<Rightarrow> check" where
  "dupInGroups [] seen = None"
| "dupInGroups (g # gs) seen = (case dupInGroup (map item_BeadID (group_Items g)) {} seen of
       Inl b \<Rightarrow> reject ReasonDuplicateBeadID [(''bead_id'', DString b)]
     | Inr seen' \<Rightarrow> dupInGroups gs seen')"

fun firstIn :: "BeadID set \<Rightarrow> BeadID list \<Rightarrow> check" where
  "firstIn S [] = None"
| "firstIn S (b # bs) =
     (if b \<in> S then reject ReasonDuplicateBeadID [(''bead_id'', DString b)] else firstIn S bs)"

definition ruleTargetDuplicates :: "ValidationRequest \<Rightarrow> check" where
  "ruleTargetDuplicates req = (case vq_ActiveQueue req of
       None \<Rightarrow> None
     | Some q \<Rightarrow>
         if vq_IsAppend req \<and> validIndex (vq_AppendGroupIndex req) (queue_Groups q)
         then firstIn (set (liveBeads (queue_Groups q ! nat (vq_AppendGroupIndex req)))) (allBeadIDs req)
         else None)"

definition ruleSize :: "(Queue \<Rightarrow> string + nat) \<Rightarrow> ValidationRequest \<Rightarrow> check" where
  "ruleSize jsonLen req = (case jsonLen (buildProposedQueue req) of
       Inl err \<Rightarrow> Some (Inl (MarshalFailed err))
     | Inr n \<Rightarrow>
         if n > maxQueueJSON
         then reject ReasonQueueTooLarge [(''proposed_bytes'', DInt (int n)), (''limit'', DInt (int maxQueueJSON))]
         else None)"

section \<open>Notices and the pipeline\<close>

text \<open>QM-025 for one ordered pair of positions of one group.\<close>

definition noticeFor ::
    "BeadLedger \<Rightarrow> int \<Rightarrow> BeadID \<Rightarrow> BeadID \<Rightarrow> SeamError + LedgerDepPair list" where
  "noticeFor L gi a b = (case BlocksEdge L a b of
       Inl err \<Rightarrow> Inl (EdgeFailed a b err)
     | Inr False \<Rightarrow> Inr []
     | Inr True \<Rightarrow> (case LookupStatus L a of
           Inl err \<Rightarrow> Inl (LookupFailed ''QM-025'' a err)
         | Inr st \<Rightarrow>
             if st \<noteq> BeadStatusOpen \<and> st \<noteq> BeadStatusInProgress then Inr []
             else Inr [\<lparr>ldp_BeadID = b, ldp_BlockerBeadID = a, ldp_GroupIndex = gi\<rparr>]))"

fun collectNotices :: "(SeamError + LedgerDepPair list) list \<Rightarrow> SeamError + LedgerDepPair list" where
  "collectNotices [] = Inr []"
| "collectNotices (r # rs) = (case r of
       Inl err \<Rightarrow> Inl err
     | Inr ns \<Rightarrow> (case collectNotices rs of Inl err \<Rightarrow> Inl err | Inr ns' \<Rightarrow> Inr (ns @ ns')))"

definition groupNotices :: "BeadLedger \<Rightarrow> int \<Rightarrow> Group \<Rightarrow> (SeamError + LedgerDepPair list) list" where
  "groupNotices L gi g = (let n = length (group_Items g) in
     [noticeFor L gi (item_BeadID (group_Items g ! i)) (item_BeadID (group_Items g ! j)).
        i \<leftarrow> [0..<n], j \<leftarrow> [0..<n], i \<noteq> j])"

definition notices :: "BeadLedger \<Rightarrow> ValidationRequest \<Rightarrow> SeamError + LedgerDepPair list" where
  "notices L req = collectNotices (concat (map (\<lambda>(gi, g).
     groupNotices L (if vq_IsAppend req then vq_AppendGroupIndex req else int gi) g)
     (enumerate 0 (vq_Groups req))))"

fun firstStop :: "check list \<Rightarrow> check" where
  "firstStop [] = None"
| "firstStop (c # cs) = (case c of Some r \<Rightarrow> Some r | None \<Rightarrow> firstStop cs)"

definition rules :: "(Queue \<Rightarrow> string + nat) \<Rightarrow> ValidationRequest \<Rightarrow> BeadLedger \<Rightarrow> check list" where
  "rules jsonLen req L =
     [ruleName req, ruleSingleActive req, ruleAppendTarget req,
      ruleExists L (allBeadIDs req), ruleOpen L (allBeadIDs req), ruleNotInProgress L (allBeadIDs req),
      ruleCrossQueue req, rulePaused req, dupInGroups (vq_Groups req) {}, ruleTargetDuplicates req,
      ruleSize jsonLen req]"

definition Validate ::
    "(Queue \<Rightarrow> string + nat) \<Rightarrow> ValidationRequest \<Rightarrow> BeadLedger
     \<Rightarrow> SeamError + (ValidationError list \<times> LedgerDepPair list)" where
  "Validate jsonLen req L = (case firstStop (rules jsonLen req L) of
       Some (Inl err) \<Rightarrow> Inl err
     | Some (Inr ve) \<Rightarrow> Inr ([ve], [])
     | None \<Rightarrow> (case notices L req of Inl err \<Rightarrow> Inl err | Inr ns \<Rightarrow> Inr ([], ns)))"

section \<open>What each rule lets pass\<close>

lemma reject_not_None [simp]: "reject r d \<noteq> None" "targetInvalid i k st \<noteq> None"
  by (simp_all add: reject_def targetInvalid_def)

lemma firstStop_None: "firstStop cs = None \<longleftrightarrow> (\<forall>c \<in> set cs. c = None)"
  by (induction cs) (auto split: option.splits)

lemma ValidateQueueName_ok:
  "fst (ValidateQueueName name) \<longleftrightarrow> length name \<le> 64 \<and> queueNameMatch name"
  by (auto simp: ValidateQueueName_def queueNameMatch_def maxQueueNameLen_def)

lemma ruleName_None:
  "ruleName req = None \<longleftrightarrow>
     (\<not> vq_IsAppend req \<and> vq_QueueName req \<noteq> [] \<longrightarrow>
        length (vq_QueueName req) \<le> 64 \<and> queueNameMatch (vq_QueueName req))"
  using ValidateQueueName_ok [of "vq_QueueName req"]
  by (auto simp: ruleName_def split: prod.splits bool.splits)

lemma ruleSingleActive_None:
  "ruleSingleActive req = None \<longleftrightarrow>
     (\<not> vq_IsAppend req \<longrightarrow> (\<forall>q. vq_ActiveQueue req = Some q \<longrightarrow> slotFree (queue_Status q)))"
  by (auto simp: ruleSingleActive_def split: option.splits)

text \<open>QM-024: the group an append may target.\<close>

definition appendTarget :: "ValidationRequest \<Rightarrow> Queue \<Rightarrow> bool" where
  "appendTarget req q \<longleftrightarrow> vq_ActiveQueue req = Some q
     \<and> queue_Status q \<noteq> QueueStatusPausedByFailure \<and> queue_Status q \<noteq> QueueStatusPausedByDrain
     \<and> validIndex (vq_AppendGroupIndex req) (queue_Groups q)
     \<and> group_Kind (queue_Groups q ! nat (vq_AppendGroupIndex req)) = GroupKindStream
     \<and> group_Status (queue_Groups q ! nat (vq_AppendGroupIndex req)) \<in> {GroupStatusPending, GroupStatusActive}"

lemma ruleAppendTarget_None:
  "ruleAppendTarget req = None \<longleftrightarrow> (vq_IsAppend req \<longrightarrow> (\<exists>q. appendTarget req q))"
  by (auto simp: ruleAppendTarget_def appendTarget_def Let_def split: option.splits)

lemma ledgerPass_None:
  "ledgerPass rule L test ids = None \<longleftrightarrow>
     (\<forall>b \<in> set ids. \<exists>st. LookupStatus L b = Inr st \<and> test b st = None)"
  by (induction ids) (auto split: sum.splits option.splits)

lemma ledger_rules_None:
  "ruleExists L ids = None \<and> ruleOpen L ids = None \<and> ruleNotInProgress L ids = None \<longleftrightarrow>
     (\<forall>b \<in> set ids. LookupStatus L b = Inr BeadStatusOpen)"
  by (auto simp: ruleExists_def ruleOpen_def ruleNotInProgress_def ledgerPass_None)
    (metis BeadStatus.distinct(1) reject_not_None(1) sum.sel(2))

lemma firstQueued_None: "firstQueued m ids = None \<longleftrightarrow> (\<forall>b \<in> set ids. m b = None)"
  by (induction ids) (auto split: option.splits)

lemma firstIn_None: "firstIn S ids = None \<longleftrightarrow> (\<forall>b \<in> set ids. b \<notin> S)"
  by (induction ids) auto

lemma dom_foldl_upd:
  "dom (foldl (\<lambda>m b. m(b \<mapsto> v b)) m bs) = dom m \<union> set bs"
  "dom (foldl (\<lambda>m b. if m b = None then m(b \<mapsto> v b) else m) m bs) = dom m \<union> set bs"
  by (induction bs arbitrary: m) (auto simp: insert_dom domIff)

lemma dom_queuedOther:
  "dom (queuedOther oqs m) = dom m \<union> {b. \<exists>oq g. Some oq \<in> set oqs \<and> g \<in> set (queue_Groups oq) \<and> b \<in> set (liveBeads g)}"
  by (induction oqs m rule: queuedOther.induct) (auto simp: dom_foldl_upd)

lemma dom_queuedOwn:
  "dom (queuedOwn name target gi gs m) =
     dom m \<union> {b. \<exists>k < length gs. gi + int k \<noteq> target \<and> b \<in> set (liveBeads (gs ! k))}"
proof (induction gs arbitrary: gi m)
  case Nil
  show ?case by simp
next
  case (Cons g gs)
  have split: "(\<exists>k < length (g # gs). gi + int k \<noteq> target \<and> b \<in> set (liveBeads ((g # gs) ! k))) \<longleftrightarrow>
      gi \<noteq> target \<and> b \<in> set (liveBeads g)
      \<or> (\<exists>k < length gs. gi + 1 + int k \<noteq> target \<and> b \<in> set (liveBeads (gs ! k)))" for b
    unfolding length_Cons Ex_less_Suc2 by (simp add: algebra_simps)
  show ?case unfolding queuedOwn.simps Cons.IH split by (auto simp: dom_foldl_upd)
qed

lemma dupInGroup_eq:
  assumes "intra \<subseteq> seen"
  shows "(\<exists>S. dupInGroup bs intra seen = Inr S) \<longleftrightarrow> distinct bs \<and> set bs \<inter> seen = {}"
    and "dupInGroup bs intra seen = Inr S \<Longrightarrow> S = seen \<union> set bs"
  using assms
proof (induction bs arbitrary: intra seen)
  case (Cons b bs)
  { case 1
    then show ?case using Cons.IH(1) [of "insert b intra" "insert b seen"] by auto
  next
    case 2
    then show ?case using Cons.IH(2) [of "insert b intra" "insert b seen"] by (auto split: if_splits)
  }
qed auto

lemma dupInGroups_None:
  "dupInGroups gs seen = None \<longleftrightarrow>
     distinct (concat (map (\<lambda>g. map item_BeadID (group_Items g)) gs))
     \<and> set (concat (map (\<lambda>g. map item_BeadID (group_Items g)) gs)) \<inter> seen = {}"
proof (induction gs arbitrary: seen)
  case Nil
  show ?case by simp
next
  case (Cons g gs)
  let ?ids = "map item_BeadID (group_Items g)"
  show ?case
  proof (cases "dupInGroup ?ids {} seen")
    case (Inl b)
    then have "\<not> (distinct ?ids \<and> set ?ids \<inter> seen = {})"
      using dupInGroup_eq(1) [of "{}" seen ?ids] by auto
    with Inl show ?thesis by auto
  next
    case (Inr S)
    then have "S = seen \<union> set ?ids" "distinct ?ids" "set ?ids \<inter> seen = {}"
      using dupInGroup_eq [of "{}" seen ?ids] by auto
    moreover define rest where "rest = concat (map (\<lambda>g. map item_BeadID (group_Items g)) gs)"
    moreover have "dupInGroups (g # gs) seen = None \<longleftrightarrow> distinct rest \<and> set rest \<inter> S = {}"
      using Inr Cons.IH [of S] by (simp add: rest_def)
    ultimately show ?thesis by (simp del: dupInGroups.simps set_map) blast
  qed
qed

lemma scanPaused_None:
  "scanPaused pc allIDs ids = None \<longleftrightarrow>
     (\<forall>b \<in> set ids. \<exists>agent. ResolvedAgentType pc b = Inr agent \<and> IsHandlerPaused pc agent = Inr False)"
  by (induction ids) (auto split: sum.splits bool.splits)

lemma ruleSize_None:
  "ruleSize jsonLen req = None \<longleftrightarrow> (\<exists>n \<le> 1048576. jsonLen (buildProposedQueue req) = Inr n)"
  by (auto simp: ruleSize_def maxQueueJSON_def split: sum.splits)

section \<open>Acceptance\<close>

text \<open>The beads some live item of the queue holds.\<close>

definition holds :: "Queue \<Rightarrow> BeadID \<Rightarrow> bool" where
  "holds q b \<longleftrightarrow> (\<exists>g \<in> set (queue_Groups q). b \<in> set (liveBeads g))"

text \<open>The contract of an acceptable request, independent of the order of the rules.\<close>

definition acceptable :: "(Queue \<Rightarrow> string + nat) \<Rightarrow> ValidationRequest \<Rightarrow> BeadLedger \<Rightarrow> bool" where
  "acceptable jsonLen req L \<longleftrightarrow>
     (if vq_IsAppend req
      then (\<exists>q. appendTarget req q \<and> (\<forall>b \<in> set (allBeadIDs req). \<not> holds q b))
      else (vq_QueueName req \<noteq> [] \<longrightarrow> length (vq_QueueName req) \<le> 64 \<and> queueNameMatch (vq_QueueName req))
        \<and> (\<forall>q. vq_ActiveQueue req = Some q \<longrightarrow> slotFree (queue_Status q)))
     \<and> (\<forall>b \<in> set (allBeadIDs req). LookupStatus L b = Inr BeadStatusOpen)
     \<and> distinct (allBeadIDs req)
     \<and> (\<forall>oq. Some oq \<in> set (vq_OtherQueues req) \<longrightarrow> (\<forall>b \<in> set (allBeadIDs req). \<not> holds oq b))
     \<and> (\<forall>pc. vq_PauseChecker req = Some pc \<longrightarrow> (\<forall>b \<in> set (allBeadIDs req).
          \<exists>agent. ResolvedAgentType pc b = Inr agent \<and> IsHandlerPaused pc agent = Inr False))
     \<and> (\<exists>n \<le> 1048576. jsonLen (buildProposedQueue req) = Inr n)"

lemma cross_and_target_None:
  assumes "vq_IsAppend req \<longrightarrow> (\<exists>q. appendTarget req q)"
  shows "ruleCrossQueue req = None \<and> ruleTargetDuplicates req = None \<longleftrightarrow>
     (\<forall>oq. Some oq \<in> set (vq_OtherQueues req) \<longrightarrow> (\<forall>b \<in> set (allBeadIDs req). \<not> holds oq b))
     \<and> (vq_IsAppend req \<longrightarrow> (\<forall>q. appendTarget req q \<longrightarrow> (\<forall>b \<in> set (allBeadIDs req). \<not> holds q b)))"
proof -
  have cross: "ruleCrossQueue req = None \<longleftrightarrow> (\<forall>b \<in> set (allBeadIDs req). b \<notin> dom (em065Queued req))"
    by (auto simp: ruleCrossQueue_def firstQueued_None domIff)
  show ?thesis
  proof (cases "vq_IsAppend req")
    case False
    have t: "ruleTargetDuplicates req = None" using False by (simp add: ruleTargetDuplicates_def split: option.splits)
    have "dom (em065Queued req) = {b. \<exists>oq. Some oq \<in> set (vq_OtherQueues req) \<and> holds oq b}"
      using False by (auto simp: em065Queued_def dom_queuedOther holds_def split: option.splits)
    with t cross False show ?thesis by auto
  next
    case True
    with assms obtain q where q: "appendTarget req q" by blast
    let ?i = "nat (vq_AppendGroupIndex req)"
    have uniq: "appendTarget req q' \<longleftrightarrow> q' = q" for q' using q by (auto simp: appendTarget_def)
    have i: "?i < length (queue_Groups q)" "vq_AppendGroupIndex req = int ?i" "vq_ActiveQueue req = Some q"
      using q by (auto simp: appendTarget_def validIndex_def)
    have d: "dom (em065Queued req) = {b. \<exists>oq. Some oq \<in> set (vq_OtherQueues req) \<and> holds oq b}
        \<union> {b. \<exists>k < length (queue_Groups q). k \<noteq> ?i \<and> b \<in> set (liveBeads (queue_Groups q ! k))}"
      using True i(2,3) by (auto simp: em065Queued_def dom_queuedOther dom_queuedOwn holds_def)
    have t: "ruleTargetDuplicates req = None \<longleftrightarrow> (\<forall>b \<in> set (allBeadIDs req). b \<notin> set (liveBeads (queue_Groups q ! ?i)))"
      using True i q by (auto simp: ruleTargetDuplicates_def firstIn_None appendTarget_def)
    have h: "holds q b \<longleftrightarrow> b \<in> set (liveBeads (queue_Groups q ! ?i))
        \<or> (\<exists>k < length (queue_Groups q). k \<noteq> ?i \<and> b \<in> set (liveBeads (queue_Groups q ! k)))" for b
      using i(1) unfolding holds_def by (metis in_set_conv_nth)
    show ?thesis unfolding cross t d uniq using True by (auto simp: h)
  qed
qed

lemma rules_None: "firstStop (rules jsonLen req L) = None \<longleftrightarrow> acceptable jsonLen req L"
proof (cases "ruleAppendTarget req = None")
  case False
  then show ?thesis
    unfolding firstStop_None rules_def acceptable_def using ruleAppendTarget_None [of req] by auto
next
  case True
  then have tgt: "vq_IsAppend req \<longrightarrow> (\<exists>q. appendTarget req q)" by (simp add: ruleAppendTarget_None)
  have "firstStop (rules jsonLen req L) = None \<longleftrightarrow>
      ruleName req = None \<and> ruleSingleActive req = None
      \<and> (ruleExists L (allBeadIDs req) = None \<and> ruleOpen L (allBeadIDs req) = None \<and> ruleNotInProgress L (allBeadIDs req) = None)
      \<and> (ruleCrossQueue req = None \<and> ruleTargetDuplicates req = None)
      \<and> rulePaused req = None \<and> dupInGroups (vq_Groups req) {} = None \<and> ruleSize jsonLen req = None"
    unfolding firstStop_None rules_def using True by auto
  also have "\<dots> \<longleftrightarrow> acceptable jsonLen req L"
    unfolding ledger_rules_None cross_and_target_None [OF tgt] ruleName_None ruleSingleActive_None
      dupInGroups_None ruleSize_None acceptable_def
    using tgt by (auto simp: rulePaused_def scanPaused_None allBeadIDs_def [symmetric] appendTarget_def split: option.splits)
  finally show ?thesis .
qed

section \<open>Notices\<close>

lemma collectNotices_Inr:
  "collectNotices rs = Inr ns \<longleftrightarrow> (\<forall>r \<in> set rs. \<exists>m. r = Inr m) \<and> ns = concat (map projr rs)"
proof (induction rs arbitrary: ns)
  case Nil
  show ?case by auto
next
  case (Cons r rs)
  show ?case
  proof (cases "collectNotices rs")
    case (Inl e)
    with Cons.IH have "\<not> (\<forall>r \<in> set rs. \<exists>m. r = Inr m)" by (metis Inl_Inr_False)
    with Inl show ?thesis by (auto split: sum.splits)
  next
    case (Inr ns')
    with Cons.IH show ?thesis by (cases r) auto
  qed
qed

lemma noticeFor_set:
  assumes "noticeFor L gi a b = Inr m" "LookupStatus L a = Inr BeadStatusOpen"
  shows "p \<in> set m \<longleftrightarrow> BlocksEdge L a b = Inr True
     \<and> p = \<lparr>ldp_BeadID = b, ldp_BlockerBeadID = a, ldp_GroupIndex = gi\<rparr>"
  using assms by (auto simp: noticeFor_def split: sum.splits bool.splits if_splits)

lemma noticeFor_answered:
  assumes "BlocksEdge L a b = Inr e" "LookupStatus L a = Inr BeadStatusOpen"
  shows "\<exists>m. noticeFor L gi a b = Inr m"
  using assms by (cases e) (auto simp: noticeFor_def)

lemma set_groupNotices:
  "r \<in> set (groupNotices L gi g) \<longleftrightarrow>
     (\<exists>i j. i < length (group_Items g) \<and> j < length (group_Items g) \<and> i \<noteq> j
        \<and> r = noticeFor L gi (item_BeadID (group_Items g ! i)) (item_BeadID (group_Items g ! j)))"
  unfolding groupNotices_def Let_def set_pairs by auto

definition noticeIndex :: "ValidationRequest \<Rightarrow> nat \<Rightarrow> int" where
  "noticeIndex req k = (if vq_IsAppend req then vq_AppendGroupIndex req else int k)"

lemma set_noticeList:
  "r \<in> set (concat (map (\<lambda>(gi, g). groupNotices L (if vq_IsAppend req then vq_AppendGroupIndex req else int gi) g)
       (enumerate 0 (vq_Groups req)))) \<longleftrightarrow>
     (\<exists>k < length (vq_Groups req). r \<in> set (groupNotices L (noticeIndex req k) (vq_Groups req ! k)))"
  unfolding set_concat_enumerate noticeIndex_def ..

text \<open>The ledger answers the blocks question for every pair of beads of one group.\<close>

definition edges_answered :: "BeadLedger \<Rightarrow> ValidationRequest \<Rightarrow> bool" where
  "edges_answered L req \<longleftrightarrow> (\<forall>a \<in> set (allBeadIDs req). \<forall>b \<in> set (allBeadIDs req). \<exists>e. BlocksEdge L a b = Inr e)"

lemma group_bead_in_all:
  "k < length (vq_Groups req) \<Longrightarrow> i < length (group_Items (vq_Groups req ! k)) \<Longrightarrow>
   item_BeadID (group_Items (vq_Groups req ! k) ! i) \<in> set (allBeadIDs req)"
  by (auto simp: allBeadIDs_def intro!: bexI [of _ "vq_Groups req ! k"])

lemma notices_answered:
  assumes "acceptable jsonLen req L" "edges_answered L req"
  shows "\<exists>ns. notices L req = Inr ns"
proof -
  have "\<exists>m. r = Inr m" if "r \<in> set (groupNotices L (noticeIndex req k) (vq_Groups req ! k))"
    "k < length (vq_Groups req)" for r k
  proof -
    from that(1) obtain i j where ij: "i < length (group_Items (vq_Groups req ! k))" "j < length (group_Items (vq_Groups req ! k))"
      and r: "r = noticeFor L (noticeIndex req k) (item_BeadID (group_Items (vq_Groups req ! k) ! i))
        (item_BeadID (group_Items (vq_Groups req ! k) ! j))"
      unfolding set_groupNotices by blast
    note mem = group_bead_in_all [OF that(2) ij(1)] group_bead_in_all [OF that(2) ij(2)]
    from assms mem obtain e where "BlocksEdge L (item_BeadID (group_Items (vq_Groups req ! k) ! i))
        (item_BeadID (group_Items (vq_Groups req ! k) ! j)) = Inr e"
      unfolding edges_answered_def by blast
    moreover have "LookupStatus L (item_BeadID (group_Items (vq_Groups req ! k) ! i)) = Inr BeadStatusOpen"
      using assms(1) mem(1) by (simp add: acceptable_def)
    ultimately show ?thesis unfolding r by (rule noticeFor_answered)
  qed
  then have "\<forall>r \<in> set (concat (map (\<lambda>(gi, g). groupNotices L (if vq_IsAppend req then vq_AppendGroupIndex req else int gi) g)
       (enumerate 0 (vq_Groups req)))). \<exists>m. r = Inr m"
    unfolding Ball_def set_noticeList by blast
  then show ?thesis unfolding notices_def collectNotices_Inr by blast
qed

text \<open>The beads at two different positions of the group that a notice with index \<open>gi\<close> speaks of.\<close>

definition same_group :: "ValidationRequest \<Rightarrow> int \<Rightarrow> BeadID \<Rightarrow> BeadID \<Rightarrow> bool" where
  "same_group req gi a b \<longleftrightarrow> (\<exists>k i j. k < length (vq_Groups req) \<and> gi = noticeIndex req k
     \<and> i < length (group_Items (vq_Groups req ! k)) \<and> j < length (group_Items (vq_Groups req ! k)) \<and> i \<noteq> j
     \<and> a = item_BeadID (group_Items (vq_Groups req ! k) ! i) \<and> b = item_BeadID (group_Items (vq_Groups req ! k) ! j))"

lemma notices_set:
  assumes "acceptable jsonLen req L" "notices L req = Inr ns"
  shows "p \<in> set ns \<longleftrightarrow> same_group req (ldp_GroupIndex p) (ldp_BlockerBeadID p) (ldp_BeadID p)
     \<and> BlocksEdge L (ldp_BlockerBeadID p) (ldp_BeadID p) = Inr True"
proof -
  let ?rs = "concat (map (\<lambda>(gi, g). groupNotices L (if vq_IsAppend req then vq_AppendGroupIndex req else int gi) g)
       (enumerate 0 (vq_Groups req)))"
  have rs: "\<forall>r \<in> set ?rs. \<exists>m. r = Inr m" "ns = concat (map projr ?rs)"
    using assms(2) unfolding notices_def collectNotices_Inr by auto
  have "p \<in> set ns \<longleftrightarrow> (\<exists>r \<in> set ?rs. p \<in> set (projr r))" by (simp add: rs(2))
  also have "\<dots> \<longleftrightarrow> (\<exists>k i j. k < length (vq_Groups req) \<and> i < length (group_Items (vq_Groups req ! k))
      \<and> j < length (group_Items (vq_Groups req ! k)) \<and> i \<noteq> j
      \<and> p \<in> set (projr (noticeFor L (noticeIndex req k) (item_BeadID (group_Items (vq_Groups req ! k) ! i))
            (item_BeadID (group_Items (vq_Groups req ! k) ! j)))))"
    unfolding Bex_def set_noticeList set_groupNotices by blast
  also have "\<dots> \<longleftrightarrow> (\<exists>k i j. k < length (vq_Groups req) \<and> i < length (group_Items (vq_Groups req ! k))
      \<and> j < length (group_Items (vq_Groups req ! k)) \<and> i \<noteq> j
      \<and> BlocksEdge L (item_BeadID (group_Items (vq_Groups req ! k) ! i)) (item_BeadID (group_Items (vq_Groups req ! k) ! j)) = Inr True
      \<and> p = \<lparr>ldp_BeadID = item_BeadID (group_Items (vq_Groups req ! k) ! j),
             ldp_BlockerBeadID = item_BeadID (group_Items (vq_Groups req ! k) ! i), ldp_GroupIndex = noticeIndex req k\<rparr>)"
  proof -
    have "(p \<in> set (projr (noticeFor L (noticeIndex req k) (item_BeadID (group_Items (vq_Groups req ! k) ! i))
            (item_BeadID (group_Items (vq_Groups req ! k) ! j))))) =
        (BlocksEdge L (item_BeadID (group_Items (vq_Groups req ! k) ! i)) (item_BeadID (group_Items (vq_Groups req ! k) ! j)) = Inr True
         \<and> p = \<lparr>ldp_BeadID = item_BeadID (group_Items (vq_Groups req ! k) ! j),
             ldp_BlockerBeadID = item_BeadID (group_Items (vq_Groups req ! k) ! i), ldp_GroupIndex = noticeIndex req k\<rparr>)"
    if b: "k < length (vq_Groups req)" "i < length (group_Items (vq_Groups req ! k))"
      "j < length (group_Items (vq_Groups req ! k))" "i \<noteq> j" for k i j
    proof -
    let ?a = "item_BeadID (group_Items (vq_Groups req ! k) ! i)" and ?b = "item_BeadID (group_Items (vq_Groups req ! k) ! j)"
    have "noticeFor L (noticeIndex req k) ?a ?b \<in> set ?rs"
      unfolding set_noticeList set_groupNotices using b by blast
    with rs(1) obtain m where m: "noticeFor L (noticeIndex req k) ?a ?b = Inr m" by blast
    have "LookupStatus L ?a = Inr BeadStatusOpen"
      using assms(1) group_bead_in_all [OF b(1,2)] by (simp add: acceptable_def)
    from noticeFor_set [OF m this]
    show ?thesis by (simp add: m)
    qed
    then show ?thesis by blast
  qed
  also have "\<dots> \<longleftrightarrow> same_group req (ldp_GroupIndex p) (ldp_BlockerBeadID p) (ldp_BeadID p)
     \<and> BlocksEdge L (ldp_BlockerBeadID p) (ldp_BeadID p) = Inr True"
    unfolding same_group_def by (cases p) fastforce
  finally show ?thesis .
qed

section \<open>Promises of validation\<close>

text \<open>
  C18. Validation accepts exactly the acceptable requests. When the ledger answers every blocks
  question about the submitted beads, a request passes if and only if: a submit has a well-formed
  name and its slot is free, an append targets a pending or active stream group of a queue that is
  not paused by failure or drain; every bead is open in the ledger; no bead occurs twice; no bead
  is held by a live item of another queue, nor, for an append, of any group of the target queue; no
  handler of a bead is paused; and the proposed queue fits in one mebibyte. A result is never both:
  it carries at most one rejection, and notices only without one.
\<close>
theorem Validate_accepts_iff:
  assumes "edges_answered L req"
  shows "((\<exists>ns. Validate jsonLen req L = Inr ([], ns)) \<longleftrightarrow> acceptable jsonLen req L)
     \<and> (\<forall>ves ns. Validate jsonLen req L = Inr (ves, ns) \<longrightarrow> length ves \<le> 1 \<and> (ves = [] \<or> ns = []))"
proof (cases "firstStop (rules jsonLen req L)")
  case None
  then have a: "acceptable jsonLen req L" by (simp add: rules_None)
  from notices_answered [OF a assms] obtain ns where "notices L req = Inr ns" ..
  with None a show ?thesis by (simp add: Validate_def)
next
  case (Some r)
  then have "\<not> acceptable jsonLen req L" by (metis option.distinct(1) rules_None)
  with Some show ?thesis by (cases r) (auto simp: Validate_def)
qed

text \<open>
  The parallelism notices are exact. For an accepted request the notices name exactly the pairs
  of beads at different positions of one submitted group whose blocks edge the ledger declares,
  under the index of that group, which for an append is the target group's.
\<close>
theorem Validate_notices_exact:
  assumes "Validate jsonLen req L = Inr ([], ns)"
  shows "p \<in> set ns \<longleftrightarrow> same_group req (ldp_GroupIndex p) (ldp_BlockerBeadID p) (ldp_BeadID p)
     \<and> BlocksEdge L (ldp_BlockerBeadID p) (ldp_BeadID p) = Inr True"
proof (rule notices_set)
  from assms have f: "firstStop (rules jsonLen req L) = None" "notices L req = Inr ns"
    by (auto simp: Validate_def split: option.splits sum.splits)
  show "acceptable jsonLen req L" using f(1) by (simp add: rules_None)
  show "notices L req = Inr ns" by (rule f(2))
qed

definition wit_vitem :: "BeadID \<Rightarrow> Item" where
  "wit_vitem b = NewPendingItem (zeroItem\<lparr>item_BeadID := b\<rparr>)"

definition wit_vreq :: ValidationRequest where
  "wit_vreq = \<lparr>vq_Groups = [zeroGroup\<lparr>group_Items := [wit_vitem ''a'', wit_vitem ''b'']\<rparr>],
     vq_ActiveQueue = None, vq_OtherQueues = [None, Some zeroQueue], vq_QueueName = ''main'',
     vq_IsAppend = False, vq_AppendGroupIndex = 0, vq_PauseChecker = None\<rparr>"

definition wit_vledger :: BeadLedger where
  "wit_vledger = \<lparr>LookupStatus = (\<lambda>b. Inr BeadStatusOpen),
     BlocksEdge = (\<lambda>a b. Inr (a = ''a'' \<and> b = ''b''))\<rparr>"

lemmas wit_vreq_defs = wit_vreq_def wit_vitem_def wit_vledger_def NewPendingItem_def setItemStatus_def
  zeroItem_def zeroGroup_def zeroQueue_def

lemma wit_vreq_acceptable: "acceptable (\<lambda>q. Inr 10) wit_vreq wit_vledger"
proof -
  have n: "queueNameMatch ''main''" by (simp add: queueNameMatch_def queueNameChar_def)
  show ?thesis
    by (auto simp: acceptable_def wit_vreq_defs n allBeadIDs_def holds_def)
qed

lemma wit_vreq_edges: "edges_answered wit_vledger wit_vreq"
  by (simp add: edges_answered_def wit_vledger_def)

theorem Validate_accepts_iff_witness:
  "\<exists>ns. Validate (\<lambda>q. Inr 10) wit_vreq wit_vledger = Inr ([], ns)"
  using Validate_accepts_iff [OF wit_vreq_edges, of "\<lambda>q. Inr 10"] wit_vreq_acceptable by blast

theorem Validate_notices_exact_witness:
  "\<exists>ns. Validate (\<lambda>q. Inr 10) wit_vreq wit_vledger = Inr ([], ns)
     \<and> \<lparr>ldp_BeadID = ''b'', ldp_BlockerBeadID = ''a'', ldp_GroupIndex = 0\<rparr> \<in> set ns"
proof -
  have "firstStop (rules (\<lambda>q. Inr 10) wit_vreq wit_vledger) = None"
    using wit_vreq_acceptable by (simp add: rules_None)
  then obtain ns where v: "Validate (\<lambda>q. Inr 10) wit_vreq wit_vledger = Inr ([], ns)"
    using notices_answered [OF wit_vreq_acceptable wit_vreq_edges] by (auto simp: Validate_def)
  have "same_group wit_vreq 0 ''a'' ''b''"
    unfolding same_group_def
    by (rule exI [of _ 0], rule exI [of _ 0], rule exI [of _ 1]) (simp add: wit_vreq_defs noticeIndex_def)
  with v Validate_notices_exact [OF v, of "\<lparr>ldp_BeadID = ''b'', ldp_BlockerBeadID = ''a'', ldp_GroupIndex = 0\<rparr>"]
  show ?thesis by (auto simp: wit_vledger_def)
qed

text \<open>
  The wire codes are unambiguous. Two validation reasons share a code only when both are
  unknown to the code table; every declared reason has a code of the block -32019 to -32010 and its
  own wire text; two recovery reasons share a code only when both are unknown; and no recovery code
  equals a validation code, so a caller can tell a refused submit from a refused recovery.
\<close>
theorem rpc_codes_unambiguous:
  "(fst (JSONRPCError r) = fst (JSONRPCError r') \<longleftrightarrow> r = r' \<or> (\<exists>s t. r = ReasonOther s \<and> r' = ReasonOther t))
   \<and> ((\<exists>s. r = ReasonOther s) \<or> fst (JSONRPCError r) \<in> {-32019..-32010} \<and> snd (JSONRPCError r) = reason_string r)
   \<and> (fst (RecoveryJSONRPCError c) = fst (RecoveryJSONRPCError c') \<longleftrightarrow>
        c = c' \<or> (\<exists>s t. c = RecoveryReasonOther s \<and> c' = RecoveryReasonOther t))
   \<and> fst (RecoveryJSONRPCError c) \<noteq> fst (JSONRPCError r)"
proof (intro conjI)
  show "fst (JSONRPCError r) = fst (JSONRPCError r') \<longleftrightarrow> r = r' \<or> (\<exists>s t. r = ReasonOther s \<and> r' = ReasonOther t)"
    by (cases r; cases r') simp_all
  show "(\<exists>s. r = ReasonOther s) \<or> fst (JSONRPCError r) \<in> {-32019..-32010} \<and> snd (JSONRPCError r) = reason_string r"
    by (cases r) simp_all
  show "fst (RecoveryJSONRPCError c) = fst (RecoveryJSONRPCError c') \<longleftrightarrow>
        c = c' \<or> (\<exists>s t. c = RecoveryReasonOther s \<and> c' = RecoveryReasonOther t)"
    by (cases c; cases c') simp_all
  show "fst (RecoveryJSONRPCError c) \<noteq> fst (JSONRPCError r)"
    by (cases c; cases r) simp_all
qed

end
