(* ===== verification/Queue_Append.thy ===== *)
theory Queue_Append
  imports Queue_Validation
begin

text \<open>
  Tail-appending beads to a stream group (\<^verbatim>\<open>internal/queue/append.go\<close>). \<open>AppendItems\<close> validates the
  request, decides which new items wait for a blocker, and returns the queue with the new items and
  the ordered events. The lemmas show when it succeeds, what it changes and that no bead is ever
  queued twice.
\<close>

section \<open>The operation\<close>

datatype AppendError =
    ErrAppendQueueNil | ErrAppendEmptyBeadIDs | AppendContextErr string
  | AppendRejected ValidationError | AppendSeamErr SeamError | AppendDeferErr QueueOpError

definition itemIsTerminalStatus :: "ItemStatus \<Rightarrow> bool" where
  "itemIsTerminalStatus s \<longleftrightarrow> s = ItemStatusCompleted \<or> s = ItemStatusFailed"

definition appendPlaceholder :: "BeadID \<Rightarrow> Item" where
  "appendPlaceholder b = NewPendingItem (zeroItem\<lparr>item_BeadID := b\<rparr>)"

definition appendRequest :: "Queue \<Rightarrow> int \<Rightarrow> BeadID list \<Rightarrow> Queue option list \<Rightarrow> ValidationRequest" where
  "appendRequest q groupIndex ids others =
     \<lparr>vq_Groups = [NewPendingGroup (zeroGroup\<lparr>group_GroupIndex := groupIndex, group_Kind := GroupKindStream,
         group_Items := map appendPlaceholder ids\<rparr>)],
      vq_ActiveQueue = Some q, vq_OtherQueues = others, vq_QueueName = [], vq_IsAppend = True,
      vq_AppendGroupIndex = groupIndex, vq_PauseChecker = None\<rparr>"

text \<open>The map from a deferred bead to its blocker, first from the notices of the request.\<close>

fun deferredFromPairs :: "int \<Rightarrow> LedgerDepPair list \<Rightarrow> (BeadID \<rightharpoonup> BeadID) \<Rightarrow> (BeadID \<rightharpoonup> BeadID)" where
  "deferredFromPairs gi [] m = m"
| "deferredFromPairs gi (p # ps) m = deferredFromPairs gi ps
     (if ldp_GroupIndex p = gi then m(ldp_BeadID p \<mapsto> ldp_BlockerBeadID p) else m)"

text \<open>The scan of the existing items for a blocker of one new bead.\<close>

fun existingBlocker :: "BeadLedger \<Rightarrow> BeadID \<Rightarrow> Item list \<Rightarrow> SeamError + BeadID option" where
  "existingBlocker L b [] = Inr None"
| "existingBlocker L b (it # its) =
     (if itemIsTerminalStatus (item_Status it) then existingBlocker L b its
      else if item_BeadID it = b then existingBlocker L b its
      else (case BlocksEdge L (item_BeadID it) b of
          Inl err \<Rightarrow> Inl (EdgeFailed (item_BeadID it) b err)
        | Inr True \<Rightarrow> Inr (Some (item_BeadID it))
        | Inr False \<Rightarrow> existingBlocker L b its))"

fun crossCheck :: "BeadLedger \<Rightarrow> Item list \<Rightarrow> BeadID list \<Rightarrow> (BeadID \<rightharpoonup> BeadID) \<Rightarrow> SeamError + (BeadID \<rightharpoonup> BeadID)" where
  "crossCheck L existing [] m = Inr m"
| "crossCheck L existing (b # bs) m =
     (if m b \<noteq> None then crossCheck L existing bs m
      else (case existingBlocker L b existing of
          Inl err \<Rightarrow> Inl err
        | Inr None \<Rightarrow> crossCheck L existing bs m
        | Inr (Some blocker) \<Rightarrow> crossCheck L existing bs (m(b \<mapsto> blocker))))"

fun buildNewItems :: "go_time \<Rightarrow> (BeadID \<rightharpoonup> BeadID) \<Rightarrow> BeadID list \<Rightarrow> QueueOpError + Item list" where
  "buildNewItems now m [] = Inr []"
| "buildNewItems now m (b # bs) =
     (let it = NewPendingItem (zeroItem\<lparr>item_BeadID := b, item_AppendedAt := Some now\<rparr>) in
      case (if m b \<noteq> None then DeferItemForLedgerDependency (Some it) else Inr it) of
        Inl err \<Rightarrow> Inl err
      | Inr it' \<Rightarrow> (case buildNewItems now m bs of Inl err \<Rightarrow> Inl err | Inr its \<Rightarrow> Inr (it' # its)))"

fun deferredEvents :: "string \<Rightarrow> int \<Rightarrow> go_time \<Rightarrow> (BeadID \<rightharpoonup> BeadID) \<Rightarrow> BeadID list \<Rightarrow> EventIntent list" where
  "deferredEvents qid gi now m [] = []"
| "deferredEvents qid gi now m (b # bs) = (case m b of
       None \<Rightarrow> deferredEvents qid gi now m bs
     | Some blocker \<Rightarrow> QueueItemDeferredForLedgerDep qid gi b blocker now # deferredEvents qid gi now m bs)"

definition appendToGroup :: "Queue \<Rightarrow> int \<Rightarrow> Item list \<Rightarrow> Queue" where
  "appendToGroup q groupIndex newItems =
     (let i = nat groupIndex; g = queue_Groups q ! i in
      q\<lparr>queue_Groups := (queue_Groups q)[i := g\<lparr>group_Items := group_Items g @ newItems\<rparr>]\<rparr>)"

definition AppendItems ::
    "string option \<Rightarrow> (Queue \<Rightarrow> string + nat) \<Rightarrow> Queue option \<Rightarrow> int \<Rightarrow> BeadID list \<Rightarrow> BeadLedger \<Rightarrow> go_time
     \<Rightarrow> Queue option list \<Rightarrow> AppendError + (Queue \<times> EventIntent list)" where
  "AppendItems ctxErr jsonLen queue groupIndex ids L acceptedAt others = (case queue of
       None \<Rightarrow> Inl ErrAppendQueueNil
     | Some q \<Rightarrow>
         if ids = [] then Inl ErrAppendEmptyBeadIDs
         else (case ctxErr of Some e \<Rightarrow> Inl (AppendContextErr e) | None \<Rightarrow>
           if \<not> validIndex groupIndex (queue_Groups q)
           then Inl (AppendRejected \<lparr>ve_Reason = ReasonAppendTargetInvalid,
                  ve_Detail = [''group_index'' \<mapsto> DInt groupIndex, ''actual_kind'' \<mapsto> DNil, ''actual_status'' \<mapsto> DNil]\<rparr>)
           else (case Validate jsonLen (appendRequest q groupIndex ids others) L of
               Inl err \<Rightarrow> Inl (AppendSeamErr err)
             | Inr (ve # ves, pairs) \<Rightarrow> Inl (AppendRejected ve)
             | Inr ([], pairs) \<Rightarrow>
                 (let deferred0 = deferredFromPairs groupIndex pairs Map.empty in
                  case crossCheck L (group_Items (queue_Groups q ! nat groupIndex)) ids deferred0 of
                    Inl err \<Rightarrow> Inl (AppendSeamErr err)
                  | Inr deferred \<Rightarrow> (case buildNewItems acceptedAt deferred ids of
                        Inl err \<Rightarrow> Inl (AppendDeferErr err)
                      | Inr newItems \<Rightarrow> Inr (appendToGroup q groupIndex newItems,
                          QueueAppended (queue_QueueID q) groupIndex ids acceptedAt
                            # deferredEvents (queue_QueueID q) groupIndex acceptedAt deferred ids))))))"

section \<open>The parts\<close>

lemma deferredFromPairs_dom:
  "dom (deferredFromPairs gi ps m) = dom m \<union> {b. \<exists>p \<in> set ps. ldp_GroupIndex p = gi \<and> ldp_BeadID p = b}"
  by (induction gi ps m rule: deferredFromPairs.induct) auto

definition livePeers :: "Item list \<Rightarrow> BeadID \<Rightarrow> BeadID set" where
  "livePeers its b = {item_BeadID it |it. it \<in> set its \<and> \<not> itemIsTerminalStatus (item_Status it) \<and> item_BeadID it \<noteq> b}"

lemma livePeers_Cons:
  "livePeers (it # its) b =
     (if itemIsTerminalStatus (item_Status it) \<or> item_BeadID it = b then livePeers its b
      else insert (item_BeadID it) (livePeers its b))"
  by (auto simp: livePeers_def)

lemma existingBlocker_spec:
  "existingBlocker L b its = Inr None \<Longrightarrow> \<forall>a \<in> livePeers its b. BlocksEdge L a b = Inr False"
  "existingBlocker L b its = Inr (Some a) \<Longrightarrow> a \<in> livePeers its b \<and> BlocksEdge L a b = Inr True"
  by (induction its) (auto simp: livePeers_Cons livePeers_def split: if_splits sum.splits bool.splits)

lemma existingBlocker_answered:
  assumes "\<forall>a \<in> livePeers its b. \<exists>e. BlocksEdge L a b = Inr e"
  shows "\<exists>r. existingBlocker L b its = Inr r"
  using assms by (induction its) (auto simp: livePeers_Cons split: if_splits sum.splits bool.splits)

lemma crossCheck_dom:
  assumes "crossCheck L its bs m = Inr m'"
  shows "dom m' = dom m \<union> {b \<in> set bs. \<exists>a \<in> livePeers its b. BlocksEdge L a b = Inr True}"
  using assms
proof (induction bs arbitrary: m)
  case Nil
  then show ?case by simp
next
  case (Cons b bs)
  show ?case
  proof (cases "m b")
    case (Some x)
    with Cons.prems have "crossCheck L its bs m = Inr m'" by simp
    from Cons.IH [OF this] Some show ?thesis by auto
  next
    case None
    from None Cons.prems obtain r where r: "existingBlocker L b its = Inr r"
      by (auto split: sum.splits)
    show ?thesis
    proof (cases r)
      case rn: None
      with None Cons.prems r have "crossCheck L its bs m = Inr m'" by simp
      from Cons.IH [OF this] existingBlocker_spec(1) [of L b its] r rn show ?thesis by auto
    next
      case (Some a)
      with None Cons.prems r have "crossCheck L its bs (m(b \<mapsto> a)) = Inr m'" by simp
      from Cons.IH [OF this] have "dom m' = insert b (dom m) \<union> {b \<in> set bs. \<exists>a \<in> livePeers its b. BlocksEdge L a b = Inr True}"
        unfolding dom_fun_upd by simp
      with existingBlocker_spec(2) [of L b its a] r Some show ?thesis by auto
    qed
  qed
qed

lemma crossCheck_answered:
  assumes "\<forall>b \<in> set bs. \<forall>a \<in> livePeers its b. \<exists>e. BlocksEdge L a b = Inr e"
  shows "\<exists>m'. crossCheck L its bs m = Inr m'"
  using assms
proof (induction bs arbitrary: m)
  case (Cons b bs)
  then have "\<forall>a \<in> livePeers its b. \<exists>e. BlocksEdge L a b = Inr e" by simp
  then obtain r where "existingBlocker L b its = Inr r" using existingBlocker_answered by blast
  with Cons show ?case by (auto split: option.splits)
qed simp

text \<open>The item a new bead becomes.\<close>

definition appendedItem :: "go_time \<Rightarrow> bool \<Rightarrow> BeadID \<Rightarrow> Item" where
  "appendedItem now deferred b = zeroItem\<lparr>item_BeadID := b, item_AppendedAt := Some now,
     item_Status := (if deferred then ItemStatusDeferredForLedgerDep else ItemStatusPending)\<rparr>"

lemma buildNewItems_eq:
  "buildNewItems now m bs = Inr (map (\<lambda>b. appendedItem now (b \<in> dom m) b) bs)"
  by (induction bs) (auto simp: status_ops appendedItem_def Let_def domIff)

lemma deferredEvents_eq:
  "deferredEvents qid gi now m bs =
     map (\<lambda>b. QueueItemDeferredForLedgerDep qid gi b (the (m b)) now) (filter (\<lambda>b. b \<in> dom m) bs)"
  by (induction bs) (auto simp: domIff split: option.splits)

lemma allBeadIDs_append [simp]: "allBeadIDs (appendRequest q gi ids others) = ids"
  by (simp add: allBeadIDs_def appendRequest_def NewPendingGroup_def setGroupStatus_def appendPlaceholder_def
    NewPendingItem_def setItemStatus_def comp_def)

lemma appendRequest_fields [simp]:
  "vq_IsAppend (appendRequest q gi ids others)" "vq_ActiveQueue (appendRequest q gi ids others) = Some q"
  "vq_OtherQueues (appendRequest q gi ids others) = others" "vq_AppendGroupIndex (appendRequest q gi ids others) = gi"
  "vq_PauseChecker (appendRequest q gi ids others) = None"
  by (simp_all add: appendRequest_def)

lemma appendRequest_groups [simp]:
  "vq_Groups (appendRequest q gi ids others) = [NewPendingGroup (zeroGroup\<lparr>group_GroupIndex := gi,
     group_Kind := GroupKindStream, group_Items := map appendPlaceholder ids\<rparr>)]"
  by (simp add: appendRequest_def)

lemma placeholder_BeadID [simp]: "item_BeadID (appendPlaceholder b) = b"
  by (simp add: appendPlaceholder_def NewPendingItem_def setItemStatus_def)

lemma NewPendingGroup_Items [simp]: "group_Items (NewPendingGroup g) = group_Items g"
  by (simp add: NewPendingGroup_def setGroupStatus_def)

lemma same_group_append:
  "same_group (appendRequest q gi ids others) gi a b \<longleftrightarrow>
     (\<exists>i j. i < length ids \<and> j < length ids \<and> i \<noteq> j \<and> a = ids ! i \<and> b = ids ! j)"
proof -
  have "(\<exists>i j. i < length ids \<and> j < length ids \<and> i \<noteq> j \<and> a = item_BeadID (map appendPlaceholder ids ! i)
      \<and> b = item_BeadID (map appendPlaceholder ids ! j)) \<longleftrightarrow>
    (\<exists>i j. i < length ids \<and> j < length ids \<and> i \<noteq> j \<and> a = ids ! i \<and> b = ids ! j)"
    by (metis nth_map placeholder_BeadID)
  then show ?thesis by (simp add: same_group_def noticeIndex_def)
qed

lemma same_group_append_distinct:
  assumes "distinct ids"
  shows "same_group (appendRequest q gi ids others) gi a b \<longleftrightarrow> a \<in> set ids \<and> b \<in> set ids \<and> a \<noteq> b"
  unfolding same_group_append in_set_conv_nth using assms nth_eq_iff_index_eq by blast

section \<open>The append as a whole\<close>

text \<open>A new bead waits when the ledger declares a blocker among the new beads or the live items of the group.\<close>

definition mustWait :: "BeadLedger \<Rightarrow> Item list \<Rightarrow> BeadID list \<Rightarrow> BeadID \<Rightarrow> bool" where
  "mustWait L existing ids b \<longleftrightarrow> (\<exists>a \<in> (set ids - {b}) \<union> livePeers existing b. BlocksEdge L a b = Inr True)"

lemma AppendItems_steps:
  assumes "AppendItems ctxErr jsonLen (Some q) gi ids L now others = Inr (q', evs)"
  obtains pairs deferred where
    "ids \<noteq> []" "validIndex gi (queue_Groups q)"
    "Validate jsonLen (appendRequest q gi ids others) L = Inr ([], pairs)"
    "crossCheck L (group_Items (queue_Groups q ! nat gi)) ids (deferredFromPairs gi pairs Map.empty) = Inr deferred"
    "q' = appendToGroup q gi (map (\<lambda>b. appendedItem now (b \<in> dom deferred) b) ids)"
    "evs = QueueAppended (queue_QueueID q) gi ids now # deferredEvents (queue_QueueID q) gi now deferred ids"
  using assms
  by (auto simp: AppendItems_def Let_def buildNewItems_eq split: if_splits option.splits sum.splits prod.splits list.splits)

lemma Validate_Nil_acceptable:
  "Validate jsonLen req L = Inr ([], ns) \<Longrightarrow> acceptable jsonLen req L \<and> notices L req = Inr ns"
  by (auto simp: Validate_def simp flip: rules_None split: option.splits sum.splits)

lemma deferred_dom:
  assumes v: "Validate jsonLen (appendRequest q gi ids others) L = Inr ([], pairs)"
    and c: "crossCheck L its ids (deferredFromPairs gi pairs Map.empty) = Inr deferred"
    and b: "b \<in> set ids"
  shows "b \<in> dom deferred \<longleftrightarrow> mustWait L its ids b"
proof -
  let ?req = "appendRequest q gi ids others"
  from Validate_Nil_acceptable [OF v] have acc: "acceptable jsonLen ?req L" and nt: "notices L ?req = Inr pairs" by auto
  from acc have dist: "distinct ids" by (simp add: acceptable_def)
  have "(\<exists>p \<in> set pairs. ldp_GroupIndex p = gi \<and> ldp_BeadID p = b) \<longleftrightarrow>
      (\<exists>a. same_group ?req gi a b \<and> BlocksEdge L a b = Inr True)"
  proof
    assume "\<exists>p \<in> set pairs. ldp_GroupIndex p = gi \<and> ldp_BeadID p = b"
    then show "\<exists>a. same_group ?req gi a b \<and> BlocksEdge L a b = Inr True"
      using notices_set [OF acc nt] by blast
  next
    assume "\<exists>a. same_group ?req gi a b \<and> BlocksEdge L a b = Inr True"
    then obtain a where "same_group ?req gi a b" "BlocksEdge L a b = Inr True" by blast
    then show "\<exists>p \<in> set pairs. ldp_GroupIndex p = gi \<and> ldp_BeadID p = b"
      using notices_set [OF acc nt, of "\<lparr>ldp_BeadID = b, ldp_BlockerBeadID = a, ldp_GroupIndex = gi\<rparr>"]
      by (intro bexI [of _ "\<lparr>ldp_BeadID = b, ldp_BlockerBeadID = a, ldp_GroupIndex = gi\<rparr>"]) simp_all
  qed
  then show ?thesis
    unfolding crossCheck_dom [OF c] deferredFromPairs_dom same_group_append_distinct [OF dist] mustWait_def
    using b by auto
qed

text \<open>The beads whose blocks questions an append asks the ledger.\<close>

definition append_answered :: "BeadLedger \<Rightarrow> Item list \<Rightarrow> BeadID list \<Rightarrow> bool" where
  "append_answered L existing ids \<longleftrightarrow>
     (\<forall>b \<in> set ids. \<forall>a \<in> set ids \<union> item_BeadID ` set existing. \<exists>e. BlocksEdge L a b = Inr e)"

text \<open>
  C33. A successful append extends one group and nothing else. On success the named group is a
  pending or active stream group of a queue that is not paused by failure or drain; the queue
  changes only in that group, whose items keep their order and gain one item per bead at the tail;
  each new item has its bead, the accepted time and no run, and it is deferred exactly when the
  ledger declares a blocker among the other new beads or the live items of the group, and pending
  otherwise; and the events are the queue-appended event first and then one deferral event per
  deferred bead, in append order.
\<close>
theorem AppendItems_spec:
  assumes "AppendItems ctxErr jsonLen (Some q) gi ids L now others = Inr (q', evs)"
  shows "appendTarget (appendRequest q gi ids others) q
     \<and> (let i = nat gi; g = queue_Groups q ! i;
            new = map (\<lambda>b. appendedItem now (mustWait L (group_Items g) ids b) b) ids in
        q' = q\<lparr>queue_Groups := (queue_Groups q)[i := g\<lparr>group_Items := group_Items g @ new\<rparr>]\<rparr>
        \<and> (\<exists>blocker. evs = QueueAppended (queue_QueueID q) gi ids now
             # map (\<lambda>b. QueueItemDeferredForLedgerDep (queue_QueueID q) gi b (blocker b) now)
                 (filter (mustWait L (group_Items g) ids) ids)))"
proof -
  from AppendItems_steps [OF assms] obtain pairs deferred where
    "ids \<noteq> []" "validIndex gi (queue_Groups q)" and
    v: "Validate jsonLen (appendRequest q gi ids others) L = Inr ([], pairs)" and
    c: "crossCheck L (group_Items (queue_Groups q ! nat gi)) ids (deferredFromPairs gi pairs Map.empty) = Inr deferred" and
    q': "q' = appendToGroup q gi (map (\<lambda>b. appendedItem now (b \<in> dom deferred) b) ids)" and
    evs: "evs = QueueAppended (queue_QueueID q) gi ids now # deferredEvents (queue_QueueID q) gi now deferred ids" .
  note dom = deferred_dom [OF v c]
  have tgt: "appendTarget (appendRequest q gi ids others) q"
    using Validate_Nil_acceptable [OF v] by (auto simp: acceptable_def appendTarget_def)
  have f: "filter (\<lambda>b. b \<in> dom deferred) ids = filter (mustWait L (group_Items (queue_Groups q ! nat gi)) ids) ids"
    using dom by (intro filter_cong) auto
  have m: "map (\<lambda>b. appendedItem now (b \<in> dom deferred) b) ids
      = map (\<lambda>b. appendedItem now (mustWait L (group_Items (queue_Groups q ! nat gi)) ids b) b) ids"
    using dom by (intro map_cong) auto
  show ?thesis
    using tgt unfolding q' evs deferredEvents_eq f m by (auto simp: appendToGroup_def Let_def)
qed

text \<open>No bead has two live items in the queue.\<close>

definition no_double :: "Queue \<Rightarrow> bool" where
  "no_double q \<longleftrightarrow> distinct (concat (map liveBeads (queue_Groups q)))"

lemma liveBeads_append:
  "liveBeads (g\<lparr>group_Items := group_Items g @ map (\<lambda>b. appendedItem now (f b) b) ids\<rparr>) = liveBeads g @ ids"
  by (simp add: liveBeads_def appendedItem_def comp_def filter_map)

lemma distinct_concat_update:
  assumes "distinct (concat xss)" "i < length xss" "distinct ys" "set ys \<inter> set (concat xss) = {}"
  shows "distinct (concat (xss[i := xss ! i @ ys]))"
  using assms
proof (induction xss arbitrary: i)
  case (Cons xs xss)
  show ?case
  proof (cases i)
    case 0
    with Cons.prems show ?thesis by auto
  next
    case (Suc k)
    have "set (concat (xss[k := xss ! k @ ys])) \<subseteq> set (concat xss) \<union> set ys"
      using Cons.prems(2) Suc set_update_subset_insert [of xss k "xss ! k @ ys"] nth_mem [of k xss] by fastforce
    with Cons Suc show ?thesis by fastforce
  qed
qed simp

text \<open>
  C22. No bead is ever queued twice. A successful append keeps the rule that no bead has two live
  items in the queue, and the appended beads are distinct, open in the ledger, not live anywhere in
  the queue before, and not live in any other queue the caller supplied: so if the queue shared no
  live bead with another queue before, it shares none after.
\<close>
theorem AppendItems_no_double:
  assumes "AppendItems ctxErr jsonLen (Some q) gi ids L now others = Inr (q', evs)"
    and "no_double q"
  shows "no_double q'
     \<and> (\<forall>b \<in> set ids. LookupStatus L b = Inr BeadStatusOpen \<and> \<not> holds q b)
     \<and> (\<forall>b. holds q' b \<longleftrightarrow> holds q b \<or> b \<in> set ids)
     \<and> (\<forall>oq. Some oq \<in> set others \<and> (\<forall>b. \<not> (holds q b \<and> holds oq b)) \<longrightarrow> (\<forall>b. \<not> (holds q' b \<and> holds oq b)))"
proof -
  from AppendItems_steps [OF assms(1)] obtain pairs deferred where
    "ids \<noteq> []" "validIndex gi (queue_Groups q)" and
    v: "Validate jsonLen (appendRequest q gi ids others) L = Inr ([], pairs)" and
    c: "crossCheck L (group_Items (queue_Groups q ! nat gi)) ids (deferredFromPairs gi pairs Map.empty) = Inr deferred" and
    q': "q' = appendToGroup q gi (map (\<lambda>b. appendedItem now (b \<in> dom deferred) b) ids)" and
    evs: "evs = QueueAppended (queue_QueueID q) gi ids now # deferredEvents (queue_QueueID q) gi now deferred ids" .
  from Validate_Nil_acceptable [OF v] have acc: "acceptable jsonLen (appendRequest q gi ids others) L" by simp
  then have new: "distinct ids" "\<forall>b \<in> set ids. LookupStatus L b = Inr BeadStatusOpen \<and> \<not> holds q b"
    "\<forall>oq. Some oq \<in> set others \<longrightarrow> (\<forall>b \<in> set ids. \<not> holds oq b)"
    and i: "nat gi < length (queue_Groups q)"
    by (auto simp: acceptable_def appendTarget_def validIndex_def)
  have live: "map liveBeads (queue_Groups q') =
      (map liveBeads (queue_Groups q))[nat gi := map liveBeads (queue_Groups q) ! nat gi @ ids]"
    using i by (simp add: q' appendToGroup_def Let_def map_update liveBeads_append)
  have holds_set: "holds x b \<longleftrightarrow> b \<in> set (concat (map liveBeads (queue_Groups x)))" for x b
    by (auto simp: holds_def)
  have "no_double q'"
    unfolding no_double_def live
    using assms(2) new i by (intro distinct_concat_update) (auto simp: no_double_def holds_def)
  moreover have h: "holds q' b \<longleftrightarrow> holds q b \<or> b \<in> set ids" for b
  proof -
    have "set (concat (xss[k := xss ! k @ ys])) = set (concat xss) \<union> set ys" if "k < length xss"
      for k and xss :: "BeadID list list" and ys
      using that by (induction xss arbitrary: k) (auto split: nat.splits)
    from this [of "nat gi" "map liveBeads (queue_Groups q)" ids]
    have "set (concat (map liveBeads (queue_Groups q'))) = set (concat (map liveBeads (queue_Groups q))) \<union> set ids"
      unfolding live using i by simp
    then show ?thesis unfolding holds_set by (simp del: set_concat)
  qed
  ultimately show ?thesis using new by auto
qed

lemma AppendItems_total:
  assumes "ids \<noteq> []" "acceptable jsonLen (appendRequest q gi ids others) L"
    "append_answered L (group_Items (queue_Groups q ! nat gi)) ids"
  shows "\<exists>r. AppendItems None jsonLen (Some q) gi ids L now others = Inr r"
proof -
  from assms(2) have idx: "validIndex gi (queue_Groups q)" by (auto simp: acceptable_def appendTarget_def)
  from assms(3) have "edges_answered L (appendRequest q gi ids others)"
    by (simp add: edges_answered_def append_answered_def)
  with assms(2) obtain pairs where n: "notices L (appendRequest q gi ids others) = Inr pairs"
    using notices_answered by blast
  have "firstStop (rules jsonLen (appendRequest q gi ids others) L) = None"
    unfolding rules_None by (rule assms(2))
  with n have v: "Validate jsonLen (appendRequest q gi ids others) L = Inr ([], pairs)"
    by (simp add: Validate_def)
  have "\<forall>b \<in> set ids. \<forall>a \<in> livePeers (group_Items (queue_Groups q ! nat gi)) b. \<exists>e. BlocksEdge L a b = Inr e"
    using assms(3) by (auto simp: append_answered_def livePeers_def)
  from crossCheck_answered [OF this] obtain m where
    "crossCheck L (group_Items (queue_Groups q ! nat gi)) ids (deferredFromPairs gi pairs Map.empty) = Inr m" by blast
  with assms(1) idx v show ?thesis
    by (simp add: AppendItems_def Let_def buildNewItems_eq del: crossCheck.simps)
qed

text \<open>
  An append succeeds exactly when it should. With a live context and a ledger that answers the
  blocks questions, appending beads succeeds if and only if there is at least one bead and the
  append request is acceptable; every failure returns an error and no queue.
\<close>
theorem AppendItems_succeeds_iff:
  assumes "append_answered L (group_Items (queue_Groups q ! nat gi)) ids"
  shows "(\<exists>r. AppendItems None jsonLen (Some q) gi ids L now others = Inr r) \<longleftrightarrow>
     ids \<noteq> [] \<and> acceptable jsonLen (appendRequest q gi ids others) L"
proof
  assume "\<exists>r. AppendItems None jsonLen (Some q) gi ids L now others = Inr r"
  then obtain q' evs where a: "AppendItems None jsonLen (Some q) gi ids L now others = Inr (q', evs)"
    by (metis surj_pair)
  show "ids \<noteq> [] \<and> acceptable jsonLen (appendRequest q gi ids others) L"
  proof (rule AppendItems_steps [OF a], intro conjI)
    fix pairs
    assume "Validate jsonLen (appendRequest q gi ids others) L = Inr ([], pairs)"
    then show "acceptable jsonLen (appendRequest q gi ids others) L" using Validate_Nil_acceptable by simp
  qed
next
  assume r: "ids \<noteq> [] \<and> acceptable jsonLen (appendRequest q gi ids others) L"
  show "\<exists>r. AppendItems None jsonLen (Some q) gi ids L now others = Inr r"
    by (rule AppendItems_total [OF conjunct1 [OF r] conjunct2 [OF r] assms])
qed

definition wit_aqueue :: Queue where
  "wit_aqueue = zeroQueue\<lparr>queue_QueueID := ''q'', queue_Status := QueueStatusActive,
     queue_Groups := [zeroGroup\<lparr>group_Kind := GroupKindStream, group_Status := GroupStatusActive,
       group_Items := [zeroItem\<lparr>item_BeadID := ''a'', item_Status := ItemStatusDispatched\<rparr>]\<rparr>]\<rparr>"

lemmas wit_aqueue_defs = wit_aqueue_def wit_vledger_def zeroItem_def zeroGroup_def zeroQueue_def

lemma wit_append_acceptable:
  "acceptable (\<lambda>q. Inr 10) (appendRequest wit_aqueue 0 [''b'', ''c''] [Some zeroQueue]) wit_vledger"
  by (auto simp: acceptable_def appendTarget_def validIndex_def holds_def liveBeads_def wit_aqueue_defs)

lemma wit_append_answered: "append_answered wit_vledger its ids"
  by (simp add: append_answered_def wit_vledger_def)

theorem AppendItems_succeeds_iff_witness:
  "\<exists>r. AppendItems None (\<lambda>q. Inr 10) (Some wit_aqueue) 0 [''b'', ''c''] wit_vledger 7 [Some zeroQueue] = Inr r"
  using AppendItems_succeeds_iff [of wit_vledger wit_aqueue 0 "[''b'', ''c'']" "\<lambda>q. Inr 10" 7 "[Some zeroQueue]"]
    wit_append_acceptable wit_append_answered by simp

lemma wit_append_run:
  obtains q' evs where "AppendItems None (\<lambda>q. Inr 10) (Some wit_aqueue) 0 [''b'', ''c''] wit_vledger 7 [Some zeroQueue] = Inr (q', evs)"
proof -
  have "[''b'', ''c''] \<noteq> []" by simp
  from AppendItems_total [OF this wit_append_acceptable wit_append_answered, of 7]
  show thesis using that by (auto simp del: AppendItems_def)
qed

theorem AppendItems_spec_witness:
  "\<exists>q' evs. AppendItems None (\<lambda>q. Inr 10) (Some wit_aqueue) 0 [''b'', ''c''] wit_vledger 7 [Some zeroQueue] = Inr (q', evs)
     \<and> map item_Status (group_Items (queue_Groups q' ! 0))
         = [ItemStatusDispatched, ItemStatusDeferredForLedgerDep, ItemStatusPending]"
proof -
  obtain q' evs where a: "AppendItems None (\<lambda>q. Inr 10) (Some wit_aqueue) 0 [''b'', ''c''] wit_vledger 7 [Some zeroQueue] = Inr (q', evs)"
    by (rule wit_append_run)
  with AppendItems_spec [OF a] show ?thesis
    by (auto simp: Let_def wit_aqueue_defs appendedItem_def mustWait_def livePeers_def itemIsTerminalStatus_def)
qed

theorem AppendItems_no_double_witness:
  "\<exists>q' evs. AppendItems None (\<lambda>q. Inr 10) (Some wit_aqueue) 0 [''b'', ''c''] wit_vledger 7 [Some zeroQueue] = Inr (q', evs)
     \<and> no_double q'"
proof -
  obtain q' evs where a: "AppendItems None (\<lambda>q. Inr 10) (Some wit_aqueue) 0 [''b'', ''c''] wit_vledger 7 [Some zeroQueue] = Inr (q', evs)"
    by (rule wit_append_run)
  have "no_double wit_aqueue" by (simp add: no_double_def liveBeads_def wit_aqueue_defs)
  from AppendItems_no_double [OF a this] a show ?thesis by blast
qed

end
