(* ===== verification/Queue_Completion.thy ===== *)
theory Queue_Completion
  imports Queue_Validation
begin

text \<open>
  The pure group-completion decision (\<^verbatim>\<open>internal/queue/group_completion.go\<close>,
  \<^verbatim>\<open>group_completion_decision.go\<close>) and the commit of a completed queue
  (\<^verbatim>\<open>completeAndUnlinkResult\<close> of \<^verbatim>\<open>persistence.go\<close>).

  The UUIDv7 check is a parameter. Times are nanoseconds since year 1, so truncation to the
  millisecond and the year bounds 1 to 9999 are arithmetic. The rendered value a Go input error
  carries is left out.
\<close>

section \<open>Input\<close>

record GroupCompletionLocation =
  loc_GroupIndex :: int
  loc_ItemIndex :: int

record GroupCompletionInput =
  gci_ExpectedQueueID :: string
  gci_Location :: GroupCompletionLocation
  gci_Outcome :: GroupCompletionOutcome
  gci_CompletedAt :: go_time
  gci_CompletionReceiptID :: string

datatype GroupCompletionErrorReason =
    GroupCompletionErrorInvalidOutcome | GroupCompletionErrorInvalidQueueID
  | GroupCompletionErrorInvalidReceiptID | GroupCompletionErrorUnexpectedReceiptID
  | GroupCompletionErrorInvalidCompletionTime | GroupCompletionErrorNegativeGroupIndex
  | GroupCompletionErrorNegativeItemIndex | GroupCompletionErrorMissingGroup
  | GroupCompletionErrorDuplicateGroup | GroupCompletionErrorInvalidGroupIndex
  | GroupCompletionErrorItemIndexOutOfRange | GroupCompletionErrorInvalidQueueStatus
  | GroupCompletionErrorInvalidGroupStatus | GroupCompletionErrorInvalidGroupKind
  | GroupCompletionErrorInvalidItemStatus

record GroupCompletionStateError =
  gse_Reason :: GroupCompletionErrorReason
  gse_Location :: GroupCompletionLocation
  gse_QueueStatus :: QueueStatus
  gse_GroupStatus :: GroupStatus
  gse_GroupKind :: GroupKind
  gse_ItemStatus :: ItemStatus

datatype CompletionError =
    GroupCompletionInputError GroupCompletionErrorReason GroupCompletionLocation
  | CompletionStateError GroupCompletionStateError
  | GroupCompletionConflictError GroupCompletionLocation ItemStatus GroupCompletionOutcome
  | CompletionOpError QueueOpError | CompletionAdvanceError AdvanceError
  | CompletionStatusMismatch GroupStatus GroupStatus | NoUniqueCompletedIntent

definition outcome_valid :: "GroupCompletionOutcome \<Rightarrow> bool" where
  "outcome_valid v \<longleftrightarrow> v = GroupCompletionOutcomeCompleted \<or> v = GroupCompletionOutcomeFailed"

text \<open>\<^verbatim>\<open>UTC().Truncate(time.Millisecond)\<close>, and the first instant of the year 10000.\<close>

definition truncateMillisecond :: "go_time \<Rightarrow> go_time" where
  "truncateMillisecond t = t - t mod 1000000"

definition year10000 :: go_time where
  "year10000 = 3652059 * 86400 * 1000000000"

definition CompletionInput_Validate ::
    "(string \<Rightarrow> bool) \<Rightarrow> GroupCompletionInput \<Rightarrow> CompletionError option" where
  "CompletionInput_Validate uuid7 inp =
     (let fail = (\<lambda>reason. Some (GroupCompletionInputError reason (gci_Location inp)));
          stamp = truncateMillisecond (gci_CompletedAt inp) in
      if \<not> outcome_valid (gci_Outcome inp) then fail GroupCompletionErrorInvalidOutcome
      else if \<not> uuid7 (gci_ExpectedQueueID inp) then fail GroupCompletionErrorInvalidQueueID
      else if gci_CompletedAt inp = 0 \<or> stamp < 0 \<or> stamp \<ge> year10000
      then fail GroupCompletionErrorInvalidCompletionTime
      else if loc_GroupIndex (gci_Location inp) < 0 then fail GroupCompletionErrorNegativeGroupIndex
      else if loc_ItemIndex (gci_Location inp) < 0 then fail GroupCompletionErrorNegativeItemIndex
      else if gci_CompletionReceiptID inp \<noteq> []
      then (if gci_Outcome inp \<noteq> GroupCompletionOutcomeCompleted then fail GroupCompletionErrorUnexpectedReceiptID
            else if \<not> uuid7 (gci_CompletionReceiptID inp) then fail GroupCompletionErrorInvalidReceiptID
            else None)
      else None)"

section \<open>Result\<close>

datatype GroupCompletionDisposition =
    GroupCompletionDispositionNoChange | GroupCompletionDispositionReceiptRequired
  | GroupCompletionDispositionIntermediate | GroupCompletionDispositionPausedByFailure
  | GroupCompletionDispositionSuccessorActivated | GroupCompletionDispositionSuccessorHeld
  | GroupCompletionDispositionQueueCompleted | GroupCompletionDispositionOther string

datatype GroupCompletionNoChangeReason =
    GroupCompletionNoChangeStaleQueue | GroupCompletionNoChangeMatchingTerminalOutcome
  | GroupCompletionNoChangeOther string

record GroupCompletionResult =
  gcr_NextQueue :: "Queue option"
  gcr_Intents :: "EventIntent list"
  gcr_Disposition :: GroupCompletionDisposition
  gcr_NoChangeReason :: GroupCompletionNoChangeReason
  gcr_Changed :: bool

definition zeroCompletionResult :: GroupCompletionResult where
  "zeroCompletionResult = \<lparr>gcr_NextQueue = None, gcr_Intents = [],
     gcr_Disposition = GroupCompletionDispositionOther [],
     gcr_NoChangeReason = GroupCompletionNoChangeOther [], gcr_Changed = False\<rparr>"

definition noChangeReason_valid :: "GroupCompletionNoChangeReason \<Rightarrow> bool" where
  "noChangeReason_valid v \<longleftrightarrow>
     v = GroupCompletionNoChangeStaleQueue \<or> v = GroupCompletionNoChangeMatchingTerminalOutcome"

definition leavesQueueAlone :: "GroupCompletionResult \<Rightarrow> bool" where
  "leavesQueueAlone r \<longleftrightarrow> \<not> gcr_Changed r \<and> gcr_NextQueue r = None \<and> gcr_Intents r = []"

definition validAsNoChange :: "GroupCompletionResult \<Rightarrow> bool" where
  "validAsNoChange r \<longleftrightarrow> leavesQueueAlone r \<and> noChangeReason_valid (gcr_NoChangeReason r)"

definition validAsReceiptRequired :: "GroupCompletionResult \<Rightarrow> bool" where
  "validAsReceiptRequired r \<longleftrightarrow> leavesQueueAlone r \<and> gcr_NoChangeReason r = GroupCompletionNoChangeOther []"

definition validAsChanged :: "GroupCompletionResult \<Rightarrow> bool" where
  "validAsChanged r \<longleftrightarrow>
     gcr_Changed r \<and> gcr_NextQueue r \<noteq> None \<and> gcr_NoChangeReason r = GroupCompletionNoChangeOther []"

text \<open>\<^verbatim>\<open>GroupCompletionResult.Validate\<close>: true is the nil error.\<close>

fun CompletionResult_Validate :: "GroupCompletionResult \<Rightarrow> bool" where
  "CompletionResult_Validate r = (case gcr_Disposition r of
       GroupCompletionDispositionNoChange \<Rightarrow> validAsNoChange r
     | GroupCompletionDispositionReceiptRequired \<Rightarrow> validAsReceiptRequired r
     | GroupCompletionDispositionOther _ \<Rightarrow> False
     | _ \<Rightarrow> validAsChanged r)"

definition noChangeResult :: "GroupCompletionNoChangeReason \<Rightarrow> GroupCompletionResult" where
  "noChangeResult reason = zeroCompletionResult\<lparr>gcr_Disposition := GroupCompletionDispositionNoChange,
     gcr_NoChangeReason := reason\<rparr>"

definition changedCompletionResult ::
    "Queue \<Rightarrow> EventIntent list \<Rightarrow> GroupCompletionDisposition \<Rightarrow> GroupCompletionResult" where
  "changedCompletionResult nxt intents disposition = zeroCompletionResult\<lparr>gcr_NextQueue := Some nxt,
     gcr_Intents := intents, gcr_Disposition := disposition, gcr_Changed := True\<rparr>"

section \<open>The target of a completion\<close>

definition validCompletionItemStatus :: "ItemStatus \<Rightarrow> bool" where
  "validCompletionItemStatus st \<longleftrightarrow> st \<in> {ItemStatusPending, ItemStatusDispatched, ItemStatusCompleted,
     ItemStatusFailed, ItemStatusDeferredForLedgerDep}"

definition validCompletionGroupStatus :: "GroupStatus \<Rightarrow> bool" where
  "validCompletionGroupStatus st \<longleftrightarrow> st \<in> {GroupStatusPending, GroupStatusActive, GroupStatusCompleteSuccess,
     GroupStatusCompleteWithFailures}"

definition validCompletionGroupKind :: "GroupKind \<Rightarrow> bool" where
  "validCompletionGroupKind k \<longleftrightarrow> k \<in> {GroupKindWave, GroupKindStream}"

definition stateErr :: "GroupCompletionErrorReason \<Rightarrow> GroupCompletionLocation \<Rightarrow> QueueStatus \<Rightarrow> GroupStatus
    \<Rightarrow> GroupKind \<Rightarrow> ItemStatus \<Rightarrow> CompletionError" where
  "stateErr reason loc qs gs gk is = CompletionStateError \<lparr>gse_Reason = reason, gse_Location = loc,
     gse_QueueStatus = qs, gse_GroupStatus = gs, gse_GroupKind = gk, gse_ItemStatus = is\<rparr>"

definition groupLoc :: "int \<Rightarrow> int \<Rightarrow> GroupCompletionLocation" where
  "groupLoc gi ii = \<lparr>loc_GroupIndex = gi, loc_ItemIndex = ii\<rparr>"

fun invalidItem :: "int \<Rightarrow> Item list \<Rightarrow> (int \<times> ItemStatus) option" where
  "invalidItem j [] = None"
| "invalidItem j (it # its) =
     (if \<not> validCompletionItemStatus (item_Status it) then Some (j, item_Status it) else invalidItem (j + 1) its)"

text \<open>The status a group must have, by its position, while the target group is not terminal.\<close>

definition wantedStatus :: "nat \<Rightarrow> nat \<Rightarrow> GroupStatus" where
  "wantedStatus i target =
     (if i < target then GroupStatusCompleteSuccess
      else if i = target then GroupStatusActive else GroupStatusPending)"

definition checkGroup :: "QueueStatus \<Rightarrow> bool \<Rightarrow> nat \<Rightarrow> nat \<Rightarrow> Group \<Rightarrow> CompletionError option" where
  "checkGroup qs targetTerminal target i g =
     (let loc = groupLoc (group_GroupIndex g) (-1) in
      if group_GroupIndex g \<noteq> int i
      then Some (stateErr GroupCompletionErrorInvalidGroupIndex loc qs (group_Status g) (GroupKindOther []) (ItemStatusOther []))
      else if \<not> validCompletionGroupStatus (group_Status g)
      then Some (stateErr GroupCompletionErrorInvalidGroupStatus loc qs (group_Status g) (GroupKindOther []) (ItemStatusOther []))
      else if \<not> validCompletionGroupKind (group_Kind g)
      then Some (stateErr GroupCompletionErrorInvalidGroupKind loc qs (group_Status g) (group_Kind g) (ItemStatusOther []))
      else (case invalidItem 0 (group_Items g) of
          Some (j, st) \<Rightarrow> Some (stateErr GroupCompletionErrorInvalidItemStatus (groupLoc (group_GroupIndex g) j) qs
            (group_Status g) (GroupKindOther []) st)
        | None \<Rightarrow>
            if \<not> targetTerminal \<and> group_Status g \<noteq> wantedStatus i target
            then Some (stateErr GroupCompletionErrorInvalidGroupStatus loc qs (group_Status g) (GroupKindOther []) (ItemStatusOther []))
            else None))"

fun checkGroups :: "QueueStatus \<Rightarrow> bool \<Rightarrow> nat \<Rightarrow> nat \<Rightarrow> Group list \<Rightarrow> CompletionError option" where
  "checkGroups qs tt target i [] = None"
| "checkGroups qs tt target i (g # gs) = (case checkGroup qs tt target i g of
       Some e \<Rightarrow> Some e | None \<Rightarrow> checkGroups qs tt target (Suc i) gs)"

definition validateGroupCompletionQueue :: "Queue \<Rightarrow> nat \<Rightarrow> CompletionError option" where
  "validateGroupCompletionQueue prior target =
     checkGroups (queue_Status prior) (groupIsTerminal (group_Status (queue_Groups prior ! target))) target 0
       (queue_Groups prior)"

text \<open>The scan for the target group: a duplicate index stops it, the last match wins.\<close>

fun findGroup :: "int \<Rightarrow> nat \<Rightarrow> int set \<Rightarrow> nat option \<Rightarrow> Group list \<Rightarrow> GroupStatus + nat option" where
  "findGroup idx i seen pos [] = Inr pos"
| "findGroup idx i seen pos (g # gs) =
     (if group_GroupIndex g \<in> seen then Inl (group_Status g)
      else findGroup idx (Suc i) (insert (group_GroupIndex g) seen)
             (if group_GroupIndex g = idx then Some i else pos) gs)"

definition wantedItemStatus :: "GroupCompletionOutcome \<Rightarrow> ItemStatus" where
  "wantedItemStatus outcome =
     (if outcome = GroupCompletionOutcomeFailed then ItemStatusFailed else ItemStatusCompleted)"

text \<open>The result is an early no-change (\<open>Inl\<close>) or the position of the group and the item status (\<open>Inr\<close>).\<close>

definition resolveGroupCompletionTarget ::
    "Queue \<Rightarrow> GroupCompletionInput \<Rightarrow> CompletionError + (GroupCompletionResult + nat \<times> ItemStatus)" where
  "resolveGroupCompletionTarget prior inp =
     (let loc = gci_Location inp;
          err = (\<lambda>reason gs is. stateErr reason loc (queue_Status prior) gs (GroupKindOther []) is) in
      case findGroup (loc_GroupIndex loc) 0 {} None (queue_Groups prior) of
        Inl gs \<Rightarrow> Inl (err GroupCompletionErrorDuplicateGroup gs (ItemStatusOther []))
      | Inr None \<Rightarrow> Inl (err GroupCompletionErrorMissingGroup (GroupStatusOther []) (ItemStatusOther []))
      | Inr (Some groupPos) \<Rightarrow> (case validateGroupCompletionQueue prior groupPos of
            Some e \<Rightarrow> Inl e
          | None \<Rightarrow>
              (let grp = queue_Groups prior ! groupPos in
               if loc_ItemIndex loc \<ge> int (length (group_Items grp))
               then Inl (err GroupCompletionErrorItemIndexOutOfRange (group_Status grp) (ItemStatusOther []))
               else (let item = group_Items grp ! nat (loc_ItemIndex loc); want = wantedItemStatus (gci_Outcome inp) in
                 if itemIsTerminal (item_Status item) \<and> item_Status item \<noteq> want
                 then Inl (GroupCompletionConflictError loc (item_Status item) (gci_Outcome inp))
                 else if groupIsTerminal (group_Status grp)
                 then (if gci_CompletionReceiptID inp \<noteq> []
                       then Inl (GroupCompletionInputError GroupCompletionErrorUnexpectedReceiptID loc)
                       else if item_Status item = want
                       then Inr (Inl (noChangeResult GroupCompletionNoChangeMatchingTerminalOutcome))
                       else Inl (err GroupCompletionErrorInvalidGroupStatus (group_Status grp) (item_Status item)))
                 else if \<not> queueAcceptsItemCompletion (queue_Status prior)
                 then Inl (err GroupCompletionErrorInvalidQueueStatus (group_Status grp) (item_Status item))
                 else Inr (Inr (groupPos, want))))))"

section \<open>The decision\<close>

definition setGroup :: "Queue \<Rightarrow> nat \<Rightarrow> Group \<Rightarrow> Queue" where
  "setGroup q i g = q\<lparr>queue_Groups := (queue_Groups q)[i := g]\<rparr>"

fun bindFinalCompletionReceipt :: "EventIntent list \<Rightarrow> string \<Rightarrow> CompletionError + EventIntent list" where
  "bindFinalCompletionReceipt [QueueGroupCompleted qid gi st sc fc now _] receiptID =
     Inr [QueueGroupCompleted qid gi st sc fc now receiptID]"
| "bindFinalCompletionReceipt _ receiptID = Inl NoUniqueCompletedIntent"

definition unexpectedReceipt :: "GroupCompletionInput \<Rightarrow> CompletionError" where
  "unexpectedReceipt inp = GroupCompletionInputError GroupCompletionErrorUnexpectedReceiptID (gci_Location inp)"

definition decideIntermediateGroupCompletion ::
    "Queue \<Rightarrow> GroupCompletionInput \<Rightarrow> bool \<Rightarrow> EventIntent list \<Rightarrow> CompletionError + GroupCompletionResult" where
  "decideIntermediateGroupCompletion nxt inp itemChanged intents =
     (if gci_CompletionReceiptID inp \<noteq> [] then Inl (unexpectedReceipt inp)
      else if \<not> itemChanged then Inr (noChangeResult GroupCompletionNoChangeMatchingTerminalOutcome)
      else Inr (changedCompletionResult nxt intents GroupCompletionDispositionIntermediate))"

definition decideFailedGroupCompletion ::
    "Queue \<Rightarrow> Group \<Rightarrow> GroupCompletionInput \<Rightarrow> EventIntent list \<Rightarrow> CompletionError + GroupCompletionResult" where
  "decideFailedGroupCompletion nxt target inp intents =
     (if gci_CompletionReceiptID inp \<noteq> [] then Inl (unexpectedReceipt inp)
      else (case PauseQueueForGroupFailure (Some nxt) (group_GroupIndex target) of
          Inl e \<Rightarrow> Inl (CompletionOpError e)
        | Inr nxt' \<Rightarrow> Inr (changedCompletionResult nxt' intents GroupCompletionDispositionPausedByFailure)))"

definition decideSuccessor ::
    "Queue \<Rightarrow> nat \<Rightarrow> GroupCompletionInput \<Rightarrow> go_time \<Rightarrow> EventIntent list \<Rightarrow> CompletionError + GroupCompletionResult" where
  "decideSuccessor nxt i inp stamp intents =
     (let succ = queue_Groups nxt ! i in
      if group_Status succ \<noteq> GroupStatusPending
      then Inl (stateErr GroupCompletionErrorInvalidGroupStatus (groupLoc (group_GroupIndex succ) (-1)) (queue_Status nxt)
             (group_Status succ) (GroupKindOther []) (ItemStatusOther []))
      else if gci_CompletionReceiptID inp \<noteq> [] then Inl (unexpectedReceipt inp)
      else (case AdvanceGroup None (Some succ) (queue_Status nxt) (queue_QueueID nxt) stamp of
          Inl e \<Rightarrow> Inl (CompletionAdvanceError e)
        | Inr (successorStatus, successorIntents) \<Rightarrow>
            if successorStatus = GroupStatusActive
            then (case ActivatePendingGroup (Some succ) stamp of
                Inl e \<Rightarrow> Inl (CompletionOpError e)
              | Inr succ' \<Rightarrow> Inr (changedCompletionResult (setGroup nxt i succ') (intents @ successorIntents)
                    GroupCompletionDispositionSuccessorActivated))
            else Inr (changedCompletionResult nxt (intents @ successorIntents)
                    GroupCompletionDispositionSuccessorHeld)))"

definition decideSuccessfulGroupCompletion ::
    "Queue \<Rightarrow> nat \<Rightarrow> GroupCompletionInput \<Rightarrow> go_time \<Rightarrow> EventIntent list \<Rightarrow> CompletionError + GroupCompletionResult" where
  "decideSuccessfulGroupCompletion nxt groupPos inp stamp intents =
     (if groupPos + 1 < length (queue_Groups nxt)
      then decideSuccessor nxt (groupPos + 1) inp stamp intents
      else (case find (\<lambda>g. group_Status g \<noteq> GroupStatusCompleteSuccess) (queue_Groups nxt) of
          Some g \<Rightarrow> Inl (stateErr GroupCompletionErrorInvalidGroupStatus (groupLoc (group_GroupIndex g) (-1))
                 (queue_Status nxt) (group_Status g) (GroupKindOther []) (ItemStatusOther []))
        | None \<Rightarrow>
            if gci_CompletionReceiptID inp = []
            then Inr (zeroCompletionResult\<lparr>gcr_Disposition := GroupCompletionDispositionReceiptRequired\<rparr>)
            else (case bindFinalCompletionReceipt intents (gci_CompletionReceiptID inp) of
                Inl e \<Rightarrow> Inl e
              | Inr bound \<Rightarrow> (case CompleteQueue (Some nxt) of
                    Inl e \<Rightarrow> Inl (CompletionOpError e)
                  | Inr nxt' \<Rightarrow> Inr (changedCompletionResult nxt' bound GroupCompletionDispositionQueueCompleted)))))"

definition decideAdvancedGroupCompletion ::
    "Queue \<Rightarrow> nat \<Rightarrow> GroupCompletionInput \<Rightarrow> bool \<Rightarrow> go_time \<Rightarrow> GroupStatus \<Rightarrow> EventIntent list
     \<Rightarrow> CompletionError + GroupCompletionResult" where
  "decideAdvancedGroupCompletion nxt groupPos inp itemChanged stamp newStatus intents =
     (if newStatus = GroupStatusActive then decideIntermediateGroupCompletion nxt inp itemChanged intents
      else (case CompleteActiveGroup (Some (queue_Groups nxt ! groupPos)) stamp of
          Inl e \<Rightarrow> Inl (CompletionOpError e)
        | Inr target \<Rightarrow>
            if group_Status target \<noteq> newStatus then Inl (CompletionStatusMismatch (group_Status target) newStatus)
            else (let nxt' = setGroup nxt groupPos target in
              if newStatus = GroupStatusCompleteWithFailures
              then decideFailedGroupCompletion nxt' target inp intents
              else decideSuccessfulGroupCompletion nxt' groupPos inp stamp intents)))"

definition DecideGroupCompletion ::
    "(string \<Rightarrow> bool) \<Rightarrow> Queue \<Rightarrow> GroupCompletionInput \<Rightarrow> CompletionError + GroupCompletionResult" where
  "DecideGroupCompletion uuid7 prior inp = (case CompletionInput_Validate uuid7 inp of
       Some e \<Rightarrow> Inl e
     | None \<Rightarrow>
         if queue_QueueID prior \<noteq> gci_ExpectedQueueID inp
         then Inr (noChangeResult GroupCompletionNoChangeStaleQueue)
         else (case resolveGroupCompletionTarget prior inp of
             Inl e \<Rightarrow> Inl e
           | Inr (Inl early) \<Rightarrow> Inr early
           | Inr (Inr (groupPos, itemStatus)) \<Rightarrow>
               (let nxt = the (CloneQueue (Some prior));
                    target = queue_Groups nxt ! groupPos;
                    ii = nat (loc_ItemIndex (gci_Location inp));
                    itemChanged = (item_Status (group_Items target ! ii) \<noteq> itemStatus) in
                case CompleteItem (Some (group_Items target ! ii)) (gci_Outcome inp) of
                  Inl e \<Rightarrow> Inl (CompletionOpError e)
                | Inr item' \<Rightarrow>
                    (let target' = target\<lparr>group_Items := (group_Items target)[ii := item']\<rparr>;
                         nxt' = setGroup nxt groupPos target';
                         stamp = truncateMillisecond (gci_CompletedAt inp) in
                     case AdvanceGroup None (Some target') (queue_Status nxt') (queue_QueueID nxt') stamp of
                       Inl e \<Rightarrow> Inl (CompletionAdvanceError e)
                     | Inr (newStatus, intents) \<Rightarrow>
                         decideAdvancedGroupCompletion nxt' groupPos inp itemChanged stamp newStatus intents))))"

section \<open>Committing a completed queue\<close>

datatype TerminalError = TerminalNilQueue | TerminalOpError QueueOpError | TerminalPersistError string | TerminalUnlinkError string

record TerminalResult =
  tr_Committed :: bool
  tr_CommitErr :: "TerminalError option"
  tr_CleanupErr :: "TerminalError option"

definition TerminalResult_Err :: "TerminalResult \<Rightarrow> TerminalError option" where
  "TerminalResult_Err r = (case tr_CommitErr r of Some e \<Rightarrow> Some e | None \<Rightarrow> tr_CleanupErr r)"

text \<open>
  The file system is a world \<open>'w\<close>: \<open>persist\<close> writes a candidate and \<open>unlink\<close> removes a name, each
  with an error or none. The result carries the caller's queue after the call.
\<close>

definition completeAndUnlinkResult ::
    "('w \<Rightarrow> Queue \<Rightarrow> 'w \<times> string option) \<Rightarrow> ('w \<Rightarrow> string \<Rightarrow> 'w \<times> string option)
     \<Rightarrow> 'w \<Rightarrow> Queue option \<Rightarrow> 'w \<times> Queue option \<times> TerminalResult" where
  "completeAndUnlinkResult persist unlink w queue = (case queue of
       None \<Rightarrow> (w, None, \<lparr>tr_Committed = False, tr_CommitErr = Some TerminalNilQueue, tr_CleanupErr = None\<rparr>)
     | Some q \<Rightarrow> (case CompleteQueue (CloneQueue (Some q)) of
           Inl e \<Rightarrow> (w, Some q, \<lparr>tr_Committed = False, tr_CommitErr = Some (TerminalOpError e), tr_CleanupErr = None\<rparr>)
         | Inr candidate \<Rightarrow> (case persist w candidate of
               (w1, Some err) \<Rightarrow> (w1, Some q, \<lparr>tr_Committed = False, tr_CommitErr = Some (TerminalPersistError err), tr_CleanupErr = None\<rparr>)
             | (w1, None) \<Rightarrow> (case InstallCommittedQueueStatus (Some q) (Some candidate) of
                   Inl e \<Rightarrow> (w1, Some q, \<lparr>tr_Committed = False, tr_CommitErr = Some (TerminalOpError e), tr_CleanupErr = None\<rparr>)
                 | Inr q' \<Rightarrow> (case unlink w1 (NormaliseQueueName (queue_Name q')) of
                       (w2, Some err) \<Rightarrow> (w2, Some q', \<lparr>tr_Committed = True, tr_CommitErr = None, tr_CleanupErr = Some (TerminalUnlinkError err)\<rparr>)
                     | (w2, None) \<Rightarrow> (w2, Some q', \<lparr>tr_Committed = True, tr_CommitErr = None, tr_CleanupErr = None\<rparr>))))))"

section \<open>Resolving the target\<close>

lemma findGroup_Some:
  "findGroup idx i seen pos gs = Inr (Some p) \<Longrightarrow>
     pos = Some p \<or> (\<exists>k < length gs. p = i + k \<and> group_GroupIndex (gs ! k) = idx)"
proof (induction gs arbitrary: i seen pos)
  case Nil
  then show ?case by simp
next
  case (Cons g gs)
  from Cons.prems have "findGroup idx (Suc i) (insert (group_GroupIndex g) seen)
      (if group_GroupIndex g = idx then Some i else pos) gs = Inr (Some p)"
    by (simp split: if_splits)
  from Cons.IH [OF this] show ?case
    by (auto split: if_splits)
qed

lemma findGroup_positions:
  assumes "\<forall>k < length gs. group_GroupIndex (gs ! k) = int (i + k)" "\<forall>x \<in> seen. x < int i"
  shows "findGroup idx i seen pos gs =
     Inr (if int i \<le> idx \<and> idx < int (i + length gs) then Some (nat idx) else pos)"
  using assms
proof (induction gs arbitrary: i seen pos)
  case Nil
  then show ?case by auto
next
  case (Cons g gs)
  have g: "group_GroupIndex g = int i" using Cons.prems(1) by force
  have r: "\<forall>k < length gs. group_GroupIndex (gs ! k) = int (Suc i + k)" using Cons.prems(1) by force
  have s: "\<forall>x \<in> insert (int i) seen. x < int (Suc i)" using Cons.prems(2) by auto
  have "int i \<notin> seen" using Cons.prems(2) by auto
  then show ?case using Cons.IH [OF r s] g by auto
qed

lemma checkGroups_None:
  "checkGroups qs tt target i gs = None \<longleftrightarrow> (\<forall>k < length gs. checkGroup qs tt target (i + k) (gs ! k) = None)"
proof (induction gs arbitrary: i)
  case Nil
  show ?case by simp
next
  case (Cons g gs)
  show ?case
    unfolding length_Cons All_less_Suc2 using Cons.IH [of "Suc i"] by (simp split: option.splits)
qed

lemma invalidItem_None: "invalidItem j its = None \<longleftrightarrow> (\<forall>it \<in> set its. validCompletionItemStatus (item_Status it))"
  by (induction its arbitrary: j) auto

lemma checkGroup_None:
  "checkGroup qs tt target i g = None \<longleftrightarrow>
     group_GroupIndex g = int i \<and> validCompletionGroupStatus (group_Status g)
     \<and> validCompletionGroupKind (group_Kind g)
     \<and> (\<forall>it \<in> set (group_Items g). validCompletionItemStatus (item_Status it))
     \<and> (tt \<or> group_Status g = wantedStatus i target)"
  unfolding checkGroup_def Let_def using invalidItem_None [of 0 "group_Items g"]
  by (auto split: option.splits)

text \<open>The shape of a queue whose group \<open>i\<close> is the one at work.\<close>

definition working :: "Queue \<Rightarrow> nat \<Rightarrow> bool" where
  "working q i \<longleftrightarrow> i < length (queue_Groups q) \<and> (\<forall>k < length (queue_Groups q).
     (let g = queue_Groups q ! k in group_GroupIndex g = int k \<and> group_Status g = wantedStatus k i
        \<and> validCompletionGroupKind (group_Kind g)
        \<and> (\<forall>it \<in> set (group_Items g). validCompletionItemStatus (item_Status it))))"

lemma wantedStatus_valid [simp]: "validCompletionGroupStatus (wantedStatus k i)"
  by (simp add: wantedStatus_def validCompletionGroupStatus_def)

lemma wantedStatus_self [simp]: "wantedStatus i i = GroupStatusActive"
  by (simp add: wantedStatus_def)

lemma validateGroupCompletionQueue_None:
  assumes "i < length (queue_Groups q)" "\<not> groupIsTerminal (group_Status (queue_Groups q ! i))"
  shows "validateGroupCompletionQueue q i = None \<longleftrightarrow> working q i"
  using assms by (auto simp: validateGroupCompletionQueue_def checkGroups_None checkGroup_None working_def Let_def)

lemma CompletionInput_Validate_None:
  "CompletionInput_Validate uuid7 inp = None \<Longrightarrow>
     outcome_valid (gci_Outcome inp) \<and> 0 \<le> loc_GroupIndex (gci_Location inp) \<and> 0 \<le> loc_ItemIndex (gci_Location inp)
     \<and> (gci_CompletionReceiptID inp \<noteq> [] \<longrightarrow> gci_Outcome inp = GroupCompletionOutcomeCompleted)"
  by (auto simp: CompletionInput_Validate_def Let_def split: if_splits)

abbreviation gci_group :: "GroupCompletionInput \<Rightarrow> nat" where
  "gci_group inp \<equiv> nat (loc_GroupIndex (gci_Location inp))"

abbreviation gci_item :: "GroupCompletionInput \<Rightarrow> nat" where
  "gci_item inp \<equiv> nat (loc_ItemIndex (gci_Location inp))"

text \<open>The stored item accepts the reported outcome.\<close>

definition accepts_item :: "Queue \<Rightarrow> GroupCompletionInput \<Rightarrow> bool" where
  "accepts_item q inp \<longleftrightarrow> gci_item inp < length (group_Items (queue_Groups q ! gci_group inp))
     \<and> (let st = item_Status (group_Items (queue_Groups q ! gci_group inp) ! gci_item inp) in
        itemIsTerminal st \<longrightarrow> st = wantedItemStatus (gci_Outcome inp))"

lemma resolve_Inr:
  assumes v: "CompletionInput_Validate uuid7 inp = None"
  shows "resolveGroupCompletionTarget q inp = Inr (Inr (p, st)) \<longleftrightarrow>
     p = gci_group inp \<and> st = wantedItemStatus (gci_Outcome inp) \<and> working q (gci_group inp)
     \<and> accepts_item q inp \<and> queueAcceptsItemCompletion (queue_Status q)"
proof
  assume r: "resolveGroupCompletionTarget q inp = Inr (Inr (p, st))"
  then have f: "findGroup (loc_GroupIndex (gci_Location inp)) 0 {} None (queue_Groups q) = Inr (Some p)"
    and val: "validateGroupCompletionQueue q p = None"
    and nt: "\<not> groupIsTerminal (group_Status (queue_Groups q ! p))"
    and rest: "st = wantedItemStatus (gci_Outcome inp)" "queueAcceptsItemCompletion (queue_Status q)"
      "loc_ItemIndex (gci_Location inp) < int (length (group_Items (queue_Groups q ! p)))"
      "itemIsTerminal (item_Status (group_Items (queue_Groups q ! p) ! gci_item inp)) \<longrightarrow>
         item_Status (group_Items (queue_Groups q ! p) ! gci_item inp) = wantedItemStatus (gci_Outcome inp)"
    by (auto simp: resolveGroupCompletionTarget_def Let_def split: sum.splits option.splits if_splits)
  from findGroup_Some [OF f] have p: "p < length (queue_Groups q)"
    "group_GroupIndex (queue_Groups q ! p) = loc_GroupIndex (gci_Location inp)" by auto
  from validateGroupCompletionQueue_None [OF p(1) nt] val have w: "working q p" by simp
  with p have "loc_GroupIndex (gci_Location inp) = int p" by (simp add: working_def Let_def)
  then have "p = gci_group inp" by simp
  then show "p = gci_group inp \<and> st = wantedItemStatus (gci_Outcome inp) \<and> working q (gci_group inp)
     \<and> accepts_item q inp \<and> queueAcceptsItemCompletion (queue_Status q)"
    using w rest CompletionInput_Validate_None [OF v] by (auto simp: accepts_item_def Let_def)
next
  assume r: "p = gci_group inp \<and> st = wantedItemStatus (gci_Outcome inp) \<and> working q (gci_group inp)
     \<and> accepts_item q inp \<and> queueAcceptsItemCompletion (queue_Status q)"
  have gi: "0 \<le> loc_GroupIndex (gci_Location inp)" "0 \<le> loc_ItemIndex (gci_Location inp)"
    using CompletionInput_Validate_None [OF v] by auto
  have "\<forall>k < length (queue_Groups q). group_GroupIndex (queue_Groups q ! k) = int (0 + k)"
    using r by (auto simp: working_def Let_def)
  from findGroup_positions [OF this, of "{}" "loc_GroupIndex (gci_Location inp)" None]
  have f: "findGroup (loc_GroupIndex (gci_Location inp)) 0 {} None (queue_Groups q) = Inr (Some (gci_group inp))"
    using r gi by (auto simp: working_def)
  have st: "group_Status (queue_Groups q ! gci_group inp) = GroupStatusActive"
    using r by (auto simp: working_def Let_def)
  have val: "validateGroupCompletionQueue q (gci_group inp) = None"
    using validateGroupCompletionQueue_None [of "gci_group inp" q] r st
    by (auto simp: working_def groupIsTerminal_def)
  show "resolveGroupCompletionTarget q inp = Inr (Inr (p, st))"
    using r gi f val st
    by (auto simp: resolveGroupCompletionTarget_def Let_def accepts_item_def groupIsTerminal_def)
qed

section \<open>The reference decision\<close>

text \<open>
  What a completion means, without error handling: the item gets its outcome; the group stays open
  while it has live items; otherwise it closes, a failure parks the queue, a success starts the
  next group if the queue is active, and the last success completes the queue.
\<close>

definition outcomeItems :: "Queue \<Rightarrow> GroupCompletionInput \<Rightarrow> Item list" where
  "outcomeItems q inp =
     (let its = group_Items (queue_Groups q ! gci_group inp) in
      its[gci_item inp := (its ! gci_item inp)\<lparr>item_Status := wantedItemStatus (gci_Outcome inp)\<rparr>])"

definition workedGroup :: "Queue \<Rightarrow> GroupCompletionInput \<Rightarrow> Group" where
  "workedGroup q inp = (queue_Groups q ! gci_group inp)\<lparr>group_Items := outcomeItems q inp\<rparr>"

definition closedGroup :: "Queue \<Rightarrow> GroupCompletionInput \<Rightarrow> GroupStatus \<Rightarrow> Group" where
  "closedGroup q inp st = (workedGroup q inp)\<lparr>group_Status := st,
     group_CompletedAt := Some (truncateMillisecond (gci_CompletedAt inp))\<rparr>"

definition completedEvent :: "Queue \<Rightarrow> GroupCompletionInput \<Rightarrow> GroupStatus \<Rightarrow> string \<Rightarrow> EventIntent" where
  "completedEvent q inp st receipt = QueueGroupCompleted (queue_QueueID q) (int (gci_group inp)) st
     (fst (countOutcomes (workedGroup q inp))) (snd (countOutcomes (workedGroup q inp)))
     (truncateMillisecond (gci_CompletedAt inp)) receipt"

definition refCompletion :: "Queue \<Rightarrow> GroupCompletionInput \<Rightarrow> GroupCompletionDisposition \<times> Queue \<times> EventIntent list" where
  "refCompletion q inp =
     (let i = gci_group inp; stamp = truncateMillisecond (gci_CompletedAt inp);
          nextGroup = queue_Groups q ! (i + 1);
          ok = setGroup q i (closedGroup q inp GroupStatusCompleteSuccess);
          okEvent = completedEvent q inp GroupStatusCompleteSuccess in
      if \<not> allItemsTerminal (workedGroup q inp)
      then (GroupCompletionDispositionIntermediate, setGroup q i (workedGroup q inp), [])
      else if snd (countOutcomes (workedGroup q inp)) \<noteq> 0
      then (GroupCompletionDispositionPausedByFailure,
            (setGroup q i (closedGroup q inp GroupStatusCompleteWithFailures))
              \<lparr>queue_Status := QueueStatusPausedByFailure, queue_ResumeOnStart := False\<rparr>,
            [completedEvent q inp GroupStatusCompleteWithFailures [],
             QueuePaused (queue_QueueID q) (int i) (snd (countOutcomes (workedGroup q inp))) stamp ''group_failure''])
      else if i + 1 < length (queue_Groups q)
      then (if queue_Status q = QueueStatusActive
            then (GroupCompletionDispositionSuccessorActivated,
                  setGroup ok (i + 1) (nextGroup\<lparr>group_Status := GroupStatusActive, group_StartedAt := Some stamp\<rparr>),
                  [okEvent [], QueueGroupStarted (queue_QueueID q) (int (i + 1)) (group_Kind nextGroup)
                     (int (length (group_Items nextGroup))) stamp])
            else (GroupCompletionDispositionSuccessorHeld, ok, [okEvent []]))
      else (GroupCompletionDispositionQueueCompleted,
            ok\<lparr>queue_Status := QueueStatusCompleted, queue_ResumeOnStart := False\<rparr>,
            [okEvent (gci_CompletionReceiptID inp)]))"

text \<open>The requests that are decided on, rather than refused.\<close>

definition ready :: "(string \<Rightarrow> bool) \<Rightarrow> Queue \<Rightarrow> GroupCompletionInput \<Rightarrow> bool" where
  "ready uuid7 q inp \<longleftrightarrow> CompletionInput_Validate uuid7 inp = None \<and> queue_QueueID q = gci_ExpectedQueueID inp
     \<and> queue_QueueID q \<noteq> [] \<and> working q (gci_group inp) \<and> accepts_item q inp
     \<and> queueAcceptsItemCompletion (queue_Status q)"

lemma CloneQueue_same [simp]: "CloneQueue (Some q) = Some q"
proof -
  have p: "clonePointer v = v" for v :: "'a option" by (simp add: clonePointer_def split: option.splits)
  have "cloneQueueItem it = it" for it by (simp add: cloneQueueItem_def p)
  then have "cloneQueueGroup g = g" for g by (simp add: cloneQueueGroup_def p map_idI)
  then show ?thesis by (simp add: CloneQueue_def p map_idI)
qed

lemma setGroup_simps [simp]:
  "queue_Status (setGroup q i g) = queue_Status q" "queue_QueueID (setGroup q i g) = queue_QueueID q"
  "queue_Name (setGroup q i g) = queue_Name q"
  "length (queue_Groups (setGroup q i g)) = length (queue_Groups q)"
  "i < length (queue_Groups q) \<Longrightarrow> queue_Groups (setGroup q i g) ! i = g"
  "i \<noteq> k \<Longrightarrow> queue_Groups (setGroup q i g) ! k = queue_Groups q ! k"
  "setGroup (setGroup q i g) i h = setGroup q i h"
  by (simp_all add: setGroup_def)

lemma CompleteItem_valid:
  "outcome_valid o' \<Longrightarrow> CompleteItem (Some it) o' = Inr (it\<lparr>item_Status := wantedItemStatus o'\<rparr>)"
  by (auto simp: CompleteItem_def outcome_valid_def wantedItemStatus_def setItemStatus_def)

lemma CompleteActiveGroup_closed:
  assumes "group_Status (queue_Groups q ! gci_group inp) = GroupStatusActive" "allItemsTerminal (workedGroup q inp)"
  shows "CompleteActiveGroup (Some (workedGroup q inp)) (truncateMillisecond (gci_CompletedAt inp)) =
     Inr (closedGroup q inp (if snd (countOutcomes (workedGroup q inp)) = 0
       then GroupStatusCompleteSuccess else GroupStatusCompleteWithFailures))"
  using assms by (auto simp: CompleteActiveGroup_def closedGroup_def setGroupStatus_def workedGroup_def Let_def)

lemma closedGroup_simps [simp]:
  "group_Status (closedGroup q inp st) = st"
  "group_GroupIndex (closedGroup q inp st) = group_GroupIndex (queue_Groups q ! gci_group inp)"
  "group_Items (closedGroup q inp st) = outcomeItems q inp"
  by (simp_all add: closedGroup_def workedGroup_def)

lemma workedGroup_simps [simp]:
  "group_Status (workedGroup q inp) = group_Status (queue_Groups q ! gci_group inp)"
  "group_GroupIndex (workedGroup q inp) = group_GroupIndex (queue_Groups q ! gci_group inp)"
  "group_Items (workedGroup q inp) = outcomeItems q inp"
  by (simp_all add: workedGroup_def)

lemma ready_facts:
  assumes "ready uuid7 q inp"
  shows "gci_group inp < length (queue_Groups q)" "group_Status (queue_Groups q ! gci_group inp) = GroupStatusActive"
    "group_GroupIndex (queue_Groups q ! gci_group inp) = int (gci_group inp)"
    "\<And>k. k < length (queue_Groups q) \<Longrightarrow> group_Status (queue_Groups q ! k) = wantedStatus k (gci_group inp)"
    "\<And>k. k < length (queue_Groups q) \<Longrightarrow> group_GroupIndex (queue_Groups q ! k) = int k"
    "outcome_valid (gci_Outcome inp)" "queue_QueueID q \<noteq> []" "queueAcceptsItemCompletion (queue_Status q)"
  using assms CompletionInput_Validate_None [of uuid7 inp] by (auto simp: ready_def working_def Let_def)

text \<open>A ready request reaches the advancement of the worked group.\<close>

lemma Decide_ready:
  assumes r: "ready uuid7 q inp"
  shows "DecideGroupCompletion uuid7 q inp =
     (case AdvanceGroup None (Some (workedGroup q inp)) (queue_Status q) (queue_QueueID q)
             (truncateMillisecond (gci_CompletedAt inp)) of
        Inl e \<Rightarrow> Inl (CompletionAdvanceError e)
      | Inr (newStatus, intents) \<Rightarrow> decideAdvancedGroupCompletion (setGroup q (gci_group inp) (workedGroup q inp))
          (gci_group inp) inp
          (item_Status (group_Items (queue_Groups q ! gci_group inp) ! gci_item inp) \<noteq> wantedItemStatus (gci_Outcome inp))
          (truncateMillisecond (gci_CompletedAt inp)) newStatus intents)"
proof -
  note f = ready_facts [OF r]
  from r have v: "CompletionInput_Validate uuid7 inp = None" by (simp add: ready_def)
  have res: "resolveGroupCompletionTarget q inp = Inr (Inr (gci_group inp, wantedItemStatus (gci_Outcome inp)))"
    using r by (simp add: resolve_Inr [OF v] ready_def)
  have w: "(queue_Groups q ! gci_group inp)\<lparr>group_Items := (group_Items (queue_Groups q ! gci_group inp))
      [gci_item inp := (group_Items (queue_Groups q ! gci_group inp) ! gci_item inp)
         \<lparr>item_Status := wantedItemStatus (gci_Outcome inp)\<rparr>]\<rparr> = workedGroup q inp"
    by (simp add: workedGroup_def outcomeItems_def Let_def)
  show ?thesis
    using r v by (simp add: DecideGroupCompletion_def res CompleteItem_valid [OF f(6)] Let_def w ready_def
      split: sum.splits prod.splits)
qed

lemma receipt_final_only:
  assumes "ready uuid7 q inp" "gci_CompletionReceiptID inp \<noteq> []"
  shows "gci_Outcome inp = GroupCompletionOutcomeCompleted"
  using assms CompletionInput_Validate_None [of uuid7 inp] by (auto simp: ready_def)

lemma AdvanceGroup_worked:
  assumes r: "ready uuid7 q inp"
  shows "AdvanceGroup None (Some (workedGroup q inp)) (queue_Status q) (queue_QueueID q) (truncateMillisecond (gci_CompletedAt inp)) =
    (if \<not> allItemsTerminal (workedGroup q inp) then Inr (GroupStatusActive, [])
     else if snd (countOutcomes (workedGroup q inp)) = 0
     then Inr (GroupStatusCompleteSuccess, [completedEvent q inp GroupStatusCompleteSuccess []])
     else Inr (GroupStatusCompleteWithFailures, [completedEvent q inp GroupStatusCompleteWithFailures [],
        QueuePaused (queue_QueueID q) (int (gci_group inp)) (snd (countOutcomes (workedGroup q inp)))
          (truncateMillisecond (gci_CompletedAt inp)) ''group_failure'']))"
  using ready_facts [OF r] AdvanceGroup_active_eq [of "workedGroup q inp" "queue_QueueID q"]
  by (simp add: completedEvent_def)

text \<open>The outcome of a request that is ready: the reference decision, behind the receipt rule.\<close>

definition readyResult :: "Queue \<Rightarrow> GroupCompletionInput \<Rightarrow> CompletionError + GroupCompletionResult" where
  "readyResult q inp =
     (let (disp, q', evs) = refCompletion q inp in
      if disp = GroupCompletionDispositionQueueCompleted
      then (if gci_CompletionReceiptID inp = []
            then Inr (zeroCompletionResult\<lparr>gcr_Disposition := GroupCompletionDispositionReceiptRequired\<rparr>)
            else Inr (changedCompletionResult q' evs disp))
      else if gci_CompletionReceiptID inp \<noteq> [] then Inl (unexpectedReceipt inp)
      else if disp = GroupCompletionDispositionIntermediate
        \<and> item_Status (group_Items (queue_Groups q ! gci_group inp) ! gci_item inp) = wantedItemStatus (gci_Outcome inp)
      then Inr (noChangeResult GroupCompletionNoChangeMatchingTerminalOutcome)
      else Inr (changedCompletionResult q' evs disp))"

lemma Decide_ready_open:
  assumes r: "ready uuid7 q inp" and "\<not> allItemsTerminal (workedGroup q inp)"
  shows "DecideGroupCompletion uuid7 q inp = readyResult q inp"
  using assms by (simp add: Decide_ready [OF r] AdvanceGroup_worked [OF r] decideAdvancedGroupCompletion_def
    decideIntermediateGroupCompletion_def readyResult_def refCompletion_def Let_def)

lemma list_ex_closed:
  assumes "i < length gs" "group_GroupIndex g = idx" "group_Status g = GroupStatusCompleteWithFailures"
  shows "list_ex (\<lambda>g. group_GroupIndex g = idx \<and> group_Status g = GroupStatusCompleteWithFailures) (gs[i := g])"
  using assms set_update_memI [of i gs g] by (auto simp: list_ex_iff)

lemma Decide_ready_failed:
  assumes r: "ready uuid7 q inp" and "allItemsTerminal (workedGroup q inp)"
    "snd (countOutcomes (workedGroup q inp)) \<noteq> 0"
  shows "DecideGroupCompletion uuid7 q inp = readyResult q inp"
proof -
  note f = ready_facts [OF r]
  let ?g = "closedGroup q inp GroupStatusCompleteWithFailures"
  have "PauseQueueForGroupFailure (Some (setGroup q (gci_group inp) ?g)) (int (gci_group inp)) =
      Inr ((setGroup q (gci_group inp) ?g)\<lparr>queue_Status := QueueStatusPausedByFailure, queue_ResumeOnStart := False\<rparr>)"
    using f list_ex_closed [of "gci_group inp" "queue_Groups q" ?g "int (gci_group inp)"]
    by (simp add: PauseQueueForGroupFailure_def setQueueStatus_def setGroup_def)
  with assms f show ?thesis
    by (simp add: Decide_ready [OF r] AdvanceGroup_worked [OF r] decideAdvancedGroupCompletion_def
      CompleteActiveGroup_closed decideFailedGroupCompletion_def readyResult_def refCompletion_def Let_def)
qed

lemma Decide_ready_next:
  assumes r: "ready uuid7 q inp" and "allItemsTerminal (workedGroup q inp)"
    "snd (countOutcomes (workedGroup q inp)) = 0" "gci_group inp + 1 < length (queue_Groups q)"
  shows "DecideGroupCompletion uuid7 q inp = readyResult q inp"
proof -
  note f = ready_facts [OF r]
  let ?i = "Suc (gci_group inp)"
  have n: "group_Status (queue_Groups q ! ?i) = GroupStatusPending" "group_GroupIndex (queue_Groups q ! ?i) = int ?i"
    using f(4,5) [of ?i] assms(4) by (simp_all add: wantedStatus_def)
  then have "AdvanceGroup None (Some (queue_Groups q ! ?i)) (queue_Status q) (queue_QueueID q) stamp =
      advancePending (queue_Groups q ! ?i) (queue_Status q) (queue_QueueID q) stamp" for stamp
    using f(7) by (simp add: AdvanceGroup_def groupIsTerminal_def)
  with assms f n show ?thesis
    by (simp add: Decide_ready [OF r] AdvanceGroup_worked [OF r] decideAdvancedGroupCompletion_def
      CompleteActiveGroup_closed decideSuccessfulGroupCompletion_def decideSuccessor_def advancePending_def
      ActivatePendingGroup_def setGroupStatus_def readyResult_def refCompletion_def Let_def)
qed

lemma Decide_ready_last:
  assumes r: "ready uuid7 q inp" and "allItemsTerminal (workedGroup q inp)"
    "snd (countOutcomes (workedGroup q inp)) = 0" "\<not> gci_group inp + 1 < length (queue_Groups q)"
  shows "DecideGroupCompletion uuid7 q inp = readyResult q inp"
proof -
  note f = ready_facts [OF r]
  let ?g = "closedGroup q inp GroupStatusCompleteSuccess"
  let ?ok = "setGroup q (gci_group inp) ?g"
  have last: "Suc (gci_group inp) = length (queue_Groups q)" using f(1) assms(4) by simp
  have "group_Status (queue_Groups ?ok ! k) = GroupStatusCompleteSuccess" if "k < length (queue_Groups q)" for k
    using that f(1) f(4) [OF that] last by (cases "k = gci_group inp") (auto simp: wantedStatus_def)
  then have all: "\<forall>g \<in> set (queue_Groups ?ok). group_Status g = GroupStatusCompleteSuccess"
    by (auto simp: in_set_conv_nth)
  then have fn: "find (\<lambda>g. group_Status g \<noteq> GroupStatusCompleteSuccess) (queue_Groups ?ok) = None"
    by (auto simp: find_None_iff)
  have "queue_Groups ?ok \<noteq> []" "queue_Status q \<noteq> QueueStatusCompleted"
    using f(1,8) by (auto simp: setGroup_def queueAcceptsItemCompletion_def)
  with fn f(8) have c: "CompleteQueue (Some ?ok) =
      Inr (?ok\<lparr>queue_Status := QueueStatusCompleted, queue_ResumeOnStart := False\<rparr>)"
    by (simp add: CompleteQueue_def setQueueStatus_def)
  show ?thesis
    using assms f fn c last
    by (simp add: Decide_ready [OF r] AdvanceGroup_worked [OF r] decideAdvancedGroupCompletion_def
      CompleteActiveGroup_closed decideSuccessfulGroupCompletion_def readyResult_def refCompletion_def Let_def
      completedEvent_def)
qed

lemma Decide_ready_eq:
  assumes "ready uuid7 q inp"
  shows "DecideGroupCompletion uuid7 q inp = readyResult q inp"
  using Decide_ready_open [OF assms] Decide_ready_failed [OF assms] Decide_ready_next [OF assms]
    Decide_ready_last [OF assms] by blast

lemma Decide_not_ready:
  assumes "\<not> ready uuid7 q inp" "queue_QueueID q \<noteq> []"
  shows "(\<exists>e. DecideGroupCompletion uuid7 q inp = Inl e)
     \<or> (\<exists>reason. noChangeReason_valid reason \<and> DecideGroupCompletion uuid7 q inp = Inr (noChangeResult reason))"
proof (cases "CompletionInput_Validate uuid7 inp = None \<and> queue_QueueID q = gci_ExpectedQueueID inp")
  case False
  then show ?thesis
    by (cases "CompletionInput_Validate uuid7 inp") (auto simp: DecideGroupCompletion_def noChangeReason_valid_def)
next
  case True
  then have "\<nexists>p st. resolveGroupCompletionTarget q inp = Inr (Inr (p, st))"
    using assms by (auto simp: ready_def resolve_Inr)
  moreover have "early = noChangeResult GroupCompletionNoChangeMatchingTerminalOutcome"
    if "resolveGroupCompletionTarget q inp = Inr (Inl early)" for early
    using that by (auto simp: resolveGroupCompletionTarget_def Let_def split: sum.splits option.splits if_splits)
  ultimately show ?thesis
    using True by (auto simp: DecideGroupCompletion_def noChangeReason_valid_def split: sum.splits prod.splits)
qed

section \<open>Promises of the completion decision\<close>

text \<open>
  C11. The decision refines its reference. For a queue with an identity, a request is decided
  exactly when it is ready: the input is well formed, names this queue, and the target group is the
  one active group after successful groups and before pending ones, all groups and items are valid,
  the item has no other terminal outcome and the queue accepts completions. A ready request yields
  the reference decision, queue, disposition and events, behind the rule that the last success
  needs a completion receipt and nothing else may carry one; any other request is an error or a
  valid no-change result.
\<close>
theorem DecideGroupCompletion_refines:
  assumes "queue_QueueID q \<noteq> []"
  shows "(ready uuid7 q inp \<longrightarrow> DecideGroupCompletion uuid7 q inp = readyResult q inp)
     \<and> (\<not> ready uuid7 q inp \<longrightarrow> (\<exists>e. DecideGroupCompletion uuid7 q inp = Inl e)
          \<or> (\<exists>reason. noChangeReason_valid reason \<and> DecideGroupCompletion uuid7 q inp = Inr (noChangeResult reason)))"
  using Decide_ready_eq Decide_not_ready assms by blast

lemma readyResult_valid:
  "readyResult q inp = Inr r \<Longrightarrow> CompletionResult_Validate r"
  by (auto simp: readyResult_def refCompletion_def Let_def noChangeResult_def zeroCompletionResult_def
    changedCompletionResult_def validAsNoChange_def validAsChanged_def validAsReceiptRequired_def
    leavesQueueAlone_def noChangeReason_valid_def split: if_splits)

text \<open>
  Every result is internally consistent: whatever the queue and the request, a decision that
  returns a result returns one its own validator accepts, so a changed result always carries a
  queue and an unchanged one never does.
\<close>
theorem DecideGroupCompletion_valid:
  assumes "queue_QueueID q \<noteq> []" and "DecideGroupCompletion uuid7 q inp = Inr r"
  shows "CompletionResult_Validate r \<and> (gcr_Changed r \<longleftrightarrow> gcr_NextQueue r \<noteq> None)
     \<and> (\<not> gcr_Changed r \<longrightarrow> gcr_Intents r = [])"
proof -
  have v: "CompletionResult_Validate r"
  proof (cases "ready uuid7 q inp")
    case True
    then show ?thesis using assms Decide_ready_eq readyResult_valid by metis
  next
    case False
    with Decide_not_ready [OF False assms(1)] assms(2) obtain reason where
      "noChangeReason_valid reason" "r = noChangeResult reason" by auto
    then show ?thesis
      by (simp add: noChangeResult_def zeroCompletionResult_def validAsNoChange_def leavesQueueAlone_def)
  qed
  then show ?thesis
    by (cases "gcr_Disposition r")
      (auto simp: validAsNoChange_def validAsChanged_def validAsReceiptRequired_def leavesQueueAlone_def)
qed

text \<open>The queue a changed result carries.\<close>

lemma changed_result:
  assumes "queue_QueueID q \<noteq> []" "DecideGroupCompletion uuid7 q inp = Inr r" "gcr_NextQueue r = Some q'"
  shows "ready uuid7 q inp \<and> q' = fst (snd (refCompletion q inp)) \<and> gcr_Disposition r = fst (refCompletion q inp)
     \<and> gcr_Intents r = snd (snd (refCompletion q inp))
     \<and> (gcr_Disposition r = GroupCompletionDispositionQueueCompleted \<longleftrightarrow> gci_CompletionReceiptID inp \<noteq> [])"
proof -
  have rd: "ready uuid7 q inp"
    using Decide_not_ready [OF _ assms(1)] assms(2,3)
    by (fastforce simp: noChangeResult_def zeroCompletionResult_def)
  with assms(2) have "readyResult q inp = Inr r" by (simp add: Decide_ready_eq)
  with rd assms(3) show ?thesis
    by (auto simp: readyResult_def noChangeResult_def zeroCompletionResult_def changedCompletionResult_def Let_def
      split: prod.splits if_splits)
qed

text \<open>
  The stored shape of a queue: groups are indexed by position and valid, and they are successful up
  to some point, pending after it.
\<close>

definition pipelineAt :: "Queue \<Rightarrow> nat \<Rightarrow> bool" where
  "pipelineAt q k \<longleftrightarrow> k \<le> length (queue_Groups q) \<and> (\<forall>m < length (queue_Groups q).
     (let g = queue_Groups q ! m in group_GroupIndex g = int m \<and> validCompletionGroupKind (group_Kind g)
        \<and> (\<forall>it \<in> set (group_Items g). validCompletionItemStatus (item_Status it))
        \<and> (m < k \<longrightarrow> group_Status g = GroupStatusCompleteSuccess)
        \<and> (m = k \<longrightarrow> group_Status g \<in> {GroupStatusPending, GroupStatusActive, GroupStatusCompleteWithFailures})
        \<and> (k < m \<longrightarrow> group_Status g = GroupStatusPending)))"

lemma outcomeItems_valid:
  assumes "\<forall>it \<in> set (group_Items (queue_Groups q ! gci_group inp)). validCompletionItemStatus (item_Status it)"
  shows "\<forall>it \<in> set (outcomeItems q inp). validCompletionItemStatus (item_Status it)"
proof -
  have "validCompletionItemStatus (wantedItemStatus (gci_Outcome inp))"
    by (simp add: validCompletionItemStatus_def wantedItemStatus_def)
  with assms show ?thesis
    unfolding outcomeItems_def Let_def by (auto dest!: set_update_subset_insert [THEN subsetD])
qed

lemma ref_groups:
  assumes "ready uuid7 q inp" "m < length (queue_Groups q)"
  shows "queue_Groups (fst (snd (refCompletion q inp))) ! m =
    (if m = gci_group inp
     then (if fst (refCompletion q inp) = GroupCompletionDispositionIntermediate then workedGroup q inp
           else if fst (refCompletion q inp) = GroupCompletionDispositionPausedByFailure
           then closedGroup q inp GroupStatusCompleteWithFailures
           else closedGroup q inp GroupStatusCompleteSuccess)
     else if m = gci_group inp + 1 \<and> fst (refCompletion q inp) = GroupCompletionDispositionSuccessorActivated
     then (queue_Groups q ! m)\<lparr>group_Status := GroupStatusActive,
            group_StartedAt := Some (truncateMillisecond (gci_CompletedAt inp))\<rparr>
     else queue_Groups q ! m)"
  using assms(2) ready_facts(1) [OF assms(1)]
  by (auto simp: refCompletion_def Let_def)

lemma ref_queue [simp]:
  "length (queue_Groups (fst (snd (refCompletion q inp)))) = length (queue_Groups q)"
  "queue_QueueID (fst (snd (refCompletion q inp))) = queue_QueueID q"
  by (simp_all add: refCompletion_def Let_def)

lemma closed_kind [simp]:
  "group_Kind (closedGroup q inp st) = group_Kind (queue_Groups q ! gci_group inp)"
  "group_Kind (workedGroup q inp) = group_Kind (queue_Groups q ! gci_group inp)"
  by (simp_all add: closedGroup_def workedGroup_def)

lemma ref_cases:
  assumes "ready uuid7 q inp"
  shows "fst (refCompletion q inp) \<in> {GroupCompletionDispositionIntermediate, GroupCompletionDispositionPausedByFailure}
     \<or> fst (refCompletion q inp) \<in> {GroupCompletionDispositionSuccessorActivated, GroupCompletionDispositionSuccessorHeld,
          GroupCompletionDispositionQueueCompleted}"
  by (auto simp: refCompletion_def Let_def)

lemma ref_pipeline:
  assumes r: "ready uuid7 q inp"
  shows "\<exists>k. pipelineAt (fst (snd (refCompletion q inp))) k"
proof -
  let ?i = "gci_group inp" and ?d = "fst (refCompletion q inp)" and ?q' = "fst (snd (refCompletion q inp))"
  note f = ready_facts [OF r]
  have valid: "validCompletionGroupKind (group_Kind (queue_Groups q ! m))
      \<and> (\<forall>it \<in> set (group_Items (queue_Groups q ! m)). validCompletionItemStatus (item_Status it))"
    if "m < length (queue_Groups q)" for m
    using r that by (auto simp: ready_def working_def Let_def)
  have oi: "\<forall>it \<in> set (outcomeItems q inp). validCompletionItemStatus (item_Status it)"
    using valid [OF f(1)] by (intro outcomeItems_valid) simp
  from ref_cases [OF r] show ?thesis
  proof
    assume d: "?d \<in> {GroupCompletionDispositionIntermediate, GroupCompletionDispositionPausedByFailure}"
    have "pipelineAt ?q' ?i"
      unfolding pipelineAt_def Let_def ref_queue
    proof (intro conjI allI impI)
      show "?i \<le> length (queue_Groups q)" using f(1) by simp
    qed (use d f valid oi in \<open>auto simp: ref_groups [OF r] wantedStatus_def\<close>)
    then show ?thesis ..
  next
    assume d: "?d \<in> {GroupCompletionDispositionSuccessorActivated, GroupCompletionDispositionSuccessorHeld,
          GroupCompletionDispositionQueueCompleted}"
    have "pipelineAt ?q' (Suc ?i)"
      unfolding pipelineAt_def Let_def ref_queue
    proof (intro conjI allI impI)
      show "Suc ?i \<le> length (queue_Groups q)" using f(1) by simp
    qed (use d f valid oi in \<open>auto simp: ref_groups [OF r] wantedStatus_def\<close>)
    then show ?thesis ..
  qed
qed

lemma ref_target:
  assumes "ready uuid7 q inp"
  shows "\<exists>st \<in> {GroupStatusActive, GroupStatusCompleteSuccess, GroupStatusCompleteWithFailures}.
     queue_Groups (fst (snd (refCompletion q inp))) ! gci_group inp = (queue_Groups q ! gci_group inp)\<lparr>group_Items := outcomeItems q inp,
       group_Status := st, group_CompletedAt := (if st = GroupStatusActive then group_CompletedAt (queue_Groups q ! gci_group inp)
          else Some (truncateMillisecond (gci_CompletedAt inp)))\<rparr>
     \<and> (st = GroupStatusCompleteSuccess \<longleftrightarrow> allItemsTerminal (workedGroup q inp) \<and> snd (countOutcomes (workedGroup q inp)) = 0)"
  using ref_groups [OF assms ready_facts(1) [OF assms]] ready_facts(1,2) [OF assms]
  by (auto simp: refCompletion_def Let_def closedGroup_def workedGroup_def)

text \<open>
  C29. A completion changes one item, its group and at most the successor. Whenever a decision changes
  the queue, only its groups, its status and its resume-on-start bit can change, and its groups stay
  as many, indexed by position, successful up to a point and pending after it. In the target group
  the reported item has the reported outcome and every other item is as it was; of its other fields
  only the status and, when it closes, the completion time change. Every other group is untouched,
  except that the next group of an active queue is activated, and nothing else of it changed, exactly
  when the target closes successfully.
\<close>
theorem DecideGroupCompletion_shape:
  assumes "queue_QueueID q \<noteq> []" and "DecideGroupCompletion uuid7 q inp = Inr r" and "gcr_NextQueue r = Some q'"
  shows "q' = q\<lparr>queue_Groups := queue_Groups q', queue_Status := queue_Status q', queue_ResumeOnStart := queue_ResumeOnStart q'\<rparr>
     \<and> length (queue_Groups q') = length (queue_Groups q) \<and> (\<exists>k. pipelineAt q' k)
     \<and> (let i = gci_group inp; j = gci_item inp; g = queue_Groups q ! i; g' = queue_Groups q' ! i; stamp = truncateMillisecond (gci_CompletedAt inp) in
         group_Items g' = (group_Items g)[j := (group_Items g ! j)\<lparr>item_Status := wantedItemStatus (gci_Outcome inp)\<rparr>]
         \<and> j < length (group_Items g)
         \<and> g' = g\<lparr>group_Items := group_Items g', group_Status := group_Status g', group_CompletedAt := group_CompletedAt g'\<rparr>
         \<and> (group_Status g' = GroupStatusActive \<and> group_CompletedAt g' = group_CompletedAt g
            \<or> group_Status g' \<in> {GroupStatusCompleteSuccess, GroupStatusCompleteWithFailures} \<and> group_CompletedAt g' = Some stamp)
         \<and> (\<forall>m < length (queue_Groups q). m \<noteq> i \<longrightarrow> queue_Groups q' ! m =
              (if m = i + 1 \<and> group_Status g' = GroupStatusCompleteSuccess \<and> queue_Status q = QueueStatusActive
               then (queue_Groups q ! m)\<lparr>group_Status := GroupStatusActive, group_StartedAt := Some stamp\<rparr> else queue_Groups q ! m)))"
proof -
  from changed_result [OF assms] have r: "ready uuid7 q inp" and q': "q' = fst (snd (refCompletion q inp))" by auto
  have j: "gci_item inp < length (group_Items (queue_Groups q ! gci_group inp))"
    using r by (simp add: ready_def accepts_item_def)
  obtain st where st: "st \<in> {GroupStatusActive, GroupStatusCompleteSuccess, GroupStatusCompleteWithFailures}"
    "queue_Groups q' ! gci_group inp = (queue_Groups q ! gci_group inp)\<lparr>group_Items := outcomeItems q inp,
       group_Status := st, group_CompletedAt := (if st = GroupStatusActive then group_CompletedAt (queue_Groups q ! gci_group inp)
          else Some (truncateMillisecond (gci_CompletedAt inp)))\<rparr>"
    "st = GroupStatusCompleteSuccess \<longleftrightarrow> allItemsTerminal (workedGroup q inp) \<and> snd (countOutcomes (workedGroup q inp)) = 0"
    using ref_target [OF r] unfolding q' by blast
  have others: "queue_Groups q' ! m = (if m = gci_group inp + 1 \<and> st = GroupStatusCompleteSuccess \<and> queue_Status q = QueueStatusActive
       then (queue_Groups q ! m)\<lparr>group_Status := GroupStatusActive, group_StartedAt := Some (truncateMillisecond (gci_CompletedAt inp))\<rparr>
       else queue_Groups q ! m)" if "m < length (queue_Groups q)" "m \<noteq> gci_group inp" for m
    using ref_groups [OF r that(1)] that st(3) by (auto simp: q' refCompletion_def Let_def)
  have same: "q' = q\<lparr>queue_Groups := queue_Groups q', queue_Status := queue_Status q', queue_ResumeOnStart := queue_ResumeOnStart q'\<rparr>"
    by (simp add: q' refCompletion_def setGroup_def Let_def)
  show ?thesis
    using ref_pipeline [OF r] j st(1,2) others same by (auto simp: q' outcomeItems_def Let_def)
qed

section \<open>Repeating a completion\<close>

lemma resolve_early:
  assumes v: "CompletionInput_Validate uuid7 inp = None" and p: "pipelineAt q k"
    and i: "gci_group inp < length (queue_Groups q)" "groupIsTerminal (group_Status (queue_Groups q ! gci_group inp))"
    and j: "gci_item inp < length (group_Items (queue_Groups q ! gci_group inp))"
      "item_Status (group_Items (queue_Groups q ! gci_group inp) ! gci_item inp) = wantedItemStatus (gci_Outcome inp)"
    and rc: "gci_CompletionReceiptID inp = []"
  shows "resolveGroupCompletionTarget q inp = Inr (Inl (noChangeResult GroupCompletionNoChangeMatchingTerminalOutcome))"
proof -
  have gi: "0 \<le> loc_GroupIndex (gci_Location inp)" "0 \<le> loc_ItemIndex (gci_Location inp)"
    using CompletionInput_Validate_None [OF v] by auto
  have "\<forall>k < length (queue_Groups q). group_GroupIndex (queue_Groups q ! k) = int (0 + k)"
    using p by (auto simp: pipelineAt_def Let_def)
  from findGroup_positions [OF this, of "{}" "loc_GroupIndex (gci_Location inp)" None]
  have f: "findGroup (loc_GroupIndex (gci_Location inp)) 0 {} None (queue_Groups q) = Inr (Some (gci_group inp))"
    using gi i(1) by auto
  have "checkGroup qs True t (0 + m) (queue_Groups q ! m) = None" if "m < length (queue_Groups q)" for m qs t
    unfolding checkGroup_None using p that
    by (auto simp: pipelineAt_def Let_def validCompletionGroupStatus_def)
  then have val: "validateGroupCompletionQueue q (gci_group inp) = None"
    using i(2) by (simp add: validateGroupCompletionQueue_def checkGroups_None)
  show ?thesis
    using f val gi i j rc by (simp add: resolveGroupCompletionTarget_def Let_def)
qed

text \<open>
  Completions are idempotent. After a decision that changed the queue, reporting the same
  outcome for the same item on the new queue, without a receipt, is a matching no-change: nothing
  is counted, emitted or advanced twice.
\<close>
theorem DecideGroupCompletion_idempotent:
  assumes "queue_QueueID q \<noteq> []" and "DecideGroupCompletion uuid7 q inp = Inr r" and "gcr_NextQueue r = Some q'"
  shows "DecideGroupCompletion uuid7 q' (inp\<lparr>gci_CompletionReceiptID := []\<rparr>) =
     Inr (noChangeResult GroupCompletionNoChangeMatchingTerminalOutcome)"
proof -
  let ?inp = "inp\<lparr>gci_CompletionReceiptID := []\<rparr>"
  from changed_result [OF assms] have r: "ready uuid7 q inp" and q': "q' = fst (snd (refCompletion q inp))" by auto
  note f = ready_facts [OF r]
  have v: "CompletionInput_Validate uuid7 ?inp = None"
    using r by (auto simp: ready_def CompletionInput_Validate_def Let_def split: if_splits)
  have id: "queue_QueueID q' = gci_ExpectedQueueID ?inp" using r by (simp add: q' ready_def)
  have j: "gci_item inp < length (group_Items (queue_Groups q ! gci_group inp))"
    using r by (simp add: ready_def accepts_item_def)
  have items: "group_Items (queue_Groups q' ! gci_group inp) = outcomeItems q inp"
    by (simp add: q' ref_groups [OF r f(1)])
  have st: "item_Status (outcomeItems q inp ! gci_item inp) = wantedItemStatus (gci_Outcome inp)"
    "gci_item inp < length (outcomeItems q inp)"
    using j by (simp_all add: outcomeItems_def Let_def)
  show ?thesis
  proof (cases "fst (refCompletion q inp) = GroupCompletionDispositionIntermediate")
    case True
    then have open': "\<not> allItemsTerminal (workedGroup q inp)" and s: "q' = setGroup q (gci_group inp) (workedGroup q inp)"
      by (auto simp: q' refCompletion_def Let_def split: if_splits)
    have "working q' (gci_group inp)"
      using r f(1) outcomeItems_valid [of q inp] unfolding s ready_def working_def Let_def
      by (auto simp: setGroup_def nth_list_update)
    moreover have acc: "accepts_item q' ?inp" using st items by (simp add: accepts_item_def Let_def)
    ultimately have rd: "ready uuid7 q' ?inp"
      using v id f assms(1) by (simp add: ready_def s)
    have same: "outcomeItems q' ?inp = outcomeItems q inp"
      using f(1) j by (simp add: s outcomeItems_def Let_def)
    have "allItemsTerminal (workedGroup q' ?inp) = allItemsTerminal (workedGroup q inp)"
      using same by (simp add: allItemsTerminal_def)
    then show ?thesis
      using open' items st unfolding Decide_ready_eq [OF rd] readyResult_def refCompletion_def by (simp add: Let_def)
  next
    case False
    then have "groupIsTerminal (group_Status (queue_Groups q' ! gci_group inp))"
      by (simp add: q' ref_groups [OF r f(1)] groupIsTerminal_def)
    moreover obtain k where "pipelineAt q' k" using ref_pipeline [OF r] q' by blast
    ultimately have "resolveGroupCompletionTarget q' ?inp =
        Inr (Inl (noChangeResult GroupCompletionNoChangeMatchingTerminalOutcome))"
      using f(1) st items by (intro resolve_early [OF v]) (simp_all add: q')
    with v id show ?thesis by (simp add: DecideGroupCompletion_def)
  qed
qed

section \<open>The completion receipt\<close>

lemma no_failure_completed:
  assumes rd: "ready uuid7 q inp" and nf: "snd (countOutcomes (workedGroup q inp)) = 0"
  shows "gci_Outcome inp = GroupCompletionOutcomeCompleted"
proof (rule ccontr)
  assume n: "gci_Outcome inp \<noteq> GroupCompletionOutcomeCompleted"
  then have "wantedItemStatus (gci_Outcome inp) = ItemStatusFailed"
    using ready_facts(6) [OF rd] by (simp add: outcome_valid_def wantedItemStatus_def)
  moreover have "gci_item inp < length (group_Items (queue_Groups q ! gci_group inp))"
    using rd by (simp add: ready_def accepts_item_def)
  ultimately have "\<exists>it \<in> set (outcomeItems q inp). item_Status it = ItemStatusFailed"
    by (auto simp: outcomeItems_def Let_def intro!: bexI [OF _ set_update_memI])
  with nf show False by (auto simp: no_failures_iff)
qed

lemma completed_has_queue:
  assumes "queue_QueueID q \<noteq> []" "DecideGroupCompletion uuid7 q inp = Inr r"
    "gcr_Disposition r = GroupCompletionDispositionQueueCompleted"
  shows "gcr_NextQueue r \<noteq> None"
proof (cases "ready uuid7 q inp")
  case True
  with assms(2) have "readyResult q inp = Inr r" by (simp add: Decide_ready_eq)
  with readyResult_valid [OF this] assms(3) show ?thesis by (simp add: validAsChanged_def)
next
  case False
  with Decide_not_ready [OF False assms(1)] assms(2,3) show ?thesis by (auto simp: noChangeResult_def)
qed

text \<open>
  C28. The receipt protocol. When a decision asks for a receipt it changes nothing, and the same
  request with any well-formed receipt then completes the queue: every group of the new queue is
  successful, its status is completed, and its single event carries that receipt. Conversely a
  decision completes the queue only for a request that carries a receipt.
\<close>
theorem completion_receipt_protocol:
  assumes "queue_QueueID q \<noteq> []" and "DecideGroupCompletion uuid7 q inp = Inr r"
  shows "(gcr_Disposition r = GroupCompletionDispositionReceiptRequired \<and> receipt \<noteq> [] \<and> uuid7 receipt \<longrightarrow>
       gcr_NextQueue r = None \<and>
       (\<exists>r' q'. DecideGroupCompletion uuid7 q (inp\<lparr>gci_CompletionReceiptID := receipt\<rparr>) = Inr r'
          \<and> gcr_Disposition r' = GroupCompletionDispositionQueueCompleted \<and> gcr_NextQueue r' = Some q'
          \<and> queue_Status q' = QueueStatusCompleted
          \<and> gcr_Intents r' = [completedEvent q inp GroupStatusCompleteSuccess receipt]))
   \<and> (gcr_Disposition r = GroupCompletionDispositionQueueCompleted \<longrightarrow> gci_CompletionReceiptID inp \<noteq> [])"
proof (intro conjI impI)
  assume a: "gcr_Disposition r = GroupCompletionDispositionReceiptRequired \<and> receipt \<noteq> [] \<and> uuid7 receipt"
  have rd: "ready uuid7 q inp"
    using Decide_not_ready [OF _ assms(1)] assms(2) a by (fastforce simp: noChangeResult_def)
  with assms(2) have rr: "readyResult q inp = Inr r" by (simp add: Decide_ready_eq)
  then have c: "fst (refCompletion q inp) = GroupCompletionDispositionQueueCompleted"
    using a by (auto simp: readyResult_def noChangeResult_def changedCompletionResult_def refCompletion_def Let_def
      split: if_splits)
  from rr c show "gcr_NextQueue r = None"
    using a by (auto simp: readyResult_def zeroCompletionResult_def changedCompletionResult_def Let_def
      split: prod.splits if_splits)
  have last: "allItemsTerminal (workedGroup q inp)" "snd (countOutcomes (workedGroup q inp)) = 0"
    "\<not> gci_group inp + 1 < length (queue_Groups q)"
    using c by (auto simp: refCompletion_def Let_def split: if_splits)
  let ?inp = "inp\<lparr>gci_CompletionReceiptID := receipt\<rparr>"
  have same: "workedGroup q ?inp = workedGroup q inp" by (simp add: workedGroup_def outcomeItems_def Let_def)
  have comp: "gci_Outcome inp = GroupCompletionOutcomeCompleted"
    by (rule no_failure_completed [OF rd last(2)])
  have rd': "ready uuid7 q ?inp"
    using rd a comp by (auto simp: ready_def CompletionInput_Validate_def accepts_item_def Let_def split: if_splits)
  show "\<exists>r' q'. DecideGroupCompletion uuid7 q ?inp = Inr r'
          \<and> gcr_Disposition r' = GroupCompletionDispositionQueueCompleted \<and> gcr_NextQueue r' = Some q'
          \<and> queue_Status q' = QueueStatusCompleted
          \<and> gcr_Intents r' = [completedEvent q inp GroupStatusCompleteSuccess receipt]"
    unfolding Decide_ready_eq [OF rd'] readyResult_def refCompletion_def Let_def same
    using last a by (simp add: changedCompletionResult_def completedEvent_def same)
next
  assume c: "gcr_Disposition r = GroupCompletionDispositionQueueCompleted"
  from completed_has_queue [OF assms c]
changed_result [OF assms] c show "gci_CompletionReceiptID inp \<noteq> []" by auto
qed

definition wit_cqueue :: Queue where
  "wit_cqueue = zeroQueue\<lparr>queue_QueueID := ''q'', queue_Status := QueueStatusPausedByDrain, queue_ResumeOnStart := True,
     queue_Groups := [zeroGroup\<lparr>group_GroupIndex := 0, group_Kind := GroupKindStream, group_Status := GroupStatusActive,
       group_Items := [zeroItem\<lparr>item_BeadID := ''a'', item_Status := ItemStatusCompleted\<rparr>,
                       zeroItem\<lparr>item_BeadID := ''b'', item_Status := ItemStatusDispatched\<rparr>]\<rparr>]\<rparr>"

definition wit_cinput :: GroupCompletionInput where
  "wit_cinput = \<lparr>gci_ExpectedQueueID = ''q'', gci_Location = \<lparr>loc_GroupIndex = 0, loc_ItemIndex = 1\<rparr>,
     gci_Outcome = GroupCompletionOutcomeFailed, gci_CompletedAt = 5000000, gci_CompletionReceiptID = []\<rparr>"

definition wit_uuid7 :: "string \<Rightarrow> bool" where "wit_uuid7 x \<longleftrightarrow> x \<noteq> []"

lemmas wit_cqueue_defs = wit_cqueue_def wit_cinput_def wit_uuid7_def zeroItem_def zeroGroup_def zeroQueue_def

lemma wit_ready: "o' \<in> {GroupCompletionOutcomeCompleted, GroupCompletionOutcomeFailed} \<Longrightarrow>
   ready wit_uuid7 wit_cqueue (wit_cinput\<lparr>gci_Outcome := o'\<rparr>)"
  by (auto simp: ready_def CompletionInput_Validate_def outcome_valid_def truncateMillisecond_def year10000_def
    working_def accepts_item_def wantedStatus_def validCompletionGroupKind_def validCompletionItemStatus_def
    queueAcceptsItemCompletion_def itemIsTerminal_def wit_cqueue_defs)

lemma wit_ready_failed: "ready wit_uuid7 wit_cqueue wit_cinput"
  using wit_ready [of GroupCompletionOutcomeFailed] by (simp add: wit_cinput_def)

lemma wit_queue_id: "queue_QueueID wit_cqueue \<noteq> []"
  by (simp add: wit_cqueue_def)

lemma wit_run_failed:
  obtains r q' where "DecideGroupCompletion wit_uuid7 wit_cqueue wit_cinput = Inr r" "gcr_NextQueue r = Some q'"
    "queue_Status q' = QueueStatusPausedByFailure"
proof -
  have t: "allItemsTerminal (workedGroup wit_cqueue wit_cinput)" "snd (countOutcomes (workedGroup wit_cqueue wit_cinput)) \<noteq> 0"
    by (simp_all add: allItemsTerminal_def no_failures_iff outcomeItems_def wantedItemStatus_def itemIsTerminal_def wit_cqueue_defs)
  from Decide_ready_eq [OF wit_ready_failed] t have
    "DecideGroupCompletion wit_uuid7 wit_cqueue wit_cinput =
       Inr (changedCompletionResult (fst (snd (refCompletion wit_cqueue wit_cinput)))
         (snd (snd (refCompletion wit_cqueue wit_cinput))) GroupCompletionDispositionPausedByFailure)"
    by (simp add: readyResult_def refCompletion_def Let_def) (simp add: wit_cinput_def)
  moreover have "queue_Status (fst (snd (refCompletion wit_cqueue wit_cinput))) = QueueStatusPausedByFailure"
    using t by (simp add: refCompletion_def Let_def)
  ultimately show thesis using that by (simp add: changedCompletionResult_def)
qed

theorem DecideGroupCompletion_refines_witness:
  "DecideGroupCompletion wit_uuid7 wit_cqueue wit_cinput = readyResult wit_cqueue wit_cinput"
  using DecideGroupCompletion_refines [OF wit_queue_id] wit_ready_failed by blast

theorem DecideGroupCompletion_valid_witness:
  "\<exists>r. DecideGroupCompletion wit_uuid7 wit_cqueue wit_cinput = Inr r \<and> gcr_Changed r"
proof (rule wit_run_failed)
  fix r q'
  assume a: "DecideGroupCompletion wit_uuid7 wit_cqueue wit_cinput = Inr r" "gcr_NextQueue r = Some q'"
  with DecideGroupCompletion_valid [OF wit_queue_id a(1)] show ?thesis by auto
qed

theorem DecideGroupCompletion_shape_witness:
  "\<exists>r q'. DecideGroupCompletion wit_uuid7 wit_cqueue wit_cinput = Inr r \<and> gcr_NextQueue r = Some q'
     \<and> (\<exists>k. pipelineAt q' k)"
proof (rule wit_run_failed)
  fix r q'
  assume a: "DecideGroupCompletion wit_uuid7 wit_cqueue wit_cinput = Inr r" "gcr_NextQueue r = Some q'"
  with DecideGroupCompletion_shape [OF wit_queue_id a] show ?thesis by blast
qed

theorem DecideGroupCompletion_idempotent_witness:
  "\<exists>r q'. DecideGroupCompletion wit_uuid7 wit_cqueue wit_cinput = Inr r \<and> gcr_NextQueue r = Some q'
     \<and> DecideGroupCompletion wit_uuid7 q' (wit_cinput\<lparr>gci_CompletionReceiptID := []\<rparr>) =
         Inr (noChangeResult GroupCompletionNoChangeMatchingTerminalOutcome)"
proof (rule wit_run_failed)
  fix r q'
  assume a: "DecideGroupCompletion wit_uuid7 wit_cqueue wit_cinput = Inr r" "gcr_NextQueue r = Some q'"
  with DecideGroupCompletion_idempotent [OF wit_queue_id a] show ?thesis by blast
qed

theorem completion_receipt_protocol_witness:
  "\<exists>r' q'. DecideGroupCompletion wit_uuid7 wit_cqueue
       (wit_cinput\<lparr>gci_Outcome := GroupCompletionOutcomeCompleted, gci_CompletionReceiptID := ''rc''\<rparr>) = Inr r'
     \<and> gcr_NextQueue r' = Some q' \<and> queue_Status q' = QueueStatusCompleted"
proof -
  let ?inp = "wit_cinput\<lparr>gci_Outcome := GroupCompletionOutcomeCompleted\<rparr>"
  have rd: "ready wit_uuid7 wit_cqueue ?inp" by (rule wit_ready) simp
  have t: "allItemsTerminal (workedGroup wit_cqueue ?inp)" "snd (countOutcomes (workedGroup wit_cqueue ?inp)) = 0"
    by (simp_all add: allItemsTerminal_def no_failures_iff outcomeItems_def wantedItemStatus_def itemIsTerminal_def wit_cqueue_defs)
  have l: "length (queue_Groups wit_cqueue) = 1" by (simp add: wit_cqueue_def)
  have "DecideGroupCompletion wit_uuid7 wit_cqueue ?inp =
      Inr (zeroCompletionResult\<lparr>gcr_Disposition := GroupCompletionDispositionReceiptRequired\<rparr>)"
    using Decide_ready_eq [OF rd] t l by (simp add: readyResult_def refCompletion_def Let_def) (simp add: wit_cinput_def)
  from completion_receipt_protocol [OF wit_queue_id this, of "''rc''"] show ?thesis
    by (auto simp: wit_uuid7_def)
qed

section \<open>Commit before change\<close>

text \<open>
  The live queue changes only after the completed candidate is durable. If the candidate cannot
  be completed or its write fails, the caller's queue is returned unchanged, nothing is reported
  committed and no file is removed. Otherwise the write happened with the completed queue, the
  commit is reported even when the removal of the file fails, and the live queue differs from the
  old one in its status only: its resume-on-start mark, which the written candidate has cleared,
  stays as it was.
\<close>
theorem completeAndUnlink_commits:
  "completeAndUnlinkResult persist unlink w (Some q) =
     (case CompleteQueue (Some q) of
        Inl e \<Rightarrow> (w, Some q, \<lparr>tr_Committed = False, tr_CommitErr = Some (TerminalOpError e), tr_CleanupErr = None\<rparr>)
      | Inr c \<Rightarrow>
          if snd (persist w c) \<noteq> None
          then (fst (persist w c), Some q, \<lparr>tr_Committed = False,
                  tr_CommitErr = map_option TerminalPersistError (snd (persist w c)), tr_CleanupErr = None\<rparr>)
          else (let (w2, err) = unlink (fst (persist w c)) (NormaliseQueueName (queue_Name q)) in
            (w2, Some (q\<lparr>queue_Status := QueueStatusCompleted\<rparr>), \<lparr>tr_Committed = True, tr_CommitErr = None,
               tr_CleanupErr = map_option TerminalUnlinkError err\<rparr>)))
   \<and> (\<forall>c. CompleteQueue (Some q) = Inr c \<longrightarrow>
        queue_Status c = QueueStatusCompleted \<and> (queue_Status q \<noteq> QueueStatusCompleted \<longrightarrow> \<not> queue_ResumeOnStart c))"
proof -
  have c: "queue_Status c = QueueStatusCompleted \<and> (queue_Status q \<noteq> QueueStatusCompleted \<longrightarrow> \<not> queue_ResumeOnStart c)"
    if "CompleteQueue (Some q) = Inr c" for c
    using that by (auto simp: CompleteQueue_def setQueueStatus_def split: if_splits option.splits)
  then show ?thesis
    by (auto simp: completeAndUnlinkResult_def InstallCommittedQueueStatus_def setQueueStatus_def
      split: sum.splits prod.splits option.splits)
qed

theorem completeAndUnlink_commits_witness:
  "\<exists>c. CompleteQueue (Some (wit_cqueue\<lparr>queue_Groups := [zeroGroup\<lparr>group_Status := GroupStatusCompleteSuccess\<rparr>]\<rparr>)) = Inr c
     \<and> queue_Status c = QueueStatusCompleted"
proof -
  let ?q = "wit_cqueue\<lparr>queue_Groups := [zeroGroup\<lparr>group_Status := GroupStatusCompleteSuccess\<rparr>]\<rparr>"
  have "\<exists>c. CompleteQueue (Some ?q) = Inr c"
    by (simp add: CompleteQueue_def queueAcceptsItemCompletion_def wit_cqueue_def)
  with conjunct2 [OF completeAndUnlink_commits [where q = ?q and w = "()" and persist = "\<lambda>w c. (w, None)"
      and unlink = "\<lambda>w n. (w, None)"]] show ?thesis by blast
qed

end
