(* ===== verification/Orchestrator.thy ===== *)
theory Orchestrator
  imports Harmonik_Prelude
begin

text \<open>
  The pure scheduling decisions of \<^verbatim>\<open>internal/orchestrator\<close>: the admission gates
  (\<^verbatim>\<open>admission.go\<close>), the cross-queue round-robin selector (\<^verbatim>\<open>select.go\<close>), the eager-fill deficit
  (\<^verbatim>\<open>eagerfill.go\<close>), the claim-failure policy (\<^verbatim>\<open>claimfailure.go\<close>) and the per-queue worker default
  of \<^verbatim>\<open>internal/queue/rpc.go\<close>. The round-robin cursor is an unbounded integer; Go's \<^verbatim>\<open>int\<close> would wrap
  around after 2^63 selections.
\<close>

section \<open>Admission gates\<close>

datatype Stage = StageTick | StageBeforeLookup | StageAfterLookup | StageBeforeStamp

datatype Path = PathAny | PathQueue | PathBrReady

datatype Reason =
    ReasonAdmitted | ReasonLocalCapacityFull | ReasonDecisionRequired | ReasonSentinelTrip
  | ReasonNeedsGreenlight | ReasonLocalOnlyCapacityFull

record Verdict =
  vd_Admitted :: bool
  vd_Reason :: Reason
  vd_Message :: string

record AdmissionInput =
  ai_Path :: Path
  ai_BeadID :: string
  ai_GateMax :: int
  ai_LocalInFlight :: int
  ai_WorkerHasFreeSlot :: bool
  ai_DecisionBlocked :: bool
  ai_SentinelBlocked :: bool
  ai_QueueLocalOnly :: bool
  ai_BeadRecordLoaded :: bool
  ai_BeadLabels :: "string list"

definition LabelNeedsGreenlight :: string where
  "LabelNeedsGreenlight = ''needs-greenlight''"

record GateInputError =
  gie_Gate :: string
  gie_Stage :: Stage
  gie_Fact :: string

definition LocalGateMax :: "int \<Rightarrow> int \<Rightarrow> bool \<Rightarrow> int" where
  "LocalGateMax startupMax controllerMax controllerPresent =
     (if controllerPresent then controllerMax else startupMax)"

record gateSpec =
  gate_name :: string
  gate_stage :: Stage
  gate_paths :: "Path list"
  gate_reason :: Reason
  gate_needsBeadRecord :: bool
  gate_hold :: "AdmissionInput \<Rightarrow> bool \<times> string"

fun pathMember :: "Path \<Rightarrow> Path list \<Rightarrow> bool" where
  "pathMember p [] = False"
| "pathMember p (gp # gps) = (if gp = p then True else pathMember p gps)"

definition appliesTo :: "gateSpec \<Rightarrow> Path \<Rightarrow> bool" where
  "appliesTo g p = (if gate_paths g = [] then True else pathMember p (gate_paths g))"

definition pathNote :: "Path \<Rightarrow> string" where
  "pathNote p = (if p = PathBrReady then '', br-ready path'' else [])"

text \<open>The UTF-8 bytes of the em dash, and the line end, of the operator lines.\<close>

definition emDash :: string where "emDash = [CHR 0xE2, CHR 0x80, CHR 0x94]"
definition lineEnd :: string where "lineEnd = [CHR 0x0A]"

definition holdSplitCapacity :: "AdmissionInput \<Rightarrow> bool \<times> string" where
  "holdSplitCapacity in' =
     (if ai_LocalInFlight in' \<ge> ai_GateMax in' \<and> \<not> ai_WorkerHasFreeSlot in' then (True, []) else (False, []))"

definition holdDecisionRequired :: "AdmissionInput \<Rightarrow> bool \<times> string" where
  "holdDecisionRequired in' =
     (if \<not> ai_DecisionBlocked in' then (False, [])
      else (True, ''daemon: workloop: bead '' @ ai_BeadID in'
        @ '' blocked by unacknowledged decision_required (EV-043'' @ pathNote (ai_Path in')
        @ '') '' @ emDash @ '' holding'' @ lineEnd))"

definition holdSentinel :: "AdmissionInput \<Rightarrow> bool \<times> string" where
  "holdSentinel in' =
     (if \<not> ai_SentinelBlocked in' then (False, [])
      else (True, ''daemon: workloop: bead '' @ ai_BeadID in'
        @ '' blocked by sentinel governor trip (EV-043, FW3'' @ pathNote (ai_Path in')
        @ '') '' @ emDash @ '' holding until real movement'' @ lineEnd))"

fun holdGreenlightLabels :: "string \<Rightarrow> string list \<Rightarrow> bool \<times> string" where
  "holdGreenlightLabels bead [] = (False, [])"
| "holdGreenlightLabels bead (lbl # lbls) =
     (if lbl = LabelNeedsGreenlight
      then (True, ''daemon: workloop: bead '' @ bead @ '' has needs-greenlight label '' @ emDash
        @ '' holding until captain runs `harmonik greenlight '' @ bead @ ''`'' @ lineEnd)
      else holdGreenlightLabels bead lbls)"

definition holdGreenlight :: "AdmissionInput \<Rightarrow> bool \<times> string" where
  "holdGreenlight in' = holdGreenlightLabels (ai_BeadID in') (ai_BeadLabels in')"

definition holdLocalOnlyCap :: "AdmissionInput \<Rightarrow> bool \<times> string" where
  "holdLocalOnlyCap in' =
     (if ai_QueueLocalOnly in' \<and> ai_LocalInFlight in' \<ge> ai_GateMax in' then (True, []) else (False, []))"

definition admissionGates :: "gateSpec list" where
  "admissionGates =
     [\<lparr>gate_name = ''split-capacity'', gate_stage = StageTick, gate_paths = [],
       gate_reason = ReasonLocalCapacityFull, gate_needsBeadRecord = False,
       gate_hold = holdSplitCapacity\<rparr>,
      \<lparr>gate_name = ''decision-required'', gate_stage = StageBeforeLookup, gate_paths = [],
       gate_reason = ReasonDecisionRequired, gate_needsBeadRecord = False,
       gate_hold = holdDecisionRequired\<rparr>,
      \<lparr>gate_name = ''sentinel-queue'', gate_stage = StageBeforeLookup, gate_paths = [],
       gate_reason = ReasonSentinelTrip, gate_needsBeadRecord = False,
       gate_hold = holdSentinel\<rparr>,
      \<lparr>gate_name = ''greenlight'', gate_stage = StageAfterLookup, gate_paths = [PathQueue],
       gate_reason = ReasonNeedsGreenlight, gate_needsBeadRecord = True,
       gate_hold = holdGreenlight\<rparr>,
      \<lparr>gate_name = ''local-only-cap'', gate_stage = StageBeforeStamp, gate_paths = [PathQueue],
       gate_reason = ReasonLocalOnlyCapacityFull, gate_needsBeadRecord = False,
       gate_hold = holdLocalOnlyCap\<rparr>]"

fun admitFrom :: "gateSpec list \<Rightarrow> Stage \<Rightarrow> AdmissionInput \<Rightarrow> GateInputError + Verdict" where
  "admitFrom [] stage in' = Inr \<lparr>vd_Admitted = True, vd_Reason = ReasonAdmitted, vd_Message = []\<rparr>"
| "admitFrom (g # gs) stage in' =
     (if gate_stage g \<noteq> stage \<or> \<not> appliesTo g (ai_Path in') then admitFrom gs stage in'
      else if gate_needsBeadRecord g \<and> \<not> ai_BeadRecordLoaded in'
      then Inl \<lparr>gie_Gate = gate_name g, gie_Stage = stage, gie_Fact = ''a loaded bead record''\<rparr>
      else (let (held, msg) = gate_hold g in' in
        if held then Inr \<lparr>vd_Admitted = False, vd_Reason = gate_reason g, vd_Message = msg\<rparr>
        else admitFrom gs stage in'))"

definition admit :: "Stage \<Rightarrow> AdmissionInput \<Rightarrow> GateInputError + Verdict" where
  "admit stage in' = admitFrom admissionGates stage in'"

definition AdmitAtTick :: "AdmissionInput \<Rightarrow> GateInputError + Verdict" where
  "AdmitAtTick in' = admit StageTick in'"
definition AdmitBeforeLookup :: "AdmissionInput \<Rightarrow> GateInputError + Verdict" where
  "AdmitBeforeLookup in' = admit StageBeforeLookup in'"
definition AdmitAfterLookup :: "AdmissionInput \<Rightarrow> GateInputError + Verdict" where
  "AdmitAfterLookup in' = admit StageAfterLookup in'"
definition AdmitBeforeStamp :: "AdmissionInput \<Rightarrow> GateInputError + Verdict" where
  "AdmitBeforeStamp in' = admit StageBeforeStamp in'"

section \<open>Claim failures\<close>

datatype CoarseStatus =
    CoarseStatusOpen | CoarseStatusInProgress | CoarseStatusBlocked | CoarseStatusDeferred
  | CoarseStatusDraft | CoarseStatusClosed | CoarseStatusTombstone | CoarseStatusPinned
  | CoarseStatusOther string

datatype ClaimFailureKind = ClaimFailureOther | ClaimFailureDependencyBlocked

datatype ClaimFailureDisposition =
    ClaimFailureRetryReady | ClaimFailureReleaseQueueReservation | ClaimFailureFailQueueItem

definition DecideClaimFailure ::
    "bool \<Rightarrow> ClaimFailureKind \<Rightarrow> CoarseStatus \<Rightarrow> bool \<Rightarrow> ClaimFailureDisposition" where
  "DecideClaimFailure queuePath kind shownStatus showSucceeded =
     (if \<not> queuePath then ClaimFailureRetryReady
      else if kind = ClaimFailureDependencyBlocked
        \<or> showSucceeded \<and> shownStatus = CoarseStatusBlocked
      then ClaimFailureFailQueueItem
      else ClaimFailureReleaseQueueReservation)"

section \<open>Queue selection\<close>

record ItemSnapshot =
  is_ItemIdx :: int
  is_BeadID :: BeadID
  is_Context :: string
  is_WorkflowMode :: string
  is_WorkflowRef :: string
  is_TemplateParams :: "(string \<rightharpoonup> string) option"

record GroupSnapshot =
  gs_GroupIndex :: int
  gs_Eligible :: "ItemSnapshot list"
  gs_Kind :: string
  gs_PendingCount :: int

record QueueSnapshot =
  qs_Name :: string
  qs_QueueID :: string
  qs_Active :: bool
  qs_Blocked :: bool
  qs_LocalInFlight :: int
  qs_WorkerCap :: int
  qs_LocalOnly :: bool
  qs_WorkerTarget :: string
  qs_DefaultHarness :: string
  qs_ActiveGroup :: "GroupSnapshot option"

text \<open>\<open>SkipBeads\<close> is read as a Go map of booleans: a missing key reads false.\<close>

record FleetSnapshot =
  fl_Queues :: "QueueSnapshot list"
  fl_RRCursor :: int
  fl_SkipBeads :: "string \<Rightarrow> bool"

record Selection =
  sel_QueueName :: string
  sel_QueueID :: string
  sel_GroupIndex :: int
  sel_Item :: ItemSnapshot
  sel_LocalOnly :: bool
  sel_WorkerTarget :: string
  sel_DefaultHarness :: string
  sel_SawNonContributing :: bool

definition zeroItemSnapshot :: ItemSnapshot where
  "zeroItemSnapshot = \<lparr>is_ItemIdx = 0, is_BeadID = [], is_Context = [], is_WorkflowMode = [],
     is_WorkflowRef = [], is_TemplateParams = None\<rparr>"

definition zeroSelection :: Selection where
  "zeroSelection = \<lparr>sel_QueueName = [], sel_QueueID = [], sel_GroupIndex = 0,
     sel_Item = zeroItemSnapshot, sel_LocalOnly = False, sel_WorkerTarget = [],
     sel_DefaultHarness = [], sel_SawNonContributing = False\<rparr>"

text \<open>The index of the first item the caller has not refused; \<open>None\<close> is the Go \<^verbatim>\<open>-1\<close>.\<close>

fun firstOfferable :: "ItemSnapshot list \<Rightarrow> (string \<Rightarrow> bool) \<Rightarrow> nat option" where
  "firstOfferable [] skip = None"
| "firstOfferable (it # its) skip =
     (if \<not> skip (is_BeadID it) then Some 0 else map_option Suc (firstOfferable its skip))"

text \<open>The remainder of Go, which has the sign of the dividend.\<close>

definition go_rem :: "int \<Rightarrow> int \<Rightarrow> int" where
  "go_rem a b = sgn a * (\<bar>a\<bar> mod \<bar>b\<bar>)"

text \<open>The scan over the queues: candidate names, the name index and the non-contributing flag.\<close>

fun scanQueues ::
    "(string \<Rightarrow> bool) \<Rightarrow> QueueSnapshot list \<Rightarrow> string list \<times> (string \<rightharpoonup> QueueSnapshot) \<times> bool
     \<Rightarrow> string list \<times> (string \<rightharpoonup> QueueSnapshot) \<times> bool" where
  "scanQueues skip [] acc = acc"
| "scanQueues skip (q # qs) (candidates, byName, saw) =
     (let byName' = byName(qs_Name q \<mapsto> q) in
      if \<not> qs_Active q then scanQueues skip qs (candidates, byName', True)
      else if qs_Blocked q then scanQueues skip qs (candidates, byName', True)
      else if qs_LocalInFlight q \<ge> qs_WorkerCap q then scanQueues skip qs (candidates, byName', True)
      else if (case qs_ActiveGroup q of None \<Rightarrow> True
               | Some g \<Rightarrow> firstOfferable (gs_Eligible g) skip = None)
      then scanQueues skip qs (candidates, byName', True)
      else scanQueues skip qs (candidates @ [qs_Name q], byName', saw))"

definition SelectNextQueue :: "FleetSnapshot \<Rightarrow> Selection \<times> bool" where
  "SelectNextQueue f =
     (if fl_Queues f = [] then (zeroSelection, False)
      else (let (candidates0, byName, saw) = scanQueues (fl_SkipBeads f) (fl_Queues f) ([], Map.empty, False) in
        if candidates0 = [] then (zeroSelection, False)
        else (let candidates = sort candidates0; n = int (length candidates);
                  start = go_rem (go_rem (fl_RRCursor f) n + n) n in
          case byName (candidates ! nat start) of
            None \<Rightarrow> (zeroSelection\<lparr>sel_SawNonContributing := saw\<rparr>, False)
          | Some chosen \<Rightarrow> (case qs_ActiveGroup chosen of
                None \<Rightarrow> (zeroSelection\<lparr>sel_SawNonContributing := saw\<rparr>, False)
              | Some g \<Rightarrow> (case firstOfferable (gs_Eligible g) (fl_SkipBeads f) of
                    None \<Rightarrow> (zeroSelection\<lparr>sel_SawNonContributing := saw\<rparr>, False)
                  | Some pick \<Rightarrow>
                      (\<lparr>sel_QueueName = qs_Name chosen, sel_QueueID = qs_QueueID chosen,
                        sel_GroupIndex = gs_GroupIndex g, sel_Item = gs_Eligible g ! pick,
                        sel_LocalOnly = qs_LocalOnly chosen,
                        sel_WorkerTarget = qs_WorkerTarget chosen,
                        sel_DefaultHarness = qs_DefaultHarness chosen,
                        sel_SawNonContributing = False\<rparr>, True))))))"

section \<open>Eager fill\<close>

record FillTarget =
  ft_QueueName :: string
  ft_QueueID :: string
  ft_GroupPos :: int
  ft_Deficit :: int

definition zeroFillTarget :: FillTarget where
  "zeroFillTarget = \<lparr>ft_QueueName = [], ft_QueueID = [], ft_GroupPos = 0, ft_Deficit = 0\<rparr>"

definition groupKindStream :: string where "groupKindStream = ''stream''"
definition eagerfillOverfetchFactor :: int where "eagerfillOverfetchFactor = 2"

fun eagerFillScan :: "int \<Rightarrow> QueueSnapshot list \<Rightarrow> FillTarget \<times> bool" where
  "eagerFillScan available [] = (zeroFillTarget, False)"
| "eagerFillScan available (q # qs) =
     (if \<not> qs_Active q then eagerFillScan available qs
      else (case qs_ActiveGroup q of
          None \<Rightarrow> eagerFillScan available qs
        | Some g \<Rightarrow>
            if gs_Kind g \<noteq> groupKindStream then eagerFillScan available qs
            else (let deficit = available - gs_PendingCount g in
              if deficit \<le> 0 then eagerFillScan available qs
              else (\<lparr>ft_QueueName = qs_Name q, ft_QueueID = qs_QueueID q,
                     ft_GroupPos = gs_GroupIndex g, ft_Deficit = deficit\<rparr>, True))))"

definition EagerFillTarget :: "FleetSnapshot \<Rightarrow> int \<Rightarrow> int \<Rightarrow> FillTarget \<times> bool" where
  "EagerFillTarget f maxConcurrent inFlight =
     (let available = maxConcurrent - inFlight in
      if available \<le> 0 then (zeroFillTarget, False) else eagerFillScan available (fl_Queues f))"

definition OverfetchLimit :: "int \<Rightarrow> int" where
  "OverfetchLimit deficit = deficit * eagerfillOverfetchFactor"

definition ClampSurvivors :: "BeadID list \<Rightarrow> int \<Rightarrow> BeadID list" where
  "ClampSurvivors survivors deficit0 =
     (let deficit = (if deficit0 < 0 then 0 else deficit0) in
      if int (length survivors) > deficit then take (nat deficit) survivors else survivors)"

fun ScreenAlreadyQueued :: "BeadID list \<Rightarrow> (BeadID \<Rightarrow> bool) \<Rightarrow> BeadID list" where
  "ScreenAlreadyQueued [] inQueue = []"
| "ScreenAlreadyQueued (bid # ids) inQueue =
     (if inQueue bid then ScreenAlreadyQueued ids inQueue else bid # ScreenAlreadyQueued ids inQueue)"

definition DefaultWorkers :: "int \<Rightarrow> int \<Rightarrow> int" where
  "DefaultWorkers requested globalCap0 =
     (let globalCap = (if globalCap0 < 1 then 1 else globalCap0) in
      if requested \<le> 0 then globalCap else requested)"

section \<open>Admission: what each entry point holds\<close>

lemma holdGreenlightLabels_fst:
  "fst (holdGreenlightLabels b ls) \<longleftrightarrow> LabelNeedsGreenlight \<in> set ls"
  by (induction ls) auto

lemmas hold_defs = holdSplitCapacity_def holdDecisionRequired_def holdSentinel_def
  holdGreenlight_def holdLocalOnlyCap_def

lemmas admit_defs = AdmitAtTick_def AdmitBeforeLookup_def AdmitAfterLookup_def AdmitBeforeStamp_def
  admit_def admissionGates_def appliesTo_def

text \<open>The verdict a caller acts on: admitted, refused with a reason, or an input error.\<close>

definition outcome :: "GateInputError + Verdict \<Rightarrow> Reason option" where
  "outcome r = (case r of Inl e \<Rightarrow> None | Inr v \<Rightarrow> Some (vd_Reason v))"

definition admitted :: "GateInputError + Verdict \<Rightarrow> bool" where
  "admitted r = (case r of Inl e \<Rightarrow> False | Inr v \<Rightarrow> vd_Admitted v)"

text \<open>
  C37. Admission. Each of the four gate entry points decides exactly as follows, for every input:
  the tick gate refuses exactly when local capacity is full and no worker slot is free; the gate
  before the ledger lookup refuses for an unacknowledged decision first and for a sentinel trip
  second; the gate after the lookup reports an input error exactly on the queue path with no
  loaded record, and otherwise refuses exactly a queued bead that carries the needs-greenlight
  label; the gate before the stamp refuses exactly a local-only queue at capacity. A result is
  admitted exactly when its reason is the admitted one.
\<close>
theorem admission_spec:
  "outcome (AdmitAtTick in') = Some (if ai_LocalInFlight in' \<ge> ai_GateMax in' \<and> \<not> ai_WorkerHasFreeSlot in'
      then ReasonLocalCapacityFull else ReasonAdmitted)
   \<and> outcome (AdmitBeforeLookup in') = Some (if ai_DecisionBlocked in' then ReasonDecisionRequired
      else if ai_SentinelBlocked in' then ReasonSentinelTrip else ReasonAdmitted)
   \<and> outcome (AdmitAfterLookup in') =
      (if ai_Path in' \<noteq> PathQueue then Some ReasonAdmitted
       else if \<not> ai_BeadRecordLoaded in' then None
       else Some (if LabelNeedsGreenlight \<in> set (ai_BeadLabels in') then ReasonNeedsGreenlight else ReasonAdmitted))
   \<and> outcome (AdmitBeforeStamp in') =
      Some (if ai_Path in' = PathQueue \<and> ai_QueueLocalOnly in' \<and> ai_LocalInFlight in' \<ge> ai_GateMax in'
        then ReasonLocalOnlyCapacityFull else ReasonAdmitted)
   \<and> (\<forall>st. admitted (admit st in') = (outcome (admit st in') = Some ReasonAdmitted))"
proof (intro conjI allI)
  have gl: "fst (holdGreenlight in') \<longleftrightarrow> LabelNeedsGreenlight \<in> set (ai_BeadLabels in')"
    by (simp add: holdGreenlight_def holdGreenlightLabels_fst)
  show "outcome (AdmitAtTick in') = Some (if ai_LocalInFlight in' \<ge> ai_GateMax in' \<and> \<not> ai_WorkerHasFreeSlot in'
      then ReasonLocalCapacityFull else ReasonAdmitted)"
    by (simp add: admit_defs outcome_def holdSplitCapacity_def)
  show "outcome (AdmitBeforeLookup in') = Some (if ai_DecisionBlocked in' then ReasonDecisionRequired
      else if ai_SentinelBlocked in' then ReasonSentinelTrip else ReasonAdmitted)"
    by (simp add: admit_defs outcome_def holdDecisionRequired_def holdSentinel_def)
  show "outcome (AdmitAfterLookup in') =
      (if ai_Path in' \<noteq> PathQueue then Some ReasonAdmitted
       else if \<not> ai_BeadRecordLoaded in' then None
       else Some (if LabelNeedsGreenlight \<in> set (ai_BeadLabels in') then ReasonNeedsGreenlight else ReasonAdmitted))"
    using gl by (auto simp: admit_defs outcome_def split: prod.splits)
  show "outcome (AdmitBeforeStamp in') =
      Some (if ai_Path in' = PathQueue \<and> ai_QueueLocalOnly in' \<and> ai_LocalInFlight in' \<ge> ai_GateMax in'
        then ReasonLocalOnlyCapacityFull else ReasonAdmitted)"
    by (auto simp: admit_defs outcome_def holdLocalOnlyCap_def)
  show "admitted (admit st in') = (outcome (admit st in') = Some ReasonAdmitted)" for st
    by (auto simp: admit_defs outcome_def admitted_def split: prod.splits)
qed

section \<open>Selection: soundness, completeness and fairness\<close>

text \<open>The policy of the selector's comment: the queue can offer an item this tick.\<close>

definition contributes :: "(string \<Rightarrow> bool) \<Rightarrow> QueueSnapshot \<Rightarrow> bool" where
  "contributes skip q = (qs_Active q \<and> \<not> qs_Blocked q \<and> qs_LocalInFlight q < qs_WorkerCap q
     \<and> (case qs_ActiveGroup q of None \<Rightarrow> False
        | Some g \<Rightarrow> (\<exists>it \<in> set (gs_Eligible g). \<not> skip (is_BeadID it))))"

lemma firstOfferable_find_index:
  "firstOfferable its skip = find_index (\<lambda>it. \<not> skip (is_BeadID it)) its"
  by (induction its) auto

lemma firstOfferable_None:
  "firstOfferable its skip = None \<longleftrightarrow> (\<forall>it \<in> set its. skip (is_BeadID it))"
  by (simp add: firstOfferable_find_index find_index_None)

definition name_index :: "QueueSnapshot list \<Rightarrow> string \<rightharpoonup> QueueSnapshot" where
  "name_index qs = map_of (rev (map (\<lambda>q. (qs_Name q, q)) qs))"

lemma scanQueues_eq:
  "scanQueues skip qs (cs, b, saw) =
     (cs @ map qs_Name (filter (contributes skip) qs), b ++ name_index qs,
      saw \<or> (\<exists>q \<in> set qs. \<not> contributes skip q))"
proof (induction qs arbitrary: cs b saw)
  case Nil
  show ?case by (simp add: name_index_def)
next
  case (Cons q qs)
  have idx: "b ++ name_index (q # qs) = b(qs_Name q \<mapsto> q) ++ name_index qs"
    by (simp add: name_index_def)
  have step: "scanQueues skip (q # qs) (cs, b, saw) = scanQueues skip qs
      (if contributes skip q then cs @ [qs_Name q] else cs, b(qs_Name q \<mapsto> q), saw \<or> \<not> contributes skip q)"
    by (cases "contributes skip q"; cases "qs_ActiveGroup q")
      (auto simp: Let_def contributes_def firstOfferable_None)
  show ?case
    unfolding step Cons.IH idx by auto
qed

lemma name_index_Some:
  assumes "distinct (map qs_Name qs)" "q \<in> set qs"
  shows "name_index qs (qs_Name q) = Some q"
  using assms by (auto simp: name_index_def rev_map [symmetric] distinct_map comp_def intro!: map_of_is_SomeI)

definition candidates :: "FleetSnapshot \<Rightarrow> string list" where
  "candidates f = sort (map qs_Name (filter (contributes (fl_SkipBeads f)) (fl_Queues f)))"

lemma set_candidates:
  "set (candidates f) = qs_Name ` {q \<in> set (fl_Queues f). contributes (fl_SkipBeads f) q}"
  by (auto simp: candidates_def)

lemma distinct_candidates: "distinct (map qs_Name (fl_Queues f)) \<Longrightarrow> distinct (candidates f)"
  by (simp add: candidates_def distinct_map_filter)

lemma go_rem_guard:
  assumes "0 < n"
  shows "go_rem (go_rem c n + n) n = c mod n"
proof -
  have b: "\<bar>c\<bar> mod n < n" "0 \<le> \<bar>c\<bar> mod n" using assms by simp_all
  show ?thesis
  proof (cases "c \<ge> 0")
    case True
    then show ?thesis using assms b by (auto simp: go_rem_def sgn_if abs_if)
  next
    case False
    then have g: "go_rem c n = - ((- c) mod n)" using assms by (simp add: go_rem_def sgn_if abs_if)
    have "go_rem x n = x mod n" if "0 \<le> x" for x
      using that assms by (simp add: go_rem_def sgn_if)
    then have "go_rem (go_rem c n + n) n = (go_rem c n + n) mod n"
      using assms b False g by simp
    also have "\<dots> = c mod n" by (simp add: g mod_minus_eq)
    finally show ?thesis .
  qed
qed

lemma contributes_pick:
  assumes "contributes skip q"
  obtains g k where "qs_ActiveGroup q = Some g" "firstOfferable (gs_Eligible g) skip = Some k"
  using assms by (auto simp: contributes_def firstOfferable_None split: option.splits)
    (metis firstOfferable_None not_Some_eq)

text \<open>The selection for the queue the cursor points at, as one equation.\<close>

definition selectionOf :: "QueueSnapshot \<Rightarrow> GroupSnapshot \<Rightarrow> ItemSnapshot \<Rightarrow> Selection" where
  "selectionOf q g it =
     \<lparr>sel_QueueName = qs_Name q, sel_QueueID = qs_QueueID q, sel_GroupIndex = gs_GroupIndex g,
      sel_Item = it, sel_LocalOnly = qs_LocalOnly q, sel_WorkerTarget = qs_WorkerTarget q,
      sel_DefaultHarness = qs_DefaultHarness q, sel_SawNonContributing = False\<rparr>"

lemma SelectNextQueue_none:
  assumes "candidates f = []"
  shows "SelectNextQueue f = (zeroSelection, False)"
proof -
  from assms have "filter (contributes (fl_SkipBeads f)) (fl_Queues f) = []"
    by (metis candidates_def map_is_Nil_conv set_empty set_sort)
  then show ?thesis by (simp add: SelectNextQueue_def scanQueues_eq)
qed

lemma SelectNextQueue_some:
  assumes dist: "distinct (map qs_Name (fl_Queues f))" and ne: "candidates f \<noteq> []"
  obtains q g k where
    "q \<in> set (fl_Queues f)" "contributes (fl_SkipBeads f) q"
    "qs_Name q = candidates f ! nat (fl_RRCursor f mod int (length (candidates f)))"
    "qs_ActiveGroup q = Some g" "firstOfferable (gs_Eligible g) (fl_SkipBeads f) = Some k"
    "SelectNextQueue f = (selectionOf q g (gs_Eligible g ! k), True)"
proof -
  let ?n = "int (length (candidates f))" and ?skip = "fl_SkipBeads f"
  let ?nm = "candidates f ! nat (fl_RRCursor f mod ?n)"
  from ne have n: "0 < ?n" by simp
  then have "nat (fl_RRCursor f mod ?n) < length (candidates f)"
    by (simp add: nat_less_iff)
  then have "?nm \<in> set (candidates f)" by simp
  then obtain q where q: "q \<in> set (fl_Queues f)" "contributes ?skip q" "qs_Name q = ?nm"
    by (auto simp: set_candidates)
  from contributes_pick [OF q(2)] obtain g k where
    gk: "qs_ActiveGroup q = Some g" "firstOfferable (gs_Eligible g) ?skip = Some k" .
  have nil: "filter (contributes ?skip) (fl_Queues f) \<noteq> []" "fl_Queues f \<noteq> []"
    using q by (auto simp: filter_empty_conv)
  have byName: "(Map.empty ++ name_index (fl_Queues f)) ?nm = Some q"
    using name_index_Some [OF dist q(1)] q(3) by simp
  have cand: "sort ([] @ map qs_Name (filter (contributes ?skip) (fl_Queues f))) = candidates f"
    by (simp add: candidates_def)
  have "SelectNextQueue f = (selectionOf q g (gs_Eligible g ! k), True)"
    unfolding SelectNextQueue_def scanQueues_eq Let_def prod.case cand go_rem_guard [OF n] byName
    using nil gk by (simp add: selectionOf_def)
  with q gk that show thesis by blast
qed


text \<open>
  Queue selection, soundness and completeness. For a fleet whose queues have distinct names:
  the selector finds a queue exactly when some queue is active, not blocked, below its local
  worker cap and has an eligible item the caller has not refused. A found selection belongs to
  such a queue, copies its identity and routing fields, and its item is the first eligible item
  of the active group that is not refused. When nothing is found the result is the zero
  selection: the flag for non-contributing queues is never set, neither on success nor on
  failure.
\<close>
theorem SelectNextQueue_spec:
  assumes "distinct (map qs_Name (fl_Queues f))"
  shows "(snd (SelectNextQueue f) \<longleftrightarrow> (\<exists>q \<in> set (fl_Queues f). contributes (fl_SkipBeads f) q))
     \<and> (snd (SelectNextQueue f) \<longrightarrow>
          (\<exists>q g pre it post. q \<in> set (fl_Queues f) \<and> contributes (fl_SkipBeads f) q
             \<and> qs_ActiveGroup q = Some g \<and> gs_Eligible g = pre @ it # post
             \<and> (\<forall>x \<in> set pre. fl_SkipBeads f (is_BeadID x)) \<and> \<not> fl_SkipBeads f (is_BeadID it)
             \<and> fst (SelectNextQueue f) = selectionOf q g it))
     \<and> (\<not> snd (SelectNextQueue f) \<longrightarrow> fst (SelectNextQueue f) = zeroSelection)
     \<and> \<not> sel_SawNonContributing (fst (SelectNextQueue f))"
proof (cases "candidates f = []")
  case True
  then have "\<not> (\<exists>q \<in> set (fl_Queues f). contributes (fl_SkipBeads f) q)"
    using set_candidates [of f] by auto
  then show ?thesis by (simp add: SelectNextQueue_none [OF True] zeroSelection_def)
next
  case False
  from SelectNextQueue_some [OF assms False] obtain q g k where
    q: "q \<in> set (fl_Queues f)" "contributes (fl_SkipBeads f) q" "qs_ActiveGroup q = Some g" and
    k: "find_index (\<lambda>it. \<not> fl_SkipBeads f (is_BeadID it)) (gs_Eligible g) = Some k" and
    sel: "SelectNextQueue f = (selectionOf q g (gs_Eligible g ! k), True)"
    by (metis firstOfferable_find_index)
  from find_index_SomeD [OF k]
  have kk: "k < length (gs_Eligible g)" "\<not> fl_SkipBeads f (is_BeadID (gs_Eligible g ! k))"
    "\<forall>x \<in> set (take k (gs_Eligible g)). fl_SkipBeads f (is_BeadID x)"
    by (auto simp: in_set_conv_nth)
  have "gs_Eligible g = take k (gs_Eligible g) @ gs_Eligible g ! k # drop (Suc k) (gs_Eligible g)"
    using kk(1) by (rule id_take_nth_drop)
  with q kk sel show ?thesis by (auto simp: selectionOf_def)
qed

text \<open>Selection with the cursor at position \<open>c\<close>: the daemon advances the cursor by one per tick.\<close>

definition selectAt :: "FleetSnapshot \<Rightarrow> int \<Rightarrow> string" where
  "selectAt f c = sel_QueueName (fst (SelectNextQueue (f\<lparr>fl_RRCursor := c\<rparr>)))"

lemma selectAt_eq:
  assumes "distinct (map qs_Name (fl_Queues f))" "candidates f \<noteq> []"
  shows "selectAt f c = candidates f ! nat (c mod int (length (candidates f)))"
proof -
  have c: "candidates (f\<lparr>fl_RRCursor := c\<rparr>) = candidates f" by (simp add: candidates_def)
  from assms c have "distinct (map qs_Name (fl_Queues (f\<lparr>fl_RRCursor := c\<rparr>)))"
    "candidates (f\<lparr>fl_RRCursor := c\<rparr>) \<noteq> []" by simp_all
  then obtain q g k where
    "qs_Name q = candidates (f\<lparr>fl_RRCursor := c\<rparr>)
       ! nat (fl_RRCursor (f\<lparr>fl_RRCursor := c\<rparr>) mod int (length (candidates (f\<lparr>fl_RRCursor := c\<rparr>))))"
    "SelectNextQueue (f\<lparr>fl_RRCursor := c\<rparr>) = (selectionOf q g (gs_Eligible g ! k), True)"
    by (rule SelectNextQueue_some)
  with c show ?thesis by (simp add: selectAt_def selectionOf_def)
qed

lemma shifted_mod_ex1:
  fixes n c :: int
  assumes "0 \<le> i" "i < n"
  shows "\<exists>!k. 0 \<le> k \<and> k < n \<and> (c + k) mod n = i"
proof (rule ex1I [of _ "(i - c) mod n"])
  show "0 \<le> (i - c) mod n \<and> (i - c) mod n < n \<and> (c + (i - c) mod n) mod n = i"
    using assms by (simp add: mod_add_right_eq)
next
  fix k assume k: "0 \<le> k \<and> k < n \<and> (c + k) mod n = i"
  then have "(i - c) mod n = ((c + k) mod n - c) mod n" by simp
  also have "\<dots> = k mod n" by (simp add: mod_diff_left_eq)
  finally show "k = (i - c) mod n" using k by simp
qed

text \<open>
  C19. Round-robin fairness. While the fleet does not change, over any window of as many
  consecutive ticks as there are contributing queues, each contributing queue is selected at
  exactly one tick, whatever the cursor (negative included) and whatever the queue names: no
  queue starves another.
\<close>
theorem SelectNextQueue_fair:
  assumes dist: "distinct (map qs_Name (fl_Queues f))"
    and q: "q \<in> set (fl_Queues f)" "contributes (fl_SkipBeads f) q"
  shows "\<exists>!k. 0 \<le> k \<and> k < int (length (filter (contributes (fl_SkipBeads f)) (fl_Queues f)))
      \<and> selectAt f (c + k) = qs_Name q"
proof -
  let ?n = "length (candidates f)"
  have n: "length (filter (contributes (fl_SkipBeads f)) (fl_Queues f)) = ?n"
    by (simp add: candidates_def)
  from q have "qs_Name q \<in> set (candidates f)" by (auto simp: set_candidates)
  then obtain i where i: "i < ?n" "candidates f ! i = qs_Name q" by (auto simp: in_set_conv_nth)
  then have ne: "candidates f \<noteq> []" by auto
  have iff: "selectAt f (c + k) = qs_Name q \<longleftrightarrow> (c + k) mod int ?n = int i" for k
  proof -
    have j: "nat ((c + k) mod int ?n) < ?n" using ne by (simp add: nat_less_iff)
    have "selectAt f (c + k) = qs_Name q \<longleftrightarrow> nat ((c + k) mod int ?n) = i"
      unfolding selectAt_eq [OF dist ne] i(2) [symmetric]
      using nth_eq_iff_index_eq [OF distinct_candidates [OF dist] j i(1)] .
    also have "\<dots> \<longleftrightarrow> (c + k) mod int ?n = int i" using ne by (auto simp: nat_eq_iff)
    finally show ?thesis .
  qed
  show ?thesis unfolding iff n using i(1) by (intro shifted_mod_ex1) auto
qed

definition wit_item :: "string \<Rightarrow> ItemSnapshot" where
  "wit_item b = zeroItemSnapshot\<lparr>is_BeadID := b\<rparr>"

definition wit_queue :: "string \<Rightarrow> ItemSnapshot list \<Rightarrow> QueueSnapshot" where
  "wit_queue nm its = \<lparr>qs_Name = nm, qs_QueueID = nm, qs_Active = True, qs_Blocked = False,
     qs_LocalInFlight = 0, qs_WorkerCap = 2, qs_LocalOnly = False, qs_WorkerTarget = [],
     qs_DefaultHarness = [], qs_ActiveGroup = Some \<lparr>gs_GroupIndex = 0, gs_Eligible = its,
     gs_Kind = ''stream'', gs_PendingCount = 1\<rparr>\<rparr>"

definition wit_fleet :: FleetSnapshot where
  "wit_fleet = \<lparr>fl_Queues = [wit_queue ''b'' [wit_item ''x'', wit_item ''y''], wit_queue ''a'' [wit_item ''z''],
     wit_queue ''c'' [wit_item ''x'']], fl_RRCursor = 1, fl_SkipBeads = (\<lambda>s. s = ''x'')\<rparr>"

lemmas wit_fleet_defs = wit_fleet_def wit_queue_def wit_item_def contributes_def zeroItemSnapshot_def

theorem SelectNextQueue_spec_witness:
  "snd (SelectNextQueue wit_fleet) \<and> \<not> sel_SawNonContributing (fst (SelectNextQueue wit_fleet))"
  using SelectNextQueue_spec [of wit_fleet] by (simp add: wit_fleet_defs)

theorem SelectNextQueue_fair_witness:
  "\<exists>!k. 0 \<le> k \<and> k < (2::int) \<and> selectAt wit_fleet (- 7 + k) = ''a''"
  using SelectNextQueue_fair [of wit_fleet "wit_queue ''a'' [wit_item ''z'']" "- 7"]
  by (simp add: wit_fleet_defs)

section \<open>Eager fill\<close>

lemma eagerFillScan_sound:
  assumes "eagerFillScan a qs = (t, True)"
  shows "\<exists>q \<in> set qs. \<exists>g. qs_Active q \<and> qs_ActiveGroup q = Some g \<and> gs_Kind g = groupKindStream
     \<and> t = \<lparr>ft_QueueName = qs_Name q, ft_QueueID = qs_QueueID q, ft_GroupPos = gs_GroupIndex g,
            ft_Deficit = a - gs_PendingCount g\<rparr> \<and> a - gs_PendingCount g > 0"
  using assms by (induction qs) (auto simp: Let_def split: if_splits option.splits)

lemma eagerFillScan_complete:
  assumes "eagerFillScan a qs = (t, False)" "q \<in> set qs" "qs_Active q" "qs_ActiveGroup q = Some g"
    "gs_Kind g = groupKindStream"
  shows "a \<le> gs_PendingCount g"
  using assms by (induction qs) (auto simp: Let_def split: if_splits option.splits)

lemma ScreenAlreadyQueued_filter: "ScreenAlreadyQueued ids inQ = filter (\<lambda>b. \<not> inQ b) ids"
  by (induction ids) auto

text \<open>
  The eager refill never overfills. When a target is found it is the active stream group of
  an active queue of the fleet, and after adding the screened and clamped survivors to its pending
  items, the running and the pending work together stay within the concurrency limit; exactly
  reaching it when there are enough survivors. The survivors are a prefix, in order, of the
  candidates that are not queued yet. When no target is found and a slot is free, every active
  stream group already has enough pending items for the free slots.
\<close>
theorem EagerFill_no_overfill:
  "(EagerFillTarget f maxC inFlight = (t, True) \<longrightarrow>
      (\<exists>q \<in> set (fl_Queues f). \<exists>g. qs_Active q \<and> qs_ActiveGroup q = Some g
         \<and> gs_Kind g = groupKindStream \<and> ft_QueueName t = qs_Name q \<and> ft_GroupPos t = gs_GroupIndex g
         \<and> (let added = ClampSurvivors (ScreenAlreadyQueued cands inQ) (ft_Deficit t) in
              inFlight + gs_PendingCount g + int (length added) \<le> maxC
            \<and> (int (length (ScreenAlreadyQueued cands inQ)) \<ge> ft_Deficit t \<longrightarrow>
                 inFlight + gs_PendingCount g + int (length added) = maxC)
            \<and> added = take (length added) (filter (\<lambda>b. \<not> inQ b) cands))))
   \<and> (snd (EagerFillTarget f maxC inFlight) = False \<and> inFlight < maxC \<longrightarrow>
      (\<forall>q \<in> set (fl_Queues f). \<forall>g. qs_Active q \<and> qs_ActiveGroup q = Some g
         \<and> gs_Kind g = groupKindStream \<longrightarrow> maxC - inFlight \<le> gs_PendingCount g))"
proof (intro conjI impI)
  assume "EagerFillTarget f maxC inFlight = (t, True)"
  then have "eagerFillScan (maxC - inFlight) (fl_Queues f) = (t, True)"
    by (auto simp: EagerFillTarget_def Let_def split: if_splits)
  from eagerFillScan_sound [OF this] show "\<exists>q \<in> set (fl_Queues f). \<exists>g. qs_Active q \<and> qs_ActiveGroup q = Some g
         \<and> gs_Kind g = groupKindStream \<and> ft_QueueName t = qs_Name q \<and> ft_GroupPos t = gs_GroupIndex g
         \<and> (let added = ClampSurvivors (ScreenAlreadyQueued cands inQ) (ft_Deficit t) in
              inFlight + gs_PendingCount g + int (length added) \<le> maxC
            \<and> (int (length (ScreenAlreadyQueued cands inQ)) \<ge> ft_Deficit t \<longrightarrow>
                 inFlight + gs_PendingCount g + int (length added) = maxC)
            \<and> added = take (length added) (filter (\<lambda>b. \<not> inQ b) cands))"
    by (fastforce simp: ClampSurvivors_def Let_def ScreenAlreadyQueued_filter min_def)
next
  assume a: "snd (EagerFillTarget f maxC inFlight) = False \<and> inFlight < maxC"
  then have "eagerFillScan (maxC - inFlight) (fl_Queues f) = (fst (EagerFillTarget f maxC inFlight), False)"
    by (auto simp: EagerFillTarget_def Let_def prod_eq_iff)
  then show "\<forall>q \<in> set (fl_Queues f). \<forall>g. qs_Active q \<and> qs_ActiveGroup q = Some g
         \<and> gs_Kind g = groupKindStream \<longrightarrow> maxC - inFlight \<le> gs_PendingCount g"
    using eagerFillScan_complete by blast
qed

theorem EagerFill_no_overfill_witness:
  "\<exists>q \<in> set (fl_Queues wit_fleet). \<exists>g. qs_ActiveGroup q = Some g \<and>
     0 + gs_PendingCount g + int (length (ClampSurvivors (ScreenAlreadyQueued [''p'', ''q'', ''r''] (\<lambda>b. b = ''q'')) 1)) \<le> 2"
  using EagerFill_no_overfill [of wit_fleet 2 0 "\<lparr>ft_QueueName = ''b'', ft_QueueID = ''b'', ft_GroupPos = 0, ft_Deficit = 1\<rparr>"
      "[''p'', ''q'', ''r'']" "\<lambda>b. b = ''q''"]
  by (fastforce simp: wit_fleet_defs EagerFillTarget_def groupKindStream_def Let_def)

end
