(* ===== verification/Policy.thy ===== *)
theory Policy
  imports Harmonik_Prelude
begin

text \<open>
  The pure policies of \<^verbatim>\<open>internal/policy\<close>: drain classification and the sleep veto
  (\<^verbatim>\<open>drain.go\<close>), the gate verdict (\<^verbatim>\<open>gate.go\<close> with \<^verbatim>\<open>internal/core/gateaction.go\<close>), the rate-limit
  hysteresis (\<^verbatim>\<open>ratelimit.go\<close>) and the auto-resume backoff (\<^verbatim>\<open>autoresume.go\<close>). Durations are 64-bit
  words compared as signed numbers, so that the overflow guard of the backoff is a real branch.
\<close>

section \<open>Drain\<close>

datatype DrainState = DrainStateDrained | DrainStateHasWork | DrainStateUnsure

record DrainSnapshot =
  dr_ReadyCount :: int
  dr_InProgressCount :: int
  dr_RegistryRuns :: int
  dr_LiveWorktrees :: int
  dr_QueuedCount :: int
  dr_PausedQueues :: int
  dr_FailedArchives :: int
  dr_BlockedByOpenEpic :: int
  dr_NeedsDecomposition :: int
  dr_Unsure :: bool
  dr_UnsureReasons :: "string list"

definition hasDispatchableOrInFlightWork :: "DrainSnapshot \<Rightarrow> bool" where
  "hasDispatchableOrInFlightWork s =
     (dr_ReadyCount s > 0 \<or> dr_InProgressCount s > 0 \<or> dr_RegistryRuns s > 0 \<or> dr_LiveWorktrees s > 0
      \<or> dr_QueuedCount s > 0 \<or> dr_PausedQueues s > 0 \<or> dr_FailedArchives s > 0
      \<or> dr_BlockedByOpenEpic s > 0)"

definition ClassifyDrain :: "DrainSnapshot \<Rightarrow> DrainState" where
  "ClassifyDrain s =
     (if dr_Unsure s then DrainStateUnsure
      else if hasDispatchableOrInFlightWork s then DrainStateHasWork
      else DrainStateDrained)"

definition HasLatentWork :: "DrainSnapshot \<Rightarrow> bool" where
  "HasLatentWork s =
     (if dr_Unsure s then True
      else hasDispatchableOrInFlightWork s \<or> dr_NeedsDecomposition s > 0)"

record VetoResult =
  vr_Unsure :: bool
  vr_UnsureReasons :: "string list"
  vr_Strands :: "string list"

definition Vetoed :: "VetoResult \<Rightarrow> bool" where
  "Vetoed r = (vr_Unsure r \<or> length (vr_Strands r) > 0)"

definition appendStrand :: "string list \<Rightarrow> int \<Rightarrow> string \<Rightarrow> string list" where
  "appendStrand strands n label = (if n > 0 then strands @ [itoa n @ label] else strands)"

definition SleepVeto :: "DrainSnapshot \<Rightarrow> VetoResult" where
  "SleepVeto s =
     (if dr_Unsure s then \<lparr>vr_Unsure = True, vr_UnsureReasons = dr_UnsureReasons s, vr_Strands = []\<rparr>
      else (let s1 = appendStrand [] (dr_ReadyCount s) '' ready bead(s)'';
                s2 = appendStrand s1 (dr_InProgressCount s) '' in-progress bead(s)'';
                s3 = appendStrand s2 (dr_RegistryRuns s) '' in-flight run(s)'';
                s4 = appendStrand s3 (dr_LiveWorktrees s) '' live worktree(s)'';
                s5 = appendStrand s4 (dr_QueuedCount s) '' queued item(s)'';
                s6 = appendStrand s5 (dr_PausedQueues s) '' paused queue(s)'';
                s7 = appendStrand s6 (dr_FailedArchives s) '' failed archive(s)'';
                s8 = appendStrand s7 (dr_BlockedByOpenEpic s) '' bead(s) blocked by open epic(s)'' in
            \<lparr>vr_Unsure = False, vr_UnsureReasons = [], vr_Strands = s8\<rparr>))"

section \<open>Gate verdicts\<close>

datatype GateAction =
    GateActionAllow | GateActionDeny | GateActionEscalateToHuman | GateActionOther string

definition GateAction_of_string :: "string \<Rightarrow> GateAction" where
  "GateAction_of_string t =
     (if t = ''allow'' then GateActionAllow else if t = ''deny'' then GateActionDeny
      else if t = ''escalate-to-human'' then GateActionEscalateToHuman else GateActionOther t)"

fun GateAction_Valid :: "GateAction \<Rightarrow> bool" where
  "GateAction_Valid GateActionAllow = True"
| "GateAction_Valid GateActionDeny = True"
| "GateAction_Valid GateActionEscalateToHuman = True"
| "GateAction_Valid (GateActionOther _) = False"

definition GateVerdictSchemaVersion :: int where "GateVerdictSchemaVersion = 1"

record gateVerdictJSON =
  gv_SchemaVersion :: int
  gv_Decision :: string
  gv_Reason :: string

datatype GateVerdictError =
    GateUnmarshalError string | GateSchemaVersionError int | GateDecisionError string

text \<open>The JSON decoder for the verdict struct is the parameter \<open>unmarshal\<close>.\<close>

definition ParseGateVerdict ::
    "(string \<Rightarrow> string + gateVerdictJSON) \<Rightarrow> string \<Rightarrow> GateVerdictError + GateAction" where
  "ParseGateVerdict unmarshal data = (case unmarshal data of
       Inl e \<Rightarrow> Inl (GateUnmarshalError e)
     | Inr v \<Rightarrow>
         if gv_SchemaVersion v \<noteq> GateVerdictSchemaVersion then Inl (GateSchemaVersionError (gv_SchemaVersion v))
         else (let action = GateAction_of_string (gv_Decision v) in
           if \<not> GateAction_Valid action then Inl (GateDecisionError (gv_Decision v)) else Inr action))"

definition MechanismDecision :: "bool \<Rightarrow> GateAction" where
  "MechanismDecision allow = (if allow then GateActionAllow else GateActionDeny)"

section \<open>Rate limits\<close>

definition DefaultRateLimitThreshold :: int where "DefaultRateLimitThreshold = 2"

record RateLimitState = rl_Consecutive :: int

record RateLimitEvent =
  rl_Cleared :: bool
  rl_Active :: bool

record PauseVerdict =
  pv_Trip :: bool
  pv_NewState :: RateLimitState

definition StepRateLimit :: "RateLimitState \<Rightarrow> RateLimitEvent \<Rightarrow> int \<Rightarrow> PauseVerdict" where
  "StepRateLimit s ev threshold =
     (if rl_Cleared ev then \<lparr>pv_Trip = False, pv_NewState = \<lparr>rl_Consecutive = 0\<rparr>\<rparr>
      else if rl_Active ev
      then (let count = rl_Consecutive s + 1 in
        \<lparr>pv_Trip = (count \<ge> threshold), pv_NewState = \<lparr>rl_Consecutive = count\<rparr>\<rparr>)
      else \<lparr>pv_Trip = False, pv_NewState = s\<rparr>)"

definition BudgetExhaustedTrips :: bool where "BudgetExhaustedTrips = True"

section \<open>Auto-resume backoff\<close>

definition DefaultAutoResumeMaxBackoff :: go_duration where
  "DefaultAutoResumeMaxBackoff = 30 * 60 * 1000000000"

record AutoResumeParams =
  ar_Base :: go_duration
  ar_Attempts :: int
  ar_MaxBackoff :: go_duration

text \<open>The doubling loop, with \<open>n\<close> iterations left; the Go loop breaks at the overflow guard.\<close>

fun backoffLoop :: "nat \<Rightarrow> go_duration \<Rightarrow> go_duration \<Rightarrow> go_duration" where
  "backoffLoop 0 maxBackoff shifted = shifted"
| "backoffLoop (Suc n) maxBackoff shifted =
     (if sint shifted < sint maxBackoff
      then (let nxt = shifted * 2 in
        if sint nxt \<le> 0 \<or> sint nxt > sint maxBackoff then maxBackoff
        else backoffLoop n maxBackoff nxt)
      else shifted)"

definition BackoffDuration :: "AutoResumeParams \<Rightarrow> go_duration" where
  "BackoffDuration p =
     (if ar_Attempts p \<le> 0 then ar_Base p
      else (let maxBackoff = (if sint (ar_MaxBackoff p) \<le> 0 then DefaultAutoResumeMaxBackoff else ar_MaxBackoff p);
                shifted = backoffLoop (nat (ar_Attempts p)) maxBackoff (ar_Base p) in
            if sint shifted > sint maxBackoff then maxBackoff else shifted))"

section \<open>Properties\<close>

lemma appendStrand_length:
  "length (appendStrand ss n l) = length ss + (if n > 0 then 1 else 0)"
  by (simp add: appendStrand_def)

text \<open>
  Drain and sleep agree and fail closed. The fleet is classified as drained exactly when the
  sleep veto lets it sleep; an uncertain read is never drained and always vetoes, with no strand
  listed; otherwise there is one strand per non-empty work axis. Latent work is anything that is
  not drained, and also a bead that only needs decomposition.
\<close>
theorem drain_agrees:
  "(ClassifyDrain s = DrainStateDrained \<longleftrightarrow> \<not> Vetoed (SleepVeto s))
   \<and> (dr_Unsure s \<longrightarrow> ClassifyDrain s = DrainStateUnsure \<and> Vetoed (SleepVeto s) \<and> vr_Strands (SleepVeto s) = [])
   \<and> (\<not> dr_Unsure s \<longrightarrow> length (vr_Strands (SleepVeto s)) =
        length (filter (\<lambda>n. n > 0) [dr_ReadyCount s, dr_InProgressCount s, dr_RegistryRuns s, dr_LiveWorktrees s,
          dr_QueuedCount s, dr_PausedQueues s, dr_FailedArchives s, dr_BlockedByOpenEpic s]))
   \<and> (HasLatentWork s \<longleftrightarrow> ClassifyDrain s \<noteq> DrainStateDrained \<or> dr_NeedsDecomposition s > 0)"
  by (simp add: ClassifyDrain_def SleepVeto_def Vetoed_def HasLatentWork_def appendStrand_length Let_def
    hasDispatchableOrInFlightWork_def del: length_0_conv length_greater_0_conv)

definition wit_drain :: DrainSnapshot where
  "wit_drain = \<lparr>dr_ReadyCount = 0, dr_InProgressCount = 2, dr_RegistryRuns = 0, dr_LiveWorktrees = 1,
     dr_QueuedCount = 0, dr_PausedQueues = 0, dr_FailedArchives = 0, dr_BlockedByOpenEpic = 0,
     dr_NeedsDecomposition = 0, dr_Unsure = False, dr_UnsureReasons = []\<rparr>"

theorem drain_agrees_witness: "length (vr_Strands (SleepVeto wit_drain)) = 2"
  using drain_agrees [of wit_drain] by (simp add: wit_drain_def)

text \<open>
  Gate verdicts fail closed. A verdict file yields a gate action exactly when it decodes, has
  the expected schema version and its decision is one of the three declared words; the action is
  then the one the word names, and every other file is an error. A mechanism gate always yields a
  valid action, and it allows exactly on true.
\<close>
theorem gate_verdict_spec:
  "(ParseGateVerdict unmarshal data = Inr act \<longleftrightarrow>
      (\<exists>v. unmarshal data = Inr v \<and> gv_SchemaVersion v = 1
         \<and> (gv_Decision v = ''allow'' \<and> act = GateActionAllow
            \<or> gv_Decision v = ''deny'' \<and> act = GateActionDeny
            \<or> gv_Decision v = ''escalate-to-human'' \<and> act = GateActionEscalateToHuman)))
   \<and> GateAction_Valid (MechanismDecision b) \<and> (MechanismDecision b = GateActionAllow \<longleftrightarrow> b)"
proof (intro conjI)
  show "ParseGateVerdict unmarshal data = Inr act \<longleftrightarrow>
      (\<exists>v. unmarshal data = Inr v \<and> gv_SchemaVersion v = 1
         \<and> (gv_Decision v = ''allow'' \<and> act = GateActionAllow
            \<or> gv_Decision v = ''deny'' \<and> act = GateActionDeny
            \<or> gv_Decision v = ''escalate-to-human'' \<and> act = GateActionEscalateToHuman))"
    by (cases "unmarshal data")
      (auto simp: ParseGateVerdict_def Let_def GateAction_of_string_def GateVerdictSchemaVersion_def)
qed (simp_all add: MechanismDecision_def)

text \<open>The number of active events since the last cleared one.\<close>

definition activeRun :: "RateLimitEvent list \<Rightarrow> int" where
  "activeRun es = int (length (filter rl_Active (takeWhile (\<lambda>e. \<not> rl_Cleared e) (rev es))))"

definition rateLimit_after :: "RateLimitEvent list \<Rightarrow> int \<Rightarrow> RateLimitState" where
  "rateLimit_after es threshold =
     foldl (\<lambda>s ev. pv_NewState (StepRateLimit s ev threshold)) \<lparr>rl_Consecutive = 0\<rparr> es"

lemma rateLimit_after_count: "rl_Consecutive (rateLimit_after es threshold) = activeRun es"
  by (induction es rule: rev_induct)
    (auto simp: rateLimit_after_def activeRun_def StepRateLimit_def Let_def)

text \<open>
  Rate-limit hysteresis. After any history of events, the next event trips a pause exactly when
  it is an active event, not a cleared one, and together with the active events since the last
  cleared event it reaches the threshold. Events of neither kind do not count and do not reset.
\<close>
theorem rate_limit_trips:
  "pv_Trip (StepRateLimit (rateLimit_after es threshold) ev threshold) \<longleftrightarrow>
     \<not> rl_Cleared ev \<and> rl_Active ev \<and> activeRun (es @ [ev]) \<ge> threshold"
  using rateLimit_after_count [of es threshold]
  by (auto simp: StepRateLimit_def Let_def activeRun_def)

section \<open>The backoff bound\<close>

lemma sint_double:
  fixes w :: go_duration
  assumes "0 < sint w"
  shows "sint (w * 2) = (if sint w < 2 ^ 62 then 2 * sint w else 2 * sint w - 2 ^ 64)"
proof -
  have lt: "sint w < 2 ^ 63" using sint_lt [of w] by simp
  have "sint (w * 2) = signed_take_bit 63 (sint w * 2)"
    by (simp add: sint_word_mult)
  also have "\<dots> = (sint w * 2 + 2 ^ 63) mod 2 ^ 64 - 2 ^ 63"
    by (simp add: signed_take_bit_eq_take_bit_shift take_bit_eq_mod)
  also have "\<dots> = (if sint w < 2 ^ 62 then 2 * sint w else 2 * sint w - 2 ^ 64)"
  proof (cases "sint w < 2 ^ 62")
    case True
    then have "(sint w * 2 + 2 ^ 63) mod 2 ^ 64 = sint w * 2 + 2 ^ 63"
      using assms by (intro mod_pos_pos_trivial) auto
    with True show ?thesis by simp
  next
    case False
    then have "(sint w * 2 + 2 ^ 63 - 2 ^ 64) mod 2 ^ 64 = sint w * 2 + 2 ^ 63 - 2 ^ 64"
      using lt by (intro mod_pos_pos_trivial) auto
    moreover have "(sint w * 2 + 2 ^ 63 - 2 ^ 64) mod 2 ^ 64 = (sint w * 2 + 2 ^ 63) mod 2 ^ 64"
      using mod_diff_right_eq [of "sint w * 2 + 2 ^ 63" "2 ^ 64 :: int" "2 ^ 64"] by simp
    ultimately show ?thesis using False by simp
  qed
  finally show ?thesis .
qed

text \<open>The loop computes the capped doubling over the mathematical integers.\<close>

lemma backoffLoop_eq:
  assumes "0 < sint w" "0 < sint m"
  shows "min (sint (backoffLoop n m w)) (sint m) = min (sint w * 2 ^ n) (sint m)"
  using assms
proof (induction n arbitrary: w)
  case 0
  then show ?case by simp
next
  case (Suc n)
  show ?case
  proof (cases "sint w < sint m")
    case False
    have "(1::int) \<le> 2 ^ Suc n" by (rule one_le_power) simp
    then have "sint w \<le> sint w * 2 ^ Suc n" using Suc.prems by simp
    with False show ?thesis by simp
  next
    case True
    have mlt: "sint m < 2 ^ 63" using sint_lt [of m] by simp
    show ?thesis
    proof (cases "sint (w * 2) \<le> 0 \<or> sint (w * 2) > sint m")
      case snap: True
      have "sint m \<le> 2 * sint w"
        using snap sint_double [OF Suc.prems(1)] Suc.prems(1) mlt by (auto split: if_splits)
      then have "sint m \<le> sint w * 2 ^ Suc n"
        using Suc.prems(1) by (simp add: mult_mono order_trans [of "sint m" "2 * sint w"])
      then show ?thesis using snap True by (simp add: Let_def)
    next
      case False
      then have d: "sint (w * 2) = 2 * sint w"
        using sint_double [OF Suc.prems(1)] sint_lt [of w] by (auto split: if_splits)
      with False True Suc.IH [of "w * 2"] Suc.prems show ?thesis by (simp add: Let_def algebra_simps)
    qed
  qed
qed

text \<open>
  The auto-resume delay is the capped exponential. For a positive base and a positive number of
  attempts, the 64-bit computation returns exactly the smaller of the base times two to the
  attempts, over the mathematical integers, and the effective cap, which is the default of thirty
  minutes when none is configured: the doubling never wraps, for any number of attempts. Without
  attempts the base is returned as it is, not capped.
\<close>
theorem backoff_capped_exponential:
  "(ar_Attempts p \<le> 0 \<longrightarrow> BackoffDuration p = ar_Base p)
   \<and> (0 < ar_Attempts p \<and> 0 < sint (ar_Base p) \<longrightarrow>
        sint (BackoffDuration p) =
          min (sint (ar_Base p) * 2 ^ nat (ar_Attempts p))
              (if sint (ar_MaxBackoff p) \<le> 0 then 1800000000000 else sint (ar_MaxBackoff p)))"
proof (intro conjI impI)
  assume a: "0 < ar_Attempts p \<and> 0 < sint (ar_Base p)"
  define m where "m = (if sint (ar_MaxBackoff p) \<le> 0 then DefaultAutoResumeMaxBackoff else ar_MaxBackoff p)"
  have dflt: "sint DefaultAutoResumeMaxBackoff = 1800000000000"
    by (simp add: DefaultAutoResumeMaxBackoff_def)
  have pos: "0 < sint m" by (simp add: m_def dflt)
  have "sint (BackoffDuration p) = min (sint (backoffLoop (nat (ar_Attempts p)) m (ar_Base p))) (sint m)"
    using a by (simp add: BackoffDuration_def m_def [symmetric] Let_def min_def)
  also have "\<dots> = min (sint (ar_Base p) * 2 ^ nat (ar_Attempts p)) (sint m)"
    using a pos by (intro backoffLoop_eq) simp_all
  finally show "sint (BackoffDuration p) = min (sint (ar_Base p) * 2 ^ nat (ar_Attempts p))
      (if sint (ar_MaxBackoff p) \<le> 0 then 1800000000000 else sint (ar_MaxBackoff p))"
    by (simp add: m_def dflt)
qed (simp add: BackoffDuration_def)

theorem backoff_capped_exponential_witness:
  "sint (BackoffDuration \<lparr>ar_Base = 5, ar_Attempts = 70, ar_MaxBackoff = 0x7FFFFFFFFFFFFFFF\<rparr>) = 9223372036854775807"
  using backoff_capped_exponential [of "\<lparr>ar_Base = 5, ar_Attempts = 70, ar_MaxBackoff = 0x7FFFFFFFFFFFFFFF\<rparr>"]
  by simp

end
