(* ===== verification/Run_Vocab.thy ===== *)
theory Run_Vocab
  imports Harmonik_Prelude
begin

text \<open>
  The vocabulary the two run-path reactors share (\<^verbatim>\<open>internal/runexec/vocab.go\<close>): the flat event
  and action structs with their kinds, and the driver loop that feeds a reactor from a source into
  an effector (\<^verbatim>\<open>internal/substrate/seam.go\<close>).

  The Go kinds are strings. A value that is none of the declared constants, the zero value
  included, is an \<open>Other\<close>: it takes the default branch of every switch.
\<close>

section \<open>Kinds\<close>

type_synonym SessionRef = string
type_synonym InputID = string

datatype TimerKind = TimerAgentReady | TimerInputAck | TimerReadyKillReap | TimerOther string

datatype EventKind =
    EvStartDispatch | EvLaunched | EvLaunchFailed | EvAgentReady | EvInputAck | EvInputRejected
  | EvHeartbeat | EvCommitObserved | EvOutcomeReceived | EvAgentExited | EvNoChangeTimeout
  | EvHeartbeatStale | EvAborted
  | EvStartRun | EvProvisioned | EvProvisionFailed | EvModeOutcome | EvAgentCompleted | EvCleanExit
  | EvNoCommitGuardReopen | EvGuardsPassed | EvGatePassed | EvGateFailed | EvMergeResult
  | EvCloseResult | EvShutdownDrain
  | EvTimerFired
  | EvOther string

datatype ModeOutcomeClass =
    ModeSuccess | ModeFailure | ModeBudget | ModeSubsumed | ModeNoChange | ModeOther string

datatype MergeOutcomeClass =
    MergeSuccess | MergeNoChange | MergeRetryable | MergeFatal | MergeOther string

datatype MergeStage = MergeStageCodeSync | MergeStageMerge | MergeStageOther string

datatype CloseOutcomeClass = CloseClosed | CloseBrUnavailable | CloseError | CloseOther string

datatype InputKind = InputBrief | InputResumePrompt | InputQuit | InputOther string

record Event =
  ev_Kind :: EventKind
  ev_At :: go_time
  ev_Session :: SessionRef
  ev_InputID :: InputID
  ev_Reason :: string
  ev_ExitCode :: int
  ev_WaitErr :: string
  ev_Outcome :: string
  ev_SHA :: string
  ev_Mode :: string
  ev_ModeOutcome :: ModeOutcomeClass
  ev_NeedsAttention :: bool
  ev_Detail :: string
  ev_Merge :: MergeOutcomeClass
  ev_MergeReason :: string
  ev_MergeStage :: MergeStage
  ev_EmitOutcome :: bool
  ev_PathLabel :: string
  ev_AlreadyApprovedOnMain :: bool
  ev_Close :: CloseOutcomeClass
  ev_WorktreeAheadSHA :: string
  ev_Timer :: TimerKind

datatype ActionKind =
    ActLaunchAgent | ActDeliverInput | ActKillAgent | ActDriveLifecycleTerminated
  | ActCreateWorktree | ActRunGate | ActCheckEscape | ActPrepareMerge | ActSubmitMerge
  | ActReAmendTrailer | ActCloseBead | ActReopenBead | ActEmitRunTerminal
  | ActEmit | ActArmTimer | ActCancelTimer

record Action =
  act_Kind :: ActionKind
  act_Session :: SessionRef
  act_InputID :: InputID
  act_InputKind :: InputKind
  act_SpecRef :: string
  act_ExitCode :: int
  act_WaitErr :: string
  act_Type :: string
  act_Detail :: string
  act_Summary :: string
  act_Reason :: string
  act_NeedsAttention :: bool
  act_Success :: bool
  act_Label :: string
  act_Timer :: TimerKind
  act_D :: go_duration

text \<open>A composite literal that sets only the kind: every other field has its zero value.\<close>

definition mkAction :: "ActionKind \<Rightarrow> Action" where
  "mkAction k = \<lparr>act_Kind = k, act_Session = [], act_InputID = [], act_InputKind = InputOther [],
     act_SpecRef = [], act_ExitCode = 0, act_WaitErr = [], act_Type = [], act_Detail = [],
     act_Summary = [], act_Reason = [], act_NeedsAttention = False, act_Success = False,
     act_Label = [], act_Timer = TimerOther [], act_D = 0\<rparr>"

lemma mkAction_fields [simp]:
  "act_Kind (mkAction k) = k" "act_Success (mkAction k) = False" "act_NeedsAttention (mkAction k) = False"
  "act_Timer (mkAction k) = TimerOther []" "act_Summary (mkAction k) = []" "act_Session (mkAction k) = []"
  "act_Reason (mkAction k) = []" "act_Label (mkAction k) = []"
  by (simp_all add: mkAction_def)

text \<open>The core event types the machines emit.\<close>

definition EventTypeRunStarted :: string where "EventTypeRunStarted = ''run_started''"
definition EventTypeOutcomeEmitted :: string where "EventTypeOutcomeEmitted = ''outcome_emitted''"
definition EventTypeLaunchInitiated :: string where "EventTypeLaunchInitiated = ''launch_initiated''"
definition EventTypeAgentReadyTimeout :: string where "EventTypeAgentReadyTimeout = ''agent_ready_timeout''"
definition EventTypeTmuxNewWindowTimeout :: string where
  "EventTypeTmuxNewWindowTimeout = ''tmux_new_window_timeout''"
definition EventTypeSpawnCapBlocked :: string where "EventTypeSpawnCapBlocked = ''spawn_cap_blocked''"

section \<open>Counting emitted actions\<close>

definition count_kind :: "ActionKind \<Rightarrow> Action list \<Rightarrow> nat" where
  "count_kind k as = length (filter (\<lambda>a. act_Kind a = k) as)"

lemma count_kind_simps [simp]:
  "count_kind k [] = 0"
  "count_kind k (a # as) = (if act_Kind a = k then Suc (count_kind k as) else count_kind k as)"
  "count_kind k (as @ bs) = count_kind k as + count_kind k bs"
  by (simp_all add: count_kind_def)

lemma count_kind_pos: "0 < count_kind k as \<longleftrightarrow> (\<exists>a \<in> set as. act_Kind a = k)"
  by (induction as) auto

lemma count_kind_0: "count_kind k as = 0 \<longleftrightarrow> (\<forall>a \<in> set as. act_Kind a \<noteq> k)"
  by (induction as) auto

section \<open>The driver loop\<close>

text \<open>
  \<open>substrate_Run\<close>: for each event step the reactor and execute the actions in order; the first
  effector error stops the loop at once. The effector is any function on a world \<open>'w\<close> that may
  fail; the result is the reactor state, the world and the error, if any.
\<close>

fun executeAll :: "('w \<Rightarrow> 'a \<Rightarrow> 'w \<times> 'err option) \<Rightarrow> 'w \<Rightarrow> 'a list \<Rightarrow> 'w \<times> 'err option" where
  "executeAll exec w [] = (w, None)"
| "executeAll exec w (a # as) =
     (case exec w a of (w', Some err) \<Rightarrow> (w', Some err) | (w', None) \<Rightarrow> executeAll exec w' as)"

fun substrate_Run :: "('s \<Rightarrow> 'e \<Rightarrow> 's \<times> 'a list) \<Rightarrow> ('w \<Rightarrow> 'a \<Rightarrow> 'w \<times> 'err option)
    \<Rightarrow> 's \<Rightarrow> 'w \<Rightarrow> 'e list \<Rightarrow> 's \<times> 'w \<times> 'err option" where
  "substrate_Run step exec s w [] = (s, w, None)"
| "substrate_Run step exec s w (ev # evs) =
     (let (s', actions) = step s ev in
      case executeAll exec w actions of
        (w', Some err) \<Rightarrow> (s', w', Some err)
      | (w', None) \<Rightarrow> substrate_Run step exec s' w' evs)"

lemma executeAll_append:
  "executeAll exec w (as @ bs) =
     (case executeAll exec w as of (w', Some err) \<Rightarrow> (w', Some err) | (w', None) \<Rightarrow> executeAll exec w' bs)"
  by (induction as arbitrary: w) (auto split: prod.splits option.splits)

lemma substrate_Run_ok:
  assumes "substrate_Run step exec s w evs = (s', w', None)"
  shows "run_events step s evs = (s', snd (run_events step s evs))
     \<and> executeAll exec w (snd (run_events step s evs)) = (w', None)"
  using assms
  by (induction evs arbitrary: s w)
    (fastforce simp: executeAll_append split: prod.splits option.splits)+

lemma substrate_Run_err:
  assumes "substrate_Run step exec s w evs = (s', w', Some err)"
  shows "executeAll exec w (snd (run_events step s evs)) = (w', Some err)"
  using assms
  by (induction evs arbitrary: s w)
    (fastforce simp: executeAll_append split: prod.splits option.splits)+

text \<open>
  The driver loop executes the reactor's actions in emission order and nothing else. Running
  the loop has on the world exactly the effect of executing, in order, the actions of the pure run
  until the first failing one, and it reports exactly that failure. When there is none, the
  reactor ends in the state of the pure run over all the events.
\<close>
theorem substrate_Run_executes:
  "executeAll exec w (snd (run_events step s evs)) =
     (fst (snd (substrate_Run step exec s w evs)), snd (snd (substrate_Run step exec s w evs)))
   \<and> (snd (snd (substrate_Run step exec s w evs)) = None \<longrightarrow>
        fst (substrate_Run step exec s w evs) = fst (run_events step s evs))"
proof (cases "substrate_Run step exec s w evs")
  case (fields s' w' e)
  then show ?thesis
    using substrate_Run_ok [of step exec s w evs s' w'] substrate_Run_err [of step exec s w evs s' w']
    by (cases e) (auto dest: arg_cong [of _ _ fst])
qed

theorem substrate_Run_executes_witness:
  "fst (substrate_Run (\<lambda>s e. (s + e, [e, s])) (\<lambda>w a. (w @ [a], if a > (9::nat) then Some ''boom'' else None)) 0 [] [1, 2])
     = fst (run_events (\<lambda>s e. (s + e, [e, s])) (0::nat) [1, 2])"
  using substrate_Run_executes [of "\<lambda>w a. (w @ [a], if a > (9::nat) then Some ''boom'' else None)" "[]"
      "\<lambda>s e. (s + e, [e, s])" 0 "[1, 2]"] by simp

end
