(* ===== verification/Run_Machine.thy ===== *)
theory Run_Machine
  imports Run_Vocab
begin

text \<open>
  The pure per-run reactor of \<^verbatim>\<open>internal/runexec/run.go\<close>: provision, dispatch, guard, gate,
  merge, then close or reopen the bead. One definition per Go function; \<open>stepRun\<close> is the whole
  transition function. The lemmas prove one history invariant, relating the state to every action
  emitted since the start, and read the promises of the close ladder off it.
\<close>

section \<open>State\<close>

datatype RunPhase =
    RunResolving | RunProvisioning | RunDispatching | RunGuarding | RunGating | RunMerging
  | RunFinalizing | RunDone

datatype FinalizeMode = FinalizeClose | FinalizeReopen | FinalizeOther string

record RunConfig =
  cfg_Mode :: string
  cfg_MaxMergeAttempts :: int
  cfg_ReAmendTrailer :: bool
  cfg_EmitOutcome :: bool
  cfg_CloseSummary :: string
  cfg_BrUnavailableSummary :: string
  cfg_NoMergeCloseSummary :: string
  cfg_ReopenReason :: string

record RunState =
  rs_Phase :: RunPhase
  rs_Mode :: string
  rs_MergeAttempt :: int
  rs_PathLabel :: string
  rs_PathCloseSummary :: string
  rs_SingleShotLabel :: bool
  rs_TransientSummary :: string
  rs_AttentionClose :: bool
  rs_FinalizeMode :: FinalizeMode
  rs_DoneOutcome :: string
  rs_Success :: bool
  rs_Draining :: bool

definition outcomeClosed :: string where "outcomeClosed = ''closed''"
definition outcomeReopened :: string where "outcomeReopened = ''reopened''"
definition drainCloseSummary :: string where
  "drainCloseSummary = ''shutdown-drain: committed work merged''"
definition drainTransientSummary :: string where
  "drainTransientSummary = ''close-transient-merged (shutdown-drain)''"
definition drainRequeueReason :: string where
  "drainRequeueReason = ''context_cancelled: daemon shutdown, requeue pending''"

definition NewRunState :: RunState where
  "NewRunState = \<lparr>rs_Phase = RunResolving, rs_Mode = [], rs_MergeAttempt = 0, rs_PathLabel = [],
     rs_PathCloseSummary = [], rs_SingleShotLabel = False, rs_TransientSummary = [],
     rs_AttentionClose = False, rs_FinalizeMode = FinalizeOther [], rs_DoneOutcome = [],
     rs_Success = False, rs_Draining = False\<rparr>"

record Run =
  run_cfg :: RunConfig
  run_state :: RunState

definition NewRun :: "RunConfig \<Rightarrow> Run" where
  "NewRun cfg = \<lparr>run_cfg = cfg, run_state = NewRunState\<rparr>"

section \<open>The close and reopen ladders\<close>

definition emitOutcomeAction :: "string \<Rightarrow> Action" where
  "emitOutcomeAction detail =
     (mkAction ActEmit)\<lparr>act_Type := EventTypeOutcomeEmitted, act_Detail := detail\<rparr>"

definition finalizeClose ::
    "RunConfig \<Rightarrow> RunState \<Rightarrow> string \<Rightarrow> string \<Rightarrow> bool \<Rightarrow> RunState \<times> Action list" where
  "finalizeClose cfg s summary transient emitOutcome =
     (s\<lparr>rs_Phase := RunFinalizing, rs_FinalizeMode := FinalizeClose, rs_TransientSummary := transient\<rparr>,
      (if emitOutcome then [emitOutcomeAction ''approved''] else [])
        @ [(mkAction ActCloseBead)\<lparr>act_Summary := summary\<rparr>])"

definition mergeCloseTransient :: "RunConfig \<Rightarrow> RunState \<Rightarrow> string" where
  "mergeCloseTransient cfg s =
     (if rs_SingleShotLabel s \<and> rs_PathLabel s \<noteq> []
      then ''close-transient-merged ('' @ rs_PathLabel s @ '')''
      else cfg_BrUnavailableSummary cfg)"

definition drainReopen :: "RunState \<Rightarrow> RunState \<times> Action list" where
  "drainReopen s =
     (s\<lparr>rs_Phase := RunDone, rs_FinalizeMode := FinalizeReopen, rs_DoneOutcome := outcomeReopened,
        rs_Success := False, rs_Draining := True\<rparr>,
      [(mkAction ActReopenBead)\<lparr>act_Reason := drainRequeueReason\<rparr>])"

definition terminalAction :: "bool \<Rightarrow> string \<Rightarrow> Action" where
  "terminalAction success summary =
     (mkAction ActEmitRunTerminal)\<lparr>act_Success := success, act_Summary := summary\<rparr>"

definition doneClosed :: "RunState \<Rightarrow> string \<Rightarrow> bool \<Rightarrow> RunState \<times> Action list" where
  "doneClosed s summary success =
     (s\<lparr>rs_Phase := RunDone, rs_FinalizeMode := FinalizeClose, rs_DoneOutcome := outcomeClosed,
        rs_Success := success\<rparr>,
      [terminalAction success summary])"

definition finalizeReopen ::
    "RunConfig \<Rightarrow> RunState \<Rightarrow> Action list \<Rightarrow> string \<Rightarrow> string \<Rightarrow> RunState \<times> Action list" where
  "finalizeReopen cfg s prefix reason summary =
     (let reason' = (if reason = [] then cfg_ReopenReason cfg else reason);
          summary' = (if summary = [] then cfg_ReopenReason cfg else summary) in
      (s\<lparr>rs_Phase := RunDone, rs_FinalizeMode := FinalizeReopen, rs_DoneOutcome := outcomeReopened,
         rs_Success := False\<rparr>,
       prefix @ [(mkAction ActReopenBead)\<lparr>act_Reason := reason'\<rparr>, terminalAction False summary']))"

section \<open>The steps\<close>

definition stepRunResolving :: "RunConfig \<Rightarrow> RunState \<Rightarrow> Event \<Rightarrow> RunState \<times> Action list" where
  "stepRunResolving cfg s ev = (case ev_Kind ev of
       EvStartRun \<Rightarrow> (s\<lparr>rs_Phase := RunProvisioning, rs_Mode := ev_Mode ev\<rparr>, [mkAction ActCreateWorktree])
     | EvProvisionFailed \<Rightarrow> finalizeReopen cfg s [] (ev_Reason ev) (ev_Detail ev)
     | _ \<Rightarrow> (s, []))"

definition stepRunProvisioning :: "RunConfig \<Rightarrow> RunState \<Rightarrow> Event \<Rightarrow> RunState \<times> Action list" where
  "stepRunProvisioning cfg s ev = (case ev_Kind ev of
       EvProvisioned \<Rightarrow> (s\<lparr>rs_Phase := RunDispatching\<rparr>, [(mkAction ActEmit)\<lparr>act_Type := EventTypeRunStarted\<rparr>])
     | EvProvisionFailed \<Rightarrow> finalizeReopen cfg s [] (ev_Reason ev) (ev_Detail ev)
     | _ \<Rightarrow> (s, []))"

definition stepRunModeSuccess :: "RunState \<Rightarrow> Event \<Rightarrow> RunState \<times> Action list" where
  "stepRunModeSuccess s ev =
     (let s1 = (if ev_PathLabel ev \<noteq> [] then s\<lparr>rs_PathLabel := ev_PathLabel ev\<rparr> else s);
          s2 = (if ev_Detail ev \<noteq> [] then s1\<lparr>rs_PathCloseSummary := ev_Detail ev\<rparr> else s1) in
      (s2\<lparr>rs_Phase := RunGating\<rparr>, [mkAction ActRunGate]))"

definition stepRunModeNoMerge :: "RunConfig \<Rightarrow> RunState \<Rightarrow> Event \<Rightarrow> RunState \<times> Action list" where
  "stepRunModeNoMerge cfg s ev =
     (if ev_ModeOutcome ev = ModeSubsumed \<and> ev_EmitOutcome ev
      then (let label = (if ev_PathLabel ev = [] then ''noChange-subsumed'' else ev_PathLabel ev);
                s' = s\<lparr>rs_PathLabel := label, rs_PathCloseSummary := ev_Detail ev\<rparr> in
        finalizeClose cfg s' (ev_Detail ev) (''close-transient-merged ('' @ label @ '')'') True)
      else finalizeClose cfg s (cfg_NoMergeCloseSummary cfg) (cfg_BrUnavailableSummary cfg) False)"

definition stepRunModeBudget :: "RunConfig \<Rightarrow> RunState \<Rightarrow> Event \<Rightarrow> RunState \<times> Action list" where
  "stepRunModeBudget cfg s ev =
     (if ev_NeedsAttention ev
      then (s\<lparr>rs_Phase := RunFinalizing, rs_FinalizeMode := FinalizeClose, rs_AttentionClose := True,
              rs_PathCloseSummary := ev_Detail ev\<rparr>,
            [emitOutcomeAction ''rejected'',
             (mkAction ActCloseBead)\<lparr>act_Summary := ev_Detail ev, act_NeedsAttention := True\<rparr>])
      else finalizeReopen cfg s [] [] [])"

definition stepRunModeOutcome :: "RunConfig \<Rightarrow> RunState \<Rightarrow> Event \<Rightarrow> RunState \<times> Action list" where
  "stepRunModeOutcome cfg s ev = (case ev_ModeOutcome ev of
       ModeSuccess \<Rightarrow> stepRunModeSuccess s ev
     | ModeSubsumed \<Rightarrow> stepRunModeNoMerge cfg s ev
     | ModeNoChange \<Rightarrow> stepRunModeNoMerge cfg s ev
     | ModeBudget \<Rightarrow> stepRunModeBudget cfg s ev
     | _ \<Rightarrow> finalizeReopen cfg s [] (ev_Reason ev) (ev_Detail ev))"

definition stepRunDispatchTerminal :: "RunState \<Rightarrow> Event \<Rightarrow> RunState \<times> Action list" where
  "stepRunDispatchTerminal s ev =
     (let s' = (if ev_Detail ev \<noteq> []
                then s\<lparr>rs_PathLabel := (if ev_Kind ev = EvAgentCompleted then ''agent_completed'' else ''auto-close''),
                       rs_SingleShotLabel := True, rs_PathCloseSummary := ev_Detail ev\<rparr>
                else s) in
      (s'\<lparr>rs_Phase := RunGuarding\<rparr>, [mkAction ActCheckEscape]))"

definition stepRunDispatching :: "RunConfig \<Rightarrow> RunState \<Rightarrow> Event \<Rightarrow> RunState \<times> Action list" where
  "stepRunDispatching cfg s ev = (case ev_Kind ev of
       EvModeOutcome \<Rightarrow> stepRunModeOutcome cfg s ev
     | EvAgentCompleted \<Rightarrow> stepRunDispatchTerminal s ev
     | EvCleanExit \<Rightarrow> stepRunDispatchTerminal s ev
     | EvShutdownDrain \<Rightarrow>
         (if ev_WorktreeAheadSHA ev = [] then drainReopen s
          else (s\<lparr>rs_Phase := RunMerging, rs_Draining := True\<rparr>,
                [(mkAction ActSubmitMerge)\<lparr>act_Label := ev_WorktreeAheadSHA ev\<rparr>]))
     | _ \<Rightarrow> (s, []))"

definition stepRunGuarding :: "RunConfig \<Rightarrow> RunState \<Rightarrow> Event \<Rightarrow> RunState \<times> Action list" where
  "stepRunGuarding cfg s ev = (case ev_Kind ev of
       EvNoCommitGuardReopen \<Rightarrow> finalizeReopen cfg s [] (ev_Reason ev) (ev_Reason ev)
     | EvGuardsPassed \<Rightarrow> (s\<lparr>rs_Phase := RunGating\<rparr>, [mkAction ActRunGate])
     | _ \<Rightarrow> (s, []))"

definition stepRunGating :: "RunConfig \<Rightarrow> RunState \<Rightarrow> Event \<Rightarrow> RunState \<times> Action list" where
  "stepRunGating cfg s ev = (case ev_Kind ev of
       EvGatePassed \<Rightarrow> (s\<lparr>rs_Phase := RunMerging\<rparr>, [mkAction ActPrepareMerge])
     | EvGateFailed \<Rightarrow>
         (if ev_Reason ev \<noteq> []
          then finalizeReopen cfg s [emitOutcomeAction ''rejected''] (ev_Reason ev) (ev_Reason ev)
          else finalizeReopen cfg s [] [] [])
     | _ \<Rightarrow> (s, []))"

definition mergeFailureStrings :: "RunState \<Rightarrow> Event \<Rightarrow> string \<times> string" where
  "mergeFailureStrings s ev =
     (if rs_PathLabel s = [] then ([], [])
      else if ev_MergeStage ev = MergeStageCodeSync
      then (''code-sync failed ('' @ rs_PathLabel s @ ''): '' @ ev_MergeReason ev,
            ''code-sync-failed ('' @ rs_PathLabel s @ ''): '' @ ev_MergeReason ev)
      else (''merge-to-main failed: '' @ ev_MergeReason ev,
            ''merge-failed ('' @ rs_PathLabel s @ ''): '' @ ev_MergeReason ev))"

definition mergeExhaustedOrFatal :: "RunConfig \<Rightarrow> RunState \<Rightarrow> Event \<Rightarrow> RunState \<times> Action list" where
  "mergeExhaustedOrFatal cfg s ev =
     (if ev_AlreadyApprovedOnMain ev
      then finalizeClose cfg s (cfg_CloseSummary cfg) (mergeCloseTransient cfg s) (cfg_EmitOutcome cfg)
      else (let (reason, summary) = mergeFailureStrings s ev in
        finalizeReopen cfg s [emitOutcomeAction ''rejected''] reason summary))"

definition stepRunDrainMerge :: "RunConfig \<Rightarrow> RunState \<Rightarrow> Event \<Rightarrow> RunState \<times> Action list" where
  "stepRunDrainMerge cfg s ev =
     (if ev_Merge ev \<in> {MergeSuccess, MergeNoChange}
      then finalizeClose cfg (s\<lparr>rs_PathCloseSummary := drainCloseSummary\<rparr>) drainCloseSummary
             drainTransientSummary False
      else drainReopen s)"

definition stepRunMergeRetry :: "RunConfig \<Rightarrow> RunState \<Rightarrow> Event \<Rightarrow> RunState \<times> Action list" where
  "stepRunMergeRetry cfg s ev =
     (if rs_MergeAttempt s + 1 < cfg_MaxMergeAttempts cfg
      then (s\<lparr>rs_MergeAttempt := rs_MergeAttempt s + 1\<rparr>,
            mkAction ActPrepareMerge # (if cfg_ReAmendTrailer cfg then [mkAction ActReAmendTrailer] else []))
      else mergeExhaustedOrFatal cfg s ev)"

definition stepRunMerging :: "RunConfig \<Rightarrow> RunState \<Rightarrow> Event \<Rightarrow> RunState \<times> Action list" where
  "stepRunMerging cfg s ev =
     (if ev_Kind ev \<noteq> EvMergeResult then (s, [])
      else if rs_Draining s then stepRunDrainMerge cfg s ev
      else (case ev_Merge ev of
          MergeSuccess \<Rightarrow> finalizeClose cfg s (cfg_CloseSummary cfg) (mergeCloseTransient cfg s) (cfg_EmitOutcome cfg)
        | MergeNoChange \<Rightarrow> finalizeClose cfg s (cfg_CloseSummary cfg) (mergeCloseTransient cfg s) (cfg_EmitOutcome cfg)
        | MergeRetryable \<Rightarrow> stepRunMergeRetry cfg s ev
        | _ \<Rightarrow> mergeExhaustedOrFatal cfg s ev))"

definition stepRunAttentionClose :: "RunState \<Rightarrow> Event \<Rightarrow> RunState \<times> Action list" where
  "stepRunAttentionClose s ev =
     (if ev_Close ev \<in> {CloseClosed, CloseBrUnavailable}
      then doneClosed s (rs_PathCloseSummary s) False
      else (s\<lparr>rs_Phase := RunDone, rs_DoneOutcome := outcomeReopened, rs_FinalizeMode := FinalizeReopen,
              rs_Success := False\<rparr>,
            [(mkAction ActReopenBead)\<lparr>act_Reason := rs_PathCloseSummary s\<rparr>,
             terminalAction False (rs_PathCloseSummary s)]))"

definition stepRunFinalizing :: "RunConfig \<Rightarrow> RunState \<Rightarrow> Event \<Rightarrow> RunState \<times> Action list" where
  "stepRunFinalizing cfg s ev =
     (if ev_Kind ev \<noteq> EvCloseResult then (s, [])
      else if rs_AttentionClose s then stepRunAttentionClose s ev
      else (case ev_Close ev of
          CloseClosed \<Rightarrow>
            (if rs_PathCloseSummary s \<noteq> [] then doneClosed s (rs_PathCloseSummary s) True
             else doneClosed s (cfg_CloseSummary cfg) True)
        | CloseBrUnavailable \<Rightarrow>
            (if rs_TransientSummary s \<noteq> [] then doneClosed s (rs_TransientSummary s) True
             else doneClosed s (cfg_BrUnavailableSummary cfg) True)
        | _ \<Rightarrow>
            (if ev_Detail ev \<noteq> [] then doneClosed s (ev_Detail ev) False
             else doneClosed s (cfg_CloseSummary cfg) False)))"

definition stepRun :: "RunConfig \<Rightarrow> RunState \<Rightarrow> Event \<Rightarrow> RunState \<times> Action list" where
  "stepRun cfg s ev = (case rs_Phase s of
       RunResolving \<Rightarrow> stepRunResolving cfg s ev
     | RunProvisioning \<Rightarrow> stepRunProvisioning cfg s ev
     | RunDispatching \<Rightarrow> stepRunDispatching cfg s ev
     | RunGuarding \<Rightarrow> stepRunGuarding cfg s ev
     | RunGating \<Rightarrow> stepRunGating cfg s ev
     | RunMerging \<Rightarrow> stepRunMerging cfg s ev
     | RunFinalizing \<Rightarrow> stepRunFinalizing cfg s ev
     | RunDone \<Rightarrow> (s, []))"

definition Run_Step :: "Run \<Rightarrow> Event \<Rightarrow> Run \<times> Action list" where
  "Run_Step m ev = (let (nxt, actions) = stepRun (run_cfg m) (run_state m) ev in
     (m\<lparr>run_state := nxt\<rparr>, actions))"

definition Run_InFlight :: "Run \<Rightarrow> bool" where
  "Run_InFlight m = (rs_Phase (run_state m) \<noteq> RunDone)"

declare stepRunResolving_def [step_defs] stepRunProvisioning_def [step_defs]
  stepRunDispatching_def [step_defs] stepRunGuarding_def [step_defs] stepRunGating_def [step_defs]
  stepRunMerging_def [step_defs] stepRunFinalizing_def [step_defs]
  stepRunModeOutcome_def [step_defs] stepRunModeSuccess_def [step_defs]
  stepRunModeNoMerge_def [step_defs] stepRunModeBudget_def [step_defs]
  stepRunDispatchTerminal_def [step_defs] stepRunDrainMerge_def [step_defs]
  stepRunMergeRetry_def [step_defs] stepRunAttentionClose_def [step_defs]
  mergeExhaustedOrFatal_def [step_defs]

section \<open>The ladders in terms of state and counts\<close>

lemma outcome_distinct [simp]: "outcomeClosed \<noteq> outcomeReopened" "outcomeReopened \<noteq> outcomeClosed"
  by (simp_all add: outcomeClosed_def outcomeReopened_def)

lemma action_kinds [simp]:
  "act_Kind (emitOutcomeAction d) = ActEmit" "act_Kind (terminalAction b d) = ActEmitRunTerminal"
  "act_Success (terminalAction b d) = b"
  by (simp_all add: emitOutcomeAction_def terminalAction_def)

lemmas ladder_defs = finalizeClose_def drainReopen_def doneClosed_def finalizeReopen_def Let_def

interpretation run: reactor "stepRun cfg" "\<lambda>s. rs_Phase s = RunDone"
  by unfold_locales (simp add: stepRun_def)

text \<open>
  The close-ladder invariant: how many beads were closed and reopened and how many terminals were
  emitted, by phase.
\<close>

definition ladder_inv :: "RunState \<Rightarrow> Action list \<Rightarrow> bool" where
  "ladder_inv s as =
     ((rs_AttentionClose s \<longrightarrow> rs_Phase s \<in> {RunFinalizing, RunDone} \<and> \<not> rs_Draining s \<and> \<not> rs_Success s)
      \<and> (rs_Draining s \<longrightarrow> rs_Phase s \<in> {RunMerging, RunFinalizing, RunDone})
      \<and> (rs_Success s \<longrightarrow> rs_Phase s = RunDone \<and> rs_DoneOutcome s = outcomeClosed)
      \<and> (\<forall>a \<in> set as. act_Kind a = ActEmitRunTerminal \<longrightarrow> act_Success a = rs_Success s)
      \<and> (if rs_Phase s = RunDone then
           (rs_DoneOutcome s = outcomeClosed \<and> count_kind ActCloseBead as = 1
              \<and> count_kind ActReopenBead as = 0 \<and> count_kind ActEmitRunTerminal as = 1)
           \<or> (rs_DoneOutcome s = outcomeReopened \<and> count_kind ActReopenBead as = 1
              \<and> count_kind ActCloseBead as = (if rs_AttentionClose s then 1 else 0)
              \<and> count_kind ActEmitRunTerminal as = (if rs_Draining s then 0 else 1))
         else count_kind ActReopenBead as = 0 \<and> count_kind ActEmitRunTerminal as = 0
           \<and> count_kind ActCloseBead as = (if rs_Phase s = RunFinalizing then 1 else 0)))"

lemma ladder_inv_fields [simp]:
  "ladder_inv (s\<lparr>rs_PathLabel := x\<rparr>) as = ladder_inv s as"
  "ladder_inv (s\<lparr>rs_PathCloseSummary := x\<rparr>) as = ladder_inv s as"
  "ladder_inv (s\<lparr>rs_SingleShotLabel := b\<rparr>) as = ladder_inv s as"
  "ladder_inv (s\<lparr>rs_MergeAttempt := n\<rparr>) as = ladder_inv s as"
  "ladder_inv (s\<lparr>rs_Mode := x\<rparr>) as = ladder_inv s as"
  by (simp_all add: ladder_inv_def)

text \<open>A step that neither closes, reopens nor ends, and stays before finalization.\<close>

lemma ladder_move:
  assumes "ladder_inv s as" "rs_Phase s \<notin> {RunFinalizing, RunDone}"
    "p \<notin> {RunFinalizing, RunDone}" "rs_Draining s \<longrightarrow> p = RunMerging"
    "\<forall>a \<in> set bs. act_Kind a \<notin> {ActCloseBead, ActReopenBead, ActEmitRunTerminal}"
  shows "ladder_inv (s\<lparr>rs_Phase := p\<rparr>) (as @ bs)"
  using assms by (auto simp: ladder_inv_def count_kind_0)

lemma ladder_finalizeClose:
  assumes "ladder_inv s as" "rs_Phase s \<notin> {RunFinalizing, RunDone}"
  shows "ladder_inv (fst (finalizeClose cfg s x y b)) (as @ snd (finalizeClose cfg s x y b))"
  using assms by (auto simp: ladder_inv_def finalizeClose_def count_kind_0)

lemma ladder_finalizeReopen:
  assumes "ladder_inv s as" "rs_Phase s \<notin> {RunFinalizing, RunDone}" "\<not> rs_Draining s"
    "\<forall>a \<in> set bs. act_Kind a = ActEmit"
  shows "ladder_inv (fst (finalizeReopen cfg s bs x y)) (as @ snd (finalizeReopen cfg s bs x y))"
proof -
  have "count_kind k bs = 0" if "k \<noteq> ActEmit" for k
    using assms(4) that by (auto simp: count_kind_0)
  with assms show ?thesis by (auto simp: ladder_inv_def finalizeReopen_def Let_def count_kind_0)
qed

lemma ladder_drainReopen:
  assumes "ladder_inv s as" "rs_Phase s \<notin> {RunFinalizing, RunDone}"
  shows "ladder_inv (fst (drainReopen s)) (as @ snd (drainReopen s))"
  using assms by (auto simp: ladder_inv_def drainReopen_def count_kind_0)

lemma ladder_doneClosed:
  assumes "ladder_inv s as" "rs_Phase s = RunFinalizing" "rs_AttentionClose s \<longrightarrow> \<not> ok"
  shows "ladder_inv (fst (doneClosed s x ok)) (as @ snd (doneClosed s x ok))"
  using assms by (auto simp: ladder_inv_def doneClosed_def count_kind_0)

lemma ladder_not_draining:
  "ladder_inv s as \<Longrightarrow> rs_Phase s \<notin> {RunMerging, RunFinalizing, RunDone} \<Longrightarrow> \<not> rs_Draining s"
  by (auto simp: ladder_inv_def)

lemmas ladder_rules = ladder_finalizeClose ladder_finalizeReopen ladder_drainReopen ladder_doneClosed

lemma ladder_step_early:
  assumes "ladder_inv s as" "rs_Phase s \<in> {RunResolving, RunProvisioning, RunGuarding, RunGating}"
  shows "ladder_inv (fst (stepRun cfg s ev)) (as @ snd (stepRun cfg s ev))"
  using assms ladder_not_draining [OF assms(1)]
  by (auto simp: stepRun_def step_defs ladder_rules ladder_move split: EventKind.splits)

lemma ladder_step_mode:
  assumes "ladder_inv s as" "rs_Phase s = RunDispatching"
  shows "ladder_inv (fst (stepRunModeOutcome cfg s ev)) (as @ snd (stepRunModeOutcome cfg s ev))"
proof -
  have d: "\<not> rs_Draining s" using ladder_not_draining assms by simp
  have "ladder_inv (fst (stepRunModeBudget cfg s ev)) (as @ snd (stepRunModeBudget cfg s ev))"
    using assms d by (auto simp: stepRunModeBudget_def ladder_rules)
      (auto simp: ladder_inv_def count_kind_0)
  then show ?thesis
    using assms d
    by (auto simp: stepRunModeOutcome_def stepRunModeSuccess_def stepRunModeNoMerge_def Let_def
      ladder_rules ladder_move split: ModeOutcomeClass.splits)
qed

lemma ladder_step_dispatching:
  assumes "ladder_inv s as" "rs_Phase s = RunDispatching"
  shows "ladder_inv (fst (stepRunDispatching cfg s ev)) (as @ snd (stepRunDispatching cfg s ev))"
proof -
  have d: "\<not> rs_Draining s" using ladder_not_draining assms by simp
  have "ladder_inv (s\<lparr>rs_Phase := RunMerging, rs_Draining := True\<rparr>)
      (as @ [(mkAction ActSubmitMerge)\<lparr>act_Label := ev_WorktreeAheadSHA ev\<rparr>])"
    using assms by (auto simp: ladder_inv_def count_kind_0)
  with assms d show ?thesis
    by (auto simp: stepRunDispatching_def stepRunDispatchTerminal_def Let_def ladder_rules ladder_move
      ladder_step_mode split: EventKind.splits)
qed

lemma ladder_step_merging:
  assumes "ladder_inv s as" "rs_Phase s = RunMerging"
  shows "ladder_inv (fst (stepRunMerging cfg s ev)) (as @ snd (stepRunMerging cfg s ev))"
proof -
  have retry: "ladder_inv s (as @ mkAction ActPrepareMerge # (if b then [mkAction ActReAmendTrailer] else []))" for b
    using assms by (auto simp: ladder_inv_def count_kind_0)
  have fatal: "\<not> rs_Draining s \<Longrightarrow>
      ladder_inv (fst (mergeExhaustedOrFatal cfg s ev)) (as @ snd (mergeExhaustedOrFatal cfg s ev))"
    using assms by (auto simp: mergeExhaustedOrFatal_def ladder_rules split: prod.splits)
  show ?thesis
    using assms retry [of True] retry [of False] fatal
    by (auto simp: stepRunMerging_def stepRunDrainMerge_def stepRunMergeRetry_def ladder_rules
      split: MergeOutcomeClass.splits)
qed

lemma ladder_step_finalizing:
  assumes "ladder_inv s as" "rs_Phase s = RunFinalizing"
  shows "ladder_inv (fst (stepRunFinalizing cfg s ev)) (as @ snd (stepRunFinalizing cfg s ev))"
proof -
  have "rs_AttentionClose s \<Longrightarrow>
      ladder_inv (fst (stepRunAttentionClose s ev)) (as @ snd (stepRunAttentionClose s ev))"
    using assms by (auto simp: stepRunAttentionClose_def ladder_rules)
      (auto simp: ladder_inv_def count_kind_0)
  with assms show ?thesis
    by (auto simp: stepRunFinalizing_def ladder_rules split: CloseOutcomeClass.splits)
qed

lemma ladder_inv_step:
  assumes "ladder_inv s as"
  shows "ladder_inv (fst (stepRun cfg s ev)) (as @ snd (stepRun cfg s ev))"
  using assms ladder_step_early [OF assms] ladder_step_dispatching [OF assms]
    ladder_step_merging [OF assms] ladder_step_finalizing [OF assms]
  by (cases "rs_Phase s") (simp_all add: stepRun_def)

lemma ladder_inv_start: "ladder_inv NewRunState []"
  by (simp add: ladder_inv_def NewRunState_def)

interpretation ladder: reactor_history "stepRun cfg" "\<lambda>s. rs_Phase s = RunDone" NewRunState ladder_inv
  by unfold_locales (rule ladder_inv_start, rule ladder_inv_step)

section \<open>Merge attempts\<close>

definition early_phase :: "RunPhase \<Rightarrow> bool" where
  "early_phase p = (p \<in> {RunResolving, RunProvisioning, RunDispatching, RunGuarding, RunGating})"

text \<open>
  The merge invariant: how often the gate ran and how often a merge was prepared, against the
  attempt counter and the configured cap.
\<close>

definition merge_inv :: "RunConfig \<Rightarrow> RunState \<Rightarrow> Action list \<Rightarrow> bool" where
  "merge_inv cfg s as =
     (0 \<le> rs_MergeAttempt s \<and> (rs_MergeAttempt s = 0 \<or> rs_MergeAttempt s < cfg_MaxMergeAttempts cfg)
      \<and> (early_phase (rs_Phase s) \<longrightarrow>
           rs_MergeAttempt s = 0 \<and> count_kind ActPrepareMerge as = 0 \<and> \<not> rs_Draining s
           \<and> count_kind ActRunGate as = (if rs_Phase s = RunGating then 1 else 0))
      \<and> (rs_Phase s = RunMerging \<longrightarrow> count_kind ActRunGate as = (if rs_Draining s then 0 else 1)
           \<and> int (count_kind ActPrepareMerge as) = (if rs_Draining s then 0 else rs_MergeAttempt s + 1))
      \<and> int (count_kind ActPrepareMerge as) \<le> rs_MergeAttempt s + 1
      \<and> count_kind ActRunGate as \<le> 1
      \<and> (0 < count_kind ActPrepareMerge as \<longrightarrow> count_kind ActRunGate as = 1))"

text \<open>Every ladder ends in finalization or done and prepares no merge.\<close>

definition ends_ladder :: "RunState \<Rightarrow> RunState \<times> Action list \<Rightarrow> bool" where
  "ends_ladder s r = (rs_Phase (fst r) \<in> {RunFinalizing, RunDone} \<and> rs_MergeAttempt (fst r) = rs_MergeAttempt s
     \<and> (\<forall>a \<in> set (snd r). act_Kind a \<notin> {ActPrepareMerge, ActRunGate}))"

lemma merge_inv_ends_ladder:
  assumes "merge_inv cfg s as" "ends_ladder s r"
  shows "merge_inv cfg (fst r) (as @ snd r)"
proof -
  have "count_kind ActPrepareMerge (snd r) = 0" "count_kind ActRunGate (snd r) = 0"
    using assms(2) by (auto simp: count_kind_0 ends_ladder_def)
  moreover have "\<not> early_phase (rs_Phase (fst r))" "rs_Phase (fst r) \<noteq> RunMerging"
    "rs_MergeAttempt (fst r) = rs_MergeAttempt s"
    using assms(2) by (auto simp: ends_ladder_def early_phase_def)
  ultimately show ?thesis using assms(1) by (simp add: merge_inv_def)
qed

lemma ends_ladder_base [simp]:
  "rs_MergeAttempt s' = rs_MergeAttempt s \<Longrightarrow> ends_ladder s (finalizeClose cfg s' x y b)"
  "ends_ladder s (drainReopen s)" "ends_ladder s (doneClosed s x b)"
  "\<forall>a \<in> set bs. act_Kind a = ActEmit \<Longrightarrow> ends_ladder s (finalizeReopen cfg s bs x y)"
  by (auto simp: ends_ladder_def ladder_defs)

lemma ends_ladder_merge [simp]:
  "ends_ladder s (mergeExhaustedOrFatal cfg s ev)" "ends_ladder s (stepRunDrainMerge cfg s ev)"
  by (simp_all add: mergeExhaustedOrFatal_def stepRunDrainMerge_def split: prod.splits)

lemma ends_ladder_mode [simp]:
  "ends_ladder s (stepRunModeNoMerge cfg s ev)" "ends_ladder s (stepRunModeBudget cfg s ev)"
  by (simp_all add: stepRunModeNoMerge_def stepRunModeBudget_def Let_def)
    (simp add: ends_ladder_def)

lemma ends_ladder_attention [simp]: "ends_ladder s (stepRunAttentionClose s ev)"
  by (simp add: stepRunAttentionClose_def) (simp add: ends_ladder_def)

lemma merge_inv_step:
  assumes "merge_inv cfg s as"
  shows "merge_inv cfg (fst (stepRun cfg s ev)) (as @ snd (stepRun cfg s ev))"
proof (cases "ends_ladder s (stepRun cfg s ev)")
  case True
  with assms show ?thesis by (rule merge_inv_ends_ladder)
next
  case False
  show ?thesis
  proof (cases "rs_Phase s")
    case RunDispatching
    with assms False show ?thesis
      by (cases "ev_Kind ev"; cases "ev_ModeOutcome ev")
        (simp_all add: stepRun_def stepRunDispatching_def stepRunModeOutcome_def stepRunModeSuccess_def
          stepRunDispatchTerminal_def Let_def merge_inv_def early_phase_def split: if_splits)
  next
    case RunMerging
    with assms False show ?thesis
      by (cases "ev_Merge ev")
        (auto simp: stepRun_def stepRunMerging_def stepRunMergeRetry_def merge_inv_def early_phase_def
          split: if_splits)
  next
    case RunFinalizing
    with assms False show ?thesis
      by (cases "ev_Close ev") (auto simp: stepRun_def stepRunFinalizing_def split: if_splits)
  qed (use assms False in \<open>cases "ev_Kind ev"; simp add: stepRun_def stepRunResolving_def stepRunProvisioning_def
      stepRunGuarding_def stepRunGating_def merge_inv_def early_phase_def split: if_splits\<close>)+
qed

lemma merge_inv_start: "merge_inv cfg NewRunState []"
  by (simp add: merge_inv_def NewRunState_def early_phase_def)

interpretation merge: reactor_history "stepRun cfg" "\<lambda>s. rs_Phase s = RunDone" NewRunState "merge_inv cfg"
  by unfold_locales (rule merge_inv_start, rule merge_inv_step)

section \<open>Why a bead is closed\<close>

text \<open>The events that justify closing the bead, by the state they arrive in.\<close>

definition close_reason :: "RunState \<Rightarrow> Event \<Rightarrow> Action \<Rightarrow> bool" where
  "close_reason p e a =
     (if act_NeedsAttention a
      then rs_Phase p = RunDispatching \<and> ev_Kind e = EvModeOutcome \<and> ev_ModeOutcome e = ModeBudget
        \<and> ev_NeedsAttention e
      else (rs_Phase p = RunMerging \<and> ev_Kind e = EvMergeResult
          \<and> (ev_Merge e \<in> {MergeSuccess, MergeNoChange} \<or> \<not> rs_Draining p \<and> ev_AlreadyApprovedOnMain e))
        \<or> (rs_Phase p = RunDispatching \<and> ev_Kind e = EvModeOutcome
          \<and> ev_ModeOutcome e \<in> {ModeSubsumed, ModeNoChange}))"

lemma close_step:
  assumes "a \<in> set (snd (stepRun cfg p e))" "act_Kind a = ActCloseBead"
  shows "close_reason p e a"
proof (cases "rs_Phase p")
  case RunDispatching
  with assms show ?thesis
    by (cases "ev_Kind e"; cases "ev_ModeOutcome e")
      (auto simp: close_reason_def stepRun_def step_defs ladder_defs split: if_splits)
next
  case RunMerging
  with assms show ?thesis
    by (cases "ev_Merge e")
      (auto simp: close_reason_def stepRun_def step_defs ladder_defs split: if_splits prod.splits)
next
  case RunFinalizing
  with assms show ?thesis
    by (cases "ev_Close e") (auto simp: stepRun_def step_defs ladder_defs split: if_splits)
qed (use assms in \<open>(cases "ev_Kind e"; auto simp: stepRun_def step_defs ladder_defs split: if_splits)\<close>)+

lemma prepare_step:
  assumes "a \<in> set (snd (stepRun cfg p e))" "act_Kind a = ActPrepareMerge"
  shows "rs_Phase p = RunGating \<and> ev_Kind e = EvGatePassed \<or>
    rs_Phase p = RunMerging \<and> ev_Kind e = EvMergeResult \<and> ev_Merge e = MergeRetryable"
proof (cases "rs_Phase p")
  case RunDispatching
  with assms show ?thesis
    by (cases "ev_Kind e"; cases "ev_ModeOutcome e")
      (auto simp: stepRun_def step_defs ladder_defs split: if_splits)
next
  case RunMerging
  with assms show ?thesis
    by (cases "ev_Merge e")
      (auto simp: stepRun_def step_defs ladder_defs split: if_splits prod.splits)
next
  case RunFinalizing
  with assms show ?thesis
    by (cases "ev_Close e") (auto simp: stepRun_def step_defs ladder_defs split: if_splits)
qed (use assms in \<open>(cases "ev_Kind e"; auto simp: stepRun_def step_defs ladder_defs split: if_splits)\<close>)+

section \<open>Progress\<close>

lemma phase_doneClosed [simp]: "rs_Phase (fst (doneClosed s x b)) = RunDone"
  by (simp add: doneClosed_def)

lemma phase_attention [simp]: "rs_Phase (fst (stepRunAttentionClose s ev)) = RunDone"
  by (simp add: stepRunAttentionClose_def)

lemma finishing_step:
  assumes "rs_Phase s \<in> {RunFinalizing, RunDone}"
  shows "rs_Phase (fst (stepRun cfg s ev)) =
     (if rs_Phase s = RunDone \<or> ev_Kind ev = EvCloseResult then RunDone else RunFinalizing)"
  using assms by (cases "ev_Close ev") (auto simp: stepRun_def stepRunFinalizing_def)

lemma finishing_run:
  assumes "rs_Phase s \<in> {RunFinalizing, RunDone}"
  shows "rs_Phase (fst (run_events (stepRun cfg) s es)) \<in> {RunFinalizing, RunDone}"
    and "\<exists>e \<in> set es. ev_Kind e = EvCloseResult \<Longrightarrow> rs_Phase (fst (run_events (stepRun cfg) s es)) = RunDone"
proof -
  have "rs_Phase (fst (run_events (stepRun cfg) s es)) \<in> {RunFinalizing, RunDone} \<and>
    ((\<exists>e \<in> set es. ev_Kind e = EvCloseResult) \<longrightarrow> rs_Phase (fst (run_events (stepRun cfg) s es)) = RunDone)"
  proof (induction es rule: rev_induct)
    case Nil
    show ?case using assms by simp
  next
    case (snoc e es)
    let ?s = "fst (run_events (stepRun cfg) s es)"
    have "rs_Phase ?s = RunDone \<Longrightarrow> stepRun cfg ?s e = (?s, [])" by (simp add: stepRun_def)
    with snoc finishing_step [where s = ?s and cfg = cfg and ev = e] show ?case by (auto simp: run_events_snoc)
  qed
  then show "rs_Phase (fst (run_events (stepRun cfg) s es)) \<in> {RunFinalizing, RunDone}"
    "\<exists>e \<in> set es. ev_Kind e = EvCloseResult \<Longrightarrow> rs_Phase (fst (run_events (stepRun cfg) s es)) = RunDone"
    by blast+
qed

lemma merging_step:
  assumes "rs_Phase s = RunMerging"
  shows "ev_Kind ev \<noteq> EvMergeResult \<Longrightarrow> stepRun cfg s ev = (s, [])"
    and "ev_Kind ev = EvMergeResult \<Longrightarrow>
      rs_Phase (fst (stepRun cfg s ev)) \<in> {RunFinalizing, RunDone} \<or>
      fst (stepRun cfg s ev) = s\<lparr>rs_MergeAttempt := rs_MergeAttempt s + 1\<rparr>
        \<and> rs_MergeAttempt s + 1 < cfg_MaxMergeAttempts cfg"
  using assms
  by (auto simp: stepRun_def step_defs ladder_defs split: MergeOutcomeClass.splits prod.splits)

lemma merging_run:
  assumes "rs_Phase s = RunMerging"
    "max 1 (cfg_MaxMergeAttempts cfg - rs_MergeAttempt s) \<le> int (length (filter (\<lambda>e. ev_Kind e = EvMergeResult) es))"
  shows "rs_Phase (fst (run_events (stepRun cfg) s es)) \<in> {RunFinalizing, RunDone}"
  using assms
proof (induction es arbitrary: s)
  case Nil
  then show ?case by simp
next
  case (Cons e es)
  show ?case
  proof (cases "ev_Kind e = EvMergeResult")
    case False
    with Cons.IH [OF Cons.prems(1)] Cons.prems merging_step(1) [OF Cons.prems(1) False, of cfg]
    show ?thesis by (simp split: prod.splits)
  next
    case True
    from merging_step(2) [OF Cons.prems(1) True, of cfg] show ?thesis
    proof
      assume "rs_Phase (fst (stepRun cfg s e)) \<in> {RunFinalizing, RunDone}"
      from finishing_run(1) [OF this, of cfg es] show ?thesis unfolding fst_run_events_Cons .
    next
      assume n: "fst (stepRun cfg s e) = s\<lparr>rs_MergeAttempt := rs_MergeAttempt s + 1\<rparr>
        \<and> rs_MergeAttempt s + 1 < cfg_MaxMergeAttempts cfg"
      then have "rs_Phase (fst (run_events (stepRun cfg) (fst (stepRun cfg s e)) es)) \<in> {RunFinalizing, RunDone}"
        using Cons.prems True by (intro Cons.IH) auto
      then show ?thesis unfolding fst_run_events_Cons .
    qed
  qed
qed

section \<open>Promises of the run reactor\<close>

definition run_of :: "RunConfig \<Rightarrow> Event list \<Rightarrow> RunState \<times> Action list" where
  "run_of cfg es = run_events (stepRun cfg) NewRunState es"

text \<open>
  C10. One outcome per run. Over every event sequence, from a new run: the run terminal is emitted
  exactly once if the run is done and was not requeued by the shutdown drain, and not at all
  otherwise; the bead is reopened exactly once if the run ended reopened, and not at all
  otherwise; the bead is closed at most once, and closed and then reopened only in the
  needs-attention ladder; every emitted terminal reports the success the state records; success
  means done, closed and not a needs-attention close; and once the run is done no further event
  changes the state or emits an action.
\<close>
theorem run_one_outcome:
  "let s = fst (run_of cfg es); as = snd (run_of cfg es) in
     count_kind ActEmitRunTerminal as =
       (if rs_Phase s = RunDone \<and> \<not> (rs_DoneOutcome s = outcomeReopened \<and> rs_Draining s) then 1 else 0)
   \<and> count_kind ActReopenBead as = (if rs_Phase s = RunDone \<and> rs_DoneOutcome s = outcomeReopened then 1 else 0)
   \<and> count_kind ActCloseBead as \<le> 1
   \<and> (count_kind ActCloseBead as = 1 \<and> count_kind ActReopenBead as = 1 \<longrightarrow> rs_AttentionClose s)
   \<and> (\<forall>a \<in> set as. act_Kind a = ActEmitRunTerminal \<longrightarrow> act_Success a = rs_Success s)
   \<and> (rs_Success s \<longrightarrow> rs_Phase s = RunDone \<and> rs_DoneOutcome s = outcomeClosed
        \<and> count_kind ActCloseBead as = 1 \<and> \<not> rs_AttentionClose s)
   \<and> (rs_Phase s = RunDone \<longrightarrow> run_of cfg (es @ fs) = run_of cfg es)"
proof -
  have "ladder_inv (fst (run_of cfg es)) (snd (run_of cfg es))"
    unfolding run_of_def by (rule ladder.run_inv)
  moreover have "rs_Phase (fst (run_of cfg es)) = RunDone \<Longrightarrow> run_of cfg (es @ fs) = run_of cfg es"
    unfolding run_of_def by (rule run.run_after_terminal)
  ultimately show ?thesis by (auto simp: ladder_inv_def Let_def split: if_splits)
qed

definition wit_ev :: "EventKind \<Rightarrow> Event" where
  "wit_ev k = \<lparr>ev_Kind = k, ev_At = 0, ev_Session = [], ev_InputID = [], ev_Reason = [], ev_ExitCode = 0,
     ev_WaitErr = [], ev_Outcome = [], ev_SHA = [], ev_Mode = [], ev_ModeOutcome = ModeSuccess,
     ev_NeedsAttention = False, ev_Detail = [], ev_Merge = MergeRetryable, ev_MergeReason = [],
     ev_MergeStage = MergeStageOther [], ev_EmitOutcome = False, ev_PathLabel = [],
     ev_AlreadyApprovedOnMain = False, ev_Close = CloseClosed, ev_WorktreeAheadSHA = [],
     ev_Timer = TimerAgentReady\<rparr>"

definition wit_cfg :: RunConfig where
  "wit_cfg = \<lparr>cfg_Mode = ''dot'', cfg_MaxMergeAttempts = 2, cfg_ReAmendTrailer = False,
     cfg_EmitOutcome = True, cfg_CloseSummary = ''ok'', cfg_BrUnavailableSummary = ''t'',
     cfg_NoMergeCloseSummary = ''n'', cfg_ReopenReason = ''r''\<rparr>"

text \<open>A run that is gated, retries the merge once, merges and closes.\<close>

definition wit_run :: "Event list" where
  "wit_run = [wit_ev EvStartRun, wit_ev EvProvisioned, wit_ev EvModeOutcome, wit_ev EvGatePassed,
     wit_ev EvMergeResult, (wit_ev EvMergeResult)\<lparr>ev_Merge := MergeSuccess\<rparr>, wit_ev EvCloseResult]"

lemmas wit_run_defs = run_of_def wit_run_def wit_ev_def wit_cfg_def NewRunState_def stepRun_def step_defs
  ladder_defs

theorem run_one_outcome_witness:
  "rs_Success (fst (run_of wit_cfg wit_run)) \<and> count_kind ActCloseBead (snd (run_of wit_cfg wit_run)) = 1
   \<and> run_of wit_cfg (wit_run @ [wit_ev EvCloseResult]) = run_of wit_cfg wit_run"
proof -
  have "rs_Success (fst (run_of wit_cfg wit_run))" by (simp add: wit_run_defs)
  with run_one_outcome [where cfg = wit_cfg and es = wit_run and fs = "[wit_ev EvCloseResult]"]
  show ?thesis by (simp add: Let_def)
qed

text \<open>
  C27. Merge attempts are gated and bounded. Over every event sequence, from a new run: the gate
  runs at most once; merges are prepared at most as often as the configured cap, and at most once
  when the cap is below one; a merge is prepared only after the gate ran and reported a pass.
\<close>
theorem run_merge_bounded:
  "int (count_kind ActPrepareMerge (snd (run_of cfg es))) \<le> max 1 (cfg_MaxMergeAttempts cfg)
   \<and> count_kind ActRunGate (snd (run_of cfg es)) \<le> 1
   \<and> (0 < count_kind ActPrepareMerge (snd (run_of cfg es)) \<longrightarrow>
        count_kind ActRunGate (snd (run_of cfg es)) = 1 \<and> (\<exists>e \<in> set es. ev_Kind e = EvGatePassed))"
proof -
  have m: "merge_inv cfg (fst (run_of cfg es)) (snd (run_of cfg es))"
    unfolding run_of_def by (rule merge.run_inv)
  have g: "\<exists>e \<in> set es. ev_Kind e = EvGatePassed" if "0 < count_kind ActPrepareMerge (snd (run_of cfg es))"
    using that
  proof (induction es rule: rev_induct)
    case Nil
    then show ?case by (simp add: run_of_def)
  next
    case (snoc e es)
    let ?p = "fst (run_of cfg es)"
    have "merge_inv cfg ?p (snd (run_of cfg es))" unfolding run_of_def by (rule merge.run_inv)
    then have mp: "0 < count_kind ActPrepareMerge (snd (run_of cfg es))"
      if "rs_Phase ?p = RunMerging" "\<not> rs_Draining ?p"
      using that by (auto simp: merge_inv_def)
    have dr: "\<not> rs_Draining ?p" if "a \<in> set (snd (stepRun cfg ?p e))" "act_Kind a = ActPrepareMerge"
      "rs_Phase ?p = RunMerging" for a
      using that by (auto simp: stepRun_def step_defs ladder_defs split: if_splits)
    from snoc.prems consider "0 < count_kind ActPrepareMerge (snd (run_of cfg es))"
      | a where "a \<in> set (snd (stepRun cfg ?p e))" "act_Kind a = ActPrepareMerge"
      by (auto simp: run_of_def run_events_snoc count_kind_pos)
    then show ?case
      by cases (use snoc.IH mp dr prepare_step in \<open>fastforce+\<close>)
  qed
  from m g show ?thesis by (auto simp: merge_inv_def)
qed

theorem run_merge_bounded_witness:
  "0 < count_kind ActPrepareMerge (snd (run_of wit_cfg wit_run)) \<and>
   count_kind ActRunGate (snd (run_of wit_cfg wit_run)) = 1"
proof -
  have "0 < count_kind ActPrepareMerge (snd (run_of wit_cfg wit_run))" by (simp add: wit_run_defs)
  with run_merge_bounded [of wit_cfg wit_run] show ?thesis by simp
qed

text \<open>
  C34. Every bead close is justified by an event. A close of the bead in any run is emitted at an
  event of that run which justifies it: a merge result that is a success or has nothing to merge,
  or, outside a drain, finds the work already approved on main; or a sub-driver outcome that was
  subsumed or changed nothing; and a needs-attention close exactly at a budget-exhausted outcome
  that asks for attention.
\<close>
theorem run_close_justified:
  assumes "a \<in> set (snd (run_of cfg es))" and "act_Kind a = ActCloseBead"
  shows "\<exists>pre e post. es = pre @ e # post \<and> close_reason (fst (run_of cfg pre)) e a"
  using run_events_action [OF assms(1) [unfolded run_of_def]] close_step [OF _ assms(2)]
  unfolding run_of_def by blast

theorem run_close_justified_witness:
  "\<exists>pre e post. wit_run = pre @ e # post \<and>
     close_reason (fst (run_of wit_cfg pre)) e ((mkAction ActCloseBead)\<lparr>act_Summary := ''ok''\<rparr>)"
  using run_close_justified [of "(mkAction ActCloseBead)\<lparr>act_Summary := ''ok''\<rparr>" wit_cfg wit_run]
  by (simp add: wit_run_defs)

text \<open>
  A merging run ends. A run in the merging phase, given as many merge results as there are
  attempts left (at least one) and then a close result, with any other events in between, is done:
  no sequence of retryable results keeps it merging.
\<close>
theorem run_merging_ends:
  assumes "rs_Phase s = RunMerging"
    and "max 1 (cfg_MaxMergeAttempts cfg - rs_MergeAttempt s)
           \<le> int (length (filter (\<lambda>e. ev_Kind e = EvMergeResult) es))"
    and "\<exists>e \<in> set fs. ev_Kind e = EvCloseResult"
  shows "rs_Phase (fst (run_events (stepRun cfg) s (es @ fs))) = RunDone"
proof -
  have "rs_Phase (fst (run_events (stepRun cfg) s es)) \<in> {RunFinalizing, RunDone}"
    by (rule merging_run [OF assms(1,2)])
  from finishing_run(2) [OF this assms(3)] show ?thesis
    unfolding fst_run_events_append .
qed

theorem run_merging_ends_witness:
  "rs_Phase (fst (run_events (stepRun wit_cfg) (NewRunState\<lparr>rs_Phase := RunMerging\<rparr>)
     ([wit_ev EvMergeResult, wit_ev EvMergeResult] @ [wit_ev EvCloseResult]))) = RunDone"
  by (rule run_merging_ends) (simp_all add: wit_ev_def wit_cfg_def NewRunState_def)

end
