(* ===== verification/Dispatch_Machine.thy ===== *)
theory Dispatch_Machine
  imports Run_Vocab
begin

text \<open>
  The pure per-session reactor of \<^verbatim>\<open>internal/runexec/dispatch.go\<close>: launch an agent, wait for its
  readiness, deliver the brief with bounded retries, watch it work. One definition per Go function.
  The lemmas show the bound on brief deliveries, the timer discipline and the progress clock.
\<close>

section \<open>State\<close>

datatype DispatchPhase =
    DispatchIdle | DispatchLaunching | DispatchAwaitingReady | DispatchBriefing | DispatchWorking
  | DispatchReadyTimeout | DispatchCompleted | DispatchExited | DispatchStalled | DispatchFailed
  | DispatchAborted

definition dispatchTerminals :: "DispatchPhase set" where
  "dispatchTerminals = {DispatchCompleted, DispatchExited, DispatchStalled, DispatchFailed, DispatchAborted}"

record DispatchConfig =
  dc_SkipReadyHandshake :: bool
  dc_IsResume :: bool
  dc_MaxInputAttempts :: int
  dc_ReadyTimeout :: go_duration
  dc_InputAck :: go_duration
  dc_ReadyKillReap :: go_duration

record DispatchState =
  ds_Phase :: DispatchPhase
  ds_Session :: SessionRef
  ds_Attempt :: int
  ds_BriefInput :: InputID
  ds_ReadyAt :: go_time
  ds_LastProgressAt :: go_time
  ds_LastAckedInput :: InputID
  ds_Outcome :: string
  ds_ExitCode :: int
  ds_Reason :: string

definition NewDispatchState :: DispatchState where
  "NewDispatchState = \<lparr>ds_Phase = DispatchIdle, ds_Session = [], ds_Attempt = 0, ds_BriefInput = [],
     ds_ReadyAt = 0, ds_LastProgressAt = 0, ds_LastAckedInput = [], ds_Outcome = [], ds_ExitCode = 0,
     ds_Reason = []\<rparr>"

record Dispatch =
  dispatch_cfg :: DispatchConfig
  dispatch_state :: DispatchState

definition NewDispatch :: "DispatchConfig \<Rightarrow> Dispatch" where
  "NewDispatch cfg = \<lparr>dispatch_cfg = cfg, dispatch_state = NewDispatchState\<rparr>"

section \<open>Actions\<close>

definition armTimer :: "TimerKind \<Rightarrow> go_duration \<Rightarrow> Action" where
  "armTimer t d = (mkAction ActArmTimer)\<lparr>act_Timer := t, act_D := d\<rparr>"

definition cancelTimer :: "TimerKind \<Rightarrow> Action" where
  "cancelTimer t = (mkAction ActCancelTimer)\<lparr>act_Timer := t\<rparr>"

definition killAgent :: "SessionRef \<Rightarrow> Action" where
  "killAgent sess = (mkAction ActKillAgent)\<lparr>act_Session := sess\<rparr>"

definition launchFailedEventType :: "string \<Rightarrow> string" where
  "launchFailedEventType reason =
     (if reason = EventTypeTmuxNewWindowTimeout then EventTypeTmuxNewWindowTimeout
      else EventTypeSpawnCapBlocked)"

definition deliverInputAction :: "SessionRef \<Rightarrow> InputID \<Rightarrow> bool \<Rightarrow> Action" where
  "deliverInputAction sess inputID isResume =
     (mkAction ActDeliverInput)\<lparr>act_Session := sess, act_InputID := inputID,
       act_InputKind := (if isResume then InputResumePrompt else InputBrief)\<rparr>"

definition reasonReadyTimeout :: string where "reasonReadyTimeout = ''agent_ready_timeout''"
definition reasonUndeliverable :: string where "reasonUndeliverable = ''input_undeliverable''"

text \<open>The string value of the event kinds that end a working session as stalled.\<close>

definition stallReason :: "EventKind \<Rightarrow> string" where
  "stallReason k = (if k = EvNoChangeTimeout then ''no_change_timeout'' else ''heartbeat_stale'')"

section \<open>The steps\<close>

definition stepDispatchIdle ::
    "DispatchConfig \<Rightarrow> DispatchState \<Rightarrow> Event \<Rightarrow> DispatchState \<times> Action list" where
  "stepDispatchIdle cfg s ev =
     (if ev_Kind ev \<noteq> EvStartDispatch then (s, [])
      else (s\<lparr>ds_Phase := DispatchLaunching, ds_Session := ev_Session ev\<rparr>,
        [(mkAction ActLaunchAgent)\<lparr>act_Session := ev_Session ev, act_SpecRef := ev_Detail ev\<rparr>,
         armTimer TimerAgentReady (dc_ReadyTimeout cfg)]))"

definition dispatchReadyTimeoutEdge ::
    "DispatchConfig \<Rightarrow> DispatchState \<Rightarrow> DispatchState \<times> Action list" where
  "dispatchReadyTimeoutEdge cfg s =
     (s\<lparr>ds_Phase := DispatchReadyTimeout, ds_Reason := reasonReadyTimeout\<rparr>,
      [killAgent (ds_Session s), armTimer TimerReadyKillReap (dc_ReadyKillReap cfg),
       (mkAction ActEmit)\<lparr>act_Type := EventTypeAgentReadyTimeout\<rparr>])"

definition stepDispatchLaunching ::
    "DispatchConfig \<Rightarrow> DispatchState \<Rightarrow> Event \<Rightarrow> DispatchState \<times> Action list" where
  "stepDispatchLaunching cfg s ev = (case ev_Kind ev of
       EvLaunched \<Rightarrow>
         (let s' = s\<lparr>ds_Session := ev_Session ev\<rparr>;
              emit = (mkAction ActEmit)\<lparr>act_Type := EventTypeLaunchInitiated\<rparr> in
          if dc_SkipReadyHandshake cfg
          then (s'\<lparr>ds_Phase := DispatchWorking, ds_LastProgressAt := ev_At ev\<rparr>,
                [emit, cancelTimer TimerAgentReady])
          else (s'\<lparr>ds_Phase := DispatchAwaitingReady\<rparr>, [emit]))
     | EvLaunchFailed \<Rightarrow>
         (s\<lparr>ds_Phase := DispatchFailed, ds_Reason := ev_Reason ev\<rparr>,
          [(mkAction ActEmit)\<lparr>act_Type := launchFailedEventType (ev_Reason ev), act_Detail := ev_Reason ev\<rparr>,
           cancelTimer TimerAgentReady])
     | EvTimerFired \<Rightarrow>
         (if ev_Timer ev \<noteq> TimerAgentReady then (s, []) else dispatchReadyTimeoutEdge cfg s)
     | _ \<Rightarrow> (s, []))"

definition stepDispatchAwaitingReady ::
    "DispatchConfig \<Rightarrow> DispatchState \<Rightarrow> Event \<Rightarrow> DispatchState \<times> Action list" where
  "stepDispatchAwaitingReady cfg s ev = (case ev_Kind ev of
       EvAgentReady \<Rightarrow>
         (s\<lparr>ds_Phase := DispatchBriefing, ds_ReadyAt := ev_At ev, ds_LastProgressAt := ev_At ev,
            ds_Attempt := 1, ds_BriefInput := ev_InputID ev\<rparr>,
          [cancelTimer TimerAgentReady,
           deliverInputAction (ds_Session s) (ev_InputID ev) (dc_IsResume cfg),
           armTimer TimerInputAck (dc_InputAck cfg)])
     | EvTimerFired \<Rightarrow>
         (if ev_Timer ev \<noteq> TimerAgentReady then (s, []) else dispatchReadyTimeoutEdge cfg s)
     | EvAgentExited \<Rightarrow>
         (s\<lparr>ds_Phase := DispatchExited, ds_ExitCode := ev_ExitCode ev\<rparr>, [cancelTimer TimerAgentReady])
     | _ \<Rightarrow> (s, []))"

definition stepDispatchReadyTimeout ::
    "DispatchConfig \<Rightarrow> DispatchState \<Rightarrow> Event \<Rightarrow> DispatchState \<times> Action list" where
  "stepDispatchReadyTimeout cfg s ev =
     (if ev_Kind ev = EvAgentExited \<or> ev_Kind ev = EvTimerFired
      then (if ev_Kind ev = EvTimerFired \<and> ev_Timer ev \<noteq> TimerReadyKillReap then (s, [])
            else (s\<lparr>ds_Phase := DispatchFailed, ds_Reason := reasonReadyTimeout\<rparr>, []))
      else (s, []))"

definition dispatchBriefRetry ::
    "DispatchConfig \<Rightarrow> DispatchState \<Rightarrow> DispatchState \<times> Action list" where
  "dispatchBriefRetry cfg s =
     (if ds_Attempt s < dc_MaxInputAttempts cfg
      then (s\<lparr>ds_Attempt := ds_Attempt s + 1\<rparr>,
            [deliverInputAction (ds_Session s) (ds_BriefInput s) (dc_IsResume cfg),
             armTimer TimerInputAck (dc_InputAck cfg)])
      else (s\<lparr>ds_Phase := DispatchFailed, ds_Reason := reasonUndeliverable\<rparr>, [cancelTimer TimerInputAck]))"

definition stepDispatchBriefing ::
    "DispatchConfig \<Rightarrow> DispatchState \<Rightarrow> Event \<Rightarrow> DispatchState \<times> Action list" where
  "stepDispatchBriefing cfg s ev = (case ev_Kind ev of
       EvInputAck \<Rightarrow>
         (if ev_InputID ev \<noteq> [] \<and> ev_InputID ev = ds_LastAckedInput s then (s, [])
          else (s\<lparr>ds_Phase := DispatchWorking, ds_LastAckedInput := ev_InputID ev,
                  ds_LastProgressAt := ev_At ev\<rparr>, [cancelTimer TimerInputAck]))
     | EvInputRejected \<Rightarrow> dispatchBriefRetry cfg s
     | EvTimerFired \<Rightarrow> (if ev_Timer ev \<noteq> TimerInputAck then (s, []) else dispatchBriefRetry cfg s)
     | EvAgentExited \<Rightarrow>
         (s\<lparr>ds_Phase := DispatchExited, ds_ExitCode := ev_ExitCode ev\<rparr>, [cancelTimer TimerInputAck])
     | _ \<Rightarrow> (s, []))"

definition dispatchStall :: "DispatchState \<Rightarrow> EventKind \<Rightarrow> DispatchState \<times> Action list" where
  "dispatchStall s k =
     (s\<lparr>ds_Phase := DispatchStalled, ds_Reason := stallReason k\<rparr>, [killAgent (ds_Session s)])"

definition stepDispatchWorking ::
    "DispatchConfig \<Rightarrow> DispatchState \<Rightarrow> Event \<Rightarrow> DispatchState \<times> Action list" where
  "stepDispatchWorking cfg s ev = (case ev_Kind ev of
       EvHeartbeat \<Rightarrow> (s, [])
     | EvCommitObserved \<Rightarrow> (s\<lparr>ds_LastProgressAt := ev_At ev\<rparr>, [])
     | EvOutcomeReceived \<Rightarrow>
         (s\<lparr>ds_Phase := DispatchCompleted, ds_Outcome := ev_Outcome ev, ds_LastProgressAt := ev_At ev\<rparr>, [])
     | EvAgentExited \<Rightarrow>
         (s\<lparr>ds_Phase := DispatchExited, ds_ExitCode := ev_ExitCode ev\<rparr>,
          [(mkAction ActDriveLifecycleTerminated)\<lparr>act_ExitCode := ev_ExitCode ev, act_WaitErr := ev_WaitErr ev\<rparr>])
     | EvNoChangeTimeout \<Rightarrow> dispatchStall s (ev_Kind ev)
     | EvHeartbeatStale \<Rightarrow> dispatchStall s (ev_Kind ev)
     | _ \<Rightarrow> (s, []))"

definition stepDispatch ::
    "DispatchConfig \<Rightarrow> DispatchState \<Rightarrow> Event \<Rightarrow> DispatchState \<times> Action list" where
  "stepDispatch cfg s ev =
     (if ds_Phase s \<in> dispatchTerminals then (s, [])
      else if ev_Kind ev = EvAborted
      then (s\<lparr>ds_Phase := DispatchAborted, ds_Reason := ev_Reason ev\<rparr>, [killAgent (ds_Session s)])
      else (case ds_Phase s of
          DispatchIdle \<Rightarrow> stepDispatchIdle cfg s ev
        | DispatchLaunching \<Rightarrow> stepDispatchLaunching cfg s ev
        | DispatchAwaitingReady \<Rightarrow> stepDispatchAwaitingReady cfg s ev
        | DispatchBriefing \<Rightarrow> stepDispatchBriefing cfg s ev
        | DispatchWorking \<Rightarrow> stepDispatchWorking cfg s ev
        | DispatchReadyTimeout \<Rightarrow> stepDispatchReadyTimeout cfg s ev
        | _ \<Rightarrow> (s, [])))"

definition Dispatch_Step :: "Dispatch \<Rightarrow> Event \<Rightarrow> Dispatch \<times> Action list" where
  "Dispatch_Step m ev = (let (nxt, actions) = stepDispatch (dispatch_cfg m) (dispatch_state m) ev in
     (m\<lparr>dispatch_state := nxt\<rparr>, actions))"

definition Dispatch_InFlight :: "Dispatch \<Rightarrow> bool" where
  "Dispatch_InFlight m =
     (if ds_Phase (dispatch_state m) = DispatchIdle then False
      else ds_Phase (dispatch_state m) \<notin> dispatchTerminals)"

lemmas dispatch_steps = stepDispatchIdle_def stepDispatchLaunching_def stepDispatchAwaitingReady_def
  stepDispatchBriefing_def stepDispatchWorking_def stepDispatchReadyTimeout_def
  dispatchReadyTimeoutEdge_def dispatchBriefRetry_def dispatchStall_def

interpretation dispatch: reactor "stepDispatch cfg" "\<lambda>s. ds_Phase s \<in> dispatchTerminals"
  by unfold_locales (simp add: stepDispatch_def)

section \<open>Timers\<close>

text \<open>The reactor timers still armed after a list of actions.\<close>

definition timerStep :: "TimerKind set \<Rightarrow> Action \<Rightarrow> TimerKind set" where
  "timerStep ts a = (if act_Kind a = ActArmTimer then insert (act_Timer a) ts
     else if act_Kind a = ActCancelTimer then ts - {act_Timer a} else ts)"

definition armed :: "Action list \<Rightarrow> TimerKind set" where
  "armed as = foldl timerStep {} as"

lemma armed_simps [simp]: "armed [] = {}" "armed (as @ [a]) = timerStep (armed as) a"
  by (simp_all add: armed_def)

lemma armed_append: "armed (as @ bs) = foldl timerStep (armed as) bs"
  by (simp add: armed_def)

lemma dispatch_action_kinds [simp]:
  "act_Kind (armTimer t d) = ActArmTimer" "act_Timer (armTimer t d) = t"
  "act_Kind (cancelTimer t) = ActCancelTimer" "act_Timer (cancelTimer t) = t"
  "act_Kind (killAgent x) = ActKillAgent" "act_Kind (deliverInputAction x y b) = ActDeliverInput"
  by (simp_all add: armTimer_def cancelTimer_def killAgent_def deliverInputAction_def)

text \<open>
  The history invariant: brief deliveries against the attempt counter and the cap, launches, and
  the armed timers, by phase.
\<close>

definition dispatch_inv :: "DispatchConfig \<Rightarrow> DispatchState \<Rightarrow> Action list \<Rightarrow> bool" where
  "dispatch_inv cfg s as =
     (count_kind ActLaunchAgent as \<le> (if ds_Phase s = DispatchIdle then 0 else 1)
      \<and> (\<forall>a \<in> set as. act_Kind a = ActDeliverInput \<longrightarrow>
           a = deliverInputAction (ds_Session s) (ds_BriefInput s) (dc_IsResume cfg))
      \<and> int (count_kind ActDeliverInput as) = ds_Attempt s
      \<and> ds_Attempt s \<le> max 1 (dc_MaxInputAttempts cfg)
      \<and> count_kind ActDriveLifecycleTerminated as \<le> (if ds_Phase s = DispatchExited then 1 else 0)
      \<and> (case ds_Phase s of
           DispatchIdle \<Rightarrow> ds_Attempt s = 0 \<and> armed as = {}
         | DispatchLaunching \<Rightarrow> ds_Attempt s = 0 \<and> armed as = {TimerAgentReady}
         | DispatchAwaitingReady \<Rightarrow> ds_Attempt s = 0 \<and> armed as = {TimerAgentReady}
         | DispatchBriefing \<Rightarrow> 1 \<le> ds_Attempt s \<and> armed as = {TimerInputAck}
         | DispatchReadyTimeout \<Rightarrow> ds_Attempt s = 0 \<and> ds_Reason s = reasonReadyTimeout
              \<and> armed as = {TimerAgentReady, TimerReadyKillReap}
         | DispatchFailed \<Rightarrow> armed as = {} \<or>
              ds_Reason s = reasonReadyTimeout \<and> armed as = {TimerAgentReady, TimerReadyKillReap}
         | DispatchAborted \<Rightarrow> True
         | _ \<Rightarrow> armed as = {}))"

lemma no_deliveries:
  assumes "dispatch_inv cfg s as" "ds_Attempt s = 0" "a \<in> set as"
  shows "act_Kind a \<noteq> ActDeliverInput"
proof -
  have "count_kind ActDeliverInput as = 0" using assms(1,2) by (simp add: dispatch_inv_def)
  with assms(3) show ?thesis by (simp add: count_kind_0)
qed

lemma dispatch_inv_step:
  assumes "dispatch_inv cfg s as"
  shows "dispatch_inv cfg (fst (stepDispatch cfg s ev)) (as @ snd (stepDispatch cfg s ev))"
proof (cases "ds_Phase s \<in> dispatchTerminals \<or> ev_Kind ev = EvAborted")
  case True
  with assms show ?thesis
    by (cases "ds_Phase s") (auto simp: stepDispatch_def dispatch_inv_def dispatchTerminals_def)
next
  case False
  with assms show ?thesis
    using no_deliveries [OF assms]
    by (cases "ds_Phase s"; cases "ev_Kind ev")
      (simp_all add: stepDispatch_def dispatch_steps dispatch_inv_def dispatchTerminals_def armed_append
        timerStep_def Let_def insert_commute)
qed

lemma dispatch_inv_start: "dispatch_inv cfg NewDispatchState []"
  by (simp add: dispatch_inv_def NewDispatchState_def)

interpretation dispatch_history: reactor_history "stepDispatch cfg" "\<lambda>s. ds_Phase s \<in> dispatchTerminals"
    NewDispatchState "dispatch_inv cfg"
  by unfold_locales (rule dispatch_inv_start, rule dispatch_inv_step)

section \<open>Promises of the dispatch reactor\<close>

definition dispatch_of :: "DispatchConfig \<Rightarrow> Event list \<Rightarrow> DispatchState \<times> Action list" where
  "dispatch_of cfg es = run_events (stepDispatch cfg) NewDispatchState es"

lemma dispatch_of_inv: "dispatch_inv cfg (fst (dispatch_of cfg es)) (snd (dispatch_of cfg es))"
  unfolding dispatch_of_def by (rule dispatch_history.run_inv)

text \<open>
  C35. Bounded, uniform brief delivery. Over every event sequence, from a new dispatch: the agent is
  launched at most once; the brief is delivered at most as often as the configured cap, and at most
  once when the cap is below one; all deliveries are the same action, to the session of the state
  with the same input id and kind; the lifecycle is driven to terminated at most once and only for
  an exited agent; and a terminal phase is final.
\<close>
theorem dispatch_bounded:
  "let s = fst (dispatch_of cfg es); as = snd (dispatch_of cfg es) in
     count_kind ActLaunchAgent as \<le> 1
   \<and> int (count_kind ActDeliverInput as) \<le> max 1 (dc_MaxInputAttempts cfg)
   \<and> (\<forall>a \<in> set as. act_Kind a = ActDeliverInput \<longrightarrow>
        a = deliverInputAction (ds_Session s) (ds_BriefInput s) (dc_IsResume cfg))
   \<and> count_kind ActDriveLifecycleTerminated as \<le> (if ds_Phase s = DispatchExited then 1 else 0)
   \<and> (ds_Phase s \<in> dispatchTerminals \<longrightarrow> dispatch_of cfg (es @ fs) = dispatch_of cfg es)"
proof -
  have "ds_Phase (fst (dispatch_of cfg es)) \<in> dispatchTerminals \<Longrightarrow>
      dispatch_of cfg (es @ fs) = dispatch_of cfg es"
    unfolding dispatch_of_def by (rule dispatch.run_after_terminal)
  with dispatch_of_inv [of cfg es] show ?thesis by (auto simp: dispatch_inv_def Let_def split: if_splits)
qed

definition wit_dcfg :: DispatchConfig where
  "wit_dcfg = \<lparr>dc_SkipReadyHandshake = False, dc_IsResume = True, dc_MaxInputAttempts = 2,
     dc_ReadyTimeout = 5, dc_InputAck = 6, dc_ReadyKillReap = 7\<rparr>"

definition wit_dev :: "EventKind \<Rightarrow> go_time \<Rightarrow> Event" where
  "wit_dev k t = \<lparr>ev_Kind = k, ev_At = t, ev_Session = ''s'', ev_InputID = ''i'', ev_Reason = [], ev_ExitCode = 0,
     ev_WaitErr = [], ev_Outcome = ''o'', ev_SHA = [], ev_Mode = [], ev_ModeOutcome = ModeSuccess,
     ev_NeedsAttention = False, ev_Detail = [], ev_Merge = MergeRetryable, ev_MergeReason = [],
     ev_MergeStage = MergeStageOther [], ev_EmitOutcome = False, ev_PathLabel = [],
     ev_AlreadyApprovedOnMain = False, ev_Close = CloseClosed, ev_WorktreeAheadSHA = [],
     ev_Timer = TimerInputAck\<rparr>"

text \<open>A session whose brief is redelivered once, then acknowledged; it works and completes.\<close>

definition wit_session :: "Event list" where
  "wit_session = [wit_dev EvStartDispatch 1, wit_dev EvLaunched 2, wit_dev EvAgentReady 3, wit_dev EvTimerFired 4,
     wit_dev EvInputAck 5, wit_dev EvHeartbeat 6, wit_dev EvOutcomeReceived 7]"

text \<open>A session that is aborted while its brief is in flight.\<close>

definition wit_abort :: "Event list" where
  "wit_abort = [wit_dev EvStartDispatch 1, wit_dev EvLaunched 2, wit_dev EvAgentReady 3, wit_dev EvAborted 4]"

lemmas wit_session_defs = dispatch_of_def wit_session_def wit_dev_def wit_dcfg_def NewDispatchState_def
  stepDispatch_def dispatch_steps dispatchTerminals_def Let_def

theorem dispatch_bounded_witness:
  "ds_Phase (fst (dispatch_of wit_dcfg wit_session)) \<in> dispatchTerminals
   \<and> dispatch_of wit_dcfg (wit_session @ [wit_dev EvAborted 8]) = dispatch_of wit_dcfg wit_session"
proof -
  have "ds_Phase (fst (dispatch_of wit_dcfg wit_session)) \<in> dispatchTerminals"
    by (simp add: wit_session_defs)
  with dispatch_bounded [where cfg = wit_dcfg and es = wit_session and fs = "[wit_dev EvAborted 8]"]
  show ?thesis by (simp add: Let_def)
qed

lemma dispatch_of_snoc:
  "dispatch_of cfg (es @ [e]) = (let r = stepDispatch cfg (fst (dispatch_of cfg es)) e in
     (fst r, snd (dispatch_of cfg es) @ snd r))"
  by (simp add: dispatch_of_def run_events_snoc Let_def split: prod.splits)

lemma aborts_only_on_abort:
  assumes "ds_Phase (fst (stepDispatch cfg s ev)) = DispatchAborted" "ds_Phase s \<notin> dispatchTerminals"
  shows "ev_Kind ev = EvAborted" and "snd (stepDispatch cfg s ev) = [killAgent (ds_Session s)]"
proof -
  show k: "ev_Kind ev = EvAborted"
  proof (rule ccontr)
    assume "ev_Kind ev \<noteq> EvAborted"
    with assms show False
      by (cases "ds_Phase s"; cases "ev_Kind ev")
        (simp_all add: stepDispatch_def dispatch_steps dispatchTerminals_def Let_def split: if_splits)
  qed
  show "snd (stepDispatch cfg s ev) = [killAgent (ds_Session s)]"
    using k assms(2) by (simp add: stepDispatch_def)
qed

lemma aborted_timers:
  "ds_Phase (fst (dispatch_of cfg es)) = DispatchAborted \<Longrightarrow>
   \<exists>es1 e es2. es = es1 @ e # es2 \<and> ev_Kind e = EvAborted
     \<and> ds_Phase (fst (dispatch_of cfg es1)) \<notin> dispatchTerminals
     \<and> armed (snd (dispatch_of cfg es)) = armed (snd (dispatch_of cfg es1))"
proof (induction es rule: rev_induct)
  case Nil
  then show ?case by (simp add: dispatch_of_def NewDispatchState_def)
next
  case (snoc e es)
  let ?s = "fst (dispatch_of cfg es)"
  show ?case
  proof (cases "ds_Phase ?s \<in> dispatchTerminals")
    case True
    then have same: "stepDispatch cfg ?s e = (?s, [])" by (simp add: stepDispatch_def)
    with snoc.prems have "ds_Phase ?s = DispatchAborted" by (simp add: dispatch_of_snoc Let_def)
    from snoc.IH [OF this] obtain es1 a es2 where "es = es1 @ a # es2" "ev_Kind a = EvAborted"
      "ds_Phase (fst (dispatch_of cfg es1)) \<notin> dispatchTerminals"
      "armed (snd (dispatch_of cfg es)) = armed (snd (dispatch_of cfg es1))" by blast
    moreover have "dispatch_of cfg (es @ [e]) = dispatch_of cfg es"
      using same by (simp add: dispatch_of_snoc Let_def)
    ultimately show ?thesis by (metis append.assoc append_Cons)
  next
    case False
    have p: "ds_Phase (fst (stepDispatch cfg ?s e)) = DispatchAborted"
      using snoc.prems by (simp add: dispatch_of_snoc Let_def)
    show ?thesis using aborts_only_on_abort [OF p False] False
      by (intro exI [of _ es] exI [of _ e] exI [of _ "[]"])
         (simp add: dispatch_of_snoc Let_def timerStep_def)
  qed
qed

text \<open>
  Timer discipline: which timers the reactor has armed and not cancelled, in every phase, over
  every event sequence from a new dispatch (a timer that fired counts until it is cancelled). While
  the agent is launched and not ready, exactly the readiness timer; while the brief is in flight,
  exactly the acknowledgement timer; while a session that was not ready in time is reaped, the
  fired readiness timer and the reap timer; none while the agent works and none once the session
  completed, exited or stalled. Two ends do not clean up: a session that failed by the readiness
  timeout keeps both of its timers, and an aborted session keeps whatever was armed when the abort
  arrived. Every other failed session has none.
\<close>
theorem dispatch_timers:
  "let s = fst (dispatch_of cfg es); ts = armed (snd (dispatch_of cfg es)) in
     (case ds_Phase s of
        DispatchIdle \<Rightarrow> ts = {}
      | DispatchLaunching \<Rightarrow> ts = {TimerAgentReady}
      | DispatchAwaitingReady \<Rightarrow> ts = {TimerAgentReady}
      | DispatchBriefing \<Rightarrow> ts = {TimerInputAck}
      | DispatchWorking \<Rightarrow> ts = {}
      | DispatchReadyTimeout \<Rightarrow> ts = {TimerAgentReady, TimerReadyKillReap}
      | DispatchCompleted \<Rightarrow> ts = {}
      | DispatchExited \<Rightarrow> ts = {}
      | DispatchStalled \<Rightarrow> ts = {}
      | DispatchFailed \<Rightarrow> ts = {} \<or> ds_Reason s = reasonReadyTimeout \<and> ts = {TimerAgentReady, TimerReadyKillReap}
      | DispatchAborted \<Rightarrow> (\<exists>es1 e es2. es = es1 @ e # es2 \<and> ev_Kind e = EvAborted
          \<and> ds_Phase (fst (dispatch_of cfg es1)) \<notin> dispatchTerminals
          \<and> ts = armed (snd (dispatch_of cfg es1))))"
  using dispatch_of_inv [of cfg es] aborted_timers [of cfg es]
  by (cases "ds_Phase (fst (dispatch_of cfg es))") (simp_all add: dispatch_inv_def Let_def)

theorem dispatch_timers_witness:
  "armed (snd (dispatch_of wit_dcfg wit_session)) = {}
   \<and> ds_Phase (fst (dispatch_of wit_dcfg wit_abort)) = DispatchAborted
   \<and> armed (snd (dispatch_of wit_dcfg wit_abort)) = {TimerInputAck}"
proof -
  have "ds_Phase (fst (dispatch_of wit_dcfg wit_session)) = DispatchCompleted"
    by (simp add: wit_session_defs)
  with dispatch_timers [of wit_dcfg wit_session]
  have 1: "armed (snd (dispatch_of wit_dcfg wit_session)) = {}" by (simp add: Let_def)
  have 2: "ds_Phase (fst (dispatch_of wit_dcfg wit_abort)) = DispatchAborted
      \<and> armed (snd (dispatch_of wit_dcfg wit_abort)) = {TimerInputAck}"
    by (simp add: wit_abort_def wit_session_defs armed_def timerStep_def)
  from 1 2 show ?thesis by blast
qed

lemma aborted_brief_leaves_timer:
  "\<exists>cfg es. ds_Phase (fst (dispatch_of cfg es)) \<in> dispatchTerminals
     \<and> armed (snd (dispatch_of cfg es)) = {TimerInputAck}"
  by (intro exI [of _ wit_dcfg] exI [of _ wit_abort])
     (simp add: wit_abort_def wit_session_defs armed_def timerStep_def)

text \<open>Events that the agent itself causes and that count as progress.\<close>

definition progress_event :: "DispatchConfig \<Rightarrow> Event \<Rightarrow> bool" where
  "progress_event cfg e = (ev_Kind e \<in> {EvAgentReady, EvInputAck, EvCommitObserved, EvOutcomeReceived}
     \<or> dc_SkipReadyHandshake cfg \<and> ev_Kind e = EvLaunched)"

lemma progress_step:
  "ds_LastProgressAt (fst (stepDispatch cfg s ev)) = ds_LastProgressAt s
   \<or> progress_event cfg ev \<and> ds_LastProgressAt (fst (stepDispatch cfg s ev)) = ev_At ev"
  by (cases "ds_Phase s"; cases "ev_Kind ev";
      simp add: stepDispatch_def dispatch_steps Let_def progress_event_def)

text \<open>
  Progress is agent-derived. The progress clock after any event sequence is unset or is the
  time of a progress event of the sequence: readiness, an input acknowledgement, an observed commit
  or an outcome, or the launch itself for a harness without a readiness handshake. An event that is
  none of these, a heartbeat in particular, leaves the clock as it was; a heartbeat changes nothing
  at all.
\<close>
theorem dispatch_progress:
  "(ds_LastProgressAt (fst (dispatch_of cfg es)) = 0
      \<or> (\<exists>e \<in> set es. progress_event cfg e \<and> ev_At e = ds_LastProgressAt (fst (dispatch_of cfg es))))
   \<and> (\<not> progress_event cfg e' \<longrightarrow>
        ds_LastProgressAt (fst (dispatch_of cfg (es @ [e']))) = ds_LastProgressAt (fst (dispatch_of cfg es)))
   \<and> (ev_Kind e' = EvHeartbeat \<longrightarrow> dispatch_of cfg (es @ [e']) = dispatch_of cfg es)"
proof (intro conjI impI)
  show "ds_LastProgressAt (fst (dispatch_of cfg es)) = 0
      \<or> (\<exists>e \<in> set es. progress_event cfg e \<and> ev_At e = ds_LastProgressAt (fst (dispatch_of cfg es)))"
  proof (induction es rule: rev_induct)
    case Nil
    show ?case by (simp add: dispatch_of_def NewDispatchState_def)
  next
    case (snoc e es)
    from progress_step [of cfg "fst (dispatch_of cfg es)" e]
    show ?case
    proof
      assume "ds_LastProgressAt (fst (stepDispatch cfg (fst (dispatch_of cfg es)) e)) =
        ds_LastProgressAt (fst (dispatch_of cfg es))"
      with snoc show ?thesis by (auto simp: dispatch_of_def run_events_snoc)
    qed (simp add: dispatch_of_def run_events_snoc)
  qed
next
  assume "\<not> progress_event cfg e'"
  then show "ds_LastProgressAt (fst (dispatch_of cfg (es @ [e']))) = ds_LastProgressAt (fst (dispatch_of cfg es))"
    using progress_step [of cfg "fst (dispatch_of cfg es)" e'] by (simp add: dispatch_of_def run_events_snoc)
next
  assume h: "ev_Kind e' = EvHeartbeat"
  have "stepDispatch cfg s e' = (s, [])" for s
    using h by (cases "ds_Phase s") (simp_all add: stepDispatch_def dispatch_steps)
  then show "dispatch_of cfg (es @ [e']) = dispatch_of cfg es"
    by (simp add: dispatch_of_def run_events_snoc)
qed

theorem dispatch_progress_witness:
  "dispatch_of wit_dcfg (wit_session @ [wit_dev EvHeartbeat 9]) = dispatch_of wit_dcfg wit_session"
  using dispatch_progress [of wit_dcfg wit_session "wit_dev EvHeartbeat 9"] by (simp add: wit_dev_def)

text \<open>The events that make a briefing session retry.\<close>

definition brief_failure :: "Event \<Rightarrow> bool" where
  "brief_failure e = (ev_Kind e = EvInputRejected \<or> ev_Kind e = EvTimerFired \<and> ev_Timer e = TimerInputAck)"

text \<open>
  An undeliverable brief fails the session. From the briefing phase, a run of rejections and
  acknowledgement timeouts as long as the attempts left plus one (at least one) ends in the failed
  phase with the reason that the input is undeliverable: a session never waits for an
  acknowledgement for ever.
\<close>
theorem dispatch_brief_ends:
  assumes "ds_Phase s = DispatchBriefing" and "list_all brief_failure es"
    and "max 1 (dc_MaxInputAttempts cfg - ds_Attempt s + 1) \<le> int (length es)"
  shows "ds_Phase (fst (run_events (stepDispatch cfg) s es)) = DispatchFailed
     \<and> ds_Reason (fst (run_events (stepDispatch cfg) s es)) = reasonUndeliverable"
  using assms
proof (induction es arbitrary: s)
  case Nil
  then show ?case by simp
next
  case (Cons e es)
  have step: "stepDispatch cfg s e = dispatchBriefRetry cfg s"
    using Cons.prems by (auto simp: stepDispatch_def stepDispatchBriefing_def brief_failure_def dispatchTerminals_def)
  show ?case
  proof (cases "ds_Attempt s < dc_MaxInputAttempts cfg")
    case True
    with Cons.prems have "ds_Phase (fst (run_events (stepDispatch cfg) (fst (dispatchBriefRetry cfg s)) es)) = DispatchFailed
     \<and> ds_Reason (fst (run_events (stepDispatch cfg) (fst (dispatchBriefRetry cfg s)) es)) = reasonUndeliverable"
      by (intro Cons.IH) (auto simp: dispatchBriefRetry_def)
    then show ?thesis unfolding fst_run_events_Cons step .
  next
    case False
    then have r: "ds_Phase (fst (dispatchBriefRetry cfg s)) = DispatchFailed"
      "ds_Reason (fst (dispatchBriefRetry cfg s)) = reasonUndeliverable"
      by (simp_all add: dispatchBriefRetry_def)
    then have "run_events (stepDispatch cfg) (fst (dispatchBriefRetry cfg s)) es = (fst (dispatchBriefRetry cfg s), [])"
      by (intro dispatch.run_absorbing) (simp add: dispatchTerminals_def)
    with r show ?thesis unfolding fst_run_events_Cons step by simp
  qed
qed

theorem dispatch_brief_ends_witness:
  "ds_Phase (fst (run_events (stepDispatch wit_dcfg)
     (NewDispatchState\<lparr>ds_Phase := DispatchBriefing, ds_Attempt := 1\<rparr>)
     [wit_dev EvInputRejected 1, wit_dev EvTimerFired 2])) = DispatchFailed"
  using dispatch_brief_ends [of "NewDispatchState\<lparr>ds_Phase := DispatchBriefing, ds_Attempt := 1\<rparr>"
      "[wit_dev EvInputRejected 1, wit_dev EvTimerFired 2]" wit_dcfg]
  by (simp add: wit_dev_def wit_dcfg_def brief_failure_def)

end
