(* ===== verification/Session_Lifecycle.thy ===== *)
theory Session_Lifecycle
  imports Harmonik_Prelude
begin

text \<open>
  The per-session lifecycle machine of \<^verbatim>\<open>internal/handlercontract/lifecycle\<close>: the transition
  table (\<^verbatim>\<open>table.go\<close>), the states (\<^verbatim>\<open>types.go\<close>) and the machine with its ring buffer of the last
  fifty transitions (\<^verbatim>\<open>machine.go\<close>). The states and the two ring indices are bytes, as in Go. The
  clock \<^verbatim>\<open>time.Now\<close> is an argument of each operation. The mutex makes each operation atomic, so
  any concurrent use is a sequence of operations.
\<close>

section \<open>States and the table\<close>

type_synonym LifecycleState = "8 word"

definition StateSpawning :: LifecycleState where "StateSpawning = 0"
definition StateInitializing :: LifecycleState where "StateInitializing = 1"
definition StateReady :: LifecycleState where "StateReady = 2"
definition StateExecuting :: LifecycleState where "StateExecuting = 3"
definition StateSuspended :: LifecycleState where "StateSuspended = 4"
definition StateTerminating :: LifecycleState where "StateTerminating = 5"
definition StateTerminated :: LifecycleState where "StateTerminated = 6"
definition StateFailed :: LifecycleState where "StateFailed = 7"

lemmas state_defs = StateSpawning_def StateInitializing_def StateReady_def StateExecuting_def
  StateSuspended_def StateTerminating_def StateTerminated_def StateFailed_def

definition IsTerminal :: "LifecycleState \<Rightarrow> bool" where
  "IsTerminal s \<longleftrightarrow> s = StateTerminated \<or> s = StateFailed"

definition LifecycleState_String :: "LifecycleState \<Rightarrow> string" where
  "LifecycleState_String s =
     (if s = StateSpawning then ''Spawning'' else if s = StateInitializing then ''Initializing''
      else if s = StateReady then ''Ready'' else if s = StateExecuting then ''Executing''
      else if s = StateSuspended then ''Suspended'' else if s = StateTerminating then ''Terminating''
      else if s = StateTerminated then ''Terminated'' else if s = StateFailed then ''Failed''
      else ''Unknown'')"

text \<open>The edges the \<^verbatim>\<open>init\<close> function enters in the 8 by 8 table.\<close>

definition validTransitions :: "(LifecycleState \<times> LifecycleState) list" where
  "validTransitions =
     [(StateSpawning, StateInitializing), (StateSpawning, StateTerminating), (StateSpawning, StateFailed),
      (StateInitializing, StateReady), (StateInitializing, StateTerminating), (StateInitializing, StateFailed),
      (StateReady, StateExecuting), (StateReady, StateSuspended), (StateReady, StateTerminating), (StateReady, StateFailed),
      (StateExecuting, StateReady), (StateExecuting, StateSuspended), (StateExecuting, StateTerminating), (StateExecuting, StateFailed),
      (StateSuspended, StateReady), (StateSuspended, StateTerminating), (StateSuspended, StateFailed),
      (StateTerminating, StateTerminated), (StateTerminating, StateFailed)]"

definition isValidTransition :: "LifecycleState \<Rightarrow> LifecycleState \<Rightarrow> bool" where
  "isValidTransition from' to' =
     (if unat from' \<ge> 8 \<or> unat to' \<ge> 8 then False else (from', to') \<in> set validTransitions)"

datatype TransitionReason =
    ReasonSpawnStarted | ReasonInitComplete | ReasonUserAction | ReasonCommandStarted
  | ReasonCommandComplete | ReasonPauseRequested | ReasonResumeRequested | ReasonTerminateRequested
  | ReasonTerminateComplete | ReasonError | ReasonTimeout | ReasonHealthCheckFailed
  | ReasonDriverError | ReasonResourceLimit | ReasonSilentHang | TransitionReasonOther string

record Transition =
  tn_From :: LifecycleState
  tn_To :: LifecycleState
  tn_At :: go_time
  tn_Reason :: TransitionReason
  tn_ErrCode :: string
  tn_ErrMsg :: string

record InvalidStateTransitionError =
  ist_From :: LifecycleState
  ist_To :: LifecycleState
  ist_SessionID :: string

section \<open>The machine\<close>

definition maxHistorySize :: nat where "maxHistorySize = 50"

record Machine =
  mc_sessID :: string
  mc_runID :: string
  mc_current :: LifecycleState
  mc_enteredAt :: go_time
  mc_history :: "Transition list"
  mc_head :: "8 word"
  mc_count :: "8 word"

definition zeroTransition :: Transition where
  "zeroTransition = \<lparr>tn_From = 0, tn_To = 0, tn_At = 0, tn_Reason = TransitionReasonOther [],
     tn_ErrCode = [], tn_ErrMsg = []\<rparr>"

definition Machine_New :: "go_time \<Rightarrow> string \<Rightarrow> string \<Rightarrow> Machine" where
  "Machine_New now sessID runID = \<lparr>mc_sessID = sessID, mc_runID = runID, mc_current = StateSpawning,
     mc_enteredAt = now, mc_history = replicate maxHistorySize zeroTransition, mc_head = 0, mc_count = 0\<rparr>"

definition appendHistory :: "Machine \<Rightarrow> Transition \<Rightarrow> Machine" where
  "appendHistory m t =
     (let idx = (unat (mc_head m) + unat (mc_count m)) mod maxHistorySize;
          m' = m\<lparr>mc_history := (mc_history m)[idx := t]\<rparr> in
      if unat (mc_count m) < maxHistorySize then m'\<lparr>mc_count := mc_count m + 1\<rparr>
      else m'\<lparr>mc_head := (mc_head m + 1) mod 50\<rparr>)"

definition Machine_Transition ::
    "Machine \<Rightarrow> go_time \<Rightarrow> LifecycleState \<Rightarrow> TransitionReason \<Rightarrow> string \<Rightarrow> string
     \<Rightarrow> InvalidStateTransitionError + Machine" where
  "Machine_Transition m now to' reason errCode errMsg =
     (let from' = mc_current m in
      if \<not> isValidTransition from' to'
      then Inl \<lparr>ist_From = from', ist_To = to', ist_SessionID = mc_sessID m\<rparr>
      else (let t = \<lparr>tn_From = from', tn_To = to', tn_At = now, tn_Reason = reason, tn_ErrCode = [], tn_ErrMsg = []\<rparr>;
                t' = (if to' = StateFailed then t\<lparr>tn_ErrCode := errCode, tn_ErrMsg := errMsg\<rparr> else t) in
            Inr ((appendHistory m t')\<lparr>mc_current := to', mc_enteredAt := now\<rparr>)))"

definition Machine_History :: "Machine \<Rightarrow> Transition list" where
  "Machine_History m =
     (if mc_count m = 0 then []
      else map (\<lambda>i. mc_history m ! ((unat (mc_head m) + i) mod maxHistorySize)) [0..<unat (mc_count m)])"

definition RecordActivity :: "Machine \<Rightarrow> go_time \<Rightarrow> Machine" where
  "RecordActivity m now = m\<lparr>mc_enteredAt := now\<rparr>"

section \<open>Ring buffers\<close>

text \<open>A bounded log: appending keeps the last \<open>cap\<close> entries in order.\<close>

locale bounded_log =
  fixes append_to :: "'s \<Rightarrow> 'a \<Rightarrow> 's" and entries :: "'s \<Rightarrow> 'a list" and wf :: "'s \<Rightarrow> bool" and cap :: nat
  assumes wf_append: "wf s \<Longrightarrow> wf (append_to s x)"
    and entries_append: "wf s \<Longrightarrow>
      entries (append_to s x) = (if length (entries s) < cap then entries s @ [x] else tl (entries s) @ [x])"
    and cap_pos: "0 < cap"
    and entries_le: "wf s \<Longrightarrow> length (entries s) \<le> cap"
begin

text \<open>The entries are the last \<open>cap\<close> of everything appended.\<close>

lemma entries_last:
  assumes "wf s" and "entries s = drop (length as - cap) as"
  shows "entries (append_to s x) = drop (length (as @ [x]) - cap) (as @ [x])"
proof (cases "length as < cap")
  case True
  then show ?thesis using assms by (simp add: entries_append)
next
  case False
  then have "length (entries s) = cap" using assms(2) by simp
  moreover have "tl (drop (length as - cap) as) = drop (Suc (length as) - cap) as"
    using False by (simp add: drop_Suc tl_drop Suc_diff_le)
  ultimately show ?thesis using assms False cap_pos by (simp add: entries_append)
qed

lemma entries_foldl:
  assumes "wf s" and "entries s = []"
  shows "entries (foldl append_to s as) = drop (length as - cap) as \<and> wf (foldl append_to s as)"
proof (induction as rule: rev_induct)
  case Nil
  then show ?case using assms by simp
next
  case (snoc x as)
  then show ?case using entries_last [of "foldl append_to s as" as x] wf_append by simp
qed

end

definition ring :: "nat \<Rightarrow> nat \<Rightarrow> 'a list \<Rightarrow> 'a list" where
  "ring h n buf = map (\<lambda>i. buf ! ((h + i) mod length buf)) [0..<n]"

lemma mod_add_inj:
  fixes h i j :: nat
  assumes "i < n" "j < n" "(h + i) mod n = (h + j) mod n"
  shows "i = j"
proof -
  have le: "a = b" if "a \<le> b" "b < n" "(h + b) mod n = (h + a) mod n" for a b
  proof -
    have "h + a \<le> h + b" using that(1) by simp
    from mod_eq_dvd_iff_nat [OF this, of n] that(3) have "n dvd (h + b) - (h + a)" by blast
    then have "n dvd b - a" by simp
    with that(1,2) show ?thesis by (auto dest: dvd_imp_le)
  qed
  show ?thesis
  proof (cases "i \<le> j")
    case True
    then show ?thesis using le [OF True assms(2) assms(3) [symmetric]] by simp
  next
    case False
    then show ?thesis using le [of j i] assms(1,3) by simp
  qed
qed

lemma ring_grow:
  assumes "n < length buf"
  shows "ring h (Suc n) (buf[(h + n) mod length buf := x]) = ring h n buf @ [x]"
proof -
  have "buf[(h + n) mod length buf := x] ! ((h + i) mod length buf) = buf ! ((h + i) mod length buf)" if "i < n" for i
    using that assms mod_add_inj [of n "length buf" i h] by (metis less_trans nat_neq_iff nth_list_update_neq)
  moreover have "(h + n) mod length buf < length buf" using assms by (intro mod_less_divisor) auto
  ultimately show ?thesis by (simp add: ring_def)
qed

lemma ring_shift:
  assumes "buf \<noteq> []"
  shows "ring (Suc h mod length buf) (length buf) (buf[(h + length buf) mod length buf := x]) = tl (ring h (length buf) buf) @ [x]"
proof -
  obtain n where n: "length buf = Suc n" using assms by (cases buf) auto
  let ?buf = "buf[h mod Suc n := x]"
  have a: "ring (Suc h mod Suc n) (Suc n) ?buf = map (\<lambda>i. ?buf ! ((Suc h + i) mod Suc n)) [0..<Suc n]"
    by (simp add: ring_def n mod_add_left_eq del: upt_Suc)
  have b: "?buf ! ((Suc h + i) mod Suc n) = buf ! ((h + Suc i) mod Suc n)" if "i < n" for i
  proof -
    have "(h + Suc i) mod Suc n \<noteq> (h + 0) mod Suc n"
      using that mod_add_inj [of "Suc i" "Suc n" 0 h] by auto
    then show ?thesis by simp
  qed
  have c: "?buf ! ((Suc h + n) mod Suc n) = x"
  proof -
    have "Suc h + n = h + Suc n" by simp
    then have "(Suc h + n) mod Suc n = h mod Suc n" by (simp only: mod_add_self2)
    then show ?thesis using n by simp
  qed
  have "tl (ring h (Suc n) buf) = map (\<lambda>i. buf ! ((h + Suc i) mod Suc n)) [0..<n]"
    unfolding ring_def n by (simp add: upt_conv_Cons map_Suc_upt [symmetric] comp_def del: upt_Suc)
  moreover have "ring (Suc h mod Suc n) (Suc n) ?buf = map (\<lambda>i. buf ! ((h + Suc i) mod Suc n)) [0..<n] @ [x]"
    using b c unfolding a by simp
  moreover have "(h + length buf) mod length buf = h mod Suc n" by (simp only: n mod_add_self2)
  ultimately show ?thesis by (simp only: n)
qed

section \<open>The history is the ring\<close>

definition machine_wf :: "Machine \<Rightarrow> bool" where
  "machine_wf m \<longleftrightarrow> length (mc_history m) = 50 \<and> unat (mc_head m) < 50 \<and> unat (mc_count m) \<le> 50"

lemma History_ring:
  assumes "machine_wf m"
  shows "Machine_History m = ring (unat (mc_head m)) (unat (mc_count m)) (mc_history m)"
  using assms by (auto simp: Machine_History_def ring_def machine_wf_def maxHistorySize_def unat_eq_0)

lemma unat_incr:
  fixes w :: "8 word"
  assumes "unat w \<le> 50"
  shows "unat (w + 1) = Suc (unat w)"
proof -
  have "w + 1 \<noteq> 0"
  proof
    assume "w + 1 = 0"
    then have "w = 0 - 1" by (simp only: eq_diff_eq)
    then have "w = 255" by simp
    then have "unat w = 255" by simp
    with assms show False by simp
  qed
  then show ?thesis by (metis add.commute unatSuc)
qed

lemma unat_incr_mod:
  fixes w :: "8 word"
  assumes "unat w < 50"
  shows "unat ((w + 1) mod 50) = Suc (unat w) mod 50"
  using assms by (simp add: unat_mod_distrib unat_incr)

lemma appendHistory_wf: "machine_wf m \<Longrightarrow> machine_wf (appendHistory m t)"
  by (auto simp: machine_wf_def appendHistory_def Let_def maxHistorySize_def unat_incr unat_incr_mod)

lemma appendHistory_entries:
  assumes "machine_wf m"
  shows "Machine_History (appendHistory m t) =
    (if length (Machine_History m) < 50 then Machine_History m @ [t] else tl (Machine_History m) @ [t])"
proof -
  have l: "length (Machine_History m) = unat (mc_count m)"
    by (simp add: History_ring [OF assms] ring_def)
  have w: "length (mc_history m) = 50" using assms by (simp add: machine_wf_def)
  show ?thesis
  proof (cases "unat (mc_count m) < 50")
    case True
    then have "ring (unat (mc_head m)) (Suc (unat (mc_count m)))
        ((mc_history m)[(unat (mc_head m) + unat (mc_count m)) mod 50 := t]) = Machine_History m @ [t]"
      using ring_grow [of "unat (mc_count m)" "mc_history m" "unat (mc_head m)" t] w
      by (simp add: History_ring [OF assms])
    with True show ?thesis
      unfolding History_ring [OF appendHistory_wf [OF assms]] l
      by (simp add: appendHistory_def Let_def maxHistorySize_def unat_incr)
  next
    case False
    then have c: "unat (mc_count m) = 50" using assms by (simp add: machine_wf_def)
    have "mc_history m \<noteq> []" using w by auto
    from ring_shift [OF this, of "unat (mc_head m)" t] w c
    have "ring (Suc (unat (mc_head m)) mod 50) 50 ((mc_history m)[(unat (mc_head m) + 50) mod 50 := t]) =
        tl (Machine_History m) @ [t]"
      by (simp add: History_ring [OF assms])
    moreover have "unat (mc_head m) < 50" using assms by (simp add: machine_wf_def)
    ultimately show ?thesis
      unfolding History_ring [OF appendHistory_wf [OF assms]] l
      using c by (simp add: appendHistory_def Let_def maxHistorySize_def unat_incr_mod)
  qed
qed

interpretation history: bounded_log appendHistory Machine_History machine_wf 50
proof unfold_locales
  fix m :: Machine and t :: Transition
  assume wf: "machine_wf m"
  show "machine_wf (appendHistory m t)" using wf by (rule appendHistory_wf)
  show "Machine_History (appendHistory m t) =
      (if length (Machine_History m) < 50 then Machine_History m @ [t] else tl (Machine_History m) @ [t])"
    using wf by (rule appendHistory_entries)
  show "length (Machine_History m) \<le> 50"
    using wf by (simp add: History_ring ring_def) (simp add: machine_wf_def)
qed simp

section \<open>The machine as a reactor\<close>

record TransitionRequest =
  tq_Now :: go_time
  tq_To :: LifecycleState
  tq_Reason :: TransitionReason
  tq_ErrCode :: string
  tq_ErrMsg :: string

text \<open>One attempt: the machine after it, and the transition it recorded, if it was accepted.\<close>

definition recorded :: "Machine \<Rightarrow> TransitionRequest \<Rightarrow> Transition" where
  "recorded m r = \<lparr>tn_From = mc_current m, tn_To = tq_To r, tn_At = tq_Now r, tn_Reason = tq_Reason r,
     tn_ErrCode = (if tq_To r = StateFailed then tq_ErrCode r else []),
     tn_ErrMsg = (if tq_To r = StateFailed then tq_ErrMsg r else [])\<rparr>"

definition attempt :: "Machine \<Rightarrow> TransitionRequest \<Rightarrow> Machine \<times> Transition list" where
  "attempt m r = (case Machine_Transition m (tq_Now r) (tq_To r) (tq_Reason r) (tq_ErrCode r) (tq_ErrMsg r) of
       Inl e \<Rightarrow> (m, []) | Inr m' \<Rightarrow> (m', [recorded m r]))"

lemma Transition_eq:
  "Machine_Transition m (tq_Now r) (tq_To r) (tq_Reason r) (tq_ErrCode r) (tq_ErrMsg r) =
     (if isValidTransition (mc_current m) (tq_To r)
      then Inr ((appendHistory m (recorded m r))\<lparr>mc_current := tq_To r, mc_enteredAt := tq_Now r\<rparr>)
      else Inl \<lparr>ist_From = mc_current m, ist_To = tq_To r, ist_SessionID = mc_sessID m\<rparr>)"
  by (simp add: Machine_Transition_def Let_def recorded_def)

lemma attempt_eq:
  "attempt m r = (if isValidTransition (mc_current m) (tq_To r)
     then ((appendHistory m (recorded m r))\<lparr>mc_current := tq_To r, mc_enteredAt := tq_Now r\<rparr>, [recorded m r])
     else (m, []))"
  by (simp add: attempt_def Transition_eq)

lemma History_current [simp]:
  "Machine_History (m\<lparr>mc_current := s, mc_enteredAt := t\<rparr>) = Machine_History m"
  "machine_wf (m\<lparr>mc_current := s, mc_enteredAt := t\<rparr>) = machine_wf m"
  by (simp_all add: Machine_History_def machine_wf_def)

lemma terminal_no_edges: "IsTerminal s \<Longrightarrow> \<not> isValidTransition s t"
  by (auto simp: IsTerminal_def isValidTransition_def validTransitions_def state_defs)

interpretation session: reactor attempt "\<lambda>m. IsTerminal (mc_current m)"
  by unfold_locales (simp add: attempt_def Transition_eq terminal_no_edges)

text \<open>A list of transitions that starts at spawning, follows the table and links up.\<close>

fun linked :: "LifecycleState \<Rightarrow> Transition list \<Rightarrow> LifecycleState \<Rightarrow> bool" where
  "linked s [] e \<longleftrightarrow> e = s"
| "linked s (t # ts) e \<longleftrightarrow> tn_From t = s \<and> isValidTransition s (tn_To t) \<and> linked (tn_To t) ts e"

lemma linked_snoc:
  "linked s (ts @ [t]) e \<longleftrightarrow> linked s ts (tn_From t) \<and> isValidTransition (tn_From t) (tn_To t) \<and> e = tn_To t"
  by (induction ts arbitrary: s) auto

definition session_inv :: "Machine \<Rightarrow> Transition list \<Rightarrow> bool" where
  "session_inv m ts \<longleftrightarrow> machine_wf m \<and> Machine_History m = drop (length ts - 50) ts
     \<and> linked StateSpawning ts (mc_current m)"

lemma session_inv_step:
  assumes "session_inv m ts"
  shows "session_inv (fst (attempt m r)) (ts @ snd (attempt m r))"
proof (cases "isValidTransition (mc_current m) (tq_To r)")
  case False
  then show ?thesis using assms by (simp add: attempt_def Transition_eq)
next
  case True
  have "Machine_History (appendHistory m (recorded m r)) = drop (length (ts @ [recorded m r]) - 50) (ts @ [recorded m r])"
    using assms by (intro history.entries_last) (simp_all add: session_inv_def)
  moreover have "linked StateSpawning (ts @ [recorded m r]) (tq_To r)"
    using assms True by (simp add: linked_snoc recorded_def session_inv_def)
  ultimately show ?thesis
    using assms True by (simp add: attempt_def Transition_eq session_inv_def appendHistory_wf)
qed

lemma session_inv_start: "session_inv (Machine_New now sid rid) []"
  by (simp add: session_inv_def machine_wf_def Machine_New_def Machine_History_def maxHistorySize_def)

interpretation session_history: reactor_history attempt "\<lambda>m. IsTerminal (mc_current m)" "Machine_New now sid rid" session_inv
  by unfold_locales (rule session_inv_start, rule session_inv_step)

definition session_run :: "go_time \<Rightarrow> string \<Rightarrow> string \<Rightarrow> TransitionRequest list \<Rightarrow> Machine \<times> Transition list" where
  "session_run now sid rid rs = run_events attempt (Machine_New now sid rid) rs"

text \<open>
  C40. The session history is the true past. After any sequence of transition attempts on a new
  machine: the accepted transitions link up from the spawning state to the current state along
  edges of the table; the history the machine returns is exactly the last fifty of them, oldest
  first, whatever the ring buffer overwrote; and once the state is terminal no attempt is accepted
  and nothing changes.
\<close>
theorem session_history_faithful:
  "let m = fst (session_run now sid rid rs); ts = snd (session_run now sid rid rs) in
     linked StateSpawning ts (mc_current m)
   \<and> Machine_History m = drop (length ts - 50) ts
   \<and> (IsTerminal (mc_current m) \<longrightarrow> session_run now sid rid (rs @ rs') = session_run now sid rid rs)"
proof -
  have "session_inv (fst (session_run now sid rid rs)) (snd (session_run now sid rid rs))"
    unfolding session_run_def by (rule session_history.run_inv)
  moreover have "IsTerminal (mc_current (fst (session_run now sid rid rs))) \<Longrightarrow>
      session_run now sid rid (rs @ rs') = session_run now sid rid rs"
    unfolding session_run_def by (rule session.run_after_terminal)
  ultimately show ?thesis by (simp add: session_inv_def Let_def)
qed

definition wit_req :: "LifecycleState \<Rightarrow> TransitionRequest" where
  "wit_req s = \<lparr>tq_Now = 1, tq_To = s, tq_Reason = ReasonUserAction, tq_ErrCode = ''c'', tq_ErrMsg = ''m''\<rparr>"

theorem session_history_faithful_witness:
  "IsTerminal (mc_current (fst (session_run 0 ''s'' ''r'' [wit_req StateReady, wit_req StateFailed])))
   \<and> session_run 0 ''s'' ''r'' ([wit_req StateReady, wit_req StateFailed] @ [wit_req StateReady])
       = session_run 0 ''s'' ''r'' [wit_req StateReady, wit_req StateFailed]"
proof -
  have "IsTerminal (mc_current (fst (session_run 0 ''s'' ''r'' [wit_req StateReady, wit_req StateFailed])))"
    by (simp add: session_run_def attempt_eq Machine_New_def wit_req_def isValidTransition_def
      validTransitions_def state_defs IsTerminal_def)
  with session_history_faithful [where now = 0 and sid = "''s''" and rid = "''r''"
      and rs = "[wit_req StateReady, wit_req StateFailed]" and rs' = "[wit_req StateReady]"]
  show ?thesis by (simp add: Let_def)
qed

text \<open>
  The lifecycle graph. A byte outside the eight states has no edges; the two terminal states
  have no outgoing edge; every other state can fail and, except while terminating, can start to
  terminate; no edge enters spawning or stays in place; initializing is entered only from spawning,
  executing only from ready, and terminated only from terminating, so a session never ends cleanly
  without being asked to terminate.
\<close>
theorem lifecycle_graph:
  "(isValidTransition s t \<longrightarrow> unat s < 8 \<and> unat t < 8 \<and> \<not> IsTerminal s \<and> s \<noteq> t \<and> t \<noteq> StateSpawning)
   \<and> (unat s < 8 \<and> \<not> IsTerminal s \<longrightarrow> isValidTransition s StateFailed
        \<and> (s \<noteq> StateTerminating \<longrightarrow> isValidTransition s StateTerminating))
   \<and> (isValidTransition s StateInitializing \<longleftrightarrow> s = StateSpawning)
   \<and> (isValidTransition s StateExecuting \<longleftrightarrow> s = StateReady)
   \<and> (isValidTransition s StateTerminated \<longleftrightarrow> s = StateTerminating)"
proof -
  have "s \<in> {0, 1, 2, 3, 4, 5, 6, 7}" if "unat s < 8"
  proof -
    have "s = word_of_nat (unat s)" by simp
    moreover have "unat s \<in> {0, 1, 2, 3, 4, 5, 6, 7}" using that by auto
    ultimately show ?thesis by fastforce
  qed
  then show ?thesis
    by (auto simp: isValidTransition_def validTransitions_def state_defs IsTerminal_def)
qed

theorem lifecycle_graph_witness: "isValidTransition StateSuspended StateFailed"
  using lifecycle_graph [of StateSuspended 0] by (simp add: state_defs IsTerminal_def)

end
