(* ===== verification/Transition_Systems.thy ===== *)
theory Transition_Systems
  imports Harmonik_Prelude
begin

text \<open>
  Contracts of the concurrent components. A component with several goroutines is a relation on a
  global state whose steps are the atomic actions between two lock operations, so that every
  interleaving is a path. The locales below carry an invariant along all paths and turn a measure
  on the steps the component makes by itself into the statement that it always comes to rest.
\<close>

locale transition_system =
  fixes step :: "'s \<Rightarrow> 's \<Rightarrow> bool" and start :: "'s \<Rightarrow> bool" and inv :: "'s \<Rightarrow> bool"
  assumes start_inv: "start s \<Longrightarrow> inv s"
    and step_inv: "inv s \<Longrightarrow> step s t \<Longrightarrow> inv t"
begin

lemma path_inv: "step\<^sup>*\<^sup>* s t \<Longrightarrow> inv s \<Longrightarrow> inv t"
  by (induction rule: rtranclp_induct) (auto intro: step_inv)

lemma reach_inv: "start s \<Longrightarrow> step\<^sup>*\<^sup>* s t \<Longrightarrow> inv t"
  by (blast intro: path_inv start_inv)

end

text \<open>
  \<open>own\<close> are the steps the component takes without a new request; \<open>rest\<close> are the states in which it
  has nothing to do. A state that is not at rest has an own step, and own steps use up a measure.
\<close>

locale settling_system = transition_system step start inv
  for step :: "'s \<Rightarrow> 's \<Rightarrow> bool" and start :: "'s \<Rightarrow> bool" and inv :: "'s \<Rightarrow> bool" +
  fixes own :: "'s \<Rightarrow> 's \<Rightarrow> bool" and rest :: "'s \<Rightarrow> bool" and work :: "'s \<Rightarrow> nat"
  assumes own_step: "own s t \<Longrightarrow> step s t"
    and own_less: "inv s \<Longrightarrow> own s t \<Longrightarrow> work t < work s"
    and own_progress: "inv s \<Longrightarrow> \<not> rest s \<Longrightarrow> \<exists>t. own s t"
begin

lemma own_path: "own\<^sup>*\<^sup>* s t \<Longrightarrow> step\<^sup>*\<^sup>* s t"
  by (induction rule: rtranclp_induct) (auto intro: own_step rtranclp.rtrancl_into_rtrancl)

lemma own_path_inv: "own\<^sup>*\<^sup>* s t \<Longrightarrow> inv s \<Longrightarrow> inv t"
  by (blast intro: path_inv own_path)

lemma own_path_bounded: "(own ^^ n) s t \<Longrightarrow> inv s \<Longrightarrow> n + work t \<le> work s"
proof (induction n arbitrary: t)
  case 0
  then show ?case by simp
next
  case (Suc n)
  then obtain u where u: "(own ^^ n) s u" and ut: "own u t" by auto
  have "inv u" using u Suc.prems(2) by (blast intro: own_path_inv relpowp_imp_rtranclp)
  then have "work t < work u" using ut by (rule own_less)
  with Suc.IH [OF u Suc.prems(2)] show ?case by simp
qed

lemma settles: "inv s \<Longrightarrow> \<exists>t. own\<^sup>*\<^sup>* s t \<and> rest t"
proof (induction "work s" arbitrary: s rule: less_induct)
  case less
  show ?case
  proof (cases "rest s")
    case True
    then show ?thesis by blast
  next
    case False
    with less.prems obtain u where u: "own s u" using own_progress by blast
    have "inv u" using less.prems u own_step step_inv by blast
    with less.hyps [OF own_less [OF less.prems u]] u show ?thesis
      by (meson converse_rtranclp_into_rtranclp)
  qed
qed

end

section \<open>Updating one entry\<close>

lemma nth_update_if: "xs[i := y] ! j = (if i = j \<and> i < length xs then y else xs ! j)"
  by (cases "i < length xs") (auto simp: nth_list_update list_update_beyond)

lemma sum_list_map_update:
  fixes f :: "'a \<Rightarrow> nat"
  assumes "i < length xs"
  shows "sum_list (map f (xs[i := y])) + f (xs ! i) = sum_list (map f xs) + f y"
  using assms elem_le_sum_list [of i "map f xs"] by (simp add: map_update sum_list_update)

end
