(* ===== verification/Run_Lease.thy ===== *)
theory Run_Lease
  imports Transition_Systems
begin

text \<open>
  The resource ownership of one run, \<^verbatim>\<open>internal/runlease\<close>: the disposition decision
  (\<^verbatim>\<open>disposition.go\<close>), the leases (\<^verbatim>\<open>lease.go\<close>) and the scopes that hold them (\<^verbatim>\<open>scope.go\<close>).
  Leases and scopes are shared mutable objects, so they live in an explicit heap and a pointer is
  an index into it. A give-back call is a function on the outside world with an optional error.
  Each critical section under a mutex is one operation on the heap; the sequential operations are
  composed from them as the Go code composes them, and the concurrent machine at the end
  interleaves them over any number of goroutines. A give-back call is assumed not to call back
  into the lease package.
\<close>

section \<open>The disposition\<close>

datatype Resource =
    ResourceUnnamed | WorkerSlot | LocalSlot | TunnelPort | TunnelProcess | Worktree | RunRecord
  | HookSession | AgentSession | SpawnSlot | ColdStartToken | ResourceOther int

fun Resource_String :: "Resource \<Rightarrow> string" where
  "Resource_String WorkerSlot = ''worker-slot''"
| "Resource_String LocalSlot = ''local-slot''"
| "Resource_String TunnelPort = ''tunnel-port''"
| "Resource_String TunnelProcess = ''tunnel-process''"
| "Resource_String Worktree = ''worktree''"
| "Resource_String RunRecord = ''run-record''"
| "Resource_String HookSession = ''hook-session''"
| "Resource_String AgentSession = ''agent-session''"
| "Resource_String SpawnSlot = ''spawn-slot''"
| "Resource_String ColdStartToken = ''cold-start-token''"
| "Resource_String ResourceUnnamed = ''unnamed''"
| "Resource_String (ResourceOther n) = ''unnamed''"

datatype Disposition = Reclaim | Survive | RetainEvidence | DispositionOther int

fun Disposition_String :: "Disposition \<Rightarrow> string" where
  "Disposition_String Reclaim = ''reclaim''"
| "Disposition_String Survive = ''survive''"
| "Disposition_String RetainEvidence = ''retain-evidence''"
| "Disposition_String (DispositionOther n) = ''reclaim''"

fun survivesWithTheRun :: "Resource \<Rightarrow> bool" where
  "survivesWithTheRun AgentSession = True"
| "survivesWithTheRun Worktree = True"
| "survivesWithTheRun RunRecord = True"
| "survivesWithTheRun HookSession = True"
| "survivesWithTheRun TunnelProcess = True"
| "survivesWithTheRun TunnelPort = True"
| "survivesWithTheRun r = False"

fun Releases :: "Disposition \<Rightarrow> Resource \<Rightarrow> bool" where
  "Releases Reclaim r = True"
| "Releases Survive r = (\<not> survivesWithTheRun r)"
| "Releases RetainEvidence r = (r \<noteq> Worktree)"
| "Releases (DispositionOther n) r = True"

definition LeavesBeadInProgress :: "Disposition \<Rightarrow> bool" where
  "LeavesBeadInProgress d \<longleftrightarrow> d = Survive"

record Exit =
  ex_SessionRunsIndependently :: bool
  ex_DaemonStopping :: bool
  ex_EvidenceWorthKeeping :: bool

definition Decide :: "Exit \<Rightarrow> Disposition" where
  "Decide e = (if ex_SessionRunsIndependently e \<and> ex_DaemonStopping e then Survive
     else if ex_EvidenceWorthKeeping e then RetainEvidence else Reclaim)"

section \<open>The heap\<close>

type_synonym 'w give_back = "'w \<Rightarrow> 'w \<times> string option"

record 'w Lease =
  le_resource :: Resource
  le_release :: "'w give_back option"

datatype held = HeldLease nat | HeldScope nat

record Scope =
  sc_items :: "held list"
  sc_closed :: bool
  sc_final :: Disposition

record 'w Heap =
  hp_leases :: "'w Lease list"
  hp_scopes :: "Scope list"
  hp_world :: 'w

definition emptyScope :: Scope where
  "emptyScope = \<lparr>sc_items = [], sc_closed = False, sc_final = Reclaim\<rparr>"

text \<open>Critical sections. An address outside the heap, which no pointer of the program has, is inert.\<close>

definition spend :: "nat \<Rightarrow> 'w Heap \<Rightarrow> 'w give_back option \<times> 'w Heap" where
  "spend l h =
     (if l < length (hp_leases h)
      then (le_release (hp_leases h ! l),
            h\<lparr>hp_leases := (hp_leases h)[l := (hp_leases h ! l)\<lparr>le_release := None\<rparr>]\<rparr>)
      else (None, h))"

definition takeItems :: "Disposition \<Rightarrow> nat \<Rightarrow> 'w Heap \<Rightarrow> held list \<times> 'w Heap" where
  "takeItems d s h =
     (if s < length (hp_scopes h)
      then (let sc = hp_scopes h ! s;
                sc' = (if \<not> sc_closed sc then sc\<lparr>sc_items := [], sc_closed := True, sc_final := d\<rparr>
                       else sc\<lparr>sc_items := []\<rparr>) in
            (sc_items sc, h\<lparr>hp_scopes := (hp_scopes h)[s := sc']\<rparr>))
      else ([], h))"

definition addItem :: "nat \<Rightarrow> held \<Rightarrow> 'w Heap \<Rightarrow> 'w Heap \<times> Disposition option" where
  "addItem s x h =
     (if s < length (hp_scopes h)
      then (let sc = hp_scopes h ! s in
            if sc_closed sc then (h, Some (sc_final sc))
            else (h\<lparr>hp_scopes := (hp_scopes h)[s := sc\<lparr>sc_items := sc_items sc @ [x]\<rparr>]\<rparr>, None))
      else (h, None))"

definition newLease :: "Resource \<Rightarrow> 'w give_back option \<Rightarrow> 'w Heap \<Rightarrow> nat \<times> 'w Heap" where
  "newLease r release h =
     (length (hp_leases h), h\<lparr>hp_leases := hp_leases h @ [\<lparr>le_resource = r, le_release = release\<rparr>]\<rparr>)"

definition newScope :: "'w Heap \<Rightarrow> nat \<times> 'w Heap" where
  "newScope h = (length (hp_scopes h), h\<lparr>hp_scopes := hp_scopes h @ [emptyScope]\<rparr>)"

definition isArmed :: "'w Heap \<Rightarrow> nat \<Rightarrow> bool" where
  "isArmed h l \<longleftrightarrow> l < length (hp_leases h) \<and> le_release (hp_leases h ! l) \<noteq> None"

definition resourceOf :: "'w Heap \<Rightarrow> nat \<Rightarrow> Resource" where
  "resourceOf h l = (if l < length (hp_leases h) then le_resource (hp_leases h ! l) else ResourceUnnamed)"

section \<open>The operations, one goroutine\<close>

record Report =
  rp_Released :: "Resource list"
  rp_Kept :: "Resource list"
  rp_Failures :: "(Resource \<times> string) list"

definition emptyReport :: Report where
  "emptyReport = \<lparr>rp_Released = [], rp_Kept = [], rp_Failures = []\<rparr>"

definition Report_merge :: "Report \<Rightarrow> Report \<Rightarrow> Report" where
  "Report_merge r other = \<lparr>rp_Released = rp_Released r @ rp_Released other,
     rp_Kept = rp_Kept r @ rp_Kept other, rp_Failures = rp_Failures r @ rp_Failures other\<rparr>"

definition callRelease :: "'w give_back \<Rightarrow> 'w Heap \<Rightarrow> 'w Heap \<times> string option" where
  "callRelease f h = (let (w, err) = f (hp_world h) in (h\<lparr>hp_world := w\<rparr>, err))"

definition takeLease :: "nat \<Rightarrow> 'w Heap \<Rightarrow> 'w Heap \<times> bool \<times> string option" where
  "takeLease l h = (case spend l h of
       (None, h') \<Rightarrow> (h', False, None)
     | (Some f, h') \<Rightarrow> (let (h'', err) = callRelease f h' in (h'', True, err)))"

definition Lease_Release :: "nat \<Rightarrow> 'w Heap \<Rightarrow> 'w Heap \<times> string option" where
  "Lease_Release l h = (let (h', took, err) = takeLease l h in (h', err))"

definition Lease_Give :: "Disposition \<Rightarrow> nat \<Rightarrow> 'w Heap \<Rightarrow> 'w Heap \<times> Report" where
  "Lease_Give d l h =
     (let r = resourceOf h l in
      if \<not> Releases d r then
        (case spend l h of
           (Some f, h') \<Rightarrow> (h', emptyReport\<lparr>rp_Kept := [r]\<rparr>)
         | (None, h') \<Rightarrow> (h', emptyReport))
      else
        (case takeLease l h of
           (h', took, err) \<Rightarrow>
             (if \<not> took then (h', emptyReport)
              else case err of
                Some e \<Rightarrow> (h', emptyReport\<lparr>rp_Failures := [(r, e)]\<rparr>)
              | None \<Rightarrow> (h', emptyReport\<lparr>rp_Released := [r]\<rparr>))))"

text \<open>
  The loop of \<^verbatim>\<open>Close\<close> over the items it took, with the call of \<^verbatim>\<open>Close\<close> on a nested scope in
  place. It ends because taking the items of a scope leaves it empty: every item in the heap is
  processed at most once.
\<close>

definition heldCount :: "'w Heap \<Rightarrow> nat" where
  "heldCount h = sum_list (map (\<lambda>sc. length (sc_items sc)) (hp_scopes h))"

lemma heldCount_spend: "spend l h = (f, h') \<Longrightarrow> heldCount h' = heldCount h"
  by (auto simp: spend_def heldCount_def split: if_splits)

lemma heldCount_callRelease: "callRelease f h = (h', err) \<Longrightarrow> heldCount h' = heldCount h"
  by (auto simp: callRelease_def heldCount_def split: prod.splits)

lemma heldCount_takeLease: "takeLease l h = (h', took, err) \<Longrightarrow> heldCount h' = heldCount h"
  by (auto simp: takeLease_def Let_def split: prod.splits option.splits
      dest!: heldCount_spend heldCount_callRelease)

lemma heldCount_Lease_Give: "Lease_Give d l h = (h', r) \<Longrightarrow> heldCount h' = heldCount h"
  by (auto simp: Lease_Give_def Let_def split: if_splits prod.splits option.splits
      dest!: heldCount_spend heldCount_takeLease)

lemma heldCount_takeItems: "takeItems d s h = (items, h') \<Longrightarrow> length items + heldCount h' = heldCount h"
proof (cases "s < length (hp_scopes h)")
  case True
  let ?f = "\<lambda>sc. length (sc_items sc)"
  have sum: "?f (hp_scopes h ! s) + sum_list (map ?f ((hp_scopes h)[s := sc'])) = heldCount h"
    if "?f sc' = 0" for sc'
    using True that elem_le_sum_list [of s "map ?f (hp_scopes h)"]
    by (simp add: heldCount_def map_update sum_list_update)
  assume "takeItems d s h = (items, h')"
  with True show ?thesis
    by (auto simp: takeItems_def Let_def heldCount_def [of "_\<lparr>hp_scopes := _\<rparr>"] sum)
next
  case False
  then show "takeItems d s h = (items, h') \<Longrightarrow> length items + heldCount h' = heldCount h"
    by (simp add: takeItems_def)
qed

function closeItems :: "Disposition \<Rightarrow> held list \<Rightarrow> 'w Heap \<Rightarrow> 'w Heap \<times> Report" where
  "closeItems d [] h = (h, emptyReport)"
| "closeItems d (HeldLease l # xs) h =
     (let (h1, r1) = Lease_Give d l h; (h2, r2) = closeItems d xs h1 in (h2, Report_merge r1 r2))"
| "closeItems d (HeldScope s # xs) h =
     (let (items, h') = takeItems d s h; (h1, r1) = closeItems d (rev items) h';
          (h2, r2) = closeItems d xs h1 in (h2, Report_merge r1 r2))"
  by pat_completeness auto

lemma closeItems_heldCount:
  "closeItems_dom (d, xs, h) \<Longrightarrow> closeItems d xs h = (h', r) \<Longrightarrow> heldCount h' \<le> heldCount h"
proof (induction arbitrary: h' r rule: closeItems.pinduct)
  case (1 d h)
  then show ?case by (simp add: closeItems.psimps)
next
  case (2 d l xs h)
  obtain h1 r1 where 1: "Lease_Give d l h = (h1, r1)" by fastforce
  obtain h2 r2 where 2: "closeItems d xs h1 = (h2, r2)" by fastforce
  have "h' = h2" using "2.prems" "2.hyps" 1 2 by (simp add: closeItems.psimps)
  then show ?case using "2.IH" [OF 1 [symmetric] refl 2] heldCount_Lease_Give [OF 1] by simp
next
  case (3 d s xs h)
  obtain items h1 where 1: "takeItems d s h = (items, h1)" by fastforce
  obtain h2 r2 where 2: "closeItems d (rev items) h1 = (h2, r2)" by fastforce
  obtain h3 r3 where 3: "closeItems d xs h2 = (h3, r3)" by fastforce
  have "h' = h3" using "3.prems" "3.hyps" 1 2 3 by (simp add: closeItems.psimps)
  then show ?case
    using "3.IH"(1) [OF 1 [symmetric] refl 2] "3.IH"(2) [OF 1 [symmetric] refl 2 [symmetric] refl 3]
      heldCount_takeItems [OF 1] by simp
qed

termination closeItems
proof (relation "measure (\<lambda>(d, xs, h). heldCount h + length xs)", goal_cases)
  case 1
  then show ?case by simp
next
  case (2 d l xs h p h1 r1)
  then show ?case using heldCount_Lease_Give [of d l h h1 r1] by simp
next
  case (3 d s xs h p items h')
  then show ?case using heldCount_takeItems [of d s h items h'] by simp
next
  case (4 d s xs h p items h' q h1 r1)
  then show ?case
    using closeItems_heldCount [of d "rev items" h' h1 r1] heldCount_takeItems [of d s h items h'] by simp
qed

definition Scope_Close :: "Disposition \<Rightarrow> nat \<Rightarrow> 'w Heap \<Rightarrow> 'w Heap \<times> Report" where
  "Scope_Close d s h = (let (items, h') = takeItems d s h in closeItems d (rev items) h')"

fun give :: "Disposition \<Rightarrow> held \<Rightarrow> 'w Heap \<Rightarrow> 'w Heap \<times> Report" where
  "give d (HeldLease l) h = Lease_Give d l h"
| "give d (HeldScope s) h = Scope_Close d s h"

definition Scope_add :: "nat \<Rightarrow> held \<Rightarrow> 'w Heap \<Rightarrow> 'w Heap" where
  "Scope_add s x h = (case addItem s x h of
       (h', None) \<Rightarrow> h' | (h', Some d) \<Rightarrow> fst (give d x h'))"

definition Scope_Hold :: "nat \<Rightarrow> Resource \<Rightarrow> 'w give_back option \<Rightarrow> 'w Heap \<Rightarrow> nat \<times> 'w Heap" where
  "Scope_Hold s r release h = (let (l, h') = newLease r release h in (l, Scope_add s (HeldLease l) h'))"

definition Scope_Nest :: "nat \<Rightarrow> 'w Heap \<Rightarrow> nat \<times> 'w Heap" where
  "Scope_Nest s h = (let (c, h') = newScope h in (c, Scope_add s (HeldScope c) h'))"

section \<open>The operations, any number of goroutines\<close>

text \<open>
  What a goroutine still has to do is a list of tasks. \<open>runTask\<close> executes one atomic step of the
  first one: the critical section of \<open>Close\<close> on a scope, the critical section of \<open>Give\<close> or
  \<open>Release\<close> on a lease, or a give-back call, which runs outside the lease's mutex. The log records
  the leases taken with a give-back call, the calls made (with the disposition they answer, none
  for an unconditional \<open>Release\<close>) and the leases kept.
\<close>

datatype 'w task =
    TGive Disposition held | TRelease nat | TCall nat "Disposition option" "'w give_back"

datatype LeaseEvent =
    Taken nat | Called nat "Disposition option" "string option" | KeptBy nat Disposition

fun runTask :: "'w task \<Rightarrow> 'w Heap \<Rightarrow> 'w Heap \<times> 'w task list \<times> LeaseEvent list" where
  "runTask (TGive d (HeldScope s)) h = (let (items, h') = takeItems d s h in (h', map (TGive d) (rev items), []))"
| "runTask (TGive d (HeldLease l)) h =
     (case spend l h of
        (None, h') \<Rightarrow> (h', [], [])
      | (Some f, h') \<Rightarrow> (if \<not> Releases d (resourceOf h l) then (h', [], [KeptBy l d])
                       else (h', [TCall l (Some d) f], [])))"
| "runTask (TRelease l) h =
     (case spend l h of (None, h') \<Rightarrow> (h', [], []) | (Some f, h') \<Rightarrow> (h', [TCall l None f], []))"
| "runTask (TCall l d f) h = (let (h', err) = callRelease f h in (h', [], [Called l d err]))"

record 'w RunCfg =
  rc_heap :: "'w Heap"
  rc_threads :: "'w task list list"
  rc_log :: "LeaseEvent list"

inductive lease_own :: "'w RunCfg \<Rightarrow> 'w RunCfg \<Rightarrow> bool" where
  run: "\<lbrakk> i < length (rc_threads c); rc_threads c ! i = t # ts; runTask t (rc_heap c) = (h', new, evs) \<rbrakk> \<Longrightarrow>
     lease_own c \<lparr>rc_heap = h', rc_threads = (rc_threads c)[i := new @ ts], rc_log = rc_log c @ evs\<rparr>"

definition adding :: "held \<Rightarrow> Disposition option \<Rightarrow> 'w task list" where
  "adding x od = (case od of None \<Rightarrow> [] | Some d \<Rightarrow> [TGive d x])"

inductive lease_step :: "'w RunCfg \<Rightarrow> 'w RunCfg \<Rightarrow> bool" where
  own: "lease_own c c' \<Longrightarrow> lease_step c c'"
| hold: "\<lbrakk> i < length (rc_threads c); rc_threads c ! i = []; s < length (hp_scopes (rc_heap c));
     newLease r f (rc_heap c) = (l, h1); addItem s (HeldLease l) h1 = (h2, od) \<rbrakk> \<Longrightarrow>
     lease_step c \<lparr>rc_heap = h2, rc_threads = (rc_threads c)[i := adding (HeldLease l) od],
       rc_log = rc_log c @ (if f = None then [] else [Taken l])\<rparr>"
| nest: "\<lbrakk> i < length (rc_threads c); rc_threads c ! i = []; s < length (hp_scopes (rc_heap c));
     newScope (rc_heap c) = (k, h1); addItem s (HeldScope k) h1 = (h2, od) \<rbrakk> \<Longrightarrow>
     lease_step c (c\<lparr>rc_heap := h2, rc_threads := (rc_threads c)[i := adding (HeldScope k) od]\<rparr>)"
| close: "\<lbrakk> i < length (rc_threads c); rc_threads c ! i = []; s < length (hp_scopes (rc_heap c)) \<rbrakk> \<Longrightarrow>
     lease_step c (c\<lparr>rc_threads := (rc_threads c)[i := [TGive d (HeldScope s)]]\<rparr>)"
| give: "\<lbrakk> i < length (rc_threads c); rc_threads c ! i = []; l < length (hp_leases (rc_heap c)) \<rbrakk> \<Longrightarrow>
     lease_step c (c\<lparr>rc_threads := (rc_threads c)[i := [TGive d (HeldLease l)]]\<rparr>)"
| release: "\<lbrakk> i < length (rc_threads c); rc_threads c ! i = []; l < length (hp_leases (rc_heap c)) \<rbrakk> \<Longrightarrow>
     lease_step c (c\<lparr>rc_threads := (rc_threads c)[i := [TRelease l]]\<rparr>)"

definition lease_start :: "'w RunCfg \<Rightarrow> bool" where
  "lease_start c \<longleftrightarrow> hp_leases (rc_heap c) = [] \<and> hp_scopes (rc_heap c) = [emptyScope]
     \<and> (\<forall>ts \<in> set (rc_threads c). ts = []) \<and> rc_log c = []"

definition lease_rest :: "'w RunCfg \<Rightarrow> bool" where
  "lease_rest c \<longleftrightarrow> (\<forall>ts \<in> set (rc_threads c). ts = [])"

section \<open>What the atomic steps do\<close>

definition itemsOf :: "'w Heap \<Rightarrow> nat \<Rightarrow> held list" where
  "itemsOf h s = (if s < length (hp_scopes h) then sc_items (hp_scopes h ! s) else [])"

definition closedOf :: "'w Heap \<Rightarrow> nat \<Rightarrow> bool" where
  "closedOf h s \<longleftrightarrow> s < length (hp_scopes h) \<and> sc_closed (hp_scopes h ! s)"

named_theorems heap_defs \<open>critical sections and observers of the lease heap\<close>

declare spend_def [heap_defs] takeItems_def [heap_defs] addItem_def [heap_defs] newLease_def [heap_defs]
  newScope_def [heap_defs] callRelease_def [heap_defs] isArmed_def [heap_defs] itemsOf_def [heap_defs]
  closedOf_def [heap_defs] resourceOf_def [heap_defs]

lemma spend_unarmed: "\<not> isArmed h l \<Longrightarrow> spend l h = (None, h)"
  by (cases h) (auto simp: spend_def isArmed_def list_update_same_conv)

lemma spend_armed:
  assumes "isArmed h l"
  obtains f h1 where "spend l h = (Some f, h1)"
  using assms by (auto simp: spend_def isArmed_def)

lemma runTask_cases:
  assumes "runTask t h = (h', new, evs)"
  obtains (scope) d s where "t = TGive d (HeldScope s)" "h' = snd (takeItems d s h)"
      "new = map (TGive d) (rev (itemsOf h s))" "evs = []"
  | (spent) l where "t = TRelease l \<or> (\<exists>d. t = TGive d (HeldLease l))" "\<not> isArmed h l" "h' = h" "new = []" "evs = []"
  | (kept) d l where "t = TGive d (HeldLease l)" "isArmed h l" "h' = snd (spend l h)" "new = []"
      "evs = [KeptBy l d]" "\<not> Releases d (resourceOf h l)"
  | (called) l od f where "t = TRelease l \<and> od = None \<or> (\<exists>d. t = TGive d (HeldLease l) \<and> od = Some d \<and> Releases d (resourceOf h l))"
      "isArmed h l" "h' = snd (spend l h)" "new = [TCall l od f]" "evs = []"
  | (ran) l od f err where "t = TCall l od f" "h' = fst (callRelease f h)" "new = []" "evs = [Called l od err]"
proof (cases t)
  case (TGive d x)
  show ?thesis
  proof (cases x)
    case (HeldScope s)
    then show ?thesis
      using assms TGive scope [of d s] by (simp add: takeItems_def itemsOf_def Let_def split: if_splits)
  next
    case (HeldLease l)
    show ?thesis
    proof (cases "isArmed h l")
      case True
      then obtain f h1 where "spend l h = (Some f, h1)" by (rule spend_armed)
      then have "runTask t h = (snd (spend l h), if Releases d (resourceOf h l) then [TCall l (Some d) f] else [],
          if Releases d (resourceOf h l) then [] else [KeptBy l d])"
        by (simp add: TGive HeldLease)
      with assms have r: "h' = snd (spend l h)"
          "new = (if Releases d (resourceOf h l) then [TCall l (Some d) f] else [])"
          "evs = (if Releases d (resourceOf h l) then [] else [KeptBy l d])"
        by simp_all
      show ?thesis
      proof (cases "Releases d (resourceOf h l)")
        case rel: True
        show ?thesis by (rule called [of l "Some d" f]) (use r rel True TGive HeldLease in simp_all)
      next
        case rel: False
        show ?thesis by (rule kept [of d l]) (use r rel True TGive HeldLease in simp_all)
      qed
    next
      case False
      then show ?thesis by (intro spent [of l]) (use assms TGive HeldLease in \<open>simp_all add: spend_unarmed\<close>)
    qed
  qed
next
  case (TRelease l)
  show ?thesis
  proof (cases "isArmed h l")
    case True
    then obtain f h1 where "spend l h = (Some f, h1)" by (rule spend_armed)
    then have "runTask t h = (snd (spend l h), [TCall l None f], [])"
      by (simp add: TRelease)
    with assms have r: "h' = snd (spend l h)" "new = [TCall l None f]" "evs = []" by simp_all
    show ?thesis by (rule called [of l None f]) (use r True TRelease in simp_all)
  next
    case False
    then show ?thesis by (intro spent [of l]) (use assms TRelease in \<open>simp_all add: spend_unarmed\<close>)
  qed
next
  case (TCall l od f)
  then have "h' = fst (callRelease f h)" "new = []" "evs = [Called l od (snd (callRelease f h))]"
    using assms by (simp_all split: prod.splits)
  with TCall show ?thesis by (rule ran)
qed

lemma spend_simps [simp]:
  "length (hp_leases (snd (spend l h))) = length (hp_leases h)"
  "hp_scopes (snd (spend l h)) = hp_scopes h"
  "resourceOf (snd (spend l h)) k = resourceOf h k"
  "isArmed (snd (spend l h)) k \<longleftrightarrow> isArmed h k \<and> k \<noteq> l"
  by (auto simp: heap_defs nth_update_if)

lemma takeItems_simps [simp]:
  "hp_leases (snd (takeItems d s h)) = hp_leases h"
  "length (hp_scopes (snd (takeItems d s h))) = length (hp_scopes h)"
  "fst (takeItems d s h) = itemsOf h s"
  "itemsOf (snd (takeItems d s h)) k = (if k = s then [] else itemsOf h k)"
  "closedOf (snd (takeItems d s h)) k \<longleftrightarrow> closedOf h k \<or> k = s \<and> s < length (hp_scopes h)"
  by (auto simp: heap_defs Let_def nth_update_if)

lemma callRelease_simps [simp]:
  "hp_leases (fst (callRelease f h)) = hp_leases h"
  "hp_scopes (fst (callRelease f h)) = hp_scopes h"
  by (auto simp: heap_defs Let_def split: prod.splits)

lemma observers_cong:
  "hp_leases h' = hp_leases h \<Longrightarrow> isArmed h' l \<longleftrightarrow> isArmed h l"
  "hp_leases h' = hp_leases h \<Longrightarrow> resourceOf h' l = resourceOf h l"
  "hp_scopes h' = hp_scopes h \<Longrightarrow> itemsOf h' s = itemsOf h s"
  "hp_scopes h' = hp_scopes h \<Longrightarrow> closedOf h' s \<longleftrightarrow> closedOf h s"
  by (simp_all add: heap_defs)

lemmas heap_observers [simp] =
  observers_cong(3,4) [OF spend_simps(2)]
  observers_cong(1,2) [OF takeItems_simps(1)]
  observers_cong(1,2) [OF callRelease_simps(1)]
  observers_cong(3,4) [OF callRelease_simps(2)]

lemma runTask_frame:
  assumes "runTask t h = (h', new, evs)"
  shows "length (hp_leases h') = length (hp_leases h)" "length (hp_scopes h') = length (hp_scopes h)"
    "resourceOf h' l = resourceOf h l" "isArmed h' l \<Longrightarrow> isArmed h l" "closedOf h s \<Longrightarrow> closedOf h' s"
  using assms by (auto elim!: runTask_cases)

lemma runTask_items:
  assumes "runTask t h = (h', new, evs)"
  shows "x \<in> set (itemsOf h s) \<Longrightarrow> x \<in> set (itemsOf h' s) \<or> (\<exists>d. TGive d x \<in> set new)"
    and "itemsOf h s = [] \<Longrightarrow> itemsOf h' s = []"
    and "closedOf h' s \<Longrightarrow> closedOf h s \<or> itemsOf h' s = []"
proof -
  show "x \<in> set (itemsOf h' s) \<or> (\<exists>d. TGive d x \<in> set new)" if "x \<in> set (itemsOf h s)"
    using assms that by (cases rule: runTask_cases) (simp_all, blast)
  show "itemsOf h s = [] \<Longrightarrow> itemsOf h' s = []" "closedOf h' s \<Longrightarrow> closedOf h s \<or> itemsOf h' s = []"
    using assms by (auto elim!: runTask_cases split: if_splits)
qed

lemma runTask_done:
  "runTask (TGive d (HeldLease l)) h = (h', new, evs) \<Longrightarrow> \<not> isArmed h' l"
  "runTask (TGive d (HeldScope s)) h = (h', new, evs) \<Longrightarrow> s < length (hp_scopes h) \<Longrightarrow> closedOf h' s"
  by (erule runTask_cases; auto)+

subsection \<open>Accounts\<close>

fun outcomeOf :: "LeaseEvent \<Rightarrow> nat option" where
  "outcomeOf (Called l d err) = Some l"
| "outcomeOf (KeptBy l d) = Some l"
| "outcomeOf (Taken l) = None"

definition outcomes :: "LeaseEvent list \<Rightarrow> nat \<Rightarrow> nat" where
  "outcomes es l = length (filter (\<lambda>e. outcomeOf e = Some l) es)"

definition takens :: "LeaseEvent list \<Rightarrow> nat \<Rightarrow> nat" where
  "takens es l = length (filter (\<lambda>e. e = Taken l) es)"

fun isCallOf :: "nat \<Rightarrow> 'w task \<Rightarrow> bool" where
  "isCallOf l (TCall k d f) \<longleftrightarrow> k = l"
| "isCallOf l t \<longleftrightarrow> False"

definition pending :: "'w task list \<Rightarrow> nat \<Rightarrow> nat" where
  "pending ts l = length (filter (isCallOf l) ts)"

definition pendingAll :: "'w task list list \<Rightarrow> nat \<Rightarrow> nat" where
  "pendingAll ths l = sum_list (map (\<lambda>ts. pending ts l) ths)"

named_theorems account_defs \<open>the counters of the lease account\<close>

declare outcomes_def [account_defs] takens_def [account_defs] pending_def [account_defs]

lemma account_append [simp]:
  "outcomes (es @ fs) l = outcomes es l + outcomes fs l" "takens (es @ fs) l = takens es l + takens fs l"
  "pending (ts @ us) l = pending ts l + pending us l"
  "outcomes [] l = 0" "takens [] l = 0" "pending [] l = 0"
  by (simp_all add: account_defs)

lemma runTask_account:
  assumes "runTask t h = (h', new, evs)"
  shows "outcomes evs l + pending new l + of_bool (isArmed h' l) = pending [t] l + of_bool (isArmed h l)"
    and "takens evs l = 0"
  using assms by (auto elim!: runTask_cases simp: account_defs filter_empty_conv)

lemma pendingAll_update:
  "i < length ths \<Longrightarrow> pendingAll (ths[i := ts]) l + pending (ths ! i) l = pendingAll ths l + pending ts l"
  unfolding pendingAll_def by (rule sum_list_map_update)

definition account_ok :: "'w Heap \<Rightarrow> 'w task list list \<Rightarrow> LeaseEvent list \<Rightarrow> bool" where
  "account_ok h ths es \<longleftrightarrow> (\<forall>l. takens es l = outcomes es l + pendingAll ths l + of_bool (isArmed h l)
     \<and> takens es l \<le> 1 \<and> (length (hp_leases h) \<le> l \<longrightarrow> takens es l = 0))"

lemma account_run:
  assumes "account_ok h ths es" and "i < length ths" and "ths ! i = t # ts" and "runTask t h = (h', new, evs)"
  shows "account_ok h' (ths[i := new @ ts]) (es @ evs)"
proof -
  have "takens (es @ evs) l = outcomes (es @ evs) l + pendingAll (ths[i := new @ ts]) l + of_bool (isArmed h' l)
     \<and> takens (es @ evs) l \<le> 1 \<and> (length (hp_leases h') \<le> l \<longrightarrow> takens (es @ evs) l = 0)" for l
  proof -
    have "pendingAll (ths[i := new @ ts]) l + pending [t] l = pendingAll ths l + pending new l"
      using pendingAll_update [OF assms(2), of "new @ ts" l] assms(3)
      by (cases "isCallOf l t") (simp_all add: pending_def)
    moreover have "takens es l = outcomes es l + pendingAll ths l + of_bool (isArmed h l)" "takens es l \<le> 1"
        "length (hp_leases h') \<le> l \<Longrightarrow> takens es l = 0"
      using assms(1) unfolding account_ok_def runTask_frame(1) [OF assms(4)] by blast+
    ultimately show ?thesis
      using runTask_account [OF assms(4), of l] by (intro conjI impI) simp_all
  qed
  then show ?thesis unfolding account_ok_def by blast
qed

subsection \<open>Dispositions\<close>

abbreviation tasksOf :: "'w task list list \<Rightarrow> 'w task set" where
  "tasksOf ths \<equiv> set (concat ths)"

lemma tasksOf_run:
  assumes "i < length ths" and "ths ! i = t # ts"
  shows "x \<in> tasksOf ths \<Longrightarrow> x = t \<or> x \<in> tasksOf (ths[i := new @ ts])"
    and "x \<in> tasksOf (ths[i := new @ ts]) \<Longrightarrow> x \<in> tasksOf ths \<or> x \<in> set new"
    and "set new \<subseteq> tasksOf (ths[i := new @ ts])" and "t \<in> tasksOf ths"
proof -
  have s: "ths = take i ths @ (t # ts) # drop (Suc i) ths"
    using assms by (metis id_take_nth_drop)
  have u: "ths[i := new @ ts] = take i ths @ (new @ ts) # drop (Suc i) ths"
    using assms(1) by (rule upd_conv_take_nth_drop)
  have a: "tasksOf ths = tasksOf (take i ths) \<union> insert t (set ts) \<union> tasksOf (drop (Suc i) ths)"
    by (subst s) (simp only: concat_append concat.simps set_append list.set Un_assoc)
  have b: "tasksOf (ths[i := new @ ts]) = tasksOf (take i ths) \<union> (set new \<union> set ts) \<union> tasksOf (drop (Suc i) ths)"
    by (simp only: u concat_append concat.simps set_append Un_assoc)
  show "x \<in> tasksOf ths \<Longrightarrow> x = t \<or> x \<in> tasksOf (ths[i := new @ ts])"
    "x \<in> tasksOf (ths[i := new @ ts]) \<Longrightarrow> x \<in> tasksOf ths \<or> x \<in> set new"
    "set new \<subseteq> tasksOf (ths[i := new @ ts])" "t \<in> tasksOf ths"
    unfolding a b by blast+
qed

lemma tasksOf_idle:
  assumes "i < length ths" and "ths ! i = []"
  shows "tasksOf (ths[i := us]) = tasksOf ths \<union> set us"
proof -
  have s: "ths = take i ths @ [] # drop (Suc i) ths"
    using assms by (metis id_take_nth_drop)
  have u: "ths[i := us] = take i ths @ us # drop (Suc i) ths"
    using assms(1) by (rule upd_conv_take_nth_drop)
  have a: "tasksOf ths = tasksOf (take i ths) \<union> tasksOf (drop (Suc i) ths)"
    by (subst s) (simp only: concat_append concat.simps set_append append_Nil)
  show ?thesis
    unfolding a u by (simp only: concat_append concat.simps set_append) blast
qed

definition call_ok :: "'w Heap \<Rightarrow> Disposition option \<Rightarrow> nat \<Rightarrow> bool" where
  "call_ok h od l \<longleftrightarrow> l < length (hp_leases h) \<and> (\<forall>d. od = Some d \<longrightarrow> Releases d (resourceOf h l))"

definition disp_ok :: "'w Heap \<Rightarrow> 'w task list list \<Rightarrow> LeaseEvent list \<Rightarrow> bool" where
  "disp_ok h ths es \<longleftrightarrow> (\<forall>l od f. TCall l od f \<in> tasksOf ths \<longrightarrow> call_ok h od l)
     \<and> (\<forall>l od err. Called l od err \<in> set es \<longrightarrow> call_ok h od l)
     \<and> (\<forall>l d. KeptBy l d \<in> set es \<longrightarrow> l < length (hp_leases h) \<and> \<not> Releases d (resourceOf h l))"

lemma armed_less: "isArmed h l \<Longrightarrow> l < length (hp_leases h)"
  by (simp add: isArmed_def)

lemma runTask_disp:
  assumes "runTask t h = (h', new, evs)"
  shows "TCall l od f \<in> set new \<Longrightarrow> call_ok h od l"
    and "Called l od err \<in> set evs \<Longrightarrow> \<exists>f. t = TCall l od f"
    and "KeptBy l d \<in> set evs \<Longrightarrow> l < length (hp_leases h) \<and> \<not> Releases d (resourceOf h l)"
  using assms by (auto elim!: runTask_cases simp: call_ok_def armed_less)

lemma disp_run:
  assumes "disp_ok h ths es" and "i < length ths" and "ths ! i = t # ts" and "runTask t h = (h', new, evs)"
  shows "disp_ok h' (ths[i := new @ ts]) (es @ evs)"
proof -
  have same: "call_ok h' od l = call_ok h od l" "resourceOf h' l = resourceOf h l" "length (hp_leases h') = length (hp_leases h)" for od l
    using runTask_frame [OF assms(4)] by (simp_all add: call_ok_def)
  have "call_ok h od l" if "TCall l od f \<in> tasksOf (ths[i := new @ ts])" for l od f
    using tasksOf_run(2) [OF assms(2,3) that] runTask_disp(1) [OF assms(4)] assms(1) unfolding disp_ok_def by blast
  moreover have "call_ok h od l" if "Called l od err \<in> set (es @ evs)" for l od err
    using that runTask_disp(2) [OF assms(4)] tasksOf_run(4) [OF assms(2,3)] assms(1)
    unfolding disp_ok_def set_append by (metis UnE)
  moreover have "l < length (hp_leases h) \<and> \<not> Releases d (resourceOf h l)" if "KeptBy l d \<in> set (es @ evs)" for l d
    using that runTask_disp(3) [OF assms(4)] assms(1) unfolding disp_ok_def set_append by blast
  ultimately show ?thesis unfolding disp_ok_def same by blast
qed

subsection \<open>Tracking\<close>

text \<open>An armed lease is in a scope or about to be given back; so is a nested scope that is still open.\<close>

definition track_ok :: "'w Heap \<Rightarrow> 'w task list list \<Rightarrow> bool" where
  "track_ok h ths \<longleftrightarrow> hp_scopes h \<noteq> []
     \<and> (\<forall>l. isArmed h l \<longrightarrow> (\<exists>s. HeldLease l \<in> set (itemsOf h s)) \<or> (\<exists>d. TGive d (HeldLease l) \<in> tasksOf ths))
     \<and> (\<forall>s. 0 < s \<and> s < length (hp_scopes h) \<and> \<not> closedOf h s \<longrightarrow>
          (\<exists>p < s. HeldScope s \<in> set (itemsOf h p)) \<or> (\<exists>d. TGive d (HeldScope s) \<in> tasksOf ths))
     \<and> (\<forall>s. closedOf h s \<longrightarrow> itemsOf h s = [])"

lemma track_run:
  assumes ok: "track_ok h ths" and i: "i < length ths" "ths ! i = t # ts" and r: "runTask t h = (h', new, evs)"
  shows "track_ok h' (ths[i := new @ ts])"
proof -
  have keep: "x \<in> set (itemsOf h' s) \<or> (\<exists>d. TGive d x \<in> tasksOf (ths[i := new @ ts]))" if "x \<in> set (itemsOf h s)" for x s
    using runTask_items(1) [OF r that] tasksOf_run(3) [OF i] by blast
  have keepT: "(\<exists>d. TGive d x \<in> tasksOf (ths[i := new @ ts])) \<or> (\<exists>d. t = TGive d x)" if "TGive d x \<in> tasksOf ths" for d x
    using tasksOf_run(1) [OF i that] by blast
  have "(\<exists>s. HeldLease l \<in> set (itemsOf h' s)) \<or> (\<exists>d. TGive d (HeldLease l) \<in> tasksOf (ths[i := new @ ts]))"
    if "isArmed h' l" for l
    using runTask_frame(4) [OF r that] ok keep keepT runTask_done(1) r that unfolding track_ok_def by metis
  moreover have "(\<exists>p < s. HeldScope s \<in> set (itemsOf h' p)) \<or> (\<exists>d. TGive d (HeldScope s) \<in> tasksOf (ths[i := new @ ts]))"
    if "0 < s" "s < length (hp_scopes h')" "\<not> closedOf h' s" for s
  proof -
    have "\<not> closedOf h s" "s < length (hp_scopes h)" using runTask_frame(2,5) [OF r] that by auto
    then show ?thesis using ok keep keepT runTask_done(2) r that(1,3) unfolding track_ok_def by metis
  qed
  moreover have "closedOf h' s \<Longrightarrow> itemsOf h' s = []" for s
    using ok runTask_items(2,3) [OF r, of s] unfolding track_ok_def by blast
  moreover have "hp_scopes h' \<noteq> []"
    using ok runTask_frame(2) [OF r] unfolding track_ok_def by auto
  ultimately show ?thesis unfolding track_ok_def by blast
qed

subsection \<open>Requests\<close>

lemma newLease_simps:
  assumes "newLease r f h = (l, h1)"
  shows "l = length (hp_leases h)" "length (hp_leases h1) = Suc l" "hp_scopes h1 = hp_scopes h"
    "isArmed h1 k \<longleftrightarrow> isArmed h k \<or> k = l \<and> f \<noteq> None" "k < l \<Longrightarrow> resourceOf h1 k = resourceOf h k"
  using assms by (auto simp: heap_defs nth_append less_Suc_eq)

lemma newScope_simps:
  assumes "newScope h = (k, h1)"
  shows "k = length (hp_scopes h)" "hp_leases h1 = hp_leases h" "length (hp_scopes h1) = Suc k"
    "itemsOf h1 s = itemsOf h s" "closedOf h1 s \<longleftrightarrow> closedOf h s"
  using assms by (auto simp: heap_defs nth_append emptyScope_def less_Suc_eq)

lemma addItem_simps:
  assumes "addItem s x h = (h', od)" and "s < length (hp_scopes h)"
  shows "hp_leases h' = hp_leases h" "length (hp_scopes h') = length (hp_scopes h)"
    "closedOf h' k \<longleftrightarrow> closedOf h k"
    "itemsOf h' k = (if k = s \<and> \<not> closedOf h s then itemsOf h k @ [x] else itemsOf h k)"
    "closedOf h s \<Longrightarrow> TGive (sc_final (hp_scopes h ! s)) x \<in> set (adding x od)"
  using assms by (auto simp: heap_defs Let_def adding_def nth_update_if split: if_splits)

lemma adding_pending [simp]: "pending (adding x od) l = 0"
  by (simp add: adding_def pending_def split: option.splits)

lemma pendingAll_idle:
  "i < length ths \<Longrightarrow> ths ! i = [] \<Longrightarrow> pending ts l = 0 \<Longrightarrow> pendingAll (ths[i := ts]) l = pendingAll ths l"
  using pendingAll_update [of i ths ts l] by simp

lemma account_idle:
  assumes "account_ok h ths es" and "i < length ths" "ths ! i = []" and "\<And>l. pending ts l = 0"
  shows "account_ok h (ths[i := ts]) es"
  using assms(1) unfolding account_ok_def pendingAll_idle [OF assms(2-4)] .

lemma disp_idle:
  assumes "disp_ok h ths es" and "i < length ths" "ths ! i = []" and "\<And>l od f. TCall l od f \<notin> set ts"
  shows "disp_ok h (ths[i := ts]) es"
  using assms(1,4) unfolding disp_ok_def tasksOf_idle [OF assms(2,3)] by blast

lemma track_idle:
  assumes "track_ok h ths" and "i < length ths" "ths ! i = []"
  shows "track_ok h (ths[i := ts])"
  using assms(1) unfolding track_ok_def tasksOf_idle [OF assms(2,3)] by blast

lemma account_heap:
  assumes "account_ok h ths es" and e: "hp_leases h' = hp_leases h"
  shows "account_ok h' ths es"
  using assms(1) unfolding account_ok_def observers_cong(1) [OF e] e .

lemma disp_heap:
  "disp_ok h ths es \<Longrightarrow> hp_leases h' = hp_leases h \<Longrightarrow> disp_ok h' ths es"
  by (simp only: disp_ok_def call_ok_def resourceOf_def)

lemma account_newLease:
  assumes "account_ok h ths es" and "newLease r f h = (l, h1)"
  shows "account_ok h1 ths (es @ (if f = None then [] else [Taken l]))"
proof -
  have "takens (es @ (if f = None then [] else [Taken l])) k =
      outcomes (es @ (if f = None then [] else [Taken l])) k + pendingAll ths k + of_bool (isArmed h1 k)
      \<and> takens (es @ (if f = None then [] else [Taken l])) k \<le> 1
      \<and> (length (hp_leases h1) \<le> k \<longrightarrow> takens (es @ (if f = None then [] else [Taken l])) k = 0)" for k
  proof -
    have "takens es k = outcomes es k + pendingAll ths k + of_bool (isArmed h k)" "takens es k \<le> 1"
        "l \<le> k \<Longrightarrow> takens es k = 0"
      using assms(1) newLease_simps(1) [OF assms(2)] unfolding account_ok_def by blast+
    moreover have "\<not> isArmed h l" using newLease_simps(1) [OF assms(2)] by (simp add: isArmed_def)
    ultimately show ?thesis
      using newLease_simps(2) [OF assms(2)] newLease_simps(4) [OF assms(2), of k]
      by (cases "k = l"; cases "f = None") (simp_all add: account_defs)
  qed
  then show ?thesis unfolding account_ok_def by blast
qed

lemma disp_newLease:
  assumes "disp_ok h ths es" and "newLease r f h = (l, h1)"
  shows "disp_ok h1 ths (es @ (if f = None then [] else [Taken l]))"
proof -
  have "call_ok h od k \<Longrightarrow> call_ok h1 od k" for od k
    using newLease_simps(1,2) [OF assms(2)] newLease_simps(5) [OF assms(2), of k] by (auto simp: call_ok_def)
  moreover have "k < length (hp_leases h) \<Longrightarrow> k < length (hp_leases h1) \<and> resourceOf h1 k = resourceOf h k" for k
    using newLease_simps(1,2) [OF assms(2)] newLease_simps(5) [OF assms(2), of k] by simp
  ultimately show ?thesis
    using assms(1) unfolding disp_ok_def by auto
qed

lemma track_hold:
  assumes ok: "track_ok h ths" and i: "i < length ths" "ths ! i = []" and s: "s < length (hp_scopes h)"
    and n: "newLease r f h = (l, h1)" and a: "addItem s (HeldLease l) h1 = (h2, od)"
  shows "track_ok h2 (ths[i := adding (HeldLease l) od])"
proof -
  have s1: "s < length (hp_scopes h1)" using s newLease_simps(3) [OF n] by simp
  note ad = addItem_simps [OF a s1]
  have same: "itemsOf h1 k = itemsOf h k" "closedOf h1 k = closedOf h k" for k
    by (rule observers_cong(3) [OF newLease_simps(3) [OF n]], rule observers_cong(4) [OF newLease_simps(3) [OF n]])
  have arm: "isArmed h2 k \<longleftrightarrow> isArmed h k \<or> k = l \<and> f \<noteq> None" for k
    using newLease_simps(4) [OF n, of k] observers_cong(1) [OF ad(1)] by simp
  have items: "set (itemsOf h k) \<subseteq> set (itemsOf h2 k)" for k
    unfolding ad(4) same by auto
  have new: "HeldLease l \<in> set (itemsOf h2 s) \<or> (\<exists>d. TGive d (HeldLease l) \<in> set (adding (HeldLease l) od))"
    using ad(5) unfolding ad(4) same
    by (cases "closedOf h s") auto
  have len: "length (hp_scopes h2) = length (hp_scopes h)" using ad(2) newLease_simps(3) [OF n] by simp
  have cl: "closedOf h2 k = closedOf h k" for k using ad(3) same by simp
  have tasks: "tasksOf (ths[i := adding (HeldLease l) od]) = tasksOf ths \<union> set (adding (HeldLease l) od)"
    by (rule tasksOf_idle [OF i])
  show ?thesis
    unfolding track_ok_def tasks arm cl len
  proof (intro conjI allI impI)
    show "hp_scopes h2 \<noteq> []" using len s by auto
  next
    fix k
    assume "isArmed h k \<or> k = l \<and> f \<noteq> None"
    then show "(\<exists>s. HeldLease k \<in> set (itemsOf h2 s))
        \<or> (\<exists>d. TGive d (HeldLease k) \<in> tasksOf ths \<union> set (adding (HeldLease l) od))"
      using ok items new unfolding track_ok_def by blast
  next
    fix k
    assume "0 < k \<and> k < length (hp_scopes h) \<and> \<not> closedOf h k"
    then show "(\<exists>p < k. HeldScope k \<in> set (itemsOf h2 p))
        \<or> (\<exists>d. TGive d (HeldScope k) \<in> tasksOf ths \<union> set (adding (HeldLease l) od))"
      using ok items unfolding track_ok_def by blast
  next
    fix k
    assume "closedOf h k"
    then show "itemsOf h2 k = []" using ok unfolding track_ok_def ad(4) same by auto
  qed
qed

lemma track_nest:
  assumes ok: "track_ok h ths" and i: "i < length ths" "ths ! i = []" and s: "s < length (hp_scopes h)"
    and n: "newScope h = (k, h1)" and a: "addItem s (HeldScope k) h1 = (h2, od)"
  shows "track_ok h2 (ths[i := adding (HeldScope k) od])"
proof -
  note ns = newScope_simps [OF n]
  have s1: "s < length (hp_scopes h1)" using s ns(1,3) by simp
  note ad = addItem_simps [OF a s1]
  have arm: "isArmed h2 l = isArmed h l" for l
    by (rule observers_cong(1)) (simp only: ad(1) ns(2))
  have items: "set (itemsOf h p) \<subseteq> set (itemsOf h2 p)" for p
    unfolding ad(4) ns(4) by auto
  have new: "HeldScope k \<in> set (itemsOf h2 s) \<or> (\<exists>d. TGive d (HeldScope k) \<in> set (adding (HeldScope k) od))"
    using ad(5) unfolding ad(4) ns(5)
    by (cases "closedOf h s") auto
  have len: "length (hp_scopes h2) = Suc k" using ad(2) ns(3) by simp
  have cl: "closedOf h2 p = closedOf h p" for p using ad(3) ns(5) by simp
  have tasks: "tasksOf (ths[i := adding (HeldScope k) od]) = tasksOf ths \<union> set (adding (HeldScope k) od)"
    by (rule tasksOf_idle [OF i])
  show ?thesis
    unfolding track_ok_def tasks arm cl len
  proof (intro conjI allI impI)
    show "hp_scopes h2 \<noteq> []" using len by auto
  next
    fix l
    assume "isArmed h l"
    then show "(\<exists>s. HeldLease l \<in> set (itemsOf h2 s))
        \<or> (\<exists>d. TGive d (HeldLease l) \<in> tasksOf ths \<union> set (adding (HeldScope k) od))"
      using ok items unfolding track_ok_def by blast
  next
    fix j
    assume j: "0 < j \<and> j < Suc k \<and> \<not> closedOf h j"
    show "(\<exists>p < j. HeldScope j \<in> set (itemsOf h2 p))
        \<or> (\<exists>d. TGive d (HeldScope j) \<in> tasksOf ths \<union> set (adding (HeldScope k) od))"
    proof (cases "j = k")
      case True
      then show ?thesis using new s ns(1) by blast
    next
      case False
      then have "j < length (hp_scopes h)" using j ns(1) by simp
      then show ?thesis using ok items j unfolding track_ok_def by blast
    qed
  next
    fix p
    assume "closedOf h p"
    then show "itemsOf h2 p = []" using ok unfolding track_ok_def ad(4) ns(4,5) by auto
  qed
qed

section \<open>The machine\<close>

definition lease_inv :: "'w RunCfg \<Rightarrow> bool" where
  "lease_inv c \<longleftrightarrow> account_ok (rc_heap c) (rc_threads c) (rc_log c)
     \<and> disp_ok (rc_heap c) (rc_threads c) (rc_log c) \<and> track_ok (rc_heap c) (rc_threads c)"

lemma lease_inv_start: "lease_start c \<Longrightarrow> lease_inv c"
proof -
  assume st: "lease_start c"
  have "pendingAll ths l = 0" if "\<forall>ts \<in> set ths. ts = []" for ths :: "'a task list list" and l
    using that unfolding pendingAll_def by (induction ths) (auto simp: pending_def)
  then show "lease_inv c"
    using st by (auto simp: lease_inv_def lease_start_def account_ok_def disp_ok_def track_ok_def heap_defs
        account_defs emptyScope_def split: if_splits)
qed

lemma lease_inv_own: "lease_own c c' \<Longrightarrow> lease_inv c \<Longrightarrow> lease_inv c'"
  by (induction rule: lease_own.induct) (auto simp: lease_inv_def intro: account_run disp_run track_run)

lemma lease_inv_step: "lease_inv c \<Longrightarrow> lease_step c c' \<Longrightarrow> lease_inv c'"
proof (rotate_tac 1, induction rule: lease_step.induct)
  case (own c c')
  then show ?case by (rule lease_inv_own)
next
  case (hold i c s r f l h1 h2 od)
  have s1: "s < length (hp_scopes h1)" using hold(3) newLease_simps(3) [OF hold(4)] by simp
  note lv = addItem_simps(1) [OF hold(5) s1]
  have no: "pending (adding (HeldLease l) od) k = 0" "TCall k oc g \<notin> set (adding (HeldLease l) od)" for k oc g
    by (rule adding_pending) (auto simp: adding_def split: option.splits)
  from hold.prems have "account_ok (rc_heap c) (rc_threads c) (rc_log c)"
    "disp_ok (rc_heap c) (rc_threads c) (rc_log c)" "track_ok (rc_heap c) (rc_threads c)"
    by (simp_all add: lease_inv_def)
  note ok = account_heap [OF account_newLease [OF this(1) hold(4)] lv] disp_heap [OF disp_newLease [OF this(2) hold(4)] lv]
    track_hold [OF this(3) hold(1-5)]
  show ?case
    using account_idle [OF ok(1) hold(1,2) no(1)] disp_idle [OF ok(2) hold(1,2) no(2)] ok(3)
    by (simp add: lease_inv_def)
next
  case (nest i c s k h1 h2 od)
  have s1: "s < length (hp_scopes h1)" using nest(3) newScope_simps(1,3) [OF nest(4)] by simp
  have lv: "hp_leases h2 = hp_leases (rc_heap c)"
    using addItem_simps(1) [OF nest(5) s1] newScope_simps(2) [OF nest(4)] by simp
  have no: "pending (adding (HeldScope k) od) l = 0" "TCall l oc g \<notin> set (adding (HeldScope k) od)" for l oc g
    by (rule adding_pending) (auto simp: adding_def split: option.splits)
  from nest.prems have "account_ok (rc_heap c) (rc_threads c) (rc_log c)"
    "disp_ok (rc_heap c) (rc_threads c) (rc_log c)" "track_ok (rc_heap c) (rc_threads c)"
    by (simp_all add: lease_inv_def)
  note ok = account_heap [OF this(1) lv] disp_heap [OF this(2) lv] track_nest [OF this(3) nest(1-5)]
  show ?case
    using account_idle [OF ok(1) nest(1,2) no(1)] disp_idle [OF ok(2) nest(1,2) no(2)] ok(3)
    by (simp add: lease_inv_def)
next
  case (close i c s d)
  then show ?case by (auto simp: lease_inv_def pending_def intro!: account_idle disp_idle track_idle)
next
  case (give i c l d)
  then show ?case by (auto simp: lease_inv_def pending_def intro!: account_idle disp_idle track_idle)
next
  case (release i c l)
  then show ?case by (auto simp: lease_inv_def pending_def intro!: account_idle disp_idle track_idle)
qed

fun taskWork :: "'w task \<Rightarrow> nat" where
  "taskWork (TCall l d f) = 1"
| "taskWork t = 2"

definition threadWork :: "'w task list \<Rightarrow> nat" where
  "threadWork ts = sum_list (map taskWork ts)"

definition lease_work :: "'w RunCfg \<Rightarrow> nat" where
  "lease_work c = 3 * heldCount (rc_heap c) + sum_list (map threadWork (rc_threads c))"

lemma runTask_work:
  assumes "runTask t h = (h', new, evs)"
  shows "3 * heldCount h' + threadWork new < 3 * heldCount h + taskWork t"
  using assms
proof (cases rule: runTask_cases)
  case (scope d s)
  have "threadWork new = 2 * length (itemsOf h s)"
    unfolding scope threadWork_def by (simp add: sum_list_triv comp_def)
  then show ?thesis
    using scope heldCount_takeItems [of d s h "itemsOf h s" "snd (takeItems d s h)"]
    by (simp add: prod_eq_iff)
next
  case (called l od f)
  then show ?thesis using heldCount_spend [of l h] by (auto simp: threadWork_def prod_eq_iff)
next
  case (kept d l)
  then show ?thesis using heldCount_spend [of l h] by (auto simp: threadWork_def prod_eq_iff)
next
  case (ran l od f err)
  then show ?thesis using heldCount_callRelease [of f h] by (auto simp: threadWork_def prod_eq_iff)
qed (auto simp: threadWork_def)

lemma lease_own_less: "lease_own c c' \<Longrightarrow> lease_work c' < lease_work c"
proof (induction rule: lease_own.induct)
  case (run i c t ts h' new evs)
  have "sum_list (map threadWork ((rc_threads c)[i := new @ ts])) + taskWork t
      = sum_list (map threadWork (rc_threads c)) + threadWork new"
    using sum_list_map_update [OF run(1), of threadWork "new @ ts"] run(2) by (simp add: threadWork_def)
  then show ?case using runTask_work [OF run(3)] by (simp add: lease_work_def)
qed

lemma lease_own_progress: "\<not> lease_rest c \<Longrightarrow> \<exists>c'. lease_own c c'"
proof -
  assume "\<not> lease_rest c"
  then obtain i t ts where "i < length (rc_threads c)" "rc_threads c ! i = t # ts"
    by (auto simp: lease_rest_def in_set_conv_nth neq_Nil_conv)
  moreover obtain h' new evs where "runTask t (rc_heap c) = (h', new, evs)" by (rule prod_cases3)
  ultimately show ?thesis by (blast intro: lease_own.run)
qed

interpretation lease: settling_system lease_step lease_start lease_inv lease_own lease_rest lease_work
  by unfold_locales
    (auto intro: lease_inv_start lease_inv_step lease_step.own lease_own_less lease_own_progress)

subsection \<open>No resource is given back twice, none is leaked\<close>

lemma rest_tasks: "lease_rest c \<Longrightarrow> tasksOf (rc_threads c) = {}"
  by (auto simp: lease_rest_def)

lemma rest_pending: "lease_rest c \<Longrightarrow> pendingAll (rc_threads c) l = 0"
  by (auto simp: lease_rest_def pendingAll_def)

lemma rest_closed:
  assumes "track_ok h ths" and "tasksOf ths = {}" and "closedOf h 0" and "s < length (hp_scopes h)"
  shows "closedOf h s"
  using assms(4)
proof (induction s rule: less_induct)
  case (less s)
  show ?case
  proof (rule ccontr)
    assume n: "\<not> closedOf h s"
    then have "0 < s" using assms(3) by (cases s) auto
    with n less.prems assms(1)
    have "(\<exists>p < s. HeldScope s \<in> set (itemsOf h p)) \<or> (\<exists>d. TGive d (HeldScope s) \<in> tasksOf ths)"
      unfolding track_ok_def by blast
    then obtain p where p: "p < s" "HeldScope s \<in> set (itemsOf h p)"
      unfolding assms(2) by blast
    with less.IH less.prems have "closedOf h p" by simp
    then show False using assms(1) p(2) unfolding track_ok_def by auto
  qed
qed

lemma rest_spent:
  assumes "track_ok h ths" and "tasksOf ths = {}" and "closedOf h 0"
  shows "itemsOf h s = []" and "\<not> isArmed h l"
proof -
  have all: "itemsOf h k = []" for k
  proof (cases "k < length (hp_scopes h)")
    case True
    then show ?thesis using rest_closed [OF assms] assms(1) unfolding track_ok_def by blast
  qed (simp add: itemsOf_def)
  then show "itemsOf h s = []" .
  show "\<not> isArmed h l" using assms(1,2) all unfolding track_ok_def by (metis empty_iff empty_set)
qed

lemma lease_own_closed: "lease_own\<^sup>*\<^sup>* c c' \<Longrightarrow> closedOf (rc_heap c) s \<Longrightarrow> closedOf (rc_heap c') s"
proof (induction rule: rtranclp_induct)
  case (step y z)
  from step(2) step.IH [OF step.prems] show ?case
    by (induction rule: lease_own.induct) (auto dest: runTask_frame(5))
qed

text \<open>
  C4. A resource is given back at most once, whatever the interleaving. Over any number of
  goroutines that hold, nest, close, give and release concurrently: every lease has at most one
  outcome, a give-back call or a decision to keep it; while it is armed it has none; a lease is kept
  only under a disposition that keeps its resource, and no call is ever made for it; and a call
  that answers a disposition is made only for a resource that disposition releases.
\<close>

theorem lease_given_back_once:
  assumes "lease_start c0" and "lease_step\<^sup>*\<^sup>* c0 c"
  shows "outcomes (rc_log c) l \<le> 1 \<and> (isArmed (rc_heap c) l \<longrightarrow> outcomes (rc_log c) l = 0)
     \<and> (KeptBy l d \<in> set (rc_log c) \<longrightarrow>
          \<not> Releases d (resourceOf (rc_heap c) l) \<and> (\<forall>od err. Called l od err \<notin> set (rc_log c)))
     \<and> (Called l (Some d) err \<in> set (rc_log c) \<longrightarrow> Releases d (resourceOf (rc_heap c) l))"
proof -
  have "lease_inv c" using assms by (rule lease.reach_inv)
  then have acc: "takens (rc_log c) l = outcomes (rc_log c) l + pendingAll (rc_threads c) l + of_bool (isArmed (rc_heap c) l)"
      "takens (rc_log c) l \<le> 1"
    and disp: "disp_ok (rc_heap c) (rc_threads c) (rc_log c)"
    unfolding lease_inv_def account_ok_def by blast+
  have "Called l od e \<notin> set (rc_log c)" if k: "KeptBy l d \<in> set (rc_log c)" for od e
  proof
    assume "Called l od e \<in> set (rc_log c)"
    with k have "2 \<le> outcomes (rc_log c) l"
      using card_mono [of "set (filter (\<lambda>e. outcomeOf e = Some l) (rc_log c))" "{KeptBy l d, Called l od e}"]
        card_length [of "filter (\<lambda>e. outcomeOf e = Some l) (rc_log c)"]
      by (simp add: outcomes_def)
    then show False using acc by simp
  qed
  moreover have "Releases d (resourceOf (rc_heap c) l)" if "Called l (Some d) err \<in> set (rc_log c)"
    using that disp unfolding disp_ok_def call_ok_def by blast
  moreover have "\<not> Releases d (resourceOf (rc_heap c) l)" if "KeptBy l d \<in> set (rc_log c)"
    using that disp unfolding disp_ok_def by blast
  moreover have "outcomes (rc_log c) l \<le> 1" "isArmed (rc_heap c) l \<Longrightarrow> outcomes (rc_log c) l = 0"
    using acc by (auto split: if_splits)
  ultimately show ?thesis by blast
qed

lemma kept_resources:
  "\<not> Releases d r \<longleftrightarrow> d = Survive \<and> r \<in> {AgentSession, Worktree, RunRecord, HookSession, TunnelProcess, TunnelPort}
     \<or> d = RetainEvidence \<and> r = Worktree"
  by (cases d; cases r) auto

lemma outcome_event:
  assumes "outcomes es l \<noteq> 0"
  shows "(\<exists>od err. Called l od err \<in> set es) \<or> (\<exists>d. KeptBy l d \<in> set es)"
proof -
  obtain e where e: "e \<in> set es" "outcomeOf e = Some l" using assms by (auto simp: outcomes_def filter_empty_conv)
  from e show ?thesis by - (cases e; simp; blast)
qed

text \<open>
  C5. Closing the run's scope leaks nothing. Once the root scope has been closed, under whatever
  interleaving of the other goroutines: the work in flight always comes to an end, after a bounded
  number of steps in any order; and then every scope nested anywhere below the root is closed and
  empty, no lease is left armed, and every lease that was taken with a give-back call has exactly one
  outcome: it was given back by that call, or it was kept, and kept only where the disposition says so,
  the resources of a surviving run (agent session, worktree, run record, hook session and tunnel) under
  \<open>Survive\<close> and the worktree under \<open>RetainEvidence\<close>.
\<close>

theorem scope_close_leaks_nothing:
  assumes "lease_start c0" and "lease_step\<^sup>*\<^sup>* c0 c" and "closedOf (rc_heap c) 0"
  shows "(\<exists>c'. lease_own\<^sup>*\<^sup>* c c' \<and> lease_rest c')
     \<and> (\<forall>n c'. (lease_own ^^ n) c c' \<longrightarrow> n \<le> lease_work c)
     \<and> (\<forall>c'. lease_own\<^sup>*\<^sup>* c c' \<and> lease_rest c' \<longrightarrow>
          (\<forall>s < length (hp_scopes (rc_heap c')). closedOf (rc_heap c') s \<and> itemsOf (rc_heap c') s = [])
        \<and> (\<forall>l. \<not> isArmed (rc_heap c') l)
        \<and> (\<forall>l. Taken l \<in> set (rc_log c') \<longrightarrow> outcomes (rc_log c') l = 1
             \<and> ((\<exists>od err. Called l od err \<in> set (rc_log c')) \<or> (\<exists>d. KeptBy l d \<in> set (rc_log c')
                 \<and> (d = Survive \<and> resourceOf (rc_heap c') l \<in> {AgentSession, Worktree, RunRecord, HookSession, TunnelProcess, TunnelPort}
                    \<or> d = RetainEvidence \<and> resourceOf (rc_heap c') l = Worktree)))))"
proof -
  have inv: "lease_inv c" using assms(1,2) by (rule lease.reach_inv)
  have fin: "(\<forall>s < length (hp_scopes (rc_heap c')). closedOf (rc_heap c') s \<and> itemsOf (rc_heap c') s = [])
      \<and> (\<forall>l. \<not> isArmed (rc_heap c') l) \<and> (\<forall>l. Taken l \<in> set (rc_log c') \<longrightarrow> outcomes (rc_log c') l = 1
             \<and> ((\<exists>od err. Called l od err \<in> set (rc_log c')) \<or> (\<exists>d. KeptBy l d \<in> set (rc_log c')
                 \<and> (d = Survive \<and> resourceOf (rc_heap c') l \<in> {AgentSession, Worktree, RunRecord, HookSession, TunnelProcess, TunnelPort}
                    \<or> d = RetainEvidence \<and> resourceOf (rc_heap c') l = Worktree))))"
    if "lease_own\<^sup>*\<^sup>* c c'" "lease_rest c'" for c'
  proof -
    have i: "lease_inv c'" using that(1) inv by (rule lease.own_path_inv)
    then have tr: "track_ok (rc_heap c') (rc_threads c')" by (simp add: lease_inv_def)
    have cl: "closedOf (rc_heap c') 0" using that(1) assms(3) by (rule lease_own_closed)
    note q = rest_tasks [OF that(2)]
    have "outcomes (rc_log c') l = 1" if t: "Taken l \<in> set (rc_log c')" for l
    proof -
      have "takens (rc_log c') l = outcomes (rc_log c') l + pendingAll (rc_threads c') l + of_bool (isArmed (rc_heap c') l)"
          "takens (rc_log c') l \<le> 1"
        using i unfolding lease_inv_def account_ok_def by blast+
      moreover have "takens (rc_log c') l > 0"
        using t by (auto simp: takens_def filter_empty_conv)
      ultimately show ?thesis
        using rest_spent(2) [OF tr q cl, of l] rest_pending [OF \<open>lease_rest c'\<close>, of l] by simp
    qed
    moreover have "(\<exists>od err. Called l od err \<in> set (rc_log c')) \<or> (\<exists>d. KeptBy l d \<in> set (rc_log c')
        \<and> (d = Survive \<and> resourceOf (rc_heap c') l \<in> {AgentSession, Worktree, RunRecord, HookSession, TunnelProcess, TunnelPort}
           \<or> d = RetainEvidence \<and> resourceOf (rc_heap c') l = Worktree))" if "outcomes (rc_log c') l = 1" for l
    proof -
      have "\<not> Releases d (resourceOf (rc_heap c') l)" if "KeptBy l d \<in> set (rc_log c')" for d
        using i that unfolding lease_inv_def disp_ok_def by blast
      then show ?thesis using outcome_event [of "rc_log c'" l] that unfolding kept_resources by fastforce
    qed
    ultimately show ?thesis using rest_closed [OF tr q cl] rest_spent [OF tr q cl] by simp
  qed
  have "n \<le> lease_work c" if "(lease_own ^^ n) c c'" for n c'
    using lease.own_path_bounded [OF that inv] by simp
  then show ?thesis using lease.settles [OF inv] fin by blast
qed

section \<open>The sequential operations are runs of the machine\<close>

fun eventReport :: "(nat \<Rightarrow> Resource) \<Rightarrow> LeaseEvent \<Rightarrow> Report" where
  "eventReport res (Called l od None) = emptyReport\<lparr>rp_Released := [res l]\<rparr>"
| "eventReport res (Called l od (Some e)) = emptyReport\<lparr>rp_Failures := [(res l, e)]\<rparr>"
| "eventReport res (KeptBy l d) = emptyReport\<lparr>rp_Kept := [res l]\<rparr>"
| "eventReport res (Taken l) = emptyReport"

fun reportOf :: "(nat \<Rightarrow> Resource) \<Rightarrow> LeaseEvent list \<Rightarrow> Report" where
  "reportOf res [] = emptyReport"
| "reportOf res (e # es) = Report_merge (eventReport res e) (reportOf res es)"

lemma Report_merge_empty [simp]: "Report_merge emptyReport r = r" "Report_merge r emptyReport = r"
  by (simp_all add: Report_merge_def emptyReport_def)

lemma Report_merge_assoc: "Report_merge (Report_merge a b) c = Report_merge a (Report_merge b c)"
  by (simp add: Report_merge_def)

lemma reportOf_append: "reportOf res (es @ fs) = Report_merge (reportOf res es) (reportOf res fs)"
  by (induction es) (simp_all add: Report_merge_assoc)

abbreviation cfg :: "'w Heap \<Rightarrow> 'w task list list \<Rightarrow> LeaseEvent list \<Rightarrow> 'w RunCfg" where
  "cfg h ths es \<equiv> \<lparr>rc_heap = h, rc_threads = ths, rc_log = es\<rparr>"

lemma own_task:
  assumes "i < length ths" and "runTask t h = (h', new, evs)"
  shows "lease_own (cfg h (ths[i := t # ts]) es) (cfg h' (ths[i := new @ ts]) (es @ evs))"
  using lease_own.run [of i "cfg h (ths[i := t # ts]) es" t ts h' new evs] assms by simp

lemma Lease_Give_run:
  assumes "i < length ths" and g: "Lease_Give d l h = (h', r)"
  shows "resourceOf h' = resourceOf h \<and> (\<forall>k. isArmed h' k \<longleftrightarrow> isArmed h k \<and> k \<noteq> l) \<and> (\<exists>evs. r = reportOf (resourceOf h) evs \<and>
     map outcomeOf evs = (if isArmed h l then [Some l] else []) \<and>
     lease_own\<^sup>*\<^sup>* (cfg h (ths[i := TGive d (HeldLease l) # ts]) es) (cfg h' (ths[i := ts]) (es @ evs)))"
proof (cases "spend l h")
  case (Pair fo h1)
  have arm: "isArmed h1 k \<longleftrightarrow> isArmed h k \<and> k \<noteq> l" for k using spend_simps(4) [of l h k] Pair by simp
  have fo: "isArmed h l \<longleftrightarrow> fo \<noteq> None" using Pair by (auto simp: spend_def isArmed_def split: if_splits)
  have res: "resourceOf h1 = resourceOf h" using spend_simps(3) [of l h] Pair by (simp add: fun_eq_iff)
  show ?thesis
  proof (cases fo)
    case None
    then have "h' = h1" "r = emptyReport" using g Pair
      by (auto simp: Lease_Give_def takeLease_def Let_def split: if_splits)
    moreover have "runTask (TGive d (HeldLease l)) h = (h1, [], [])" using Pair None by simp
    ultimately show ?thesis
      using own_task [OF assms(1), of "TGive d (HeldLease l)" h h1 "[]" "[]" ts es] res arm fo None
      by (intro conjI exI [of _ "[]"]) auto
  next
    case (Some f)
    show ?thesis
    proof (cases "Releases d (resourceOf h l)")
      case False
      then have "h' = h1" "r = emptyReport\<lparr>rp_Kept := [resourceOf h l]\<rparr>" using g Pair Some
        by (auto simp: Lease_Give_def)
      moreover have "runTask (TGive d (HeldLease l)) h = (h1, [], [KeptBy l d])" using Pair Some False by simp
      ultimately show ?thesis
        using own_task [OF assms(1), of "TGive d (HeldLease l)" h h1 "[]" "[KeptBy l d]" ts es] res arm fo Some
        by (intro conjI exI [of _ "[KeptBy l d]"]) auto
    next
      case True
      obtain h2 err where c: "callRelease f h1 = (h2, err)" by fastforce
      have "h' = h2" and r: "r = reportOf (resourceOf h) [Called l (Some d) err]"
        using g Pair Some True c by (auto simp: Lease_Give_def takeLease_def Let_def split: option.splits)
      moreover have "resourceOf h2 = resourceOf h"
        using res c callRelease_simps(1) [of f h1] observers_cong(2) [of h2 h1] by (simp add: fun_eq_iff)
      moreover have "isArmed h2 k \<longleftrightarrow> isArmed h k \<and> k \<noteq> l" for k
        using arm c callRelease_simps(1) [of f h1] observers_cong(1) [of h2 h1] by simp
      moreover have "runTask (TGive d (HeldLease l)) h = (h1, [TCall l (Some d) f], [])" using Pair Some True by simp
      moreover have "runTask (TCall l (Some d) f) h1 = (h2, [], [Called l (Some d) err])" using c by simp
      ultimately show ?thesis
        using own_task [OF assms(1), of "TGive d (HeldLease l)" h h1 "[TCall l (Some d) f]" "[]" ts es]
          own_task [OF assms(1), of "TCall l (Some d) f" h1 h2 "[]" "[Called l (Some d) err]" ts es] fo Some
        by (intro conjI exI [of _ "[Called l (Some d) err]"])
           (auto intro: converse_rtranclp_into_rtranclp)
    qed
  qed
qed

lemma closeItems_run:
  assumes "i < length ths" and "closeItems d xs h = (h', r)"
  shows "resourceOf h' = resourceOf h \<and> (\<exists>evs. r = reportOf (resourceOf h) evs \<and>
     (\<forall>ls. xs = map HeldLease ls \<and> distinct ls \<and> (\<forall>l \<in> set ls. isArmed h l) \<longrightarrow> map outcomeOf evs = map Some ls) \<and>
     lease_own\<^sup>*\<^sup>* (cfg h (ths[i := map (TGive d) xs @ ts]) es) (cfg h' (ths[i := ts]) (es @ evs)))"
  using assms(2)
proof (induction d xs h arbitrary: h' r ts es rule: closeItems.induct)
  case (1 d h)
  then show ?case by (intro conjI exI [of _ "[]"]) simp_all
next
  case (2 d l xs h)
  obtain h1 r1 where 1: "Lease_Give d l h = (h1, r1)" by fastforce
  obtain h2 r2 where 2: "closeItems d xs h1 = (h2, r2)" by fastforce
  have r: "h' = h2" "r = Report_merge r1 r2" using "2.prems" 1 2 by simp_all
  from Lease_Give_run [OF assms(1) 1, of "map (TGive d) xs @ ts" es] obtain ev1
    where a: "resourceOf h1 = resourceOf h" "r1 = reportOf (resourceOf h) ev1"
      "\<forall>k. isArmed h1 k \<longleftrightarrow> isArmed h k \<and> k \<noteq> l" "map outcomeOf ev1 = (if isArmed h l then [Some l] else [])"
      "lease_own\<^sup>*\<^sup>* (cfg h (ths[i := map (TGive d) (HeldLease l # xs) @ ts]) es)
        (cfg h1 (ths[i := map (TGive d) xs @ ts]) (es @ ev1))" by auto
  from "2.IH" [OF 1 [symmetric] refl 2, of ts "es @ ev1"] obtain ev2
    where b: "resourceOf h2 = resourceOf h1" "r2 = reportOf (resourceOf h1) ev2"
      "\<forall>ls. xs = map HeldLease ls \<and> distinct ls \<and> (\<forall>l \<in> set ls. isArmed h1 l) \<longrightarrow> map outcomeOf ev2 = map Some ls"
      "lease_own\<^sup>*\<^sup>* (cfg h1 (ths[i := map (TGive d) xs @ ts]) (es @ ev1)) (cfg h2 (ths[i := ts]) ((es @ ev1) @ ev2))" by auto
  have "map outcomeOf (ev1 @ ev2) = map Some ls"
    if ls: "HeldLease l # xs = map HeldLease ls" "distinct ls" "\<forall>l \<in> set ls. isArmed h l" for ls
  proof -
    obtain ls' where "ls = l # ls'" "xs = map HeldLease ls'" using ls(1) by (cases ls) auto
    moreover from this have "map outcomeOf ev2 = map Some ls'" using ls(2,3) a(3) b(3) by auto
    ultimately show ?thesis using a(4) ls(3) by simp
  qed
  then show ?case
    using rtranclp_trans [OF a(5) b(4)] a(1,2) b(1,2) r
    by (intro conjI exI [of _ "ev1 @ ev2"]) (simp_all add: reportOf_append)
next
  case (3 d s xs h)
  obtain items h1 where 1: "takeItems d s h = (items, h1)" by fastforce
  obtain h2 r2 where 2: "closeItems d (rev items) h1 = (h2, r2)" by fastforce
  obtain h3 r3 where 3: "closeItems d xs h2 = (h3, r3)" by fastforce
  have r: "h' = h3" "r = Report_merge r2 r3" using "3.prems" 1 2 3 by simp_all
  have res: "resourceOf h1 = resourceOf h"
    using takeItems_simps(1) [of d s h] observers_cong(2) [of h1 h] 1 by (simp add: fun_eq_iff)
  have z: "lease_own (cfg h (ths[i := map (TGive d) (HeldScope s # xs) @ ts]) es)
      (cfg h1 (ths[i := map (TGive d) (rev items) @ map (TGive d) xs @ ts]) es)"
    using own_task [OF assms(1), of "TGive d (HeldScope s)" h h1 "map (TGive d) (rev items)" "[]" "map (TGive d) xs @ ts" es] 1
    by simp
  from "3.IH"(1) [OF 1 [symmetric] refl 2, of "map (TGive d) xs @ ts" es] obtain ev1
    where a: "resourceOf h2 = resourceOf h1" "r2 = reportOf (resourceOf h1) ev1"
      "lease_own\<^sup>*\<^sup>* (cfg h1 (ths[i := map (TGive d) (rev items) @ map (TGive d) xs @ ts]) es)
        (cfg h2 (ths[i := map (TGive d) xs @ ts]) (es @ ev1))" by auto
  from "3.IH"(2) [OF 1 [symmetric] refl 2 [symmetric] refl 3, of ts "es @ ev1"] obtain ev2
    where b: "resourceOf h3 = resourceOf h2" "r3 = reportOf (resourceOf h2) ev2"
      "lease_own\<^sup>*\<^sup>* (cfg h2 (ths[i := map (TGive d) xs @ ts]) (es @ ev1)) (cfg h3 (ths[i := ts]) ((es @ ev1) @ ev2))" by auto
  have "HeldScope s # xs \<noteq> map HeldLease ls" for ls by (cases ls) auto
  then show ?case
    using converse_rtranclp_into_rtranclp [OF z rtranclp_trans [OF a(3) b(3)]] a(1,2) b(1,2) r res
    by (intro conjI exI [of _ "ev1 @ ev2"]) (simp_all add: reportOf_append)
qed

lemma closed_empty_stays:
  "lease_own\<^sup>*\<^sup>* c c' \<Longrightarrow> itemsOf (rc_heap c) s = [] \<Longrightarrow> itemsOf (rc_heap c') s = []"
proof (induction rule: rtranclp_induct)
  case (step y z)
  from step(2) step.IH [OF step.prems] show ?case
    by (induction rule: lease_own.induct) (auto dest: runTask_items(2))
qed

lemma own_scopes_length: "lease_own\<^sup>*\<^sup>* c c' \<Longrightarrow> length (hp_scopes (rc_heap c')) = length (hp_scopes (rc_heap c))"
proof (induction rule: rtranclp_induct)
  case (step y z)
  from step(2) step.IH show ?case
    by (induction rule: lease_own.induct) (auto dest: runTask_frame(2))
qed simp

lemma takeItems_again:
  assumes "closedOf h s" and "itemsOf h s = []"
  shows "takeItems d s h = ([], h)"
proof -
  have "(hp_scopes h ! s)\<lparr>sc_items := []\<rparr> = hp_scopes h ! s"
    using assms by (simp add: closedOf_def itemsOf_def)
  then have "h\<lparr>hp_scopes := (hp_scopes h)[s := (hp_scopes h ! s)\<lparr>sc_items := []\<rparr>]\<rparr> = h"
    by (simp only: list_update_id) simp
  then show ?thesis
    using assms by (simp add: takeItems_def closedOf_def itemsOf_def Let_def)
qed

text \<open>
  C6. A sequential close is a run of the machine. What \<open>Scope_Close\<close> returns is what one goroutine
  that closes the scope reaches on its own: the same heap and world, and a report that lists, in
  the order of the log, the resources of the leases it gave back, kept or failed to give back. The
  leases of a scope with no nested scope are given back in the reverse of the order they were taken.
  And the close is idempotent: a second close, under any disposition, changes nothing and reports
  nothing.
\<close>

theorem Scope_Close_refines:
  assumes "i < length (rc_threads c)" and "rc_threads c ! i = [TGive d (HeldScope s)]"
    and "s < length (hp_scopes (rc_heap c))" and "Scope_Close d s (rc_heap c) = (h', r)"
  shows "(\<exists>evs. r = reportOf (resourceOf (rc_heap c)) evs
       \<and> (\<forall>ls. itemsOf (rc_heap c) s = map HeldLease ls \<and> distinct ls \<and> (\<forall>l \<in> set ls. isArmed (rc_heap c) l)
            \<longrightarrow> map outcomeOf evs = map Some (rev ls))
       \<and> lease_own\<^sup>*\<^sup>* c \<lparr>rc_heap = h', rc_threads = (rc_threads c)[i := []], rc_log = rc_log c @ evs\<rparr>)
     \<and> (\<forall>d'. Scope_Close d' s h' = (h', emptyReport))"
proof -
  obtain items h1 where t: "takeItems d s (rc_heap c) = (items, h1)" by fastforce
  then have cl: "closeItems d (rev items) h1 = (h', r)" using assms(4) by (simp add: Scope_Close_def)
  have items: "items = itemsOf (rc_heap c) s" using takeItems_simps(3) [of d s "rc_heap c"] t by simp
  have res: "resourceOf h1 = resourceOf (rc_heap c)" and arm: "isArmed h1 = isArmed (rc_heap c)"
    using takeItems_simps(1) [of d s "rc_heap c"] observers_cong(1,2) [of h1 "rc_heap c"] t by (simp_all add: fun_eq_iff)
  have "c = cfg (rc_heap c) ((rc_threads c)[i := [TGive d (HeldScope s)]]) (rc_log c)"
    using assms(2) list_update_id [of "rc_threads c" i] by simp
  moreover have "lease_own (cfg (rc_heap c) ((rc_threads c)[i := [TGive d (HeldScope s)]]) (rc_log c))
      (cfg h1 ((rc_threads c)[i := map (TGive d) (rev items) @ []]) (rc_log c))"
    using own_task [OF assms(1), of "TGive d (HeldScope s)" "rc_heap c" h1 "map (TGive d) (rev items)" "[]" "[]" "rc_log c"] t
    by simp
  ultimately have one: "lease_own c (cfg h1 ((rc_threads c)[i := map (TGive d) (rev items) @ []]) (rc_log c))" by simp
  from closeItems_run [OF assms(1) cl, of "[]" "rc_log c"] obtain evs
    where e: "r = reportOf (resourceOf h1) evs"
      "\<forall>ls. rev items = map HeldLease ls \<and> distinct ls \<and> (\<forall>l \<in> set ls. isArmed h1 l) \<longrightarrow> map outcomeOf evs = map Some ls"
      "lease_own\<^sup>*\<^sup>* (cfg h1 ((rc_threads c)[i := map (TGive d) (rev items) @ []]) (rc_log c))
         (cfg h' ((rc_threads c)[i := []]) (rc_log c @ evs))" by blast
  have lifo: "map outcomeOf evs = map Some (rev ls)"
    if "itemsOf (rc_heap c) s = map HeldLease ls" "distinct ls" "\<forall>l \<in> set ls. isArmed (rc_heap c) l" for ls
    using e(2) [rule_format, of "rev ls"] that by (simp add: items arm rev_map)
  have "closedOf h1 s" "itemsOf h1 s = []"
    using takeItems_simps(4,5) [of d s "rc_heap c" s] t assms(3) by simp_all
  then have "closedOf h' s" "itemsOf h' s = []"
    using lease_own_closed [OF e(3), of s] closed_empty_stays [OF e(3), of s] by simp_all
  then have "Scope_Close d' s h' = (h', emptyReport)" for d'
    by (simp add: Scope_Close_def takeItems_again)
  then show ?thesis
    using converse_rtranclp_into_rtranclp [OF one e(3)] e(1) res lifo by (intro conjI exI [of _ evs]) auto
qed

section \<open>Concrete runs\<close>

text \<open>Two goroutines: one holds a worktree and closes the run's scope, the other does nothing.\<close>

definition wit_call :: "nat give_back" where "wit_call w = (Suc w, None)"

definition wit_c0 :: "nat RunCfg" where
  "wit_c0 = cfg \<lparr>hp_leases = [], hp_scopes = [emptyScope], hp_world = 0\<rparr> [[], []] []"

definition wit_c1 :: "nat RunCfg" where
  "wit_c1 = cfg \<lparr>hp_leases = [\<lparr>le_resource = Worktree, le_release = Some wit_call\<rparr>],
     hp_scopes = [emptyScope\<lparr>sc_items := [HeldLease 0]\<rparr>], hp_world = 0\<rparr> [[], []] [Taken 0]"

definition wit_c2 :: "nat RunCfg" where
  "wit_c2 = wit_c1\<lparr>rc_threads := [[TGive Survive (HeldScope 0)], []]\<rparr>"

definition wit_c3 :: "nat RunCfg" where
  "wit_c3 = cfg \<lparr>hp_leases = [\<lparr>le_resource = Worktree, le_release = Some wit_call\<rparr>],
     hp_scopes = [\<lparr>sc_items = [], sc_closed = True, sc_final = Survive\<rparr>], hp_world = 0\<rparr>
     [[TGive Survive (HeldLease 0)], []] [Taken 0]"

definition wit_c4 :: "nat RunCfg" where
  "wit_c4 = cfg \<lparr>hp_leases = [\<lparr>le_resource = Worktree, le_release = None\<rparr>],
     hp_scopes = [\<lparr>sc_items = [], sc_closed = True, sc_final = Survive\<rparr>], hp_world = 0\<rparr>
     [[], []] [Taken 0, KeptBy 0 Survive]"

lemmas wit_cfgs = wit_c0_def wit_c1_def wit_c2_def wit_c3_def wit_c4_def

lemma wit_path: "lease_step\<^sup>*\<^sup>* wit_c0 wit_c3" "lease_step\<^sup>*\<^sup>* wit_c0 wit_c4" "lease_own wit_c2 wit_c3"
proof -
  have 1: "lease_step wit_c0 wit_c1"
    using lease_step.hold [of 0 wit_c0 0 Worktree "Some wit_call" 0 _ _ None]
    by (simp add: wit_cfgs heap_defs emptyScope_def adding_def Let_def)
  have 2: "lease_step wit_c1 wit_c2"
    using lease_step.close [of 0 wit_c1 0 Survive] by (simp add: wit_cfgs)
  have 3: "lease_own wit_c2 wit_c3"
    using lease_own.run [of 0 wit_c2 "TGive Survive (HeldScope 0)" "[]"]
    by (simp add: wit_cfgs heap_defs emptyScope_def Let_def)
  have 4: "lease_own wit_c3 wit_c4"
    using lease_own.run [of 0 wit_c3 "TGive Survive (HeldLease 0)" "[]"]
    by (simp add: wit_cfgs heap_defs Let_def)
  show "lease_own wit_c2 wit_c3" by (rule 3)
  have "lease_step\<^sup>*\<^sup>* wit_c0 wit_c2" using 1 2 by (meson rtranclp.rtrancl_into_rtrancl rtranclp.rtrancl_refl)
  then show "lease_step\<^sup>*\<^sup>* wit_c0 wit_c3" using 3 by (meson lease_step.own rtranclp.rtrancl_into_rtrancl)
  then show "lease_step\<^sup>*\<^sup>* wit_c0 wit_c4" using 4 by (meson lease_step.own rtranclp.rtrancl_into_rtrancl)
qed

lemma wit_start: "lease_start wit_c0"
  by (simp add: lease_start_def wit_cfgs)

theorem lease_given_back_once_witness:
  "KeptBy 0 Survive \<in> set (rc_log wit_c4) \<and> Called 0 None None \<notin> set (rc_log wit_c4)"
  using lease_given_back_once [OF wit_start wit_path(2), where l = 0 and d = Survive]
  by (simp add: wit_c4_def)

theorem scope_close_leaks_nothing_witness:
  "\<exists>c'. lease_own\<^sup>*\<^sup>* wit_c3 c' \<and> lease_rest c' \<and> \<not> isArmed (rc_heap c') 0"
proof -
  have "closedOf (rc_heap wit_c3) 0" by (simp add: wit_c3_def closedOf_def)
  from scope_close_leaks_nothing [OF wit_start wit_path(1) this] show ?thesis by blast
qed

theorem Scope_Close_refines_witness:
  "\<exists>evs. map outcomeOf evs = [Some 0] \<and> lease_own\<^sup>*\<^sup>* wit_c2
     \<lparr>rc_heap = fst (Scope_Close Survive 0 (rc_heap wit_c2)), rc_threads = [[], []], rc_log = [Taken 0] @ evs\<rparr>"
proof -
  have c: "rc_threads wit_c2 = [[TGive Survive (HeldScope 0)], []]" "rc_log wit_c2 = [Taken 0]"
    "itemsOf (rc_heap wit_c2) 0 = map HeldLease [0]" "isArmed (rc_heap wit_c2) 0" "0 < length (hp_scopes (rc_heap wit_c2))"
    by (simp_all add: wit_c2_def wit_c1_def heap_defs)
  obtain evs where "\<forall>ls. itemsOf (rc_heap wit_c2) 0 = map HeldLease ls \<and> distinct ls \<and> (\<forall>l \<in> set ls. isArmed (rc_heap wit_c2) l)
            \<longrightarrow> map outcomeOf evs = map Some (rev ls)"
      "lease_own\<^sup>*\<^sup>* wit_c2 \<lparr>rc_heap = fst (Scope_Close Survive 0 (rc_heap wit_c2)),
         rc_threads = (rc_threads wit_c2)[0 := []], rc_log = rc_log wit_c2 @ evs\<rparr>"
    using Scope_Close_refines [of 0 wit_c2 Survive 0 "fst (Scope_Close Survive 0 (rc_heap wit_c2))"
        "snd (Scope_Close Survive 0 (rc_heap wit_c2))"] c(1,5) by auto
  then show ?thesis using c by (intro exI [of _ evs]) (auto dest: spec [of _ "[0]"])
qed

end
