(* ===== verification/Merge_Queue.thy ===== *)
theory Merge_Queue
  imports Transition_Systems
begin

text \<open>
  The merge queue, \<^verbatim>\<open>internal/mergeq/mergeq.go\<close>: the exclusion domain of the daemon. One owner
  goroutine serves submissions in intake order; any number of submitters wait for their result.
  A submission is a number; its result channel of capacity one is the field \<open>sb_result\<close>. Contexts
  are numbers too, and the set of cancelled ones only grows. A critical section is a function of
  the outside world that also sees whether its context is cancelled; it is assumed to return. Each
  step below is what one goroutine does between two synchronisation points. Log lines and the
  enqueue time, which only they use, are left out; a ghost list records what the owner did with
  each submission.
\<close>

section \<open>State\<close>

datatype MergeError = ErrQueueStopped | CtxCancelled | CriticalError string

type_synonym 'w critical = "bool \<Rightarrow> 'w \<Rightarrow> 'w \<times> string option"

record 'w job =
  jb_sub :: nat
  jb_ctx :: nat
  jb_seq :: "64 word"
  jb_label :: string
  jb_critical :: "'w critical"

datatype SubPc = SubIntake | SubNudge | SubWait | SubDone "MergeError option"

record 'w Submission =
  sb_ctx :: nat
  sb_label :: string
  sb_critical :: "'w critical"
  sb_pc :: SubPc
  sb_result :: "MergeError option option"

datatype 'w Owner =
    OwnTop | OwnPop | OwnWait | OwnGate "'w job" | OwnRun "'w job" | OwnStop "'w job list" | OwnExited

datatype Handled = Ran nat bool | Skipped nat | Refused nat

record 'w MQ =
  mq_nextSeq :: "64 word"
  mq_pending :: "'w job list"
  mq_stopped :: bool
  mq_wake :: bool
  mq_done :: bool
  mq_owner :: "'w Owner"
  mq_subs :: "'w Submission list"
  mq_cancelled :: "nat set"
  mq_startCancelled :: bool
  mq_world :: 'w
  mq_intake :: "nat list"
  mq_handled :: "Handled list"

section \<open>Operations\<close>

text \<open>\<^verbatim>\<open>j.result <- r\<close>\<close>

definition sendResult :: "nat \<Rightarrow> MergeError option \<Rightarrow> 'w MQ \<Rightarrow> 'w MQ" where
  "sendResult i r q = q\<lparr>mq_subs := (mq_subs q)[i := (mq_subs q ! i)\<lparr>sb_result := Some r\<rparr>]\<rparr>"

definition setPc :: "nat \<Rightarrow> SubPc \<Rightarrow> 'w MQ \<Rightarrow> 'w MQ" where
  "setPc i pc q = q\<lparr>mq_subs := (mq_subs q)[i := (mq_subs q ! i)\<lparr>sb_pc := pc\<rparr>]\<rparr>"

text \<open>\<open>New\<close> and the owner goroutine that \<open>Start\<close> launches.\<close>

definition MergeQueue_New :: "'w \<Rightarrow> 'w MQ" where
  "MergeQueue_New w = \<lparr>mq_nextSeq = 0, mq_pending = [], mq_stopped = False, mq_wake = False, mq_done = False,
     mq_owner = OwnTop, mq_subs = [], mq_cancelled = {}, mq_startCancelled = False, mq_world = w,
     mq_intake = [], mq_handled = []\<rparr>"

text \<open>The first line of \<open>Submit\<close>: a context already cancelled returns at once.\<close>

definition Submit_begin :: "nat \<Rightarrow> string \<Rightarrow> 'w critical \<Rightarrow> 'w MQ \<Rightarrow> 'w MQ" where
  "Submit_begin k label critical q = q\<lparr>mq_subs := mq_subs q @
     [\<lparr>sb_ctx = k, sb_label = label, sb_critical = critical,
       sb_pc = (if k \<in> mq_cancelled q then SubDone (Some CtxCancelled) else SubIntake), sb_result = None\<rparr>]\<rparr>"

text \<open>The critical section of \<open>Submit\<close>.\<close>

definition Submit_intake :: "nat \<Rightarrow> 'w MQ \<Rightarrow> 'w MQ" where
  "Submit_intake i q =
     (let sb = mq_subs q ! i in
      if mq_stopped q then setPc i (SubDone (Some ErrQueueStopped)) q
      else setPc i SubNudge
        (q\<lparr>mq_nextSeq := mq_nextSeq q + 1,
           mq_pending := mq_pending q @ [\<lparr>jb_sub = i, jb_ctx = sb_ctx sb, jb_seq = mq_nextSeq q,
             jb_label = sb_label sb, jb_critical = sb_critical sb\<rparr>],
           mq_intake := mq_intake q @ [i]\<rparr>))"

text \<open>The non-blocking send to \<open>wake\<close>.\<close>

definition Submit_nudge :: "nat \<Rightarrow> 'w MQ \<Rightarrow> 'w MQ" where
  "Submit_nudge i q = setPc i SubWait (q\<lparr>mq_wake := True\<rparr>)"

definition pop :: "'w MQ \<Rightarrow> ('w job \<times> 'w MQ) option" where
  "pop q = (case mq_pending q of [] \<Rightarrow> None | j # js \<Rightarrow> Some (j, q\<lparr>mq_pending := js\<rparr>))"

text \<open>The critical section of \<open>stop\<close>; the sends of its loop follow one by one.\<close>

definition stop :: "'w MQ \<Rightarrow> 'w MQ" where
  "stop q = q\<lparr>mq_stopped := True, mq_pending := [], mq_owner := OwnStop (mq_pending q)\<rparr>"

definition stopSend :: "'w job \<Rightarrow> 'w job list \<Rightarrow> 'w MQ \<Rightarrow> 'w MQ" where
  "stopSend j js q = (sendResult (jb_sub j) (Some ErrQueueStopped) q)
     \<lparr>mq_owner := OwnStop js, mq_handled := mq_handled q @ [Refused (jb_sub j)]\<rparr>"

text \<open>\<open>execute\<close>: the gate on the submitter's context, and the critical section with its result.\<close>

definition execute_gate :: "'w job \<Rightarrow> 'w MQ \<Rightarrow> 'w MQ" where
  "execute_gate j q =
     (if jb_ctx j \<in> mq_cancelled q
      then (sendResult (jb_sub j) (Some CtxCancelled) q)
        \<lparr>mq_owner := OwnTop, mq_handled := mq_handled q @ [Skipped (jb_sub j)]\<rparr>
      else q\<lparr>mq_owner := OwnRun j\<rparr>)"

definition execute_critical :: "'w job \<Rightarrow> 'w MQ \<Rightarrow> 'w MQ" where
  "execute_critical j q =
     (let cancelled = jb_ctx j \<in> mq_cancelled q; (w, err) = jb_critical j cancelled (mq_world q) in
      (sendResult (jb_sub j) (map_option CriticalError err) q)
        \<lparr>mq_world := w, mq_owner := OwnTop, mq_handled := mq_handled q @ [Ran (jb_sub j) cancelled]\<rparr>)"

section \<open>Steps\<close>

definition pcOf :: "'w MQ \<Rightarrow> nat \<Rightarrow> SubPc" where "pcOf q i = sb_pc (mq_subs q ! i)"
definition resultOf :: "'w MQ \<Rightarrow> nat \<Rightarrow> MergeError option option" where "resultOf q i = sb_result (mq_subs q ! i)"
definition critOf :: "'w MQ \<Rightarrow> nat \<Rightarrow> 'w critical" where "critOf q i = sb_critical (mq_subs q ! i)"
definition ctxOf :: "'w MQ \<Rightarrow> nat \<Rightarrow> nat" where "ctxOf q i = sb_ctx (mq_subs q ! i)"

lemmas observers = pcOf_def resultOf_def critOf_def ctxOf_def

inductive mq_own :: "'w MQ \<Rightarrow> 'w MQ \<Rightarrow> bool" where
  intake: "\<lbrakk> i < length (mq_subs q); pcOf q i = SubIntake \<rbrakk> \<Longrightarrow> mq_own q (Submit_intake i q)"
| nudge: "\<lbrakk> i < length (mq_subs q); pcOf q i = SubNudge \<rbrakk> \<Longrightarrow> mq_own q (Submit_nudge i q)"
| receive: "\<lbrakk> i < length (mq_subs q); pcOf q i = SubWait; resultOf q i = Some r \<rbrakk> \<Longrightarrow>
     mq_own q (setPc i (SubDone r) q)"
| top_stop: "\<lbrakk> mq_owner q = OwnTop; mq_startCancelled q \<rbrakk> \<Longrightarrow> mq_own q (stop q)"
| top_check: "\<lbrakk> mq_owner q = OwnTop; \<not> mq_startCancelled q \<rbrakk> \<Longrightarrow> mq_own q (q\<lparr>mq_owner := OwnPop\<rparr>)"
| pops: "\<lbrakk> mq_owner q = OwnPop; pop q = Some (j, q') \<rbrakk> \<Longrightarrow> mq_own q (q'\<lparr>mq_owner := OwnGate j\<rparr>)"
| pop_none: "\<lbrakk> mq_owner q = OwnPop; pop q = None \<rbrakk> \<Longrightarrow> mq_own q (q\<lparr>mq_owner := OwnWait\<rparr>)"
| wait_stop: "\<lbrakk> mq_owner q = OwnWait; mq_startCancelled q \<rbrakk> \<Longrightarrow> mq_own q (stop q)"
| wait_wake: "\<lbrakk> mq_owner q = OwnWait; mq_wake q \<rbrakk> \<Longrightarrow> mq_own q (q\<lparr>mq_wake := False, mq_owner := OwnTop\<rparr>)"
| gate: "mq_owner q = OwnGate j \<Longrightarrow> mq_own q (execute_gate j q)"
| critical: "mq_owner q = OwnRun j \<Longrightarrow> mq_own q (execute_critical j q)"
| refuse: "mq_owner q = OwnStop (j # js) \<Longrightarrow> mq_own q (stopSend j js q)"
| exits: "mq_owner q = OwnStop [] \<Longrightarrow> mq_own q (q\<lparr>mq_owner := OwnExited, mq_done := True\<rparr>)"

text \<open>The environment submits, and cancels the context of a submission or the start context.\<close>

inductive mq_step :: "'w MQ \<Rightarrow> 'w MQ \<Rightarrow> bool" where
  own: "mq_own q q' \<Longrightarrow> mq_step q q'"
| submit: "mq_step q (Submit_begin k label critical q)"
| cancel: "mq_step q (q\<lparr>mq_cancelled := insert k (mq_cancelled q)\<rparr>)"
| cancelStart: "mq_step q (q\<lparr>mq_startCancelled := True\<rparr>)"

section \<open>Invariants\<close>

fun handledId :: "Handled \<Rightarrow> nat" where
  "handledId (Ran i c) = i" | "handledId (Skipped i) = i" | "handledId (Refused i) = i"

fun ownerJobs :: "'w Owner \<Rightarrow> 'w job list" where
  "ownerJobs (OwnGate j) = [j]" | "ownerJobs (OwnRun j) = [j]" | "ownerJobs (OwnStop js) = js"
| "ownerJobs _ = []"

definition queued :: "'w MQ \<Rightarrow> 'w job list" where
  "queued q = ownerJobs (mq_owner q) @ mq_pending q"

lemmas mq_ops = Submit_begin_def Submit_intake_def Submit_nudge_def pop_def stop_def stopSend_def
  execute_gate_def execute_critical_def

lemma setPc_simps [simp]:
  "mq_nextSeq (setPc i pc q) = mq_nextSeq q" "mq_pending (setPc i pc q) = mq_pending q"
  "mq_stopped (setPc i pc q) = mq_stopped q" "mq_wake (setPc i pc q) = mq_wake q" "mq_done (setPc i pc q) = mq_done q"
  "mq_owner (setPc i pc q) = mq_owner q" "length (mq_subs (setPc i pc q)) = length (mq_subs q)"
  "mq_cancelled (setPc i pc q) = mq_cancelled q" "mq_startCancelled (setPc i pc q) = mq_startCancelled q"
  "mq_world (setPc i pc q) = mq_world q" "mq_intake (setPc i pc q) = mq_intake q" "mq_handled (setPc i pc q) = mq_handled q"
  "queued (setPc i pc q) = queued q"
  "pcOf (setPc i pc q) k = (if k = i \<and> i < length (mq_subs q) then pc else pcOf q k)"
  "resultOf (setPc i pc q) k = resultOf q k" "critOf (setPc i pc q) k = critOf q k" "ctxOf (setPc i pc q) k = ctxOf q k"
  by (auto simp: setPc_def observers nth_update_if queued_def)

lemma sendResult_simps [simp]:
  "mq_nextSeq (sendResult i r q) = mq_nextSeq q" "mq_pending (sendResult i r q) = mq_pending q"
  "mq_stopped (sendResult i r q) = mq_stopped q" "mq_wake (sendResult i r q) = mq_wake q" "mq_done (sendResult i r q) = mq_done q"
  "mq_owner (sendResult i r q) = mq_owner q" "length (mq_subs (sendResult i r q)) = length (mq_subs q)"
  "mq_cancelled (sendResult i r q) = mq_cancelled q" "mq_startCancelled (sendResult i r q) = mq_startCancelled q"
  "mq_world (sendResult i r q) = mq_world q" "mq_intake (sendResult i r q) = mq_intake q" "mq_handled (sendResult i r q) = mq_handled q"
  "queued (sendResult i r q) = queued q"
  "pcOf (sendResult i r q) k = pcOf q k"
  "resultOf (sendResult i r q) k = (if k = i \<and> i < length (mq_subs q) then Some r else resultOf q k)"
  "critOf (sendResult i r q) k = critOf q k" "ctxOf (sendResult i r q) k = ctxOf q k"
  by (auto simp: sendResult_def observers nth_update_if queued_def)

lemma frame_simps [simp]:
  "pcOf (q\<lparr>mq_owner := ow\<rparr>) k = pcOf q k" "pcOf (q\<lparr>mq_wake := b\<rparr>) k = pcOf q k" "pcOf (q\<lparr>mq_done := b\<rparr>) k = pcOf q k"
  "pcOf (q\<lparr>mq_pending := js\<rparr>) k = pcOf q k" "pcOf (q\<lparr>mq_handled := hs\<rparr>) k = pcOf q k" "pcOf (q\<lparr>mq_world := w\<rparr>) k = pcOf q k"
  "pcOf (q\<lparr>mq_intake := is\<rparr>) k = pcOf q k" "pcOf (q\<lparr>mq_nextSeq := n\<rparr>) k = pcOf q k" "pcOf (q\<lparr>mq_stopped := b\<rparr>) k = pcOf q k"
  "pcOf (q\<lparr>mq_cancelled := S\<rparr>) k = pcOf q k" "pcOf (q\<lparr>mq_startCancelled := b\<rparr>) k = pcOf q k"
  "resultOf (q\<lparr>mq_owner := ow\<rparr>) k = resultOf q k" "resultOf (q\<lparr>mq_wake := b\<rparr>) k = resultOf q k" "resultOf (q\<lparr>mq_done := b\<rparr>) k = resultOf q k"
  "resultOf (q\<lparr>mq_pending := js\<rparr>) k = resultOf q k" "resultOf (q\<lparr>mq_handled := hs\<rparr>) k = resultOf q k" "resultOf (q\<lparr>mq_world := w\<rparr>) k = resultOf q k"
  "resultOf (q\<lparr>mq_intake := is\<rparr>) k = resultOf q k" "resultOf (q\<lparr>mq_nextSeq := n\<rparr>) k = resultOf q k" "resultOf (q\<lparr>mq_stopped := b\<rparr>) k = resultOf q k"
  "resultOf (q\<lparr>mq_cancelled := S\<rparr>) k = resultOf q k" "resultOf (q\<lparr>mq_startCancelled := b\<rparr>) k = resultOf q k"
  "critOf (q\<lparr>mq_owner := ow\<rparr>) k = critOf q k" "critOf (q\<lparr>mq_wake := b\<rparr>) k = critOf q k" "critOf (q\<lparr>mq_done := b\<rparr>) k = critOf q k"
  "critOf (q\<lparr>mq_pending := js\<rparr>) k = critOf q k" "critOf (q\<lparr>mq_handled := hs\<rparr>) k = critOf q k" "critOf (q\<lparr>mq_world := w\<rparr>) k = critOf q k"
  "critOf (q\<lparr>mq_intake := is\<rparr>) k = critOf q k" "critOf (q\<lparr>mq_nextSeq := n\<rparr>) k = critOf q k" "critOf (q\<lparr>mq_stopped := b\<rparr>) k = critOf q k"
  "critOf (q\<lparr>mq_cancelled := S\<rparr>) k = critOf q k" "critOf (q\<lparr>mq_startCancelled := b\<rparr>) k = critOf q k"
  "ctxOf (q\<lparr>mq_owner := ow\<rparr>) k = ctxOf q k" "ctxOf (q\<lparr>mq_wake := b\<rparr>) k = ctxOf q k" "ctxOf (q\<lparr>mq_done := b\<rparr>) k = ctxOf q k"
  "ctxOf (q\<lparr>mq_pending := js\<rparr>) k = ctxOf q k" "ctxOf (q\<lparr>mq_handled := hs\<rparr>) k = ctxOf q k" "ctxOf (q\<lparr>mq_world := w\<rparr>) k = ctxOf q k"
  "ctxOf (q\<lparr>mq_intake := is\<rparr>) k = ctxOf q k" "ctxOf (q\<lparr>mq_nextSeq := n\<rparr>) k = ctxOf q k" "ctxOf (q\<lparr>mq_stopped := b\<rparr>) k = ctxOf q k"
  "ctxOf (q\<lparr>mq_cancelled := S\<rparr>) k = ctxOf q k" "ctxOf (q\<lparr>mq_startCancelled := b\<rparr>) k = ctxOf q k"
  by (simp_all add: observers)

definition order_inv :: "'w MQ \<Rightarrow> bool" where
  "order_inv q \<longleftrightarrow> mq_intake q = map handledId (mq_handled q) @ map jb_sub (queued q)"

lemma order_own: "mq_own q q' \<Longrightarrow> order_inv q \<Longrightarrow> order_inv q'"
  by (induction rule: mq_own.induct)
     (auto simp: order_inv_def queued_def mq_ops Let_def split: list.splits prod.splits)

definition intake_inv :: "'w MQ \<Rightarrow> bool" where
  "intake_inv q \<longleftrightarrow> distinct (mq_intake q) \<and>
     (\<forall>i. i \<in> set (mq_intake q) \<longrightarrow> i < length (mq_subs q) \<and> pcOf q i \<noteq> SubIntake)"

lemma intake_own: "mq_own q q' \<Longrightarrow> intake_inv q \<Longrightarrow> intake_inv q'"
  by (induction rule: mq_own.induct)
     (auto simp: intake_inv_def mq_ops Let_def split: list.splits prod.splits)

definition seq_inv :: "'w MQ \<Rightarrow> bool" where
  "seq_inv q \<longleftrightarrow> mq_nextSeq q = word_of_nat (length (mq_intake q))
     \<and> map jb_seq (queued q) = map word_of_nat [length (mq_handled q)..<length (mq_intake q)]
     \<and> length (mq_handled q) + length (queued q) = length (mq_intake q)"

lemma seq_own: "mq_own q q' \<Longrightarrow> seq_inv q \<Longrightarrow> seq_inv q'"
  by (induction rule: mq_own.induct)
     (auto simp: seq_inv_def queued_def mq_ops Let_def upt_conv_Cons split: list.splits prod.splits)

definition job_inv :: "'w MQ \<Rightarrow> bool" where
  "job_inv q \<longleftrightarrow> (\<forall>j \<in> set (queued q). jb_critical j = critOf q (jb_sub j) \<and> jb_ctx j = ctxOf q (jb_sub j))"

lemma job_own: "mq_own q q' \<Longrightarrow> job_inv q \<Longrightarrow> job_inv q'"
  by (induction rule: mq_own.induct)
     (auto simp: job_inv_def queued_def mq_ops Let_def critOf_def [symmetric] ctxOf_def [symmetric]
       split: list.splits prod.splits if_splits)

definition stop_inv :: "'w MQ \<Rightarrow> bool" where
  "stop_inv q \<longleftrightarrow> (mq_stopped q \<longleftrightarrow> (\<exists>js. mq_owner q = OwnStop js) \<or> mq_owner q = OwnExited)
     \<and> (mq_stopped q \<longrightarrow> mq_pending q = [] \<and> mq_startCancelled q) \<and> (mq_done q \<longleftrightarrow> mq_owner q = OwnExited)
     \<and> (\<forall>i. Refused i \<in> set (mq_handled q) \<longrightarrow> mq_stopped q)"

lemma stop_own: "mq_own q q' \<Longrightarrow> stop_inv q \<Longrightarrow> stop_inv q'"
  by (induction rule: mq_own.induct)
     (auto simp: stop_inv_def mq_ops Let_def split: list.splits prod.splits)

definition wake_inv :: "'w MQ \<Rightarrow> bool" where
  "wake_inv q \<longleftrightarrow> (mq_owner q = OwnWait \<and> mq_pending q \<noteq> [] \<longrightarrow>
     mq_wake q \<or> (\<exists>i < length (mq_subs q). pcOf q i = SubNudge))"

lemma wake_own: "mq_own q q' \<Longrightarrow> wake_inv q \<Longrightarrow> wake_inv q'"
  by (induction rule: mq_own.induct)
     (auto simp: wake_inv_def mq_ops Let_def split: list.splits prod.splits, (metis SubPc.distinct)+)

subsection \<open>The serial reference\<close>

text \<open>
  What a single-threaded server does with a list of decisions: run the critical sections that ran,
  in order, and answer every submission.
\<close>

fun serve :: "(nat \<Rightarrow> 'w critical) \<Rightarrow> 'w \<Rightarrow> Handled list \<Rightarrow> 'w \<times> (nat \<times> MergeError option) list" where
  "serve crit w [] = (w, [])"
| "serve crit w (Ran i c # hs) =
     (let (w1, err) = crit i c w; (w2, as) = serve crit w1 hs in (w2, (i, map_option CriticalError err) # as))"
| "serve crit w (Skipped i # hs) = (let (w1, as) = serve crit w hs in (w1, (i, Some CtxCancelled) # as))"
| "serve crit w (Refused i # hs) = (let (w1, as) = serve crit w hs in (w1, (i, Some ErrQueueStopped) # as))"

lemma serve_append:
  "serve crit w (hs @ ks) =
     (let (w1, as) = serve crit w hs; (w2, bs) = serve crit w1 ks in (w2, as @ bs))"
  by (induction crit w hs rule: serve.induct) (auto simp: Let_def split: prod.splits)

lemma serve_cong:
  "(\<And>h. h \<in> set hs \<Longrightarrow> crit (handledId h) = crit' (handledId h)) \<Longrightarrow> serve crit w hs = serve crit' w hs"
proof (induction crit w hs rule: serve.induct)
  case (2 crit w i c hs)
  have "crit i = crit' i" using "2.prems" [of "Ran i c"] by simp
  then show ?case using 2 by (auto simp: Let_def split: prod.splits)
qed auto

lemma serve_ids: "map fst (snd (serve crit w hs)) = map handledId hs"
  by (induction crit w hs rule: serve.induct) (auto simp: Let_def split: prod.splits)

definition service_inv :: "'w \<Rightarrow> 'w MQ \<Rightarrow> bool" where
  "service_inv w0 q \<longleftrightarrow> fst (serve (critOf q) w0 (mq_handled q)) = mq_world q
     \<and> (\<forall>i r. (i, r) \<in> set (snd (serve (critOf q) w0 (mq_handled q))) \<longrightarrow> resultOf q i = Some r)
     \<and> (\<forall>i < length (mq_subs q). resultOf q i \<noteq> None \<longrightarrow> i \<in> handledId ` set (mq_handled q))"

lemma queued_fresh:
  assumes "order_inv q" "intake_inv q" "j \<in> set (queued q)"
  shows "jb_sub j < length (mq_subs q)" "jb_sub j \<in> set (mq_intake q)" "jb_sub j \<notin> handledId ` set (mq_handled q)"
proof -
  show i: "jb_sub j \<in> set (mq_intake q)" using assms(1,3) by (simp add: order_inv_def)
  then show "jb_sub j < length (mq_subs q)" using assms(2) by (simp add: intake_inv_def)
  have "distinct (map handledId (mq_handled q) @ map jb_sub (queued q))"
    using assms(1,2) by (simp add: order_inv_def intake_inv_def)
  then show "jb_sub j \<notin> handledId ` set (mq_handled q)" using assms(3) by auto
qed

lemma service_answer:
  assumes "service_inv w0 q" and "i < length (mq_subs q)" "i \<notin> handledId ` set (mq_handled q)"
    and "serve (critOf q) (mq_world q) [h] = (w, [(i, r)])" and "handledId h = i"
    and "mq_handled q' = mq_handled q @ [h]" "mq_world q' = w" "critOf q' = critOf q"
    and "\<And>k. resultOf q' k = (if k = i \<and> i < length (mq_subs q) then Some r else resultOf q k)"
    and "length (mq_subs q') = length (mq_subs q)"
  shows "service_inv w0 q'"
proof -
  obtain as where s: "serve (critOf q) w0 (mq_handled q) = (mq_world q, as)"
    and as: "\<And>k r. (k, r) \<in> set as \<Longrightarrow> resultOf q k = Some r"
    using assms(1) by (cases "serve (critOf q) w0 (mq_handled q)") (auto simp: service_inv_def)
  have new: "serve (critOf q') w0 (mq_handled q') = (w, as @ [(i, r)])"
    using s assms(4) by (simp add: assms(6,8) serve_append)
  have "fst ` set as = handledId ` set (mq_handled q)"
    using serve_ids [of "critOf q" w0 "mq_handled q"] s by (metis list.set_map snd_conv)
  then have "i \<notin> fst ` set as" using assms(3) by simp
  then have "resultOf q' k = Some u" if "(k, u) \<in> set (as @ [(i, r)])" for k u
    using that as assms(2) by (auto simp: assms(9) image_iff)
  moreover have "k \<in> handledId ` set (mq_handled q')" if "k < length (mq_subs q')" "resultOf q' k \<noteq> None" for k
    using that assms(1,5) by (auto simp: assms(6,9,10) service_inv_def split: if_splits)
  ultimately show ?thesis unfolding service_inv_def new using assms(7) by simp
qed

lemma service_frame:
  assumes "service_inv w0 q" and "mq_handled q' = mq_handled q" "mq_world q' = mq_world q" "critOf q' = critOf q"
    "resultOf q' = resultOf q" "length (mq_subs q') = length (mq_subs q)"
  shows "service_inv w0 q'"
  using assms unfolding service_inv_def by simp

lemma service_own:
  assumes "mq_own q q'" and "order_inv q" "intake_inv q" "job_inv q" "service_inv w0 q"
  shows "service_inv w0 q'"
  using assms
proof (induction rule: mq_own.induct)
  case (gate q j)
  then have j: "j \<in> set (queued q)" by (simp add: queued_def)
  note f = queued_fresh [OF gate(2,3) j]
  show ?case
  proof (cases "jb_ctx j \<in> mq_cancelled q")
    case True
    then show ?thesis
      by (intro service_answer [OF gate(5) f(1,3), of "Skipped (jb_sub j)" "mq_world q" "Some CtxCancelled"])
         (auto simp: execute_gate_def fun_eq_iff)
  next
    case False
    then show ?thesis by (intro service_frame [OF gate(5)]) (auto simp: execute_gate_def fun_eq_iff)
  qed
next
  case (critical q j)
  then have j: "j \<in> set (queued q)" by (simp add: queued_def)
  note f = queued_fresh [OF critical(2,3) j]
  have c: "jb_critical j = critOf q (jb_sub j)" using critical(4) j by (simp add: job_inv_def)
  obtain w err where r: "critOf q (jb_sub j) (jb_ctx j \<in> mq_cancelled q) (mq_world q) = (w, err)" by fastforce
  show ?case
    by (intro service_answer [OF critical(5) f(1,3), of "Ran (jb_sub j) (jb_ctx j \<in> mq_cancelled q)" w "map_option CriticalError err"])
       (auto simp: execute_critical_def fun_eq_iff c r)
next
  case (refuse q j js)
  then have j: "j \<in> set (queued q)" by (simp add: queued_def)
  note f = queued_fresh [OF refuse(2,3) j]
  show ?case
    by (intro service_answer [OF refuse(5) f(1,3), of "Refused (jb_sub j)" "mq_world q" "Some ErrQueueStopped"])
       (auto simp: stopSend_def fun_eq_iff)
next
  case (intake i q)
  show ?case by (intro service_frame [OF intake(6)]) (auto simp: Submit_intake_def Let_def fun_eq_iff)
next
  case (pops q j q')
  show ?case by (intro service_frame [OF pops(6)]) (use pops(2) in \<open>auto simp: pop_def fun_eq_iff split: list.splits\<close>)
qed (auto elim!: service_frame simp: mq_ops fun_eq_iff)

definition skip_inv :: "'w MQ \<Rightarrow> bool" where
  "skip_inv q \<longleftrightarrow> (\<forall>i. Skipped i \<in> set (mq_handled q) \<longrightarrow> ctxOf q i \<in> mq_cancelled q)"

lemma skip_own: "mq_own q q' \<Longrightarrow> job_inv q \<Longrightarrow> skip_inv q \<Longrightarrow> skip_inv q'"
  by (induction rule: mq_own.induct)
     (auto simp: skip_inv_def job_inv_def queued_def mq_ops Let_def split: list.splits prod.splits)

text \<open>Where a submitter is, and what it returned.\<close>

definition returned_ok :: "'w MQ \<Rightarrow> nat \<Rightarrow> MergeError option \<Rightarrow> bool" where
  "returned_ok q i r \<longleftrightarrow> (if i \<in> set (mq_intake q) then resultOf q i = Some r
     else r = Some CtxCancelled \<and> ctxOf q i \<in> mq_cancelled q \<or> r = Some ErrQueueStopped \<and> mq_stopped q)"

definition pc_inv :: "'w MQ \<Rightarrow> bool" where
  "pc_inv q \<longleftrightarrow> (\<forall>i < length (mq_subs q). (pcOf q i = SubNudge \<or> pcOf q i = SubWait \<longrightarrow> i \<in> set (mq_intake q))
     \<and> (\<forall>r. pcOf q i = SubDone r \<longrightarrow> returned_ok q i r))"

lemma pc_answer:
  assumes "pc_inv q" and "resultOf q i = None" "i \<in> set (mq_intake q)"
    and "mq_intake q' = mq_intake q" "pcOf q' = pcOf q" "ctxOf q' = ctxOf q" "mq_cancelled q' = mq_cancelled q"
    and "mq_stopped q' = mq_stopped q" "length (mq_subs q') = length (mq_subs q)"
    and "\<And>k. resultOf q' k = (if k = i \<and> i < length (mq_subs q) then Some r else resultOf q k)"
  shows "pc_inv q'"
  using assms(1-3) unfolding pc_inv_def returned_ok_def assms(4-10)
  by (metis option.distinct(1))

lemma unanswered:
  assumes "service_inv w0 q" "order_inv q" "intake_inv q" "j \<in> set (queued q)"
  shows "resultOf q (jb_sub j) = None" "jb_sub j \<in> set (mq_intake q)"
  using queued_fresh [OF assms(2-4)] assms(1) unfolding service_inv_def by (metis, metis)

lemma pc_own:
  assumes "mq_own q q'" and "order_inv q" "intake_inv q" "service_inv w0 q" "stop_inv q" "pc_inv q"
  shows "pc_inv q'"
  using assms
proof (induction rule: mq_own.induct)
  case (gate q j)
  then have "j \<in> set (queued q)" by (simp add: queued_def)
  note f = unanswered [OF gate(4,2,3) this]
  show ?case
  proof (cases "jb_ctx j \<in> mq_cancelled q")
    case True
    then show ?thesis by (intro pc_answer [OF gate(6) f]) (auto simp: execute_gate_def fun_eq_iff)
  next
    case False
    then show ?thesis using gate(6) by (simp add: execute_gate_def pc_inv_def returned_ok_def)
  qed
next
  case (critical q j)
  then have "j \<in> set (queued q)" by (simp add: queued_def)
  note f = unanswered [OF critical(4,2,3) this]
  show ?case
    by (intro pc_answer [OF critical(6) f, where
          r = "map_option CriticalError (snd (jb_critical j (jb_ctx j \<in> mq_cancelled q) (mq_world q)))"])
       (auto simp: execute_critical_def Let_def fun_eq_iff split: prod.splits)
next
  case (refuse q j js)
  then have "j \<in> set (queued q)" by (simp add: queued_def)
  note f = unanswered [OF refuse(4,2,3) this]
  show ?case by (intro pc_answer [OF refuse(6) f]) (auto simp: stopSend_def fun_eq_iff)
next
  case (intake i q)
  have "i \<notin> set (mq_intake q)" using intake(2,4) by (auto simp: intake_inv_def)
  then show ?case using intake(7)
    by (auto simp: Submit_intake_def Let_def pc_inv_def returned_ok_def split: if_splits)
next
  case (receive i q r)
  then show ?case by (auto simp: pc_inv_def returned_ok_def)
qed (auto simp: mq_ops pc_inv_def returned_ok_def split: list.splits)

fun ownerWork :: "'w Owner \<Rightarrow> nat" where
  "ownerWork OwnTop = 4" | "ownerWork OwnPop = 3" | "ownerWork OwnWait = 2" | "ownerWork (OwnGate j) = 6"
| "ownerWork (OwnRun j) = 5" | "ownerWork (OwnStop js) = 1 + length js" | "ownerWork OwnExited = 0"

fun pcWork :: "SubPc \<Rightarrow> nat" where
  "pcWork SubIntake = 10" | "pcWork SubNudge = 5" | "pcWork SubWait = 1" | "pcWork (SubDone r) = 0"

definition mq_work :: "'w MQ \<Rightarrow> nat" where
  "mq_work q = ownerWork (mq_owner q) + 4 * length (mq_pending q) + (if mq_wake q then 3 else 0)
     + sum_list (map (\<lambda>sb. pcWork (sb_pc sb)) (mq_subs q))"

definition mq_rest :: "'w MQ \<Rightarrow> bool" where
  "mq_rest q \<longleftrightarrow> (\<forall>i < length (mq_subs q). \<exists>r. pcOf q i = SubDone r)
     \<and> (mq_owner q = OwnExited \<or> mq_owner q = OwnWait \<and> \<not> mq_startCancelled q \<and> \<not> mq_wake q)"

lemma subs_work_setPc:
  assumes "i < length (mq_subs q)"
  shows "sum_list (map (\<lambda>sb. pcWork (sb_pc sb)) (mq_subs (setPc i pc q))) + pcWork (pcOf q i)
    = sum_list (map (\<lambda>sb. pcWork (sb_pc sb)) (mq_subs q)) + pcWork pc"
  using sum_list_map_update [OF assms, of "\<lambda>sb. pcWork (sb_pc sb)" "(mq_subs q ! i)\<lparr>sb_pc := pc\<rparr>"]
  by (simp add: setPc_def pcOf_def)

lemma subs_work_send:
  "sum_list (map (\<lambda>sb. pcWork (sb_pc sb)) (mq_subs (sendResult i r q)))
    = sum_list (map (\<lambda>sb. pcWork (sb_pc sb)) (mq_subs q))"
proof (cases "i < length (mq_subs q)")
  case True
  from sum_list_map_update [OF this, of "\<lambda>sb. pcWork (sb_pc sb)" "(mq_subs q ! i)\<lparr>sb_result := Some r\<rparr>"]
  show ?thesis by (simp add: sendResult_def)
qed (simp add: sendResult_def list_update_beyond)

lemma mq_own_less: "mq_own q q' \<Longrightarrow> mq_work q' < mq_work q"
proof (induction rule: mq_own.induct)
  case (intake i q)
  show ?case
    using intake subs_work_setPc [of i q "SubDone (Some ErrQueueStopped)"]
      subs_work_setPc [of i "q\<lparr>mq_nextSeq := mq_nextSeq q + 1, mq_pending := mq_pending q @
        [\<lparr>jb_sub = i, jb_ctx = sb_ctx (mq_subs q ! i), jb_seq = mq_nextSeq q, jb_label = sb_label (mq_subs q ! i),
          jb_critical = sb_critical (mq_subs q ! i)\<rparr>], mq_intake := mq_intake q @ [i]\<rparr>" SubNudge]
    by (simp add: Submit_intake_def Let_def mq_work_def)
next
  case (nudge i q)
  then show ?case using subs_work_setPc [of i "q\<lparr>mq_wake := True\<rparr>" SubWait] by (simp add: Submit_nudge_def mq_work_def)
next
  case (receive i q r)
  then show ?case using subs_work_setPc [of i q "SubDone r"] by (simp add: mq_work_def)
qed (auto simp: mq_work_def mq_ops subs_work_send Let_def split: list.splits prod.splits)

definition mq_inv :: "'w \<Rightarrow> 'w MQ \<Rightarrow> bool" where
  "mq_inv w0 q \<longleftrightarrow> order_inv q \<and> intake_inv q \<and> seq_inv q \<and> job_inv q \<and> stop_inv q \<and> wake_inv q
     \<and> service_inv w0 q \<and> skip_inv q \<and> pc_inv q"

lemma mq_inv_own: "mq_own q q' \<Longrightarrow> mq_inv w0 q \<Longrightarrow> mq_inv w0 q'"
  unfolding mq_inv_def
  using order_own intake_own seq_own job_own stop_own wake_own service_own skip_own pc_own by metis

lemma mq_inv_start: "mq_inv w0 (MergeQueue_New w0)"
  by (simp add: mq_inv_def MergeQueue_New_def order_inv_def intake_inv_def seq_inv_def job_inv_def stop_inv_def
      wake_inv_def service_inv_def skip_inv_def pc_inv_def queued_def)

text \<open>A submission appended to the table leaves the earlier ones as they are.\<close>

lemma Submit_begin_simps [simp]:
  "length (mq_subs (Submit_begin k label critical q)) = Suc (length (mq_subs q))"
  "mq_intake (Submit_begin k label critical q) = mq_intake q" "mq_handled (Submit_begin k label critical q) = mq_handled q"
  "queued (Submit_begin k label critical q) = queued q" "mq_world (Submit_begin k label critical q) = mq_world q"
  "mq_cancelled (Submit_begin k label critical q) = mq_cancelled q" "mq_stopped (Submit_begin k label critical q) = mq_stopped q"
  by (auto simp: Submit_begin_def queued_def)

lemma Submit_begin_old:
  assumes "i < length (mq_subs q)"
  shows "pcOf (Submit_begin k label critical q) i = pcOf q i" "resultOf (Submit_begin k label critical q) i = resultOf q i"
    "critOf (Submit_begin k label critical q) i = critOf q i" "ctxOf (Submit_begin k label critical q) i = ctxOf q i"
  using assms by (auto simp: Submit_begin_def observers nth_append)

lemma Submit_begin_new:
  "resultOf (Submit_begin k label critical q) (length (mq_subs q)) = None"
  "pcOf (Submit_begin k label critical q) (length (mq_subs q)) =
     (if k \<in> mq_cancelled q then SubDone (Some CtxCancelled) else SubIntake)"
  "ctxOf (Submit_begin k label critical q) (length (mq_subs q)) = k"
  by (auto simp: Submit_begin_def observers)

lemma mq_progress:
  assumes "mq_inv w0 q" and "\<not> mq_rest q"
  shows "\<exists>q'. mq_own q q'"
proof (cases "mq_owner q = OwnExited \<or> mq_owner q = OwnWait \<and> \<not> mq_startCancelled q \<and> \<not> mq_wake q")
  case False
  then show ?thesis
  proof (cases "mq_owner q")
    case OwnTop
    then show ?thesis by (cases "mq_startCancelled q") (auto intro: mq_own.top_stop mq_own.top_check)
  next
    case OwnPop
    then show ?thesis by (cases "pop q") (auto intro: mq_own.pop_none mq_own.pops)
  next
    case (OwnStop js)
    then show ?thesis by (cases js) (auto intro: mq_own.intros)
  qed (use False in \<open>auto intro: mq_own.intros\<close>)
next
  case True
  with assms(2) obtain i where i: "i < length (mq_subs q)" "\<forall>r. pcOf q i \<noteq> SubDone r"
    by (auto simp: mq_rest_def)
  show ?thesis
  proof (cases "pcOf q i")
    case SubWait
    show ?thesis
    proof (cases "resultOf q i")
      case None
      have inq: "i \<in> set (mq_intake q)" using assms(1) i SubWait by (simp add: mq_inv_def pc_inv_def)
      have "i \<notin> handledId ` set (mq_handled q)"
      proof
        assume "i \<in> handledId ` set (mq_handled q)"
        then have "i \<in> fst ` set (snd (serve (critOf q) w0 (mq_handled q)))"
          using serve_ids [of "critOf q" w0 "mq_handled q"] by (metis list.set_map)
        then show False using assms(1) None by (force simp: mq_inv_def service_inv_def)
      qed
      then have "i \<in> jb_sub ` set (queued q)" using assms(1) inq by (auto simp: mq_inv_def order_inv_def)
      moreover have "ownerJobs (mq_owner q) = []" using True by auto
      ultimately have pend: "mq_pending q \<noteq> []" by (auto simp: queued_def)
      then have "mq_owner q = OwnWait" "\<not> mq_wake q"
        using True assms(1) by (auto simp: mq_inv_def stop_inv_def)
      then obtain k where "k < length (mq_subs q)" "pcOf q k = SubNudge"
        using assms(1) pend by (auto simp: mq_inv_def wake_inv_def)
      then show ?thesis by (blast intro: mq_own.nudge)
    qed (use i SubWait in \<open>blast intro: mq_own.receive\<close>)
  qed (use i in \<open>blast intro: mq_own.intros\<close>)+
qed

lemma mq_inv_submit: "mq_inv w0 q \<Longrightarrow> mq_inv w0 (Submit_begin k label critical q)"
proof -
  assume inv: "mq_inv w0 q"
  let ?q = "Submit_begin k label critical q"
  note old = Submit_begin_old [of _ q k label critical]
  have ids: "h \<in> set (mq_handled q) \<Longrightarrow> handledId h < length (mq_subs q)" for h
    using inv by (auto simp: mq_inv_def order_inv_def intake_inv_def)
  have jobs: "j \<in> set (queued q) \<Longrightarrow> jb_sub j < length (mq_subs q)" for j
    using inv by (auto simp: mq_inv_def order_inv_def intake_inv_def)
  have intk: "i \<in> set (mq_intake q) \<Longrightarrow> i < length (mq_subs q)" for i
    using inv by (auto simp: mq_inv_def intake_inv_def)
  have serve: "serve (critOf ?q) w0 (mq_handled q) = serve (critOf q) w0 (mq_handled q)"
    by (rule serve_cong) (simp add: old(3) ids)
  have fst: "(i, r) \<in> set (snd (serve (critOf q) w0 (mq_handled q))) \<Longrightarrow> i < length (mq_subs q)" for i r
    using serve_ids [of "critOf q" w0 "mq_handled q"] ids
    by (metis (no_types, lifting) fst_conv image_iff list.set_map)
  have "service_inv w0 ?q"
    using inv unfolding mq_inv_def service_inv_def
    by (auto simp: serve less_Suc_eq old(2) fst Submit_begin_new)
  moreover have "order_inv ?q" "seq_inv ?q" "stop_inv ?q"
  proof -
    have "order_inv ?q = order_inv q" by (simp add: order_inv_def)
    moreover have "seq_inv ?q = seq_inv q" by (simp add: seq_inv_def Submit_begin_def queued_def)
    moreover have "stop_inv ?q = stop_inv q" by (simp add: stop_inv_def Submit_begin_def)
    ultimately show "order_inv ?q" "seq_inv ?q" "stop_inv ?q" using inv by (simp_all add: mq_inv_def)
  qed
  moreover have "intake_inv ?q"
    using inv intk by (auto simp: mq_inv_def intake_inv_def old(1) less_Suc_eq)
  moreover have "job_inv ?q"
    using inv jobs by (auto simp: mq_inv_def job_inv_def old(3,4))
  moreover have "wake_inv ?q"
  proof -
    have "(\<exists>i < length (mq_subs q). pcOf q i = SubNudge) \<Longrightarrow> (\<exists>i < length (mq_subs ?q). pcOf ?q i = SubNudge)"
      by (metis Submit_begin_simps(1) less_SucI old(1))
    moreover have "mq_owner ?q = mq_owner q" "mq_pending ?q = mq_pending q" "mq_wake ?q = mq_wake q"
      by (simp_all add: Submit_begin_def)
    ultimately show ?thesis using inv unfolding mq_inv_def wake_inv_def by metis
  qed
  moreover have "skip_inv ?q"
    using inv ids by (fastforce simp: mq_inv_def skip_inv_def old(4))
  moreover have "pc_inv ?q"
    unfolding pc_inv_def Submit_begin_simps
  proof (intro allI impI)
    fix i
    assume i: "i < Suc (length (mq_subs q))"
    have pc: "pc_inv q" using inv by (simp add: mq_inv_def)
    show "(pcOf ?q i = SubNudge \<or> pcOf ?q i = SubWait \<longrightarrow> i \<in> set (mq_intake q))
        \<and> (\<forall>r. pcOf ?q i = SubDone r \<longrightarrow> returned_ok ?q i r)"
    proof (cases "i < length (mq_subs q)")
      case True
      then have "returned_ok ?q i r = returned_ok q i r" for r by (simp add: returned_ok_def old)
      with True pc show ?thesis unfolding pc_inv_def by (simp add: old)
    next
      case False
      with i have "i = length (mq_subs q)" by simp
      moreover have "length (mq_subs q) \<notin> set (mq_intake q)" using intk by blast
      ultimately show ?thesis by (simp add: Submit_begin_new returned_ok_def)
    qed
  qed
  ultimately show "mq_inv w0 ?q" by (simp add: mq_inv_def)
qed

lemma env_frame:
  "critOf (q\<lparr>mq_cancelled := S\<rparr>) = critOf q" "critOf (q\<lparr>mq_startCancelled := b\<rparr>) = critOf q"
  "queued (q\<lparr>mq_cancelled := S\<rparr>) = queued q" "queued (q\<lparr>mq_startCancelled := b\<rparr>) = queued q"
  by (simp_all add: fun_eq_iff queued_def)

lemma env_inv:
  "order_inv (q\<lparr>mq_cancelled := S\<rparr>) = order_inv q" "order_inv (q\<lparr>mq_startCancelled := b\<rparr>) = order_inv q"
  "intake_inv (q\<lparr>mq_cancelled := S\<rparr>) = intake_inv q" "intake_inv (q\<lparr>mq_startCancelled := b\<rparr>) = intake_inv q"
  "seq_inv (q\<lparr>mq_cancelled := S\<rparr>) = seq_inv q" "seq_inv (q\<lparr>mq_startCancelled := b\<rparr>) = seq_inv q"
  "job_inv (q\<lparr>mq_cancelled := S\<rparr>) = job_inv q" "job_inv (q\<lparr>mq_startCancelled := b\<rparr>) = job_inv q"
  "stop_inv (q\<lparr>mq_cancelled := S\<rparr>) = stop_inv q"
  "wake_inv (q\<lparr>mq_cancelled := S\<rparr>) = wake_inv q" "wake_inv (q\<lparr>mq_startCancelled := b\<rparr>) = wake_inv q"
  "service_inv w0 (q\<lparr>mq_cancelled := S\<rparr>) = service_inv w0 q"
  "service_inv w0 (q\<lparr>mq_startCancelled := b\<rparr>) = service_inv w0 q"
  "skip_inv (q\<lparr>mq_startCancelled := b\<rparr>) = skip_inv q" "pc_inv (q\<lparr>mq_startCancelled := b\<rparr>) = pc_inv q"
  by (simp_all add: order_inv_def intake_inv_def seq_inv_def job_inv_def stop_inv_def wake_inv_def
      service_inv_def skip_inv_def pc_inv_def returned_ok_def env_frame)

lemma mq_inv_cancel:
  assumes "mq_inv w0 q"
  shows "mq_inv w0 (q\<lparr>mq_cancelled := insert k (mq_cancelled q)\<rparr>)"
proof -
  have "skip_inv q" "pc_inv q" using assms by (simp_all add: mq_inv_def)
  then have "skip_inv (q\<lparr>mq_cancelled := insert k (mq_cancelled q)\<rparr>)" "pc_inv (q\<lparr>mq_cancelled := insert k (mq_cancelled q)\<rparr>)"
    by (auto simp: skip_inv_def pc_inv_def returned_ok_def split: if_splits)
  then show ?thesis using assms by (simp add: mq_inv_def env_inv)
qed

lemma mq_inv_cancelStart: "mq_inv w0 q \<Longrightarrow> mq_inv w0 (q\<lparr>mq_startCancelled := True\<rparr>)"
proof -
  assume inv: "mq_inv w0 q"
  then have "stop_inv (q\<lparr>mq_startCancelled := True\<rparr>)" by (auto simp: mq_inv_def stop_inv_def)
  with inv show ?thesis by (simp add: mq_inv_def env_inv)
qed

lemma mq_inv_step: "mq_inv w0 q \<Longrightarrow> mq_step q q' \<Longrightarrow> mq_inv w0 q'"
  by (erule mq_step.cases) (simp_all add: mq_inv_own mq_inv_submit mq_inv_cancel mq_inv_cancelStart)

interpretation mergeq: settling_system mq_step "\<lambda>q. q = MergeQueue_New w0" "mq_inv w0" mq_own mq_rest mq_work
  for w0
  by unfold_locales
    (auto intro: mq_inv_start mq_inv_step mq_step.own mq_own_less mq_progress)

subsection \<open>A cancelled submission\<close>

text \<open>Its context is cancelled before its critical section was entered.\<close>

definition dropped :: "nat \<Rightarrow> 'w MQ \<Rightarrow> bool" where
  "dropped i q \<longleftrightarrow> i < length (mq_subs q) \<and> ctxOf q i \<in> mq_cancelled q
     \<and> (\<forall>j. mq_owner q = OwnRun j \<longrightarrow> jb_sub j \<noteq> i) \<and> (\<forall>c. Ran i c \<notin> set (mq_handled q))"

lemma dropped_own:
  assumes "mq_own q q'" "job_inv q" "dropped i q"
  shows "dropped i q'"
  using assms
  by (induction rule: mq_own.induct)
     (auto simp: dropped_def job_inv_def queued_def mq_ops Let_def split: list.splits prod.splits if_splits)

lemma dropped_step:
  assumes "mq_step q q'" "job_inv q" "dropped i q"
  shows "dropped i q'"
  using assms
proof (induction rule: mq_step.induct)
  case (own q q')
  then show ?case by (rule dropped_own)
next
  case (submit q k label critical)
  then show ?case using Submit_begin_old [of i q k label critical] by (simp add: dropped_def Submit_begin_def)
qed (auto simp: dropped_def)

lemma dropped_stays:
  assumes "mq_step\<^sup>*\<^sup>* q q'" "mq_inv w0 q" "dropped i q"
  shows "dropped i q'"
proof -
  have "mq_inv w0 q' \<and> dropped i q'" using assms
  proof (induction rule: rtranclp_induct)
    case (step y z)
    then have y: "mq_inv w0 y" "dropped i y" by blast+
    then have "job_inv y" by (simp add: mq_inv_def)
    then show ?case using mq_inv_step [OF y(1) step(2)] dropped_step [OF step(2) _ y(2)] by blast
  qed simp
  then show ?thesis by blast
qed

section \<open>Properties\<close>

text \<open>
  C7. The merge queue is a serial server in intake order. Over every interleaving: the submissions
  the owner has dealt with are a prefix of the intake order, each exactly once, and the rest of the
  intake order is the one being served followed by the pending ones; the outside world is what a
  single-threaded server reaches that runs exactly the critical sections that ran, one after the
  other in that order; every result sent is the answer of that server; a submission is skipped only
  when its own context is cancelled, and one whose context is cancelled before its critical section was
  entered never runs, whatever follows; and the intake numbers of the waiting jobs are consecutive,
  at the width of the counter.
\<close>

theorem mergeq_serial_fifo:
  assumes "mq_step\<^sup>*\<^sup>* (MergeQueue_New w0) q"
  shows "mq_intake q = map handledId (mq_handled q) @ map jb_sub (queued q) \<and> distinct (mq_intake q)
     \<and> fst (serve (critOf q) w0 (mq_handled q)) = mq_world q
     \<and> (\<forall>(i, r) \<in> set (snd (serve (critOf q) w0 (mq_handled q))). resultOf q i = Some r)
     \<and> (\<forall>i. Skipped i \<in> set (mq_handled q) \<longrightarrow> ctxOf q i \<in> mq_cancelled q)
     \<and> (\<forall>i c q'. i < length (mq_subs q) \<and> ctxOf q i \<in> mq_cancelled q \<and> (\<forall>j. mq_owner q = OwnRun j \<longrightarrow> jb_sub j \<noteq> i)
          \<and> (\<forall>c. Ran i c \<notin> set (mq_handled q)) \<and> mq_step\<^sup>*\<^sup>* q q' \<longrightarrow> Ran i c \<notin> set (mq_handled q'))
     \<and> map jb_seq (queued q) = map word_of_nat [length (mq_handled q)..<length (mq_intake q)]"
proof -
  have inv: "mq_inv w0 q" using mergeq.reach_inv [OF refl assms] .
  have never: "Ran i c \<notin> set (mq_handled q')" if "mq_step\<^sup>*\<^sup>* q q'" "dropped i q" for i c q'
    using dropped_stays [OF that(1) inv that(2)] by (simp add: dropped_def)
  from inv have "order_inv q" "intake_inv q" "service_inv w0 q" "skip_inv q" "seq_inv q"
    by (simp_all add: mq_inv_def)
  with never show ?thesis
    unfolding order_inv_def intake_inv_def service_inv_def skip_inv_def seq_inv_def dropped_def by blast
qed

text \<open>
  C8. What a submitter is told is true. When a submission has returned: if it entered the queue its
  return value is the one result the owner sent for it, so a nil return means its critical section
  ran and succeeded; if it did not enter, it returns its cancelled context or, only when the queue
  has stopped, the stop error, and its critical section never runs. A stop error is only ever
  sent after the queue stopped.
\<close>

theorem mergeq_results_true:
  assumes "mq_step\<^sup>*\<^sup>* (MergeQueue_New w0) q" and "i < length (mq_subs q)" and "pcOf q i = SubDone r"
  shows "(i \<in> set (mq_intake q) \<longrightarrow> i \<in> handledId ` set (mq_handled q)
          \<and> (i, r) \<in> set (snd (serve (critOf q) w0 (mq_handled q))))
     \<and> (i \<notin> set (mq_intake q) \<longrightarrow> (\<forall>h \<in> set (mq_handled q). handledId h \<noteq> i)
          \<and> (r = Some CtxCancelled \<and> ctxOf q i \<in> mq_cancelled q \<or> r = Some ErrQueueStopped \<and> mq_stopped q))
     \<and> (r = None \<longrightarrow> (\<exists>c. Ran i c \<in> set (mq_handled q)))
     \<and> (r = Some ErrQueueStopped \<longrightarrow> mq_stopped q)"
proof -
  have inv: "mq_inv w0 q" using mergeq.reach_inv [OF refl assms(1)] .
  then have ret: "returned_ok q i r" using assms(2,3) by (simp add: mq_inv_def pc_inv_def)
  have ord: "order_inv q" and srv: "service_inv w0 q" and stp: "stop_inv q"
    using inv by (simp_all add: mq_inv_def)
  have ids: "fst ` set (snd (serve (critOf q) w0 (mq_handled q))) = handledId ` set (mq_handled q)"
    using serve_ids [of "critOf q" w0 "mq_handled q"] by (metis list.set_map)
  have entered: "i \<in> handledId ` set (mq_handled q) \<and> (i, r) \<in> set (snd (serve (critOf q) w0 (mq_handled q)))"
    if "i \<in> set (mq_intake q)"
  proof -
    have r: "resultOf q i = Some r" using ret that by (simp add: returned_ok_def)
    then have h: "i \<in> handledId ` set (mq_handled q)" using srv assms(2) by (auto simp: service_inv_def)
    then obtain u where "(i, u) \<in> set (snd (serve (critOf q) w0 (mq_handled q)))" using ids by force
    moreover from this have "u = r" using srv r by (simp add: service_inv_def)
    ultimately show ?thesis using h by blast
  qed
  have not_entered: "\<forall>h \<in> set (mq_handled q). handledId h \<noteq> i" if "i \<notin> set (mq_intake q)"
    using that ord by (auto simp: order_inv_def)
  have ran: "(\<exists>c. Ran k c \<in> set hs) \<or> (u = Some CtxCancelled \<and> Skipped k \<in> set hs) \<or> (u = Some ErrQueueStopped \<and> Refused k \<in> set hs)"
    if "(k, u) \<in> set (snd (serve crit w hs))" for crit :: "nat \<Rightarrow> 'a critical" and w k u hs
    using that by (induction crit w hs rule: serve.induct) (auto simp: Let_def split: prod.splits)
  have crit: "u \<noteq> Some ErrQueueStopped \<or> Refused k \<in> set hs"
    if "(k, u) \<in> set (snd (serve crit w hs))" for crit :: "nat \<Rightarrow> 'a critical" and w k u hs
    using that by (induction crit w hs rule: serve.induct) (auto simp: Let_def map_option_case split: prod.splits option.splits)
  have "mq_stopped q" if "r = Some ErrQueueStopped"
  proof (cases "i \<in> set (mq_intake q)")
    case True
    then have "Refused i \<in> set (mq_handled q)" using entered crit [of i r "critOf q" w0 "mq_handled q"] that by blast
    then show ?thesis using stp unfolding stop_inv_def by blast
  next
    case False
    then show ?thesis using ret that by (simp add: returned_ok_def)
  qed
  moreover have "\<exists>c. Ran i c \<in> set (mq_handled q)" if "r = None"
  proof (cases "i \<in> set (mq_intake q)")
    case True
    then show ?thesis using entered ran that by blast
  next
    case False
    then show ?thesis using ret that by (simp add: returned_ok_def)
  qed
  ultimately show ?thesis using entered not_entered ret by (simp add: returned_ok_def)
qed

text \<open>
  C9. No submitter is left waiting. From every reachable state the goroutines of the queue come to
  rest by themselves after a bounded number of steps, in any order, and at rest every submission
  has returned: no wake-up is lost, and a stopped queue releases everything that was pending. The
  owner then waits for work, or has exited with its done channel closed when the start context was
  cancelled.
\<close>

theorem mergeq_no_submitter_stuck:
  assumes "mq_step\<^sup>*\<^sup>* (MergeQueue_New w0) q"
  shows "(\<forall>n q'. (mq_own ^^ n) q q' \<longrightarrow> n \<le> mq_work q)
     \<and> (\<forall>q'. mq_own\<^sup>*\<^sup>* q q' \<and> (\<nexists>q''. mq_own q' q'') \<longrightarrow>
          (\<forall>i < length (mq_subs q'). \<exists>r. pcOf q' i = SubDone r)
        \<and> mq_pending q' = [] \<and> (if mq_startCancelled q' then mq_done q' else mq_owner q' \<in> {OwnWait, OwnExited}))"
proof -
  have inv: "mq_inv w0 q" using mergeq.reach_inv [OF refl assms] .
  have "(\<forall>i < length (mq_subs q'). \<exists>r. pcOf q' i = SubDone r) \<and> mq_pending q' = []
      \<and> (if mq_startCancelled q' then mq_done q' else mq_owner q' \<in> {OwnWait, OwnExited})"
    if "mq_own\<^sup>*\<^sup>* q q'" "\<nexists>q''. mq_own q' q''" for q'
  proof -
    have i: "mq_inv w0 q'" using that(1) inv by (rule mergeq.own_path_inv)
    have rest: "mq_rest q'" by (rule ccontr) (use mq_progress [OF i] that(2) in blast)
    have "mq_pending q' = []"
    proof (rule ccontr)
      assume p: "mq_pending q' \<noteq> []"
      then have "mq_owner q' = OwnWait" "\<not> mq_wake q'"
        using rest i unfolding mq_rest_def mq_inv_def stop_inv_def by blast+
      then obtain k where "k < length (mq_subs q')" "pcOf q' k = SubNudge"
        using i p by (auto simp: mq_inv_def wake_inv_def)
      then show False using rest by (auto simp: mq_rest_def)
    qed
    moreover have "mq_owner q' = OwnExited \<or> mq_owner q' = OwnWait \<and> \<not> mq_startCancelled q'"
        "\<forall>i < length (mq_subs q'). \<exists>r. pcOf q' i = SubDone r"
      using rest unfolding mq_rest_def by blast+
    moreover have "mq_done q' \<longleftrightarrow> mq_owner q' = OwnExited" using i unfolding mq_inv_def stop_inv_def by blast
    ultimately show ?thesis by (cases "mq_startCancelled q'") (simp_all only: if_True if_False, blast+)
  qed
  moreover have "n \<le> mq_work q" if "(mq_own ^^ n) q q'" for n q'
    using mergeq.own_path_bounded [OF that inv] by simp
  ultimately show ?thesis by blast
qed

section \<open>A concrete run\<close>

definition bump :: "nat critical" where "bump c w = (Suc w, None)"

definition wit_job :: "nat job" where
  "wit_job = \<lparr>jb_sub = 0, jb_ctx = 7, jb_seq = 0, jb_label = ''commit'', jb_critical = bump\<rparr>"

definition wit_sub :: "SubPc \<Rightarrow> MergeError option option \<Rightarrow> nat Submission" where
  "wit_sub pc r = \<lparr>sb_ctx = 7, sb_label = ''commit'', sb_critical = bump, sb_pc = pc, sb_result = r\<rparr>"

definition wit_q :: "nat Owner \<Rightarrow> nat job list \<Rightarrow> bool \<Rightarrow> SubPc \<Rightarrow> MergeError option option \<Rightarrow> nat \<Rightarrow> Handled list \<Rightarrow> nat MQ" where
  "wit_q ow ps wk pc r w hs = \<lparr>mq_nextSeq = 1, mq_pending = ps, mq_stopped = False, mq_wake = wk, mq_done = False,
     mq_owner = ow, mq_subs = [wit_sub pc r], mq_cancelled = {}, mq_startCancelled = False, mq_world = w,
     mq_intake = [0], mq_handled = hs\<rparr>"

lemmas wit_defs = wit_q_def wit_sub_def wit_job_def

lemma wit_steps:
  "mq_step\<^sup>*\<^sup>* (MergeQueue_New 0) (wit_q OwnTop [wit_job] False SubNudge None 0 [])"
  "mq_step\<^sup>*\<^sup>* (MergeQueue_New 0) (wit_q OwnTop [] True (SubDone None) (Some None) 1 [Ran 0 False])"
proof -
  let ?q0 = "MergeQueue_New 0 :: nat MQ"
  let ?q1 = "Submit_begin 7 ''commit'' bump ?q0"
  have 1: "mq_step ?q0 ?q1" by (rule mq_step.submit)
  have 2: "mq_step ?q1 (wit_q OwnTop [wit_job] False SubNudge None 0 [])"
    using mq_own.intake [of 0 ?q1]
    by (intro mq_step.own) (simp add: mq_ops MergeQueue_New_def wit_defs setPc_def observers Let_def)
  have 3: "mq_step (wit_q OwnTop [wit_job] False SubNudge None 0 []) (wit_q OwnTop [wit_job] True SubWait None 0 [])"
    using mq_own.nudge [of 0 "wit_q OwnTop [wit_job] False SubNudge None 0 []"]
    by (intro mq_step.own) (simp add: mq_ops wit_defs setPc_def observers)
  have 4: "mq_step (wit_q OwnTop [wit_job] True SubWait None 0 []) (wit_q OwnPop [wit_job] True SubWait None 0 [])"
    using mq_own.top_check [of "wit_q OwnTop [wit_job] True SubWait None 0 []"]
    by (intro mq_step.own) (simp add: wit_defs)
  have 5: "mq_step (wit_q OwnPop [wit_job] True SubWait None 0 []) (wit_q (OwnGate wit_job) [] True SubWait None 0 [])"
    using mq_own.pops [of "wit_q OwnPop [wit_job] True SubWait None 0 []" wit_job]
    by (intro mq_step.own) (simp add: wit_defs pop_def)
  have 6: "mq_step (wit_q (OwnGate wit_job) [] True SubWait None 0 []) (wit_q (OwnRun wit_job) [] True SubWait None 0 [])"
    using mq_own.gate [of "wit_q (OwnGate wit_job) [] True SubWait None 0 []" wit_job]
    by (intro mq_step.own) (simp add: wit_defs execute_gate_def)
  have 7: "mq_step (wit_q (OwnRun wit_job) [] True SubWait None 0 []) (wit_q OwnTop [] True SubWait (Some None) 1 [Ran 0 False])"
    using mq_own.critical [of "wit_q (OwnRun wit_job) [] True SubWait None 0 []" wit_job]
    by (intro mq_step.own) (simp add: wit_defs execute_critical_def sendResult_def bump_def)
  have 8: "mq_step (wit_q OwnTop [] True SubWait (Some None) 1 [Ran 0 False])
      (wit_q OwnTop [] True (SubDone None) (Some None) 1 [Ran 0 False])"
    using mq_own.receive [of 0 "wit_q OwnTop [] True SubWait (Some None) 1 [Ran 0 False]" None]
    by (intro mq_step.own) (simp add: wit_defs setPc_def observers)
  show a: "mq_step\<^sup>*\<^sup>* ?q0 (wit_q OwnTop [wit_job] False SubNudge None 0 [])"
    using 1 2 by (meson rtranclp.rtrancl_into_rtrancl rtranclp.rtrancl_refl)
  show "mq_step\<^sup>*\<^sup>* ?q0 (wit_q OwnTop [] True (SubDone None) (Some None) 1 [Ran 0 False])"
    by (rule rtranclp_trans [OF a]) (use 3 4 5 6 7 8 in \<open>meson rtranclp.rtrancl_into_rtrancl rtranclp.rtrancl_refl\<close>)
qed

theorem mergeq_serial_fifo_witness:
  "map jb_seq (queued (wit_q OwnTop [wit_job] False SubNudge None 0 [])) = [0]"
  using mergeq_serial_fifo [OF wit_steps(1)] by (simp add: wit_q_def)

theorem mergeq_results_true_witness:
  "\<exists>c. Ran 0 c \<in> set (mq_handled (wit_q OwnTop [] True (SubDone None) (Some None) 1 [Ran 0 False]))"
proof -
  have "0 < length (mq_subs (wit_q OwnTop [] True (SubDone None) (Some None) 1 [Ran 0 False]))"
    "pcOf (wit_q OwnTop [] True (SubDone None) (Some None) 1 [Ran 0 False]) 0 = SubDone None"
    by (simp_all add: wit_defs observers)
  from mergeq_results_true [OF wit_steps(2) this] show ?thesis by blast
qed

theorem mergeq_no_submitter_stuck_witness:
  "\<nexists>q'. (mq_own ^^ 14) (wit_q OwnTop [wit_job] False SubNudge None 0 []) q'"
proof
  assume "\<exists>q'. (mq_own ^^ 14) (wit_q OwnTop [wit_job] False SubNudge None 0 []) q'"
  then have "14 \<le> mq_work (wit_q OwnTop [wit_job] False SubNudge None 0 [])"
    using mergeq_no_submitter_stuck [OF wit_steps(1)] by blast
  then show False by (simp add: mq_work_def wit_defs)
qed

end
