(* ===== verification/File_System.thy ===== *)
theory File_System
  imports Harmonik_Prelude
begin

text \<open>
  The file system under the queue transactions: the record of operations \<^verbatim>\<open>namespaceOps\<close> of
  \<^verbatim>\<open>internal/queue/transaction.go\<close> as POSIX gives them, with faults and crashes, and the durable
  file helpers built on it (\<open>durableFile\<close>, \<open>durableNoReplace\<close>, \<open>syncDirectory\<close>, \<open>readOptional\<close>).

  A directory maps basenames to files; a file has its content and a flag that says whether the
  content was synced. Every operation consults a fault plan: it works, it fails without effect (a
  write may leave a prefix), or it reports a failure after it took effect. For crashes the state
  keeps, per directory, the namespaces the directory had since its last successful sync: after a
  crash the directory is one of them, because the file system journals namespace changes in order,
  and a file whose content was not synced has arbitrary content. The field \<open>fs_snaps\<close> is a ghost
  that records these lists after every change, so it describes the crashes at every moment. The
  entries of the directories themselves, their permissions and symbolic links are not modelled.
\<close>

section \<open>State\<close>

type_synonym bytes = string

datatype fnode = File (content: bytes) (synced: bool)

type_synonym ns = "string \<Rightarrow> fnode option"

datatype dirId = QueuesDir | FailedReceiptsDir | CompletionReceiptsDir | HarmonikDir

datatype fault = Works | Fails nat | FailsAfter

datatype FsErr = ErrNotExist | ErrExist | ErrIO

record FS =
  fs_dir :: "dirId \<Rightarrow> ns"
  fs_pend :: "dirId \<Rightarrow> ns list"
  fs_snaps :: "(dirId \<Rightarrow> ns list) list"
  fs_faults :: "nat \<Rightarrow> fault"
  fs_now :: nat

definition nextFault :: "FS \<Rightarrow> fault \<times> FS" where
  "nextFault fs = (fs_faults fs (fs_now fs), fs\<lparr>fs_now := Suc (fs_now fs)\<rparr>)"

text \<open>A namespace change that is not yet durable, and one that is.\<close>

definition setDir :: "dirId \<Rightarrow> ns \<Rightarrow> FS \<Rightarrow> FS" where
  "setDir d n fs = (let pend = (fs_pend fs)(d := n # fs_pend fs d) in
     fs\<lparr>fs_dir := (fs_dir fs)(d := n), fs_pend := pend, fs_snaps := pend # fs_snaps fs\<rparr>)"

definition syncDir :: "dirId \<Rightarrow> FS \<Rightarrow> FS" where
  "syncDir d fs = (let pend = (fs_pend fs)(d := [fs_dir fs d]) in
     fs\<lparr>fs_pend := pend, fs_snaps := pend # fs_snaps fs\<rparr>)"

section \<open>Operations\<close>

definition op_mkdirAll :: "FS \<Rightarrow> FsErr option \<times> FS" where
  "op_mkdirAll fs = (case nextFault fs of (Works, fs1) \<Rightarrow> (None, fs1) | (_, fs1) \<Rightarrow> (Some ErrIO, fs1))"

text \<open>\<^verbatim>\<open>openFile\<close> with \<^verbatim>\<open>O_CREATE|O_WRONLY|O_EXCL\<close>\<close>

definition op_create :: "dirId \<Rightarrow> string \<Rightarrow> FS \<Rightarrow> FsErr option \<times> FS" where
  "op_create d p fs =
     (let (f, fs1) = nextFault fs in
      if fs_dir fs d p \<noteq> None then (Some ErrExist, fs1)
      else (case f of
          Works \<Rightarrow> (None, setDir d ((fs_dir fs d)(p \<mapsto> File [] False)) fs1)
        | Fails n \<Rightarrow> (Some ErrIO, fs1)
        | FailsAfter \<Rightarrow> (Some ErrIO, setDir d ((fs_dir fs d)(p \<mapsto> File [] False)) fs1)))"

definition op_write :: "dirId \<Rightarrow> string \<Rightarrow> bytes \<Rightarrow> FS \<Rightarrow> FsErr option \<times> FS" where
  "op_write d p data fs =
     (let (f, fs1) = nextFault fs;
          put = (\<lambda>b. setDir d ((fs_dir fs d)(p \<mapsto> File b False)) fs1) in
      case f of
        Works \<Rightarrow> (None, put data) | Fails n \<Rightarrow> (Some ErrIO, put (take n data)) | FailsAfter \<Rightarrow> (Some ErrIO, put data))"

definition op_syncFile :: "dirId \<Rightarrow> string \<Rightarrow> FS \<Rightarrow> FsErr option \<times> FS" where
  "op_syncFile d p fs =
     (let (f, fs1) = nextFault fs;
          done = (case fs_dir fs d p of None \<Rightarrow> fs1
            | Some fl \<Rightarrow> setDir d ((fs_dir fs d)(p \<mapsto> File (content fl) True)) fs1) in
      case f of Works \<Rightarrow> (None, done) | Fails n \<Rightarrow> (Some ErrIO, fs1) | FailsAfter \<Rightarrow> (Some ErrIO, done))"

definition op_close :: "FS \<Rightarrow> FsErr option \<times> FS" where
  "op_close fs = (case nextFault fs of (Works, fs1) \<Rightarrow> (None, fs1) | (_, fs1) \<Rightarrow> (Some ErrIO, fs1))"

definition op_remove :: "dirId \<Rightarrow> string \<Rightarrow> FS \<Rightarrow> FsErr option \<times> FS" where
  "op_remove d p fs =
     (let (f, fs1) = nextFault fs; done = setDir d ((fs_dir fs d)(p := None)) fs1 in
      if fs_dir fs d p = None then (Some ErrNotExist, fs1)
      else (case f of Works \<Rightarrow> (None, done) | Fails n \<Rightarrow> (Some ErrIO, fs1) | FailsAfter \<Rightarrow> (Some ErrIO, done)))"

definition op_rename :: "dirId \<Rightarrow> string \<Rightarrow> string \<Rightarrow> FS \<Rightarrow> FsErr option \<times> FS" where
  "op_rename d p q fs =
     (let (f, fs1) = nextFault fs in
      case fs_dir fs d p of
        None \<Rightarrow> (Some ErrNotExist, fs1)
      | Some fl \<Rightarrow> (let done = setDir d ((fs_dir fs d)(p := None, q \<mapsto> fl)) fs1 in
          case f of Works \<Rightarrow> (None, done) | Fails n \<Rightarrow> (Some ErrIO, fs1) | FailsAfter \<Rightarrow> (Some ErrIO, done)))"

definition op_link :: "dirId \<Rightarrow> string \<Rightarrow> string \<Rightarrow> FS \<Rightarrow> FsErr option \<times> FS" where
  "op_link d p q fs =
     (let (f, fs1) = nextFault fs in
      if fs_dir fs d q \<noteq> None then (Some ErrExist, fs1)
      else case fs_dir fs d p of
        None \<Rightarrow> (Some ErrNotExist, fs1)
      | Some fl \<Rightarrow> (let done = setDir d ((fs_dir fs d)(q \<mapsto> fl)) fs1 in
          case f of Works \<Rightarrow> (None, done) | Fails n \<Rightarrow> (Some ErrIO, fs1) | FailsAfter \<Rightarrow> (Some ErrIO, done)))"

definition op_readFile :: "dirId \<Rightarrow> string \<Rightarrow> FS \<Rightarrow> (FsErr + bytes) \<times> FS" where
  "op_readFile d p fs =
     (let (f, fs1) = nextFault fs in
      case fs_dir fs d p of
        None \<Rightarrow> (Inl ErrNotExist, fs1)
      | Some fl \<Rightarrow> (case f of Works \<Rightarrow> (Inr (content fl), fs1) | _ \<Rightarrow> (Inl ErrIO, fs1)))"

definition op_syncDirHandle :: "dirId \<Rightarrow> FS \<Rightarrow> FsErr option \<times> FS" where
  "op_syncDirHandle d fs =
     (let (f, fs1) = nextFault fs in
      case f of Works \<Rightarrow> (None, syncDir d fs1) | Fails n \<Rightarrow> (Some ErrIO, fs1) | FailsAfter \<Rightarrow> (Some ErrIO, syncDir d fs1))"

definition op_openDir :: "FS \<Rightarrow> FsErr option \<times> FS" where
  "op_openDir = op_close"

text \<open>\<^verbatim>\<open>lstat\<close> of a receipts root, which is a real directory or cannot be read.\<close>

definition op_lstat :: "FS \<Rightarrow> FsErr option \<times> FS" where
  "op_lstat = op_close"

text \<open>\<^verbatim>\<open>lstat\<close> of an entry: every entry is a regular file.\<close>

definition op_lstatFile :: "dirId \<Rightarrow> string \<Rightarrow> FS \<Rightarrow> FsErr option \<times> FS" where
  "op_lstatFile d p fs =
     (let (f, fs1) = nextFault fs in
      if fs_dir fs d p = None then (Some ErrNotExist, fs1)
      else (case f of Works \<Rightarrow> (None, fs1) | _ \<Rightarrow> (Some ErrIO, fs1)))"

section \<open>Errors\<close>

text \<open>An error is the text of its message; \<^verbatim>\<open>errors.Join\<close> drops the nil errors.\<close>

fun FsErr_text :: "FsErr \<Rightarrow> string" where
  "FsErr_text ErrNotExist = ''file does not exist''"
| "FsErr_text ErrExist = ''file already exists''"
| "FsErr_text ErrIO = ''input/output error''"

definition wrapErr :: "string \<Rightarrow> string \<Rightarrow> string" where "wrapErr prefix e = prefix @ '': '' @ e"

definition toErr :: "FsErr option \<Rightarrow> string option" where "toErr = map_option FsErr_text"

fun joinErrs :: "string option list \<Rightarrow> string option" where
  "joinErrs [] = None"
| "joinErrs (None # es) = joinErrs es"
| "joinErrs (Some e # es) = Some (case joinErrs es of None \<Rightarrow> e | Some m \<Rightarrow> e @ [CHR 0x0A] @ m)"

section \<open>The durable helpers\<close>

definition readOptional :: "dirId \<Rightarrow> string \<Rightarrow> FS \<Rightarrow> (string + bytes option) \<times> FS" where
  "readOptional d p fs = (case op_readFile d p fs of
       (Inl ErrNotExist, fs1) \<Rightarrow> (Inr None, fs1)
     | (Inl e, fs1) \<Rightarrow> (Inl (FsErr_text e), fs1)
     | (Inr data, fs1) \<Rightarrow> (Inr (Some data), fs1))"

definition syncDirectory :: "dirId \<Rightarrow> FS \<Rightarrow> string option \<times> FS" where
  "syncDirectory d fs = (case op_openDir fs of
       (Some e, fs1) \<Rightarrow> (Some (FsErr_text e), fs1)
     | (None, fs1) \<Rightarrow> (case op_syncDirHandle d fs1 of
           (Some e, fs2) \<Rightarrow> (let (c, fs3) = op_close fs2 in (joinErrs [Some (FsErr_text e), toErr c], fs3))
         | (None, fs2) \<Rightarrow> (let (c, fs3) = op_close fs2 in (None, fs3))))"

definition durableFile :: "dirId \<Rightarrow> string \<Rightarrow> bytes \<Rightarrow> FS \<Rightarrow> string option \<times> FS" where
  "durableFile d p data fs = (case op_create d p fs of
       (Some e, fs1) \<Rightarrow> (Some (FsErr_text e), fs1)
     | (None, fs1) \<Rightarrow> (case op_write d p data fs1 of
           (Some e, fs2) \<Rightarrow> (let (c, fs3) = op_close fs2; (r, fs4) = op_remove d p fs3 in
              (joinErrs [Some (FsErr_text e), toErr c, toErr r], fs4))
         | (None, fs2) \<Rightarrow> (case op_syncFile d p fs2 of
               (Some e, fs3) \<Rightarrow> (let (c, fs4) = op_close fs3; (r, fs5) = op_remove d p fs4 in
                  (joinErrs [Some (FsErr_text e), toErr c, toErr r], fs5))
             | (None, fs3) \<Rightarrow> (case op_close fs3 of
                   (Some e, fs4) \<Rightarrow> (let (r, fs5) = op_remove d p fs4 in
                      (joinErrs [Some (FsErr_text e), toErr r], fs5))
                 | (None, fs4) \<Rightarrow> (None, fs4)))))"

datatype noReplaceState = noReplaceInstalled | noReplaceNotInstalled | noReplaceRefused | noReplaceIndeterminate

definition classifyNoReplaceCleanupFailure ::
    "dirId \<Rightarrow> string \<Rightarrow> string \<Rightarrow> bytes \<Rightarrow> FsErr \<Rightarrow> FS \<Rightarrow> (noReplaceState \<times> string option) \<times> FS" where
  "classifyNoReplaceCleanupFailure d path tmp data cause fs =
     (let (target, fs1) = readOptional d path fs; (temp, fs2) = readOptional d tmp fs1;
          errOf = (\<lambda>x. case x of Inl e \<Rightarrow> Some e | Inr _ \<Rightarrow> None);
          f1 = (case target of Inr t \<Rightarrow> if t \<noteq> Some data
                  then Some ''installed record missing or differs after temp cleanup failure'' else None
                | Inl _ \<Rightarrow> None);
          f2 = (case temp of Inr (Some t) \<Rightarrow> if t \<noteq> data then Some ''install temp differs after cleanup failure'' else None
                | _ \<Rightarrow> None) in
      ((noReplaceIndeterminate, joinErrs [Some (FsErr_text cause), errOf target, errOf temp, f1, f2]), fs2))"

text \<open>\<open>sfx\<close> is the suffix \<^verbatim>\<open>uniqueTmpSuffix\<close> draws.\<close>

definition durableNoReplace ::
    "string \<Rightarrow> dirId \<Rightarrow> string \<Rightarrow> bytes \<Rightarrow> FS \<Rightarrow> (noReplaceState \<times> string option) \<times> FS" where
  "durableNoReplace sfx d path data fs = (case readOptional d path fs of
       (Inl e, fs1) \<Rightarrow> ((noReplaceRefused, Some e), fs1)
     | (Inr (Some existing), fs1) \<Rightarrow>
         (if existing = data then ((noReplaceInstalled, None), fs1)
          else ((noReplaceRefused, Some ''existing record differs''), fs1))
     | (Inr None, fs1) \<Rightarrow>
         (let tmp = path @ ''.tmp-'' @ sfx in
          case durableFile d tmp data fs1 of
            (Some e, fs2) \<Rightarrow> ((noReplaceNotInstalled, Some e), fs2)
          | (None, fs2) \<Rightarrow> (case op_link d tmp path fs2 of
                (Some e, fs3) \<Rightarrow> (case readOptional d path fs3 of
                    (Inr (Some existing), fs4) \<Rightarrow>
                      (if existing = data then (case op_remove d tmp fs4 of
                           (Some ce, fs5) \<Rightarrow> ((noReplaceIndeterminate, joinErrs [Some (FsErr_text e), Some (FsErr_text ce)]), fs5)
                         | (None, fs5) \<Rightarrow> ((noReplaceInstalled, None), fs5))
                       else ((noReplaceRefused, Some ''conflicting record appeared during install''), fs4))
                  | (Inl re, fs4) \<Rightarrow> ((noReplaceIndeterminate, joinErrs [Some (FsErr_text e), Some re]), fs4)
                  | (Inr None, fs4) \<Rightarrow> (let (r, fs5) = op_remove d tmp fs4 in
                      ((noReplaceNotInstalled, joinErrs [Some (FsErr_text e), toErr r]), fs5)))
              | (None, fs3) \<Rightarrow> (case op_remove d tmp fs3 of
                    (Some ce, fs4) \<Rightarrow> classifyNoReplaceCleanupFailure d path tmp data ce fs4
                  | (None, fs4) \<Rightarrow> ((noReplaceInstalled, None), fs4)))))"

section \<open>Reasoning: the namespaces a run can leave behind\<close>

text \<open>
  \<open>within A fs\<close>: each directory, now and at any point since its last sync, is in its set.
  \<open>stays A fs fs'\<close>: so it was at every moment from \<open>fs\<close> to \<open>fs'\<close>.
\<close>

definition within :: "(dirId \<Rightarrow> ns set) \<Rightarrow> FS \<Rightarrow> bool" where
  "within A fs \<longleftrightarrow> (\<forall>d. fs_dir fs d \<in> A d \<and> set (fs_pend fs d) \<subseteq> A d)"

definition stays :: "(dirId \<Rightarrow> ns set) \<Rightarrow> FS \<Rightarrow> FS \<Rightarrow> bool" where
  "stays A fs fs' \<longleftrightarrow> within A fs' \<and>
     (\<exists>new. fs_snaps fs' = new @ fs_snaps fs \<and> (\<forall>s \<in> set new. \<forall>d. set (s d) \<subseteq> A d))"

definition closedAt :: "(dirId \<Rightarrow> ns set) \<Rightarrow> dirId \<Rightarrow> string \<Rightarrow> bool" where
  "closedAt A d p \<longleftrightarrow> (\<forall>n \<in> A d. \<forall>f. n(p := f) \<in> A d)"

definition frame :: "dirId \<Rightarrow> string set \<Rightarrow> FS \<Rightarrow> FS \<Rightarrow> bool" where
  "frame d P fs fs' \<longleftrightarrow> (\<forall>d'. d' \<noteq> d \<longrightarrow> fs_dir fs' d' = fs_dir fs d' \<and> fs_pend fs' d' = fs_pend fs d')
     \<and> (\<forall>q. q \<notin> P \<longrightarrow> fs_dir fs' d q = fs_dir fs d q)"

lemma stays_refl [simp]: "stays A fs fs \<longleftrightarrow> within A fs"
  by (simp add: stays_def)

lemma stays_trans: "stays A fs fs1 \<Longrightarrow> stays A fs1 fs2 \<Longrightarrow> stays A fs fs2"
  by (fastforce simp: stays_def)

lemma stays_within: "stays A fs fs' \<Longrightarrow> within A fs'"
  by (simp add: stays_def)

lemma stays_mono:
  assumes "stays A fs fs'" and "\<And>d. A d \<subseteq> B d"
  shows "stays B fs fs'"
proof -
  obtain new where "fs_snaps fs' = new @ fs_snaps fs" "\<forall>s \<in> set new. \<forall>d. set (s d) \<subseteq> A d"
    using assms(1) by (auto simp: stays_def)
  moreover have "within B fs'" using assms unfolding stays_def within_def by blast
  ultimately show ?thesis unfolding stays_def using assms(2) by (meson dual_order.trans)
qed

lemma frame_refl [simp]: "frame d P fs fs"
  by (simp add: frame_def)

lemma frame_trans: "frame d P fs fs1 \<Longrightarrow> frame d P fs1 fs2 \<Longrightarrow> frame d P fs fs2"
  by (simp add: frame_def)

lemma frame_mono: "frame d P fs fs' \<Longrightarrow> P \<subseteq> Q \<Longrightarrow> frame d Q fs fs'"
  by (auto simp: frame_def)

lemma tick_fields [simp]:
  "fs_dir (fs\<lparr>fs_now := k\<rparr>) = fs_dir fs" "fs_pend (fs\<lparr>fs_now := k\<rparr>) = fs_pend fs" "fs_snaps (fs\<lparr>fs_now := k\<rparr>) = fs_snaps fs"
  by simp_all

lemma stays_tick [simp]: "stays A fs (fs\<lparr>fs_now := k\<rparr>) \<longleftrightarrow> within A fs" "frame d P fs (fs\<lparr>fs_now := k\<rparr>)"
  by (simp_all add: stays_def within_def frame_def)

lemma setDir_fields [simp]: "fs_dir (setDir d n fs) = (fs_dir fs)(d := n)"
  "fs_pend (setDir d n fs) = (fs_pend fs)(d := n # fs_pend fs d)"
  by (simp_all add: setDir_def Let_def)

lemma syncDir_fields [simp]: "fs_dir (syncDir d fs) = fs_dir fs"
  "fs_pend (syncDir d fs) = (fs_pend fs)(d := [fs_dir fs d])"
  by (simp_all add: syncDir_def Let_def)

lemma stays_setDir: "within A fs \<Longrightarrow> n \<in> A d \<Longrightarrow> stays A fs (setDir d n (fs\<lparr>fs_now := k\<rparr>))"
  by (auto simp: stays_def within_def setDir_def Let_def)

lemma stays_syncDir: "within A fs \<Longrightarrow> stays A fs (syncDir d (fs\<lparr>fs_now := k\<rparr>))"
  by (auto simp: stays_def within_def syncDir_def Let_def)

lemma closedAt_upd: "closedAt A d p \<Longrightarrow> within A fs \<Longrightarrow> (fs_dir fs d)(p := f) \<in> A d"
  by (simp add: closedAt_def within_def)

lemmas fs_ops = op_mkdirAll_def op_create_def op_write_def op_syncFile_def op_close_def op_remove_def op_rename_def
  op_link_def op_readFile_def op_syncDirHandle_def op_openDir_def op_lstat_def nextFault_def

text \<open>Operations on one name keep a set that does not constrain this name.\<close>

lemma op_quiet:
  assumes "within A fs"
  shows "op_close fs = (e, fs') \<Longrightarrow> stays A fs fs' \<and> frame d P fs fs' \<and> fs_dir fs' = fs_dir fs \<and> fs_pend fs' = fs_pend fs"
    and "op_mkdirAll fs = (e, fs') \<Longrightarrow> stays A fs fs' \<and> frame d P fs fs' \<and> fs_dir fs' = fs_dir fs \<and> fs_pend fs' = fs_pend fs"
    and "op_readFile d' p fs = (x, fs') \<Longrightarrow> stays A fs fs' \<and> frame d P fs fs' \<and> fs_dir fs' = fs_dir fs \<and> fs_pend fs' = fs_pend fs"
  using assms by (auto simp: fs_ops Let_def split: fault.splits option.splits)

lemma op_named:
  assumes "within A fs" "closedAt A d p"
  shows "op_create d p fs = (e, fs') \<Longrightarrow> stays A fs fs' \<and> frame d {p} fs fs' \<and> (e = None \<longrightarrow> fs_dir fs' d p = Some (File [] False))"
    and "op_write d p data fs = (e, fs') \<Longrightarrow> stays A fs fs' \<and> frame d {p} fs fs' \<and> (e = None \<longrightarrow> fs_dir fs' d p = Some (File data False))"
    and "op_syncFile d p fs = (e, fs') \<Longrightarrow> stays A fs fs' \<and> frame d {p} fs fs' \<and>
           (e = None \<longrightarrow> fs_dir fs' d p = map_option (\<lambda>fl. File (content fl) True) (fs_dir fs d p))"
    and "op_remove d p fs = (e, fs') \<Longrightarrow> stays A fs fs' \<and> frame d {p} fs fs' \<and> (e = None \<or> e = Some ErrNotExist \<longrightarrow> fs_dir fs' d p = None)"
  using assms
  by (auto simp: fs_ops Let_def frame_def closedAt_upd intro!: stays_setDir split: fault.splits option.splits if_splits)

text \<open>The namespace after a rename of \<open>p\<close> to \<open>q\<close>.\<close>

definition renamed :: "string \<Rightarrow> string \<Rightarrow> ns \<Rightarrow> ns" where
  "renamed p q n = (case n p of None \<Rightarrow> n | Some fl \<Rightarrow> n(p := None, q \<mapsto> fl))"

lemma op_rename_spec:
  assumes "within A fs" "renamed p q (fs_dir fs d) \<in> A d" and "op_rename d p q fs = (e, fs')"
  shows "stays A fs fs' \<and> frame d {p, q} fs fs' \<and> (fs_dir fs' d = fs_dir fs d \<or> fs_dir fs' d = renamed p q (fs_dir fs d))
     \<and> (e = None \<longrightarrow> fs_dir fs d p \<noteq> None \<and> fs_dir fs' d = renamed p q (fs_dir fs d))
     \<and> (fs_dir fs' d = fs_dir fs d \<and> fs_pend fs' d = fs_pend fs d \<or> fs_pend fs' d = fs_dir fs' d # fs_pend fs d)"
  using assms
  by (auto simp: fs_ops Let_def frame_def renamed_def intro!: stays_setDir split: fault.splits option.splits)

lemma op_link_spec:
  assumes "within A fs" "fs_dir fs d p = Some fl" "(fs_dir fs d)(q \<mapsto> fl) \<in> A d" and "op_link d p q fs = (e, fs')"
  shows "stays A fs fs' \<and> frame d {q} fs fs' \<and> (fs_dir fs' d = fs_dir fs d \<or> fs_dir fs' d = (fs_dir fs d)(q \<mapsto> fl))
     \<and> (e = None \<longrightarrow> fs_dir fs' d = (fs_dir fs d)(q \<mapsto> fl))"
  using assms
  by (auto simp: fs_ops Let_def frame_def intro!: stays_setDir split: fault.splits option.splits if_splits)

lemma readOptional_spec:
  assumes "within A fs" and "readOptional d p fs = (r, fs')"
  shows "stays A fs fs' \<and> frame d' P fs fs' \<and> fs_dir fs' = fs_dir fs \<and> fs_pend fs' = fs_pend fs
     \<and> (\<forall>v. r = Inr v \<longrightarrow> v = map_option content (fs_dir fs d p))"
  using assms
  by (auto simp: readOptional_def fs_ops Let_def split: fault.splits option.splits)

lemma op_syncDirHandle_spec:
  assumes "within A fs" and "op_syncDirHandle d fs = (e, fs')"
  shows "stays A fs fs' \<and> fs_dir fs' = fs_dir fs \<and> (\<forall>d'. d' \<noteq> d \<longrightarrow> fs_pend fs' d' = fs_pend fs d')
     \<and> (e = None \<longrightarrow> fs_pend fs' = (fs_pend fs)(d := [fs_dir fs d]))"
  using assms by (auto simp: fs_ops Let_def intro!: stays_syncDir split: fault.splits)

lemma syncDirectory_spec:
  assumes "within A fs" and r: "syncDirectory d fs = (e, fs')"
  shows "stays A fs fs' \<and> frame d P fs fs' \<and> fs_dir fs' = fs_dir fs
     \<and> (e = None \<longrightarrow> fs_pend fs' = (fs_pend fs)(d := [fs_dir fs d]))"
proof -
  note close = op_quiet(1) [where d = d and P = P]
  obtain e1 fs1 where 1: "op_openDir fs = (e1, fs1)" by fastforce
  note q1 = close [OF assms(1) 1 [unfolded op_openDir_def]]
  show ?thesis
  proof (cases e1)
    case (Some x)
    then show ?thesis using r 1 q1 by (auto simp: syncDirectory_def)
  next
    case None
    obtain e2 fs2 where 2: "op_syncDirHandle d fs1 = (e2, fs2)" by fastforce
    have w1: "within A fs1" using q1 by (blast intro: stays_within)
    note s2 = op_syncDirHandle_spec [OF w1 2]
    obtain e3 fs3 where 3: "op_close fs2 = (e3, fs3)" by fastforce
    have w2: "within A fs2" using s2 by (blast intro: stays_within)
    note q3 = close [OF w2 3]
    have "fs' = fs3" "e = None \<longrightarrow> e2 = None"
      using r 1 2 3 None by (auto simp: syncDirectory_def split: option.splits prod.splits)
    moreover have "stays A fs fs3" using q1 s2 q3 by (blast intro: stays_trans)
    moreover have "fs_dir fs3 = fs_dir fs" "frame d P fs fs3" "e2 = None \<longrightarrow> fs_pend fs3 = (fs_pend fs)(d := [fs_dir fs d])"
      using q1 s2 q3 by (simp_all add: frame_def)
    ultimately show ?thesis by blast
  qed
qed

lemma joinErrs_Some [simp]: "joinErrs (Some e # es) \<noteq> None"
  by simp

lemma durableFile_spec:
  assumes w: "within A fs" and c: "closedAt A d p" and r: "durableFile d p data fs = (e, fs')"
  shows "stays A fs fs' \<and> frame d {p} fs fs' \<and> (e = None \<longrightarrow> fs_dir fs' d p = Some (File data True))"
proof -
  note named = op_named [OF _ c] and quiet = op_quiet
  obtain e1 fs1 where 1: "op_create d p fs = (e1, fs1)" by fastforce
  note s1 = named(1) [OF w 1]
  have w1: "within A fs1" using s1 by (blast intro: stays_within)
  show ?thesis
  proof (cases e1)
    case (Some x)
    then show ?thesis using r 1 s1 by (auto simp: durableFile_def)
  next
    case None
    obtain e2 fs2 where 2: "op_write d p data fs1 = (e2, fs2)" by fastforce
    note s2 = named(2) [OF w1 2]
    have w2: "within A fs2" using s2 by (blast intro: stays_within)
    have abort: "stays A fs fb' \<and> frame d {p} fs fb'"
      if "stays A fs fb" "frame d {p} fs fb" "op_close fb = (c1, fc)" "op_remove d p fc = (r1, fb')" for fb fb' c1 fc r1
    proof -
      have q: "stays A fb fc" "frame d {p} fb fc" using quiet(1) [OF stays_within [OF that(1)] that(3), of d "{p}"] by simp_all
      have "stays A fc fb'" "frame d {p} fc fb'" using named(4) [OF stays_within [OF q(1)] that(4)] by simp_all
      then show ?thesis using that(1,2) q by (blast intro: stays_trans frame_trans)
    qed
    have p2: "stays A fs fs2" "frame d {p} fs fs2" using s1 s2 by (blast intro: stays_trans frame_trans)+
    show ?thesis
    proof (cases e2)
      case (Some x)
      then show ?thesis using r 1 2 None abort [OF p2]
        by (auto simp: durableFile_def Let_def split: prod.splits)
    next
      case n2: None
      obtain e3 fs3 where 3: "op_syncFile d p fs2 = (e3, fs3)" by fastforce
      note s3 = named(3) [OF w2 3]
      have p3: "stays A fs fs3" "frame d {p} fs fs3" using p2 s3 by (blast intro: stays_trans frame_trans)+
      show ?thesis
      proof (cases e3)
        case (Some x)
        then show ?thesis using r 1 2 3 None n2 abort [OF p3]
          by (auto simp: durableFile_def Let_def split: prod.splits)
      next
        case n3: None
        obtain e4 fs4 where 4: "op_close fs3 = (e4, fs4)" by fastforce
        note s4 = quiet(1) [OF stays_within [OF p3(1)] 4, of d "{p}"]
        have p4: "stays A fs fs4" "frame d {p} fs fs4" using p3 s4 by (blast intro: stays_trans frame_trans)+
        have "fs_dir fs4 d p = Some (File data True)" using s2 s3 s4 n2 n3 by simp
        moreover have "stays A fs fr \<and> frame d {p} fs fr" if "op_remove d p fs4 = (r1, fr)" for r1 fr
          using named(4) [OF stays_within [OF p4(1)] that] p4 by (blast intro: stays_trans frame_trans)
        ultimately show ?thesis using r 1 2 3 4 None n2 n3 p4
          by (auto simp: durableFile_def Let_def split: prod.splits option.splits)
      qed
    qed
  qed
qed

lemma classifyNoReplaceCleanupFailure_spec:
  assumes "within A fs" and "classifyNoReplaceCleanupFailure d path tmp data cause fs = ((st, e), fs')"
  shows "stays A fs fs' \<and> fs_dir fs' = fs_dir fs \<and> fs_pend fs' = fs_pend fs \<and> st = noReplaceIndeterminate"
proof -
  obtain r1 fs1 where 1: "readOptional d path fs = (r1, fs1)" by fastforce
  obtain r2 fs2 where 2: "readOptional d tmp fs1 = (r2, fs2)" by fastforce
  note s1 = readOptional_spec [OF assms(1) 1, of d "{}"]
  have "within A fs1" using s1 by (blast intro: stays_within)
  note s2 = readOptional_spec [OF this 2, of d "{}"]
  have "fs' = fs2" "st = noReplaceIndeterminate"
    using assms(2) 1 2 by (auto simp: classifyNoReplaceCleanupFailure_def Let_def)
  then show ?thesis using s1 s2 stays_trans by fastforce
qed

lemma durableNoReplace_present:
  assumes "within A fs" and "fs_dir fs d path \<noteq> None" and "durableNoReplace sfx d path data fs = ((st, e), fs')"
  shows "stays A fs fs' \<and> fs_dir fs' = fs_dir fs \<and> fs_pend fs' = fs_pend fs
     \<and> st \<in> {noReplaceInstalled, noReplaceRefused}
     \<and> (st = noReplaceInstalled \<longrightarrow> map_option content (fs_dir fs d path) = Some data)"
proof -
  obtain r1 fs1 where 1: "readOptional d path fs = (r1, fs1)" by fastforce
  note s1 = readOptional_spec [OF assms(1) 1, of d "{}"]
  show ?thesis
  proof (cases r1)
    case (Inl x)
    then show ?thesis using assms(3) 1 s1 by (auto simp: durableNoReplace_def)
  next
    case (Inr v)
    obtain fl where fl: "fs_dir fs d path = Some fl" using assms(2) by blast
    then have "v = Some (content fl)" using s1 Inr by simp
    then show ?thesis using assms(3) 1 s1 Inr fl by (auto simp: durableNoReplace_def split: if_splits)
  qed
qed

text \<open>The whole helper, on a name that is free: only the name and its temporary file change.\<close>

lemma durableNoReplace_absent:
  assumes w: "within A fs" and free: "fs_dir fs d path = None"
    and c: "closedAt A d (path @ ''.tmp-'' @ sfx)"
    and inst: "\<And>f. (fs_dir fs d)(path @ ''.tmp-'' @ sfx := f, path \<mapsto> File data True) \<in> A d"
    and r: "durableNoReplace sfx d path data fs = ((st, e), fs')"
  shows "stays A fs fs' \<and> frame d {path, path @ ''.tmp-'' @ sfx} fs fs'
     \<and> (st = noReplaceInstalled \<longrightarrow> fs_dir fs' d path = Some (File data True))
     \<and> (st = noReplaceNotInstalled \<or> st = noReplaceRefused \<longrightarrow> fs_dir fs' d path = None)
     \<and> (fs_dir fs' d path = None \<or> fs_dir fs' d path = Some (File data True))"
proof -
  let ?tmp = "path @ ''.tmp-'' @ sfx"
  let ?P = "{path, ?tmp}"
  have neq: "?tmp \<noteq> path" by simp
  note named = op_named [OF _ c]
  obtain r1 fs1 where 1: "readOptional d path fs = (r1, fs1)" by fastforce
  note s1 = readOptional_spec [OF w 1, of d ?P]
  have w1: "within A fs1" using s1 by (blast intro: stays_within)
  show ?thesis
  proof (cases "r1 = Inr None")
    case False
    then obtain x where "r1 = Inl x" using s1 free by (cases r1) auto
    then show ?thesis using r 1 s1 free by (auto simp: durableNoReplace_def)
  next
    case True
    obtain e2 fs2 where 2: "durableFile d ?tmp data fs1 = (e2, fs2)" by fastforce
    note s2 = durableFile_spec [OF w1 c 2]
    have w2: "within A fs2" using s2 by (blast intro: stays_within)
    have p2: "stays A fs fs2" "frame d ?P fs fs2" "fs_dir fs2 d path = None"
      using s1 s2 free neq frame_mono [of d "{?tmp}" fs1 fs2 ?P]
      by (auto intro: stays_trans frame_trans simp: frame_def)
    show ?thesis
    proof (cases e2)
      case (Some x)
      then show ?thesis using r 1 2 True p2 by (auto simp: durableNoReplace_def Let_def)
    next
      case None
      then have tmp2: "fs_dir fs2 d ?tmp = Some (File data True)" using s2 by simp
      have upd: "(fs_dir fs2 d)(path \<mapsto> File data True) = (fs_dir fs d)(?tmp \<mapsto> File data True, path \<mapsto> File data True)"
        using p2(2) tmp2 by (auto simp: frame_def fun_eq_iff)
      obtain e3 fs3 where 3: "op_link d ?tmp path fs2 = (e3, fs3)" by fastforce
      note s3 = op_link_spec [OF w2 tmp2 _ 3, unfolded upd, OF inst]
      have w3: "within A fs3" using s3 by (blast intro: stays_within)
      have p3: "stays A fs fs3" "frame d ?P fs fs3" "fs_dir fs3 d path = None \<or> fs_dir fs3 d path = Some (File data True)"
      proof -
        show "stays A fs fs3" using p2(1) s3 by (blast intro: stays_trans)
        have "frame d ?P fs2 fs3" using s3 frame_mono [of d "{path}" fs2 fs3 ?P] by blast
        then show "frame d ?P fs fs3" using p2(2) by (blast intro: frame_trans)
        show "fs_dir fs3 d path = None \<or> fs_dir fs3 d path = Some (File data True)"
          using s3 p2(3) by (metis fun_upd_same)
      qed
      have rm: "stays A fs fb \<and> frame d ?P fs fb \<and> fs_dir fb d path = fs_dir fa d path"
        if "stays A fs fa" "frame d ?P fs fa" "op_remove d ?tmp fa = (x, fb)" for fa fb x
      proof (intro conjI)
        note n = named(4) [OF stays_within [OF that(1)] that(3)]
        show "stays A fs fb" using n that(1) by (blast intro: stays_trans)
        have "frame d ?P fa fb" using n frame_mono [of d "{?tmp}" fa fb ?P] by blast
        then show "frame d ?P fs fb" using that(2) by (blast intro: frame_trans)
        have "frame d {?tmp} fa fb" using n by blast
        then show "fs_dir fb d path = fs_dir fa d path" using neq by (simp add: frame_def)
      qed
      show ?thesis
      proof (cases e3)
        case n3: None
        then have i3: "fs_dir fs3 d path = Some (File data True)" using s3 upd by simp
        obtain e4 fs4 where 4: "op_remove d ?tmp fs3 = (e4, fs4)" by fastforce
        note s4 = rm [OF p3(1,2) 4]
        show ?thesis
        proof (cases e4)
          case None
          then show ?thesis using r 1 2 3 4 True \<open>e2 = None\<close> n3 s4 i3 by (auto simp: durableNoReplace_def Let_def)
        next
          case (Some ce)
          have "classifyNoReplaceCleanupFailure d path ?tmp data ce fs4 = ((st, e), fs')"
            using r 1 2 3 4 True \<open>e2 = None\<close> n3 Some by (simp add: durableNoReplace_def Let_def)
          have w4: "within A fs4" using s4 by (blast intro: stays_within)
          note c4 = classifyNoReplaceCleanupFailure_spec [OF w4 \<open>classifyNoReplaceCleanupFailure d path ?tmp data ce fs4 = _\<close>]
          have "stays A fs fs'" using s4 c4 by (blast intro: stays_trans)
          moreover have "frame d ?P fs fs'" using s4 c4 by (simp add: frame_def)
          moreover have "st = noReplaceIndeterminate" "fs_dir fs' = fs_dir fs4" using s4 c4 by blast+
          ultimately show ?thesis using s4 i3 by simp
        qed
      next
        case (Some x)
        obtain r4 fs4 where 4: "readOptional d path fs3 = (r4, fs4)" by fastforce
        note s4 = readOptional_spec [OF w3 4, of d ?P]
        have p4: "stays A fs fs4" "frame d ?P fs fs4" "fs_dir fs4 = fs_dir fs3"
          using p3 s4 by (blast intro: stays_trans frame_trans)+
        obtain e5 fs5 where 5: "op_remove d ?tmp fs4 = (e5, fs5)" by fastforce
        note s5 = rm [OF p4(1,2) 5]
        show ?thesis
        proof (cases r4)
          case (Inl y)
          then show ?thesis using r 1 2 3 4 True \<open>e2 = None\<close> Some p4 p3(3) by (auto simp: durableNoReplace_def Let_def)
        next
          case (Inr v)
          then have v: "v = map_option content (fs_dir fs3 d path)" using s4 by blast
          show ?thesis
          proof (cases v)
            case None
            then have "fs_dir fs3 d path = None" using v by simp
            then show ?thesis using r 1 2 3 4 5 True \<open>e2 = None\<close> Some Inr None s5 p4
              by (auto simp: durableNoReplace_def Let_def)
          next
            case (Some b)
            then have b: "b = data" "fs_dir fs3 d path = Some (File data True)" using v p3(3) by auto
            show ?thesis using r 1 2 3 4 5 True \<open>e2 = None\<close> \<open>e3 = Some x\<close> Inr Some s5 p4 b
              by (auto simp: durableNoReplace_def Let_def split: option.splits)
          qed
        qed
      qed
    qed
  qed
qed

end
