(* ===== verification/Replace_Intent.thy ===== *)
theory Replace_Intent
  imports Queue_Validation Queue_Completion File_System
begin

text \<open>
  The records of the replacement protocol of \<^verbatim>\<open>internal/queue/transaction.go\<close> and their validation:
  the replace intent with its completion, failed-recovery and archive bindings, the plan it is
  prepared from, \<open>prepareReplacement\<close>, the strict decoder \<open>decodeReplaceIntent\<close>, and the linked
  archive handoff.

  A validator returns \<open>None\<close> or the text of its error. What the code takes from \<^verbatim>\<open>google/uuid\<close>,
  \<^verbatim>\<open>crypto/sha256\<close>, \<^verbatim>\<open>encoding/base64\<close>, \<^verbatim>\<open>encoding/json\<close> and the layouts of \<^verbatim>\<open>time\<close> is one
  record \<open>Codec\<close> of functions. \<^verbatim>\<open>json.Marshal\<close> of the records of strings and numbers cannot fail, so
  these encoders are total; the encoder of a queue may fail. \<open>cd_quote\<close> is the \<^verbatim>\<open>%q\<close> verb. The decoder fields for the records are
  \<open>strictJSON\<close> at their types, which accepts one JSON value with known fields only.
\<close>

section \<open>Records\<close>

datatype NamespaceOutcome =
  OutcomeRejected | OutcomeNotCommitted | OutcomeCommittedDurable | OutcomeCommitIndeterminate

datatype OperationKind =
    OperationCreate | OperationSubmit | OperationAppend | OperationReservation | OperationRunIDPatch
  | OperationActivation | OperationAdvance | OperationPause | OperationResume | OperationFailedRecovery
  | OperationEagerRefill | OperationBudgetCharge | OperationReviewCharge | OperationMaintenance
  | OperationReconciliation | OperationStartup | OperationInline | OperationBootstrap
  | OperationCrewPlaceholder | OperationCancellation | OperationCompletion | OperationKindOther string

record CompletionReceiptBinding =
  crb_ReceiptID :: string
  crb_Basename :: string
  crb_SchemaVersion :: int
  crb_CanonicalBytesBase64 :: string
  crb_SHA256 :: string

record CompletionReceipt =
  cr_SchemaVersion :: int
  cr_QueueID :: string
  cr_ReceiptID :: string
  cr_TransactionID :: string
  cr_NormalizedName :: string
  cr_FinalGroupIndex :: int
  cr_FinalStatus :: string
  cr_SuccessCount :: int
  cr_FailCount :: int
  cr_CompletedAt :: string
  cr_CompletedQueueSHA256 :: string

record CompletionReleaseMarker =
  crm_RecordType :: string
  crm_SchemaVersion :: int
  crm_QueueID :: string
  crm_ReceiptID :: string
  crm_TransactionID :: string
  crm_ReceiptSHA256 :: string
  crm_CompletedQueueSHA256 :: string
  crm_ReleasedAt :: string
  crm_GCNotBefore :: string

record CompletionReleaseMarkerInputs =
  cmi_QueueID :: string
  cmi_ReceiptID :: string
  cmi_TransactionID :: string
  cmi_ReceiptSHA256 :: string
  cmi_CompletedQueueSHA256 :: string

record ArchiveHandoff =
  ah_ArchiveOrigin :: string
  ah_ArchiveKind :: string
  ah_SourceIdentity :: string
  ah_SourceCandidateSHA256 :: string
  ah_DestinationBasename :: string
  ah_SuccessorArchiveIntentID :: string
  ah_SuccessorArchiveIntentBytesBase64 :: string
  ah_SuccessorArchiveIntentSHA256 :: string

record FailedRecoveryReceiptBinding =
  frb_ReceiptID :: string
  frb_TransactionID :: string
  frb_Basename :: string
  frb_SchemaVersion :: int
  frb_CanonicalBytesBase64 :: string
  frb_SHA256 :: string

record ReplaceIntentV1 =
  ri_SchemaVersion :: int
  ri_TransactionID :: string
  ri_OperationKind :: OperationKind
  ri_NormalizedName :: string
  ri_QueueID :: string
  ri_CanonicalBasename :: string
  ri_PriorState :: string
  ri_CandidateSHA256 :: string
  ri_CandidateTempBasename :: string
  ri_WakeRequired :: bool
  ri_CompletionReceiptBinding :: "CompletionReceiptBinding option"
  ri_FailedRecoveryReceiptBinding :: "FailedRecoveryReceiptBinding option"
  ri_ArchiveHandoffBinding :: "ArchiveHandoff option"

record FailedRecoveryItem =
  fri_BeadID :: string
  fri_RetiredRunID :: "string option"

text \<open>A nil slice of recovered items is \<open>None\<close>.\<close>

record FailedRecoveryReceipt =
  frr_SchemaVersion :: int
  frr_RecordType :: string
  frr_QueueID :: string
  frr_ReceiptID :: string
  frr_TransactionID :: string
  frr_NormalizedName :: string
  frr_PriorQueueSHA256 :: string
  frr_RecoveredQueueSHA256 :: string
  frr_RecoveredItems :: "FailedRecoveryItem list option"
  frr_RecoveredAt :: string

record ArchiveIntentV1 =
  ai_SchemaVersion :: int
  ai_ArchiveIntentID :: string
  ai_PredecessorTransactionID :: string
  ai_ArchiveOrigin :: string
  ai_ArchiveKind :: string
  ai_NormalizedName :: string
  ai_SourceIdentity :: string
  ai_SourceSHA256 :: string
  ai_DestinationBasename :: string

record ArchiveHandoffPlan =
  ahp_ArchiveOrigin :: string
  ahp_ArchiveKind :: string
  ahp_SourceIdentity :: string
  ahp_DestinationBasename :: string

record ArchiveRecoveryFacts =
  arf_NormalizedName :: string
  arf_SourceIdentity :: string
  arf_SourceSHA256 :: string
  arf_DestinationBasename :: string

record ReplacementPlan =
  rp_TransactionID :: string
  rp_OperationKind :: OperationKind
  rp_NormalizedName :: string
  rp_QueueID :: string
  rp_PriorBytes :: "bytes option"
  rp_CandidateBytes :: bytes
  rp_WakeRequired :: bool
  rp_ArchiveHandoff :: "ArchiveHandoffPlan option"
  rp_FailedRecoveryReceiptBinding :: "FailedRecoveryReceiptBinding option"
  rp_CompletionReceiptBinding :: "CompletionReceiptBinding option"

section \<open>What the code takes from libraries\<close>

record Codec =
  cd_uuidParse :: "string \<Rightarrow> (string \<times> nat) option"
  cd_sha256 :: "bytes \<Rightarrow> bytes"
  cd_base64 :: "bytes \<Rightarrow> string"
  cd_unbase64 :: "string \<Rightarrow> string + bytes"
  cd_queueJSON :: "Queue \<Rightarrow> string + bytes"
  cd_queue :: "bytes \<Rightarrow> string + Queue"
  cd_queueErr :: "UnmarshalError \<Rightarrow> string"
  cd_intentJSON :: "ReplaceIntentV1 \<Rightarrow> bytes"
  cd_intent :: "bytes \<Rightarrow> string + ReplaceIntentV1"
  cd_receiptJSON :: "CompletionReceipt \<Rightarrow> bytes"
  cd_receipt :: "bytes \<Rightarrow> string + CompletionReceipt"
  cd_failedJSON :: "FailedRecoveryReceipt \<Rightarrow> bytes"
  cd_failed :: "bytes \<Rightarrow> string + FailedRecoveryReceipt"
  cd_archiveJSON :: "ArchiveIntentV1 \<Rightarrow> bytes"
  cd_archive :: "bytes \<Rightarrow> string + ArchiveIntentV1"
  cd_markerJSON :: "CompletionReleaseMarker \<Rightarrow> bytes"
  cd_marker :: "bytes \<Rightarrow> string + CompletionReleaseMarker"
  cd_formatTime :: "go_time \<Rightarrow> string"
  cd_parseTime :: "string \<Rightarrow> go_time option"
  cd_quote :: "string \<Rightarrow> string"

text \<open>\<open>orFail\<close> is the early return of a non-nil error, \<open>andThen\<close> the same between validators.\<close>

definition orFail :: "'e option \<Rightarrow> 'e + 'a \<Rightarrow> 'e + 'a" where
  "orFail e k = (case e of Some x \<Rightarrow> Inl x | None \<Rightarrow> k)"

definition andThen :: "'e option \<Rightarrow> 'e option \<Rightarrow> 'e option" where
  "andThen e k = (case e of Some x \<Rightarrow> Some x | None \<Rightarrow> k)"

lemma orFail_Inr [simp]: "orFail e k = Inr v \<longleftrightarrow> e = None \<and> k = Inr v"
  by (auto simp: orFail_def split: option.splits)

lemma andThen_None [simp]: "andThen e k = None \<longleftrightarrow> e = None \<and> k = None"
  by (auto simp: andThen_def split: option.splits)

definition UnmarshalText :: "Codec \<Rightarrow> (string \<Rightarrow> bool) \<Rightarrow> bytes \<Rightarrow> string + Queue" where
  "UnmarshalText C uuid7 data = (case UnmarshalQueue uuid7 (cd_queue C) data of
     Inl e \<Rightarrow> Inl (cd_queueErr C e) | Inr q \<Rightarrow> Inr q)"

definition hexDigit :: "nat \<Rightarrow> char" where
  "hexDigit n = char_of (if n < 10 then 48 + n else 87 + n)"

definition hexEncode :: "bytes \<Rightarrow> string" where
  "hexEncode bs = concat (map (\<lambda>b. [hexDigit (of_char b div 16), hexDigit (of_char b mod 16)]) bs)"

definition isHexDigit :: "char \<Rightarrow> bool" where
  "isHexDigit c \<longleftrightarrow> CHR ''0'' \<le> c \<and> c \<le> CHR ''9'' \<or> CHR ''a'' \<le> c \<and> c \<le> CHR ''f'' \<or> CHR ''A'' \<le> c \<and> c \<le> CHR ''F''"

definition digestHex :: "Codec \<Rightarrow> bytes \<Rightarrow> string" where
  "digestHex C data = hexEncode (cd_sha256 C data)"

definition validSHA256 :: "string \<Rightarrow> bool" where
  "validSHA256 v \<longleftrightarrow> length v = 64 \<and> list_all isHexDigit v"

definition validateUUIDv7 :: "Codec \<Rightarrow> string \<Rightarrow> bool" where
  "validateUUIDv7 C v = (case cd_uuidParse C v of None \<Rightarrow> False | Some (s, version) \<Rightarrow> s = v \<and> version = 7)"

text \<open>\<^verbatim>\<open>filepath.Base\<close> on Unix: trailing slashes go, then all up to the last slash.\<close>

definition filepath_Base :: "string \<Rightarrow> string" where
  "filepath_Base p = (if p = [] then ''.'' else
     (let trimmed = rev (dropWhile (\<lambda>c. c = CHR ''/'') (rev p));
          base = rev (takeWhile (\<lambda>c. c \<noteq> CHR ''/'') (rev trimmed)) in
      if base = [] then ''/'' else base))"

definition parseRecoveryTimestamp :: "Codec \<Rightarrow> string \<Rightarrow> go_time option" where
  "parseRecoveryTimestamp C v = (case cd_parseTime C v of None \<Rightarrow> None
     | Some t \<Rightarrow> if cd_formatTime C t \<noteq> v then None else Some t)"

definition validRecoveryTimestamp :: "Codec \<Rightarrow> string \<Rightarrow> bool" where
  "validRecoveryTimestamp C v \<longleftrightarrow> parseRecoveryTimestamp C v \<noteq> None"

section \<open>The completion receipt\<close>

definition validateReceiptFields :: "Codec \<Rightarrow> CompletionReceipt \<Rightarrow> bool" where
  "validateReceiptFields C r \<longleftrightarrow> cr_SchemaVersion r = 1
     \<and> validateUUIDv7 C (cr_QueueID r) \<and> validateUUIDv7 C (cr_ReceiptID r) \<and> validateUUIDv7 C (cr_TransactionID r)
     \<and> cr_NormalizedName r \<noteq> [] \<and> NormaliseQueueName (cr_NormalizedName r) = cr_NormalizedName r
     \<and> 0 \<le> cr_FinalGroupIndex r \<and> cr_FinalStatus r = ''complete-success''
     \<and> 0 \<le> cr_SuccessCount r \<and> cr_FailCount r = 0
     \<and> validRecoveryTimestamp C (cr_CompletedAt r) \<and> validSHA256 (cr_CompletedQueueSHA256 r)"

definition DecodeCompletionReceipt :: "Codec \<Rightarrow> bytes \<Rightarrow> string + CompletionReceipt" where
  "DecodeCompletionReceipt C data = (case cd_receipt C data of
       Inl e \<Rightarrow> Inl (wrapErr ''completion receipt'' e)
     | Inr r \<Rightarrow>
         if cd_receiptJSON C r \<noteq> data then Inl ''completion receipt bytes are not canonical''
         else if \<not> validateReceiptFields C r then Inl ''invalid or unsupported completion receipt''
         else if \<not> fst (ValidateQueueName (cr_NormalizedName r)) then Inl ''invalid completion receipt queue name''
         else Inr r)"

definition boundBytes :: "Codec \<Rightarrow> string \<Rightarrow> string \<Rightarrow> bytes option" where
  "boundBytes C encoded sha = (case cd_unbase64 C encoded of Inl _ \<Rightarrow> None
     | Inr data \<Rightarrow> if data = [] \<or> digestHex C data \<noteq> sha then None else Some data)"

definition decodeBoundCompletionReceipt :: "Codec \<Rightarrow> CompletionReceiptBinding \<Rightarrow> string + CompletionReceipt" where
  "decodeBoundCompletionReceipt C b = (case boundBytes C (crb_CanonicalBytesBase64 b) (crb_SHA256 b) of
       None \<Rightarrow> Inl ''invalid completion receipt bytes'' | Some data \<Rightarrow> DecodeCompletionReceipt C data)"

definition validateCompletionReceiptBinding ::
    "Codec \<Rightarrow> CompletionReceiptBinding option \<Rightarrow> string \<Rightarrow> string \<Rightarrow> string \<Rightarrow> string \<Rightarrow> string option" where
  "validateCompletionReceiptBinding C binding queueID transactionID normalizedName sha = (case binding of
       None \<Rightarrow> Some ''invalid completion receipt binding''
     | Some b \<Rightarrow>
         if crb_SchemaVersion b \<noteq> 1 \<or> \<not> validateUUIDv7 C (crb_ReceiptID b)
            \<or> crb_Basename b \<noteq> queueID @ ''--'' @ crb_ReceiptID b @ ''.json''
            \<or> \<not> validSHA256 (crb_SHA256 b) \<or> \<not> validSHA256 sha
         then Some ''invalid completion receipt binding''
         else (case decodeBoundCompletionReceipt C b of
             Inl e \<Rightarrow> Some e
           | Inr r \<Rightarrow>
               if cr_SchemaVersion r \<noteq> crb_SchemaVersion b \<or> cr_QueueID r \<noteq> queueID
                  \<or> cr_ReceiptID r \<noteq> crb_ReceiptID b \<or> cr_TransactionID r \<noteq> transactionID
                  \<or> cr_NormalizedName r \<noteq> normalizedName \<or> cr_CompletedQueueSHA256 r \<noteq> sha
               then Some ''completion receipt does not match binding'' else None))"

definition validateCompletionPlan :: "Codec \<Rightarrow> ReplacementPlan \<Rightarrow> Queue \<Rightarrow> string \<Rightarrow> string option" where
  "validateCompletionPlan C plan candidate sha =
     (if rp_OperationKind plan \<noteq> OperationCompletion
      then (if rp_CompletionReceiptBinding plan \<noteq> None then Some ''completion receipt binding requires completion operation'' else None)
      else (case rp_CompletionReceiptBinding plan of
          None \<Rightarrow> Some ''completion operation requires receipt binding''
        | Some b \<Rightarrow>
            if queue_Status candidate \<noteq> QueueStatusCompleted then Some ''completion candidate must have completed status''
            else if queue_Groups candidate = [] then Some ''completion candidate requires a final group''
            else andThen (validateCompletionReceiptBinding C (Some b) (queue_QueueID candidate)
                            (rp_TransactionID plan) (rp_NormalizedName plan) sha)
              (case decodeBoundCompletionReceipt C b of
                 Inl e \<Rightarrow> Some e
               | Inr r \<Rightarrow> (let g = last (queue_Groups candidate) in
                   if group_GroupIndex g \<noteq> cr_FinalGroupIndex r \<or> int (length (group_Items g)) \<noteq> cr_SuccessCount r
                      \<or> (case group_CompletedAt g of None \<Rightarrow> True
                           | Some t \<Rightarrow> cd_formatTime C (truncateMillisecond t) \<noteq> cr_CompletedAt r)
                   then Some ''completion receipt final group facts do not match candidate''
                   else if list_ex (\<lambda>it. item_Status it \<noteq> ItemStatusCompleted) (group_Items g)
                   then Some ''completion receipt candidate contains non-completed final item'' else None))))"

section \<open>The failed-recovery receipt\<close>

fun validItemsFrom :: "Codec \<Rightarrow> FailedRecoveryItem list \<Rightarrow> string set \<Rightarrow> bool" where
  "validItemsFrom C [] seen = True"
| "validItemsFrom C (it # its) seen =
     (if fri_BeadID it = [] then False
      else if fri_BeadID it \<in> seen then False
      else (case fri_RetiredRunID it of
          None \<Rightarrow> validItemsFrom C its (insert (fri_BeadID it) seen)
        | Some r \<Rightarrow> (case cd_uuidParse C r of
              None \<Rightarrow> False
            | Some (s, _) \<Rightarrow> if s \<noteq> r then False else validItemsFrom C its (insert (fri_BeadID it) seen))))"

definition validFailedRecoveryItems :: "Codec \<Rightarrow> FailedRecoveryItem list \<Rightarrow> bool" where
  "validFailedRecoveryItems C its = validItemsFrom C its {}"

definition receiptMatches ::
    "Codec \<Rightarrow> FailedRecoveryReceipt \<Rightarrow> FailedRecoveryReceiptBinding \<Rightarrow> string \<Rightarrow> string \<Rightarrow> string \<Rightarrow> string \<Rightarrow> string \<Rightarrow> bool" where
  "receiptMatches C r b queueID transactionID normalizedName priorSHA recoveredSHA \<longleftrightarrow>
     frr_SchemaVersion r = frb_SchemaVersion b \<and> frr_RecordType r = ''failed-recovery'' \<and> frr_QueueID r = queueID
     \<and> frr_ReceiptID r = frb_ReceiptID b \<and> frr_TransactionID r = transactionID \<and> frr_NormalizedName r = normalizedName
     \<and> frr_PriorQueueSHA256 r = priorSHA \<and> frr_RecoveredQueueSHA256 r = recoveredSHA
     \<and> validRecoveryTimestamp C (frr_RecoveredAt r)
     \<and> (case frr_RecoveredItems r of None \<Rightarrow> False | Some its \<Rightarrow> validFailedRecoveryItems C its)"

definition validateFailedRecoveryReceiptBinding ::
    "Codec \<Rightarrow> FailedRecoveryReceiptBinding option \<Rightarrow> string \<Rightarrow> string \<Rightarrow> string \<Rightarrow> string \<Rightarrow> string \<Rightarrow> string option" where
  "validateFailedRecoveryReceiptBinding C binding queueID transactionID normalizedName priorSHA recoveredSHA =
     (case binding of None \<Rightarrow> Some ''invalid failed recovery receipt binding''
      | Some b \<Rightarrow>
          if frb_SchemaVersion b \<noteq> 1 \<or> \<not> validateUUIDv7 C (frb_ReceiptID b) \<or> \<not> validateUUIDv7 C (frb_TransactionID b)
             \<or> frb_TransactionID b \<noteq> transactionID \<or> frb_Basename b \<noteq> queueID @ ''--'' @ frb_ReceiptID b @ ''.json''
             \<or> \<not> validSHA256 (frb_SHA256 b) \<or> \<not> validSHA256 priorSHA \<or> \<not> validSHA256 recoveredSHA
          then Some ''invalid failed recovery receipt binding''
          else (case boundBytes C (frb_CanonicalBytesBase64 b) (frb_SHA256 b) of
              None \<Rightarrow> Some ''invalid failed recovery receipt bytes''
            | Some data \<Rightarrow> (case cd_failed C data of
                  Inl _ \<Rightarrow> Some ''failed recovery receipt does not match binding''
                | Inr r \<Rightarrow> if receiptMatches C r b queueID transactionID normalizedName priorSHA recoveredSHA
                           then None else Some ''failed recovery receipt does not match binding'')))"

definition validateFailedRecoveryPlan ::
    "Codec \<Rightarrow> ReplacementPlan \<Rightarrow> Queue \<Rightarrow> Queue \<Rightarrow> string \<Rightarrow> string \<Rightarrow> string option" where
  "validateFailedRecoveryPlan C plan prior candidate priorSHA candidateSHA =
     (if rp_OperationKind plan \<noteq> OperationFailedRecovery
      then (if rp_FailedRecoveryReceiptBinding plan \<noteq> None
            then Some ''failed recovery receipt binding requires failed-recovery operation'' else None)
      else (case rp_FailedRecoveryReceiptBinding plan of
          None \<Rightarrow> Some ''failed-recovery operation requires receipt binding''
        | Some b \<Rightarrow>
            if queue_Status prior \<noteq> QueueStatusPausedByFailure \<or> queue_Status candidate \<noteq> QueueStatusActive
            then Some ''failed-recovery requires paused-by-failure prior and active candidate''
            else if queue_FailedRecoveryReceiptID candidate \<noteq> Some (frb_ReceiptID b)
            then Some ''failed-recovery candidate does not bind receipt ID''
            else validateFailedRecoveryReceiptBinding C (Some b) (queue_QueueID candidate)
                   (rp_TransactionID plan) (rp_NormalizedName plan) priorSHA candidateSHA))"

section \<open>The archive handoff\<close>

definition validateArchiveOperationCoupling :: "OperationKind \<Rightarrow> ArchiveHandoffPlan option \<Rightarrow> string option" where
  "validateArchiveOperationCoupling kind handoff =
     (if kind = OperationCancellation \<and> handoff = None then Some ''cancellation requires archive handoff''
      else if kind \<noteq> OperationCancellation \<and> handoff \<noteq> None then Some ''archive handoff requires cancellation operation''
      else None)"

definition validateCancellationCoupling :: "OperationKind \<Rightarrow> QueueStatus \<Rightarrow> ArchiveHandoffPlan option \<Rightarrow> string option" where
  "validateCancellationCoupling kind status handoff = (let cancellation = (kind = OperationCancellation) in
     if cancellation \<noteq> (status = QueueStatusCancelled) \<or> cancellation \<noteq> (handoff \<noteq> None)
     then Some ''cancellation operation, cancelled candidate status, and archive handoff must occur together'' else None)"

definition validArchiveOrigin :: "string \<Rightarrow> bool" where
  "validArchiveOrigin origin \<longleftrightarrow>
     origin \<in> set [''operator-cancel'', ''graceful-shutdown'', ''inline-failure'', ''recovery-corrupt'']"

definition validArchiveKind :: "string \<Rightarrow> bool" where
  "validArchiveKind kind \<longleftrightarrow> kind \<in> set [''cancelled'', ''failed'', ''corrupt'']"

definition validateArchiveRecoveryFacts :: "ArchiveRecoveryFacts \<Rightarrow> string option" where
  "validateArchiveRecoveryFacts f =
     (if \<not> fst (ValidateQueueName (arf_NormalizedName f)) \<or> NormaliseQueueName (arf_NormalizedName f) \<noteq> arf_NormalizedName f
      then Some ''invalid archive recovery normalized name''
      else if arf_SourceIdentity f = [] \<or> \<not> validSHA256 (arf_SourceSHA256 f) then Some ''invalid archive recovery source facts''
      else if arf_DestinationBasename f = [] \<or> arf_DestinationBasename f = ''.'' \<or> arf_DestinationBasename f = ''..''
              \<or> filepath_Base (arf_DestinationBasename f) \<noteq> arf_DestinationBasename f
      then Some ''invalid archive recovery destination basename'' else None)"

definition validateArchiveIntent :: "Codec \<Rightarrow> ArchiveIntentV1 \<Rightarrow> ArchiveRecoveryFacts \<Rightarrow> string option" where
  "validateArchiveIntent C i f =
     (if ai_SchemaVersion i \<noteq> 1 \<or> \<not> validateUUIDv7 C (ai_ArchiveIntentID i) \<or> \<not> validateUUIDv7 C (ai_PredecessorTransactionID i)
         \<or> \<not> validArchiveOrigin (ai_ArchiveOrigin i) \<or> \<not> validArchiveKind (ai_ArchiveKind i)
         \<or> ai_NormalizedName i \<noteq> arf_NormalizedName f \<or> ai_SourceIdentity i \<noteq> arf_SourceIdentity f
         \<or> ai_SourceSHA256 i \<noteq> arf_SourceSHA256 f \<or> ai_DestinationBasename i \<noteq> arf_DestinationBasename f
      then Some ''invalid archive intent'' else validateArchiveRecoveryFacts f)"

definition prepareArchiveHandoff ::
    "Codec \<Rightarrow> ArchiveHandoffPlan option \<Rightarrow> string \<Rightarrow> string \<Rightarrow> string \<Rightarrow> string \<Rightarrow> string + ArchiveHandoff option" where
  "prepareArchiveHandoff C plan successorID transactionID normalizedName candidateDigest = (case plan of
       None \<Rightarrow> (if successorID \<noteq> [] then Inl ''successor id without archive handoff'' else Inr None)
     | Some p \<Rightarrow>
         if \<not> validateUUIDv7 C successorID
         then Inl (wrapErr ''successor archive intent id'' ''must be canonical lowercase UUIDv7'')
         else (let successor = \<lparr>ai_SchemaVersion = 1, ai_ArchiveIntentID = successorID,
                     ai_PredecessorTransactionID = transactionID, ai_ArchiveOrigin = ahp_ArchiveOrigin p,
                     ai_ArchiveKind = ahp_ArchiveKind p, ai_NormalizedName = normalizedName,
                     ai_SourceIdentity = ahp_SourceIdentity p, ai_SourceSHA256 = candidateDigest,
                     ai_DestinationBasename = ahp_DestinationBasename p\<rparr>;
                   facts = \<lparr>arf_NormalizedName = normalizedName, arf_SourceIdentity = ahp_SourceIdentity p,
                     arf_SourceSHA256 = candidateDigest, arf_DestinationBasename = ahp_DestinationBasename p\<rparr>;
                   raw = cd_archiveJSON C successor in
               orFail (map_option (wrapErr ''archive handoff successor'') (validateArchiveIntent C successor facts))
                 (Inr (Some \<lparr>ah_ArchiveOrigin = ahp_ArchiveOrigin p, ah_ArchiveKind = ahp_ArchiveKind p,
                     ah_SourceIdentity = ahp_SourceIdentity p, ah_SourceCandidateSHA256 = candidateDigest,
                     ah_DestinationBasename = ahp_DestinationBasename p, ah_SuccessorArchiveIntentID = successorID,
                     ah_SuccessorArchiveIntentBytesBase64 = cd_base64 C raw,
                     ah_SuccessorArchiveIntentSHA256 = digestHex C raw\<rparr>))))"

definition archiveHandoffComplete :: "ArchiveHandoff \<Rightarrow> bool" where
  "archiveHandoffComplete h \<longleftrightarrow> ah_ArchiveOrigin h \<noteq> [] \<and> ah_ArchiveKind h \<noteq> [] \<and> ah_SourceIdentity h \<noteq> []
     \<and> ah_SourceCandidateSHA256 h \<noteq> [] \<and> ah_DestinationBasename h \<noteq> [] \<and> ah_SuccessorArchiveIntentID h \<noteq> []
     \<and> ah_SuccessorArchiveIntentBytesBase64 h \<noteq> [] \<and> ah_SuccessorArchiveIntentSHA256 h \<noteq> []"

definition archiveSuccessorMatchesHandoff :: "ArchiveIntentV1 \<Rightarrow> ArchiveHandoff \<Rightarrow> string \<Rightarrow> string \<Rightarrow> bool" where
  "archiveSuccessorMatchesHandoff s h predecessorTransactionID normalizedName \<longleftrightarrow>
     ai_ArchiveIntentID s = ah_SuccessorArchiveIntentID h \<and> ai_PredecessorTransactionID s = predecessorTransactionID
     \<and> ai_ArchiveOrigin s = ah_ArchiveOrigin h \<and> ai_ArchiveKind s = ah_ArchiveKind h
     \<and> ai_NormalizedName s = normalizedName \<and> ai_SourceIdentity s = ah_SourceIdentity h
     \<and> ai_SourceSHA256 s = ah_SourceCandidateSHA256 h \<and> ai_DestinationBasename s = ah_DestinationBasename h"

definition validateArchiveHandoff :: "Codec \<Rightarrow> ArchiveHandoff option \<Rightarrow> string \<Rightarrow> string \<Rightarrow> string \<Rightarrow> string option" where
  "validateArchiveHandoff C handoff candidateDigest predecessorTransactionID normalizedName = (case handoff of
       None \<Rightarrow> None
     | Some h \<Rightarrow>
         if \<not> archiveHandoffComplete h then Some ''archive handoff is incomplete''
         else if ah_SourceCandidateSHA256 h \<noteq> candidateDigest then Some ''archive handoff source digest differs from candidate''
         else (case cd_unbase64 C (ah_SuccessorArchiveIntentBytesBase64 h) of
             Inl _ \<Rightarrow> Some ''archive handoff successor bytes/digest mismatch''
           | Inr raw \<Rightarrow>
               if digestHex C raw \<noteq> ah_SuccessorArchiveIntentSHA256 h then Some ''archive handoff successor bytes/digest mismatch''
               else (case cd_archive C raw of
                   Inl e \<Rightarrow> Some (wrapErr ''archive handoff successor'' e)
                 | Inr s \<Rightarrow> (let facts = \<lparr>arf_NormalizedName = normalizedName, arf_SourceIdentity = ah_SourceIdentity h,
                                arf_SourceSHA256 = ah_SourceCandidateSHA256 h, arf_DestinationBasename = ah_DestinationBasename h\<rparr> in
                     andThen (map_option (wrapErr ''archive handoff successor'') (validateArchiveIntent C s facts))
                       (if cd_archiveJSON C s \<noteq> raw then Some ''archive handoff successor bytes are not canonical''
                        else if \<not> archiveSuccessorMatchesHandoff s h predecessorTransactionID normalizedName
                        then Some ''archive handoff successor identity mismatch'' else None)))))"

section \<open>The replace intent\<close>

definition validOperationKind :: "OperationKind \<Rightarrow> bool" where
  "validOperationKind kind = (case kind of OperationKindOther _ \<Rightarrow> False | _ \<Rightarrow> True)"

definition validReplaceIntentEnvelope :: "Codec \<Rightarrow> ReplaceIntentV1 \<Rightarrow> bool" where
  "validReplaceIntentEnvelope C i \<longleftrightarrow> ri_SchemaVersion i = 1 \<and> validateUUIDv7 C (ri_TransactionID i)
     \<and> validOperationKind (ri_OperationKind i) \<and> ri_NormalizedName i \<noteq> [] \<and> validateUUIDv7 C (ri_QueueID i)
     \<and> ri_CanonicalBasename i = ri_NormalizedName i @ ''.json'' \<and> validSHA256 (ri_CandidateSHA256 i)
     \<and> ri_CandidateTempBasename i = ri_NormalizedName i @ ''.candidate-'' @ ri_TransactionID i"

definition validateFailedRecoveryIntentCoupling :: "Codec \<Rightarrow> ReplaceIntentV1 \<Rightarrow> string option" where
  "validateFailedRecoveryIntentCoupling C i =
     (if ri_OperationKind i \<noteq> OperationFailedRecovery
      then (if ri_FailedRecoveryReceiptBinding i \<noteq> None
            then Some ''failed recovery receipt binding requires failed-recovery operation'' else None)
      else if ri_CompletionReceiptBinding i \<noteq> None \<or> ri_ArchiveHandoffBinding i \<noteq> None
      then Some ''failed-recovery intent has incompatible binding''
      else validateFailedRecoveryReceiptBinding C (ri_FailedRecoveryReceiptBinding i) (ri_QueueID i)
             (ri_TransactionID i) (ri_NormalizedName i) (ri_PriorState i) (ri_CandidateSHA256 i))"

definition validateCompletionIntentCoupling :: "Codec \<Rightarrow> ReplaceIntentV1 \<Rightarrow> string option" where
  "validateCompletionIntentCoupling C i =
     (if ri_OperationKind i \<noteq> OperationCompletion
      then (if ri_CompletionReceiptBinding i \<noteq> None then Some ''completion receipt binding requires completion operation'' else None)
      else if ri_FailedRecoveryReceiptBinding i \<noteq> None \<or> ri_ArchiveHandoffBinding i \<noteq> None
      then Some ''completion intent has incompatible binding''
      else validateCompletionReceiptBinding C (ri_CompletionReceiptBinding i) (ri_QueueID i)
             (ri_TransactionID i) (ri_NormalizedName i) (ri_CandidateSHA256 i))"

definition validateReplaceIntent :: "Codec \<Rightarrow> ReplaceIntentV1 \<Rightarrow> string option" where
  "validateReplaceIntent C i =
     (if \<not> validReplaceIntentEnvelope C i then Some ''invalid or unsupported replace intent''
      else andThen (validateFailedRecoveryIntentCoupling C i)
        (andThen (validateCompletionIntentCoupling C i)
          (if (ri_OperationKind i = OperationCancellation) \<noteq> (ri_ArchiveHandoffBinding i \<noteq> None)
           then Some ''invalid cancellation/archive handoff coupling''
           else if \<not> fst (ValidateQueueName (ri_NormalizedName i)) \<or> NormaliseQueueName (ri_NormalizedName i) \<noteq> ri_NormalizedName i
           then Some ''invalid or non-normalized replace intent name''
           else if ri_PriorState i \<noteq> ''absent'' \<and> \<not> validSHA256 (ri_PriorState i)
           then Some ''prior state must be absent or an exact digest''
           else validateArchiveHandoff C (ri_ArchiveHandoffBinding i) (ri_CandidateSHA256 i) (ri_TransactionID i) (ri_NormalizedName i))))"

definition decodeReplaceIntent :: "Codec \<Rightarrow> bytes \<Rightarrow> string + ReplaceIntentV1" where
  "decodeReplaceIntent C data = (case cd_intent C data of
       Inl e \<Rightarrow> Inl (wrapErr ''replace intent'' e)
     | Inr i \<Rightarrow> orFail (validateReplaceIntent C i)
         (if cd_intentJSON C i \<noteq> data then Inl ''replace intent bytes are not canonical'' else Inr i))"

definition priorMatches :: "Codec \<Rightarrow> string \<Rightarrow> bytes option \<Rightarrow> bool" where
  "priorMatches C prior canonical = (if prior = ''absent'' then canonical = None
     else (case canonical of None \<Rightarrow> False | Some data \<Rightarrow> digestHex C data = prior))"

section \<open>Preparing a replacement\<close>

definition maxQueueFileBytes :: nat where "maxQueueFileBytes = 2 ^ 20"

definition prepareReplacementWithIDs ::
    "Codec \<Rightarrow> ReplacementPlan \<Rightarrow> string \<Rightarrow> string \<Rightarrow> string + ReplaceIntentV1 \<times> bytes" where
  "prepareReplacementWithIDs C plan0 transactionID successorID =
     (let plan = plan0\<lparr>rp_TransactionID := transactionID\<rparr>; name = NormaliseQueueName (rp_NormalizedName plan) in
      case ValidateQueueName name of
        (False, detail) \<Rightarrow> Inl (''invalid normalized name: '' @ detail)
      | (True, _) \<Rightarrow>
         if \<not> validateUUIDv7 C transactionID then Inl (wrapErr ''transaction id'' ''must be canonical lowercase UUIDv7'')
         else if rp_OperationKind plan = OperationKindOther [] then Inl ''operation kind is required''
         else if maxQueueFileBytes < length (rp_CandidateBytes plan)
         then Inl ''queue: queue file would exceed 1 MiB size bound (QM-004)''
         else (case UnmarshalText C (validateUUIDv7 C) (rp_CandidateBytes plan) of
           Inl e \<Rightarrow> Inl (wrapErr ''candidate queue'' e)
         | Inr candidate \<Rightarrow>
             if NormaliseQueueName (queue_Name candidate) \<noteq> name \<or> queue_QueueID candidate \<noteq> rp_QueueID plan
             then Inl ''candidate identity does not match plan''
             else orFail (validateCancellationCoupling (rp_OperationKind plan) (queue_Status candidate) (rp_ArchiveHandoff plan))
              (let digest = digestHex C (rp_CandidateBytes plan);
                   priorState = (case rp_PriorBytes plan of
                       None \<Rightarrow> orFail (validateFailedRecoveryPlan C plan zeroQueue candidate ''absent'' digest) (Inr ''absent'')
                     | Some bytes \<Rightarrow> (case UnmarshalText C (validateUUIDv7 C) bytes of
                           Inl e \<Rightarrow> Inl (wrapErr ''prior queue'' e)
                         | Inr parsedPrior \<Rightarrow>
                             if NormaliseQueueName (queue_Name parsedPrior) \<noteq> name then Inl ''prior name does not match plan''
                             else orFail (validateFailedRecoveryPlan C plan parsedPrior candidate (digestHex C bytes) digest)
                                    (Inr (digestHex C bytes)))) in
               case priorState of
                 Inl e \<Rightarrow> Inl e
               | Inr prior \<Rightarrow> orFail (validateCompletionPlan C plan candidate digest)
                  (case prepareArchiveHandoff C (rp_ArchiveHandoff plan) successorID transactionID name digest of
                     Inl e \<Rightarrow> Inl e
                   | Inr handoff \<Rightarrow>
                      (let intent = \<lparr>ri_SchemaVersion = 1, ri_TransactionID = transactionID,
                             ri_OperationKind = rp_OperationKind plan, ri_NormalizedName = name,
                             ri_QueueID = rp_QueueID plan, ri_CanonicalBasename = name @ ''.json'', ri_PriorState = prior,
                             ri_CandidateSHA256 = digest, ri_CandidateTempBasename = name @ ''.candidate-'' @ transactionID,
                             ri_WakeRequired = rp_WakeRequired plan,
                             ri_CompletionReceiptBinding = rp_CompletionReceiptBinding plan,
                             ri_FailedRecoveryReceiptBinding = rp_FailedRecoveryReceiptBinding plan,
                             ri_ArchiveHandoffBinding = handoff\<rparr> in
                       orFail (validateReplaceIntent C intent) (Inr (intent, cd_intentJSON C intent)))))))"

text \<open>\<open>newTx\<close> and \<open>newSuccessor\<close> are the results of the draws of \<^verbatim>\<open>newUUIDv7\<close>.\<close>

definition prepareReplacement ::
    "Codec \<Rightarrow> string + string \<Rightarrow> string + string \<Rightarrow> ReplacementPlan \<Rightarrow> string + ReplaceIntentV1 \<times> bytes" where
  "prepareReplacement C newTx newSuccessor plan =
     orFail (validateArchiveOperationCoupling (rp_OperationKind plan) (rp_ArchiveHandoff plan))
      (case (if rp_TransactionID plan = [] then newTx else Inr (rp_TransactionID plan)) of
         Inl e \<Rightarrow> Inl (wrapErr ''transaction id'' e)
       | Inr transactionID \<Rightarrow>
          (case (if rp_ArchiveHandoff plan \<noteq> None then newSuccessor else Inr []) of
             Inl e \<Rightarrow> Inl (wrapErr ''successor archive intent id'' e)
           | Inr successorID \<Rightarrow> prepareReplacementWithIDs C plan transactionID successorID))"

section \<open>Preparing the two receipt-bearing operations\<close>

definition CompletionReceiptBasename :: "Codec \<Rightarrow> string \<Rightarrow> string \<Rightarrow> string + string" where
  "CompletionReceiptBasename C queueID receiptID =
     (if \<not> validateUUIDv7 C queueID \<or> \<not> validateUUIDv7 C receiptID then Inl ''invalid completion receipt identity''
      else Inr (queueID @ ''--'' @ receiptID @ ''.json''))"

record CompletionPlan =
  cp_TransactionID :: string
  cp_Candidate :: Queue
  cp_CandidateBytes :: bytes
  cp_Receipt :: CompletionReceipt
  cp_ReceiptBytes :: bytes
  cp_Binding :: CompletionReceiptBinding
  cp_MarkerInputs :: CompletionReleaseMarkerInputs

text \<open>\<open>opText\<close> is the message of the error of \<open>CompleteQueue\<close>.\<close>

definition PrepareCompletion ::
    "Codec \<Rightarrow> (QueueOpError \<Rightarrow> string) \<Rightarrow> Queue \<Rightarrow> string \<Rightarrow> string \<Rightarrow> go_time \<Rightarrow> string + CompletionPlan" where
  "PrepareCompletion C opText prior transactionID receiptID completedAt =
     (if \<not> validateUUIDv7 C transactionID then Inl (wrapErr ''completion transaction id'' ''must be canonical lowercase UUIDv7'')
      else if \<not> validateUUIDv7 C receiptID then Inl (wrapErr ''completion receipt id'' ''must be canonical lowercase UUIDv7'')
      else if queue_Groups prior = [] then Inl ''completion requires at least one group''
      else (let clone = the (CloneQueue (Some prior)) in
        case CompleteQueue (Some (clone\<lparr>queue_Name := NormaliseQueueName (queue_Name clone)\<rparr>)) of
          Inl e \<Rightarrow> Inl (wrapErr ''complete queue'' (opText e))
        | Inr completed \<Rightarrow>
           (let stamp = truncateMillisecond completedAt; g = last (queue_Groups completed) in
            if (case group_CompletedAt g of None \<Rightarrow> True | Some t \<Rightarrow> truncateMillisecond t \<noteq> stamp)
            then Inl ''completion time does not match final group''
            else if list_ex (\<lambda>it. item_Status it \<noteq> ItemStatusCompleted) (group_Items g)
            then Inl ''completion final group contains non-completed item''
            else (let candidate = completed\<lparr>queue_Groups :=
                        butlast (queue_Groups completed) @ [g\<lparr>group_CompletedAt := Some stamp\<rparr>]\<rparr> in
              case cd_queueJSON C candidate of
                Inl e \<Rightarrow> Inl (wrapErr ''marshal completed queue'' e)
              | Inr bytes \<Rightarrow>
                 (let receipt = \<lparr>cr_SchemaVersion = 1, cr_QueueID = queue_QueueID candidate, cr_ReceiptID = receiptID,
                        cr_TransactionID = transactionID, cr_NormalizedName = queue_Name candidate,
                        cr_FinalGroupIndex = group_GroupIndex g, cr_FinalStatus = ''complete-success'',
                        cr_SuccessCount = int (length (group_Items g)), cr_FailCount = 0,
                        cr_CompletedAt = cd_formatTime C stamp, cr_CompletedQueueSHA256 = digestHex C bytes\<rparr>;
                      receiptBytes = cd_receiptJSON C receipt;
                      binding = \<lparr>crb_ReceiptID = receiptID,
                        crb_Basename = queue_QueueID candidate @ ''--'' @ receiptID @ ''.json'', crb_SchemaVersion = 1,
                        crb_CanonicalBytesBase64 = cd_base64 C receiptBytes, crb_SHA256 = digestHex C receiptBytes\<rparr> in
                  orFail (validateCompletionReceiptBinding C (Some binding) (queue_QueueID candidate) transactionID
                           (queue_Name candidate) (digestHex C bytes))
                   (Inr \<lparr>cp_TransactionID = transactionID, cp_Candidate = candidate, cp_CandidateBytes = bytes,
                      cp_Receipt = receipt, cp_ReceiptBytes = receiptBytes, cp_Binding = binding,
                      cp_MarkerInputs = \<lparr>cmi_QueueID = queue_QueueID candidate, cmi_ReceiptID = receiptID,
                        cmi_TransactionID = transactionID, cmi_ReceiptSHA256 = crb_SHA256 binding,
                        cmi_CompletedQueueSHA256 = cr_CompletedQueueSHA256 receipt\<rparr>\<rparr>))))))"

fun failedItemsOf :: "Item list \<Rightarrow> FailedRecoveryItem list" where
  "failedItemsOf [] = []"
| "failedItemsOf (it # its) = (if item_Status it \<noteq> ItemStatusFailed then failedItemsOf its
     else \<lparr>fri_BeadID = item_BeadID it, fri_RetiredRunID = item_RunID it\<rparr> # failedItemsOf its)"

definition failedRecoveryItems :: "Queue \<Rightarrow> FailedRecoveryItem list" where
  "failedRecoveryItems q = concat (map (\<lambda>g. failedItemsOf (group_Items g)) (queue_Groups q))"

record FailedRecoveryPlan =
  fp_TransactionID :: string
  fp_Candidate :: Queue
  fp_Receipt :: FailedRecoveryReceipt
  fp_Binding :: FailedRecoveryReceiptBinding

definition PrepareFailedRecovery ::
    "Codec \<Rightarrow> string + string \<Rightarrow> string + string \<Rightarrow> Queue \<Rightarrow> go_time \<Rightarrow> string + FailedRecoveryPlan" where
  "PrepareFailedRecovery C newReceipt newTx prior recoveredAt =
     (if queue_Status prior \<noteq> QueueStatusPausedByFailure then Inl ''failed recovery requires paused-by-failure queue''
      else (case cd_queueJSON C prior of
        Inl e \<Rightarrow> Inl (wrapErr ''marshal failed recovery prior'' e)
      | Inr priorBytes \<Rightarrow> (let clone = the (CloneQueue (Some prior)); items = failedRecoveryItems clone in
         case ResumeFromFailure (Some clone) of
           (Some resumed, _, True) \<Rightarrow> (case newReceipt of
              Inl e \<Rightarrow> Inl (wrapErr ''failed recovery receipt id'' e)
            | Inr receiptID \<Rightarrow> (case newTx of
               Inl e \<Rightarrow> Inl (wrapErr ''failed recovery transaction id'' e)
             | Inr transactionID \<Rightarrow>
                (let candidate = resumed\<lparr>queue_FailedRecoveryReceiptID := Some receiptID,
                       queue_Name := NormaliseQueueName (queue_Name resumed)\<rparr> in
                 case cd_queueJSON C candidate of
                   Inl e \<Rightarrow> Inl (wrapErr ''marshal recovered queue'' e)
                 | Inr bytes \<Rightarrow>
                    (let receipt = \<lparr>frr_SchemaVersion = 1, frr_RecordType = ''failed-recovery'',
                           frr_QueueID = queue_QueueID candidate, frr_ReceiptID = receiptID,
                           frr_TransactionID = transactionID, frr_NormalizedName = queue_Name candidate,
                           frr_PriorQueueSHA256 = digestHex C priorBytes, frr_RecoveredQueueSHA256 = digestHex C bytes,
                           frr_RecoveredItems = Some items,
                           frr_RecoveredAt = cd_formatTime C (truncateMillisecond recoveredAt)\<rparr>;
                         raw = cd_failedJSON C receipt;
                         binding = \<lparr>frb_ReceiptID = receiptID, frb_TransactionID = transactionID,
                           frb_Basename = queue_QueueID candidate @ ''--'' @ receiptID @ ''.json'',
                           frb_SchemaVersion = frr_SchemaVersion receipt,
                           frb_CanonicalBytesBase64 = cd_base64 C raw, frb_SHA256 = digestHex C raw\<rparr> in
                     orFail (validateFailedRecoveryReceiptBinding C (Some binding) (queue_QueueID candidate) transactionID
                              (queue_Name candidate) (digestHex C priorBytes) (digestHex C bytes))
                      (Inr \<lparr>fp_TransactionID = transactionID, fp_Candidate = candidate, fp_Receipt = receipt,
                         fp_Binding = binding\<rparr>)))))
         | _ \<Rightarrow> Inl ''resume paused-by-failure queue'')))"

section \<open>The linked archive handoff\<close>

datatype LinkedHandoffAction =
  LinkedCreateSuccessor | LinkedContinuePair | LinkedContinueArchive | LinkedRefuse

text \<open>An action and an optional error, as the code returns them together.\<close>

definition classifySuccessorOnly :: "Codec \<Rightarrow> bytes \<Rightarrow> ArchiveRecoveryFacts \<Rightarrow> LinkedHandoffAction \<times> string option" where
  "classifySuccessorOnly C successorBytes facts =
     (if successorBytes = [] then (LinkedRefuse, Some ''no origin-bearing handoff record'')
      else (case cd_archive C successorBytes of
          Inl e \<Rightarrow> (LinkedRefuse, Some (wrapErr ''invalid successor archive intent'' e))
        | Inr s \<Rightarrow> (case validateArchiveIntent C s facts of
              Some e \<Rightarrow> (LinkedRefuse, Some e)
            | None \<Rightarrow> if cd_archiveJSON C s \<noteq> successorBytes
                      then (LinkedRefuse, Some ''successor archive intent bytes are not canonical'')
                      else (LinkedContinueArchive, None))))"

definition classifyLinkedPair ::
    "Codec \<Rightarrow> ReplaceIntentV1 \<Rightarrow> bytes \<Rightarrow> ArchiveRecoveryFacts \<Rightarrow> LinkedHandoffAction \<times> string option" where
  "classifyLinkedPair C predecessor successorBytes facts = (case validateReplaceIntent C predecessor of
       Some e \<Rightarrow> (LinkedRefuse, Some e)
     | None \<Rightarrow> (case ri_ArchiveHandoffBinding predecessor of
         None \<Rightarrow> (LinkedRefuse, Some ''predecessor has no archive handoff'')
       | Some h \<Rightarrow>
           if ri_NormalizedName predecessor \<noteq> arf_NormalizedName facts \<or> ah_SourceIdentity h \<noteq> arf_SourceIdentity facts
              \<or> ah_SourceCandidateSHA256 h \<noteq> arf_SourceSHA256 facts \<or> ah_DestinationBasename h \<noteq> arf_DestinationBasename facts
           then (LinkedRefuse, Some ''predecessor differs from recovery namespace facts'')
           else if successorBytes = [] then (LinkedCreateSuccessor, None)
           else if cd_unbase64 C (ah_SuccessorArchiveIntentBytesBase64 h) \<noteq> Inr successorBytes
                   \<or> digestHex C successorBytes \<noteq> ah_SuccessorArchiveIntentSHA256 h
           then (LinkedRefuse, Some ''successor differs from predecessor binding'')
           else (case cd_archive C successorBytes of
               Inl e \<Rightarrow> (LinkedRefuse, Some e)
             | Inr s \<Rightarrow> (case validateArchiveIntent C s facts of
                   Some e \<Rightarrow> (LinkedRefuse, Some e)
                 | None \<Rightarrow>
                     if \<not> archiveSuccessorMatchesHandoff s h (ri_TransactionID predecessor) (ri_NormalizedName predecessor)
                     then (LinkedRefuse, Some ''successor predecessor identity mismatch'')
                     else (LinkedContinuePair, None)))))"

definition ClassifyLinkedHandoff ::
    "Codec \<Rightarrow> bytes \<Rightarrow> bytes \<Rightarrow> ArchiveRecoveryFacts \<Rightarrow> LinkedHandoffAction \<times> string option" where
  "ClassifyLinkedHandoff C predecessorBytes successorBytes facts = (case validateArchiveRecoveryFacts facts of
       Some e \<Rightarrow> (LinkedRefuse, Some e)
     | None \<Rightarrow>
         if predecessorBytes = [] then classifySuccessorOnly C successorBytes facts
         else (case decodeReplaceIntent C predecessorBytes of
             Inl e \<Rightarrow> (LinkedRefuse, Some e)
           | Inr p \<Rightarrow> classifyLinkedPair C p successorBytes facts))"

end
