(* ===== verification/Replace_Protocol.thy ===== *)
theory Replace_Protocol
  imports Replace_Intent
begin

text \<open>
  The universal replacement protocol of \<^verbatim>\<open>internal/queue/transaction.go\<close> over the file system:
  \<open>writeReplacement\<close> with the receipts, the classifiers of a leftover intent, and the recovery of
  \<^verbatim>\<open>internal/queue/intentrecovery.go\<close>. A path is a directory and a basename. Each function
  takes and returns the file system; where the code returns a value and an error, so does the model.
\<close>

section \<open>Names\<close>

definition replaceIntentSuffix :: string where "replaceIntentSuffix = ''.replace-intent''"

definition replaceIntentPath :: "string \<Rightarrow> string" where "replaceIntentPath name = name @ replaceIntentSuffix"

definition queuePath :: "string \<Rightarrow> string" where "queuePath name = name @ ''.json''"

definition archiveIntentPath :: "string \<Rightarrow> string" where "archiveIntentPath name = name @ ''.archive-intent''"

datatype CompletionPhase =
    CompletionPhaseNone | CompletionPhaseRejected | CompletionPhaseNotCommitted | CompletionPhaseCommitIndeterminate
  | CompletionPhaseCanonicalCommitted | CompletionPhaseReceiptDurable | CompletionPhaseObservationAttempted
  | CompletionPhaseCleaned | CompletionPhaseOwnershipReleased | CompletionPhaseMarkerDurable | CompletionPhaseMarkerFailed

datatype ReplaceRecoveryAction = ReplacePromoteCanonical | ReplaceRetryRename | ReplaceNotCommitted | ReplaceRefuse

text \<open>The intent is absent in a rejected commit, where the code leaves the zero value.\<close>

record ReplacementCommit =
  rc_Outcome :: NamespaceOutcome
  rc_Err :: "string option"
  rc_Intent :: "ReplaceIntentV1 option"
  rc_Phase :: CompletionPhase

definition Committed :: "ReplacementCommit \<Rightarrow> bool" where
  "Committed r \<longleftrightarrow> rc_Outcome r = OutcomeCommittedDurable"

definition replacementFailure :: "ReplaceIntentV1 \<Rightarrow> NamespaceOutcome \<Rightarrow> string option \<Rightarrow> ReplacementCommit" where
  "replacementFailure intent outcome err =
     \<lparr>rc_Outcome = outcome, rc_Err = err, rc_Intent = Some intent,
      rc_Phase = (if ri_OperationKind intent = OperationCompletion
        then (case outcome of OutcomeRejected \<Rightarrow> CompletionPhaseRejected
              | OutcomeCommitIndeterminate \<Rightarrow> CompletionPhaseCommitIndeterminate
              | _ \<Rightarrow> CompletionPhaseNotCommitted)
        else CompletionPhaseNone)\<rparr>"

section \<open>Classifying a leftover intent\<close>

text \<open>
  A read followed by a continuation on its data, the error passed to \<open>bad\<close>.
\<close>

definition reading :: "dirId \<Rightarrow> string \<Rightarrow> FS \<Rightarrow> (string \<Rightarrow> 'a) \<Rightarrow> (bytes option \<Rightarrow> FS \<Rightarrow> 'a \<times> FS) \<Rightarrow> 'a \<times> FS" where
  "reading d p fs bad k = (case readOptional d p fs of (Inl e, fs1) \<Rightarrow> (bad e, fs1) | (Inr v, fs1) \<Rightarrow> k v fs1)"

definition hasDigest :: "Codec \<Rightarrow> bytes option \<Rightarrow> string \<Rightarrow> bool" where
  "hasDigest C file sha = (case file of None \<Rightarrow> False | Some data \<Rightarrow> digestHex C data = sha)"

definition failedVerdict ::
    "Codec \<Rightarrow> ReplaceIntentV1 \<Rightarrow> bytes \<Rightarrow> bytes option \<Rightarrow> bytes option \<Rightarrow> bytes option \<Rightarrow> ReplaceRecoveryAction \<times> string option" where
  "failedVerdict C i expected canonical candidate receipt =
     (if hasDigest C canonical (ri_CandidateSHA256 i) \<and> candidate = None \<and> (receipt = None \<or> receipt = Some expected)
      then (ReplacePromoteCanonical, None)
      else if priorMatches C (ri_PriorState i) canonical
              \<and> (candidate = None \<or> hasDigest C candidate (ri_CandidateSHA256 i)) \<and> receipt = None
      then (ReplaceNotCommitted, None)
      else (ReplaceRefuse, Some ''failed recovery intent facts are corrupt, mismatched, or third-state''))"

definition classifyFailedRecoveryIntent ::
    "Codec \<Rightarrow> ReplaceIntentV1 \<Rightarrow> FailedRecoveryReceiptBinding \<Rightarrow> FS \<Rightarrow> (ReplaceRecoveryAction \<times> string option) \<times> FS" where
  "classifyFailedRecoveryIntent C i b fs = (let refuse = (\<lambda>e. (ReplaceRefuse, Some e)) in
     reading QueuesDir (ri_CanonicalBasename i) fs refuse (\<lambda>canonical fs1.
     reading QueuesDir (ri_CandidateTempBasename i) fs1 refuse (\<lambda>candidate fs2.
     reading FailedReceiptsDir (frb_Basename b) fs2 refuse (\<lambda>receipt fs3.
     (case cd_unbase64 C (frb_CanonicalBytesBase64 b) of
        Inl e \<Rightarrow> refuse e
      | Inr expected \<Rightarrow> failedVerdict C i expected canonical candidate receipt, fs3)))))"

record completionRecoveryFacts =
  crf_canonical :: "bytes option"
  crf_candidate :: "bytes option"
  crf_receiptPresent :: bool
  crf_receiptExact :: bool

definition loadCompletionRecoveryFacts ::
    "Codec \<Rightarrow> ReplaceIntentV1 \<Rightarrow> CompletionReceiptBinding \<Rightarrow> FS \<Rightarrow> (string + completionRecoveryFacts) \<times> FS" where
  "loadCompletionRecoveryFacts C i b fs =
     reading QueuesDir (ri_CanonicalBasename i) fs Inl (\<lambda>canonical fs1.
     reading QueuesDir (ri_CandidateTempBasename i) fs1 Inl (\<lambda>candidate fs2.
     reading CompletionReceiptsDir (crb_Basename b) fs2 Inl (\<lambda>receipt fs3.
     (case cd_unbase64 C (crb_CanonicalBytesBase64 b) of
        Inl e \<Rightarrow> Inl e
      | Inr expected \<Rightarrow> Inr \<lparr>crf_canonical = canonical, crf_candidate = candidate,
          crf_receiptPresent = (receipt \<noteq> None), crf_receiptExact = (receipt = Some expected)\<rparr>, fs3))))"

definition canonicalIsCandidate :: "Codec \<Rightarrow> ReplaceIntentV1 \<Rightarrow> completionRecoveryFacts \<Rightarrow> bool" where
  "canonicalIsCandidate C i f = hasDigest C (crf_canonical f) (ri_CandidateSHA256 i)"

definition canPromoteCanonical :: "Codec \<Rightarrow> ReplaceIntentV1 \<Rightarrow> completionRecoveryFacts \<Rightarrow> bool" where
  "canPromoteCanonical C i f \<longleftrightarrow> canonicalIsCandidate C i f \<and> crf_candidate f = None
     \<and> (\<not> crf_receiptPresent f \<or> crf_receiptExact f)"

definition canFinishCleanup :: "completionRecoveryFacts \<Rightarrow> bool" where
  "canFinishCleanup f \<longleftrightarrow> crf_canonical f = None \<and> crf_candidate f = None \<and> crf_receiptExact f"

definition canRetryRename :: "Codec \<Rightarrow> ReplaceIntentV1 \<Rightarrow> completionRecoveryFacts \<Rightarrow> bool" where
  "canRetryRename C i f \<longleftrightarrow> hasDigest C (crf_candidate f) (ri_CandidateSHA256 i)
     \<and> priorMatches C (ri_PriorState i) (crf_canonical f) \<and> \<not> crf_receiptPresent f"

definition canRollBack :: "Codec \<Rightarrow> ReplaceIntentV1 \<Rightarrow> completionRecoveryFacts \<Rightarrow> bool" where
  "canRollBack C i f \<longleftrightarrow> crf_candidate f = None \<and> priorMatches C (ri_PriorState i) (crf_canonical f) \<and> \<not> crf_receiptPresent f"

definition completionVerdict :: "Codec \<Rightarrow> ReplaceIntentV1 \<Rightarrow> completionRecoveryFacts \<Rightarrow> ReplaceRecoveryAction \<times> string option" where
  "completionVerdict C i f =
     (if canPromoteCanonical C i f then (ReplacePromoteCanonical, None)
      else if canFinishCleanup f then (ReplacePromoteCanonical, None)
      else if canRetryRename C i f then (ReplaceRetryRename, None)
      else if canRollBack C i f then (ReplaceNotCommitted, None)
      else (ReplaceRefuse, Some ''completion intent facts are corrupt, mismatched, or third-state''))"

definition classifyCompletionIntent ::
    "Codec \<Rightarrow> ReplaceIntentV1 \<Rightarrow> CompletionReceiptBinding \<Rightarrow> FS \<Rightarrow> (ReplaceRecoveryAction \<times> string option) \<times> FS" where
  "classifyCompletionIntent C i b fs = (case loadCompletionRecoveryFacts C i b fs of
       (Inl e, fs1) \<Rightarrow> ((ReplaceRefuse, Some e), fs1)
     | (Inr f, fs1) \<Rightarrow> (completionVerdict C i f, fs1))"

definition plainVerdict :: "Codec \<Rightarrow> ReplaceIntentV1 \<Rightarrow> bytes option \<Rightarrow> bytes option \<Rightarrow> ReplaceRecoveryAction \<times> string option" where
  "plainVerdict C i canonical candidate =
     (if hasDigest C canonical (ri_CandidateSHA256 i) \<and> candidate = None then (ReplacePromoteCanonical, None)
      else if hasDigest C candidate (ri_CandidateSHA256 i) \<and> priorMatches C (ri_PriorState i) canonical
      then (ReplaceRetryRename, None)
      else if candidate = None \<and> priorMatches C (ri_PriorState i) canonical then (ReplaceNotCommitted, None)
      else (ReplaceRefuse, Some ''replace intent facts are corrupt, mismatched, or third-state''))"

definition classifyPlainIntent :: "Codec \<Rightarrow> ReplaceIntentV1 \<Rightarrow> FS \<Rightarrow> (ReplaceRecoveryAction \<times> string option) \<times> FS" where
  "classifyPlainIntent C i fs = (let refuse = (\<lambda>e. (ReplaceRefuse, Some e)) in
     reading QueuesDir (ri_CanonicalBasename i) fs refuse (\<lambda>canonical fs1.
     reading QueuesDir (ri_CandidateTempBasename i) fs1 refuse (\<lambda>candidate fs2.
     (plainVerdict C i canonical candidate, fs2))))"

definition classifyReplaceIntent :: "Codec \<Rightarrow> ReplaceIntentV1 \<Rightarrow> FS \<Rightarrow> (ReplaceRecoveryAction \<times> string option) \<times> FS" where
  "classifyReplaceIntent C i fs = (case validateReplaceIntent C i of
       Some e \<Rightarrow> ((ReplaceRefuse, Some e), fs)
     | None \<Rightarrow> (case ri_FailedRecoveryReceiptBinding i of
         Some b \<Rightarrow> classifyFailedRecoveryIntent C i b fs
       | None \<Rightarrow> (case ri_CompletionReceiptBinding i of
           Some b \<Rightarrow> classifyCompletionIntent C i b fs
         | None \<Rightarrow> classifyPlainIntent C i fs)))"

definition classifyReplacementFailure ::
    "Codec \<Rightarrow> ReplaceIntentV1 \<Rightarrow> string \<Rightarrow> FS \<Rightarrow> ReplacementCommit \<times> FS" where
  "classifyReplacementFailure C i cause fs = (case classifyReplaceIntent C i fs of
     ((action, err), fs1) \<Rightarrow>
       (replacementFailure i
          (case action of ReplaceRetryRename \<Rightarrow> OutcomeNotCommitted | ReplaceNotCommitted \<Rightarrow> OutcomeNotCommitted
           | _ \<Rightarrow> OutcomeCommitIndeterminate) (joinErrs [Some cause, err]), fs1))"

section \<open>The receipts\<close>

definition installReceipt :: "string \<Rightarrow> dirId \<Rightarrow> string \<Rightarrow> bytes \<Rightarrow> (string option \<Rightarrow> string option) \<Rightarrow> FS \<Rightarrow> string option \<times> FS" where
  "installReceipt sfx d p data failed fs = (case syncDirectory QueuesDir fs of
       (Some e, fs1) \<Rightarrow> (Some e, fs1)
     | (None, fs1) \<Rightarrow> (case durableNoReplace sfx d p data fs1 of
         ((st, err), fs2) \<Rightarrow> if st \<noteq> noReplaceInstalled then (failed err, fs2) else syncDirectory d fs2))"

definition writeCompletionReceipt ::
    "Codec \<Rightarrow> string \<Rightarrow> string \<Rightarrow> string \<Rightarrow> CompletionReceiptBinding \<Rightarrow> FS \<Rightarrow> string option \<times> FS" where
  "writeCompletionReceipt C sfx queueID transactionID b fs = (case cd_unbase64 C (crb_CanonicalBytesBase64 b) of
       Inl e \<Rightarrow> (Some e, fs)
     | Inr data \<Rightarrow> (case DecodeCompletionReceipt C data of
         Inl e \<Rightarrow> (Some e, fs)
       | Inr r \<Rightarrow> (case validateCompletionReceiptBinding C (Some b) queueID transactionID (cr_NormalizedName r) (cr_CompletedQueueSHA256 r) of
           Some e \<Rightarrow> (Some e, fs)
         | None \<Rightarrow> (case op_mkdirAll fs of
             (Some e, fs1) \<Rightarrow> (Some (FsErr_text e), fs1)
           | (None, fs1) \<Rightarrow> (case op_lstat fs1 of
               (Some e, fs2) \<Rightarrow> (Some (FsErr_text e), fs2)
             | (None, fs2) \<Rightarrow> installReceipt sfx CompletionReceiptsDir (crb_Basename b) data
                 (\<lambda>err. Some (case err of Some e \<Rightarrow> e | None \<Rightarrow> ''completion receipt was not installed'')) fs2)))))"

definition writeFailedRecoveryReceipt ::
    "Codec \<Rightarrow> string \<Rightarrow> string \<Rightarrow> string \<Rightarrow> FailedRecoveryReceiptBinding \<Rightarrow> FS \<Rightarrow> string option \<times> FS" where
  "writeFailedRecoveryReceipt C sfx queueID transactionID b fs = (case cd_unbase64 C (frb_CanonicalBytesBase64 b) of
       Inl e \<Rightarrow> (Some e, fs)
     | Inr data \<Rightarrow> (case cd_failed C data of
         Inl e \<Rightarrow> (Some e, fs)
       | Inr r \<Rightarrow> (case validateFailedRecoveryReceiptBinding C (Some b) queueID transactionID (frr_NormalizedName r)
                          (frr_PriorQueueSHA256 r) (frr_RecoveredQueueSHA256 r) of
           Some e \<Rightarrow> (Some e, fs)
         | None \<Rightarrow> (case op_mkdirAll fs of
             (Some e, fs1) \<Rightarrow> (Some (FsErr_text e), fs1)
           | (None, fs1) \<Rightarrow> installReceipt sfx FailedReceiptsDir (frb_Basename b) data (\<lambda>err. err) fs1))))"

section \<open>Writing a replacement\<close>

text \<open>The part after the intent is installed and the rename is durable: the receipts and the result.\<close>

definition commitReceipts ::
    "Codec \<Rightarrow> string \<Rightarrow> ReplaceIntentV1 \<Rightarrow> FS \<Rightarrow> ReplacementCommit \<times> FS" where
  "commitReceipts C sfx intent fs =
     (let completion = (\<lambda>fs. (case ri_CompletionReceiptBinding intent of
          None \<Rightarrow> (\<lparr>rc_Outcome = OutcomeCommittedDurable, rc_Err = None, rc_Intent = Some intent, rc_Phase = CompletionPhaseNone\<rparr>, fs)
        | Some b \<Rightarrow> (case writeCompletionReceipt C sfx (ri_QueueID intent) (ri_TransactionID intent) b fs of
            (Some e, fs1) \<Rightarrow> (\<lparr>rc_Outcome = OutcomeCommitIndeterminate, rc_Err = Some (wrapErr ''completion receipt'' e),
                rc_Intent = Some intent, rc_Phase = CompletionPhaseCanonicalCommitted\<rparr>, fs1)
          | (None, fs1) \<Rightarrow> (\<lparr>rc_Outcome = OutcomeCommittedDurable, rc_Err = None, rc_Intent = Some intent,
                rc_Phase = CompletionPhaseReceiptDurable\<rparr>, fs1)))) in
      case ri_FailedRecoveryReceiptBinding intent of
        None \<Rightarrow> completion fs
      | Some b \<Rightarrow> (case writeFailedRecoveryReceipt C sfx (ri_QueueID intent) (ri_TransactionID intent) b fs of
          (Some e, fs1) \<Rightarrow> (replacementFailure intent OutcomeCommitIndeterminate (Some (wrapErr ''failed recovery receipt'' e)), fs1)
        | (None, fs1) \<Rightarrow> completion fs1))"

definition renameCandidate ::
    "Codec \<Rightarrow> string \<Rightarrow> string \<Rightarrow> ReplaceIntentV1 \<Rightarrow> FS \<Rightarrow> ReplacementCommit \<times> FS" where
  "renameCandidate C sfx name intent fs =
     (let fail = (\<lambda>what e. replacementFailure intent OutcomeCommitIndeterminate (Some (wrapErr what e))) in
      case syncDirectory QueuesDir fs of
        (Some e, fs1) \<Rightarrow> (fail ''sync replace intent'' e, fs1)
      | (None, fs1) \<Rightarrow> (case op_rename QueuesDir (ri_CandidateTempBasename intent) (queuePath name) fs1 of
          (Some e, fs2) \<Rightarrow> classifyReplacementFailure C intent (wrapErr ''rename candidate'' (FsErr_text e)) fs2
        | (None, fs2) \<Rightarrow> (case syncDirectory QueuesDir fs2 of
            (Some e, fs3) \<Rightarrow> (fail ''sync canonical'' e, fs3)
          | (None, fs3) \<Rightarrow> commitReceipts C sfx intent fs3)))"

definition orText :: "string option \<Rightarrow> string" where "orText e = (case e of None \<Rightarrow> [] | Some m \<Rightarrow> m)"

text \<open>
  \<open>ctxErr\<close> is \<^verbatim>\<open>ctx.Err()\<close>; \<open>sfx1\<close> and \<open>sfx2\<close> are the temporary suffixes of the two installs.
\<close>

definition writeReplacement ::
    "Codec \<Rightarrow> string option \<Rightarrow> string + string \<Rightarrow> string + string \<Rightarrow> string \<Rightarrow> string \<Rightarrow> ReplacementPlan \<Rightarrow> FS \<Rightarrow>
     ReplacementCommit \<times> FS" where
  "writeReplacement C ctxErr newTx newSuccessor sfx1 sfx2 plan fs =
     (let rejected = (\<lambda>e. \<lparr>rc_Outcome = OutcomeRejected, rc_Err = Some e, rc_Intent = None, rc_Phase = CompletionPhaseRejected\<rparr>) in
      case prepareReplacement C newTx newSuccessor plan of
        Inl e \<Rightarrow> (rejected e, fs)
      | Inr (intent, intentBytes) \<Rightarrow> (case ctxErr of
          Some e \<Rightarrow> (rejected e, fs)
        | None \<Rightarrow>
           (let fail = (\<lambda>outcome what e. replacementFailure intent outcome (Some (wrapErr what e)));
                candidate = ri_CandidateTempBasename intent in
            case op_mkdirAll fs of
              (Some e, fs1) \<Rightarrow> (fail OutcomeNotCommitted ''mkdir queue directory'' (FsErr_text e), fs1)
            | (None, fs1) \<Rightarrow> (case durableFile QueuesDir candidate (rp_CandidateBytes plan) fs1 of
                (Some e, fs2) \<Rightarrow> (fail OutcomeNotCommitted ''candidate'' e, fs2)
              | (None, fs2) \<Rightarrow> (case durableNoReplace sfx1 QueuesDir (replaceIntentPath (rp_NormalizedName plan)) intentBytes fs2 of
                  ((noReplaceNotInstalled, err), fs3) \<Rightarrow> (let (c, fs4) = op_remove QueuesDir candidate fs3 in
                     (fail OutcomeNotCommitted ''replace intent'' (orText (joinErrs [err, toErr c])), fs4))
                | ((noReplaceRefused, err), fs3) \<Rightarrow> (let (c, fs4) = op_remove QueuesDir candidate fs3 in
                     (fail OutcomeCommitIndeterminate ''replace intent refused'' (orText (joinErrs [err, toErr c])), fs4))
                | ((noReplaceIndeterminate, err), fs3) \<Rightarrow>
                     (fail OutcomeCommitIndeterminate ''replace intent indeterminate'' (orText err), fs3)
                | ((noReplaceInstalled, _), fs3) \<Rightarrow> renameCandidate C sfx2 (rp_NormalizedName plan) intent fs3)))))"

section \<open>Cleaning up\<close>

definition removeAbsentOk :: "dirId \<Rightarrow> string \<Rightarrow> FS \<Rightarrow> string option \<times> FS" where
  "removeAbsentOk d p fs = (case op_remove d p fs of
     (None, fs1) \<Rightarrow> (None, fs1) | (Some ErrNotExist, fs1) \<Rightarrow> (None, fs1) | (Some e, fs1) \<Rightarrow> (Some (FsErr_text e), fs1))"

definition removeAndSync :: "string \<Rightarrow> FS \<Rightarrow> string option \<times> FS" where
  "removeAndSync p fs = (case removeAbsentOk QueuesDir p fs of
     (Some e, fs1) \<Rightarrow> (Some e, fs1) | (None, fs1) \<Rightarrow> syncDirectory QueuesDir fs1)"

definition cleanupReplaceIntent :: "string \<Rightarrow> FS \<Rightarrow> string option \<times> FS" where
  "cleanupReplaceIntent name fs = removeAndSync (replaceIntentPath (NormaliseQueueName name)) fs"

definition cleanupCompletedCanonical :: "Codec \<Rightarrow> string \<Rightarrow> string \<Rightarrow> string \<Rightarrow> FS \<Rightarrow> string option \<times> FS" where
  "cleanupCompletedCanonical C name queueID sha fs =
     (let path = queuePath (NormaliseQueueName name) in
      case op_readFile QueuesDir path fs of
        (Inl ErrNotExist, fs1) \<Rightarrow> syncDirectory QueuesDir fs1
      | (Inl e, fs1) \<Rightarrow> (Some (FsErr_text e), fs1)
      | (Inr data, fs1) \<Rightarrow> (case UnmarshalText C (validateUUIDv7 C) data of
          Inl e \<Rightarrow> (Some (wrapErr ''completed canonical'' e), fs1)
        | Inr q \<Rightarrow>
            if queue_QueueID q \<noteq> queueID then (Some ''completed canonical belongs to a different queue'', fs1)
            else if digestHex C data \<noteq> sha then (Some ''completed canonical digest differs from receipt'', fs1)
            else removeAndSync path fs1))"

section \<open>Recovery\<close>

definition discardCandidate :: "ReplaceIntentV1 \<Rightarrow> FS \<Rightarrow> string option \<times> FS" where
  "discardCandidate i fs = (case removeAbsentOk QueuesDir (ri_CandidateTempBasename i) fs of
       (Some e, fs1) \<Rightarrow> (Some (wrapErr ''remove replace candidate'' e), fs1)
     | (None, fs1) \<Rightarrow> (case syncDirectory QueuesDir fs1 of
         (Some e, fs2) \<Rightarrow> (Some (wrapErr ''sync replace candidate removal'' e), fs2)
       | (None, fs2) \<Rightarrow> (case cleanupReplaceIntent (ri_NormalizedName i) fs2 of
           (Some e, fs3) \<Rightarrow> (Some (wrapErr ''cleanup replace intent'' e), fs3) | (None, fs3) \<Rightarrow> (None, fs3))))"

definition renameAndSync :: "string \<Rightarrow> string \<Rightarrow> ReplaceIntentV1 \<Rightarrow> FS \<Rightarrow> string option \<times> FS" where
  "renameAndSync what1 what2 i fs = (case op_rename QueuesDir (ri_CandidateTempBasename i) (ri_CanonicalBasename i) fs of
       (Some e, fs1) \<Rightarrow> (Some (wrapErr what1 (FsErr_text e)), fs1)
     | (None, fs1) \<Rightarrow> (case syncDirectory QueuesDir fs1 of
         (Some e, fs2) \<Rightarrow> (Some (wrapErr what2 e), fs2) | (None, fs2) \<Rightarrow> (None, fs2)))"

definition retryCandidateRename :: "ReplaceIntentV1 \<Rightarrow> FS \<Rightarrow> string option \<times> FS" where
  "retryCandidateRename i fs = (case renameAndSync ''retry candidate rename'' ''sync canonical after retry rename'' i fs of
       (Some e, fs1) \<Rightarrow> (Some e, fs1)
     | (None, fs1) \<Rightarrow> (case cleanupReplaceIntent (ri_NormalizedName i) fs1 of
         (Some e, fs2) \<Rightarrow> (Some (wrapErr ''cleanup replace intent'' e), fs2) | (None, fs2) \<Rightarrow> (None, fs2)))"

definition retryCompletionRename :: "ReplaceIntentV1 \<Rightarrow> FS \<Rightarrow> string option \<times> FS" where
  "retryCompletionRename = renameAndSync ''retry completion rename'' ''sync completion canonical''"

definition finishRecoveredCompletion ::
    "Codec \<Rightarrow> string \<Rightarrow> ReplaceIntentV1 \<Rightarrow> CompletionReceiptBinding \<Rightarrow> FS \<Rightarrow> (CompletionPhase \<times> string option) \<times> FS" where
  "finishRecoveredCompletion C sfx i b fs = (case cd_unbase64 C (crb_CanonicalBytesBase64 b) of
       Inl e \<Rightarrow> ((CompletionPhaseCanonicalCommitted, Some (wrapErr ''decode completion receipt binding'' e)), fs)
     | Inr raw \<Rightarrow> (case DecodeCompletionReceipt C raw of
         Inl e \<Rightarrow> ((CompletionPhaseCanonicalCommitted, Some (wrapErr ''decode completion receipt'' e)), fs)
       | Inr r \<Rightarrow> (case writeCompletionReceipt C sfx (ri_QueueID i) (ri_TransactionID i) b fs of
           (Some e, fs1) \<Rightarrow> ((CompletionPhaseCanonicalCommitted, Some (wrapErr ''write completion receipt'' e)), fs1)
         | (None, fs1) \<Rightarrow> (case cleanupCompletedCanonical C (ri_NormalizedName i) (ri_QueueID i) (cr_CompletedQueueSHA256 r) fs1 of
             (Some e, fs2) \<Rightarrow> ((CompletionPhaseReceiptDurable, Some (wrapErr ''cleanup completed canonical'' e)), fs2)
           | (None, fs2) \<Rightarrow> (case cleanupReplaceIntent (ri_NormalizedName i) fs2 of
               (Some e, fs3) \<Rightarrow> ((CompletionPhaseReceiptDurable, Some (wrapErr ''cleanup completion intent'' e)), fs3)
             | (None, fs3) \<Rightarrow> ((CompletionPhaseCleaned, None), fs3))))))"

definition completionRecoveryPhase ::
    "Codec \<Rightarrow> ReplaceIntentV1 \<Rightarrow> CompletionReceiptBinding \<Rightarrow> FS \<Rightarrow> CompletionPhase \<times> FS" where
  "completionRecoveryPhase C i b fs = (case loadCompletionRecoveryFacts C i b fs of
       (Inl e, fs1) \<Rightarrow> (CompletionPhaseCommitIndeterminate, fs1)
     | (Inr f, fs1) \<Rightarrow> (let isNew = canonicalIsCandidate C i f in
         (if crf_receiptExact f \<and> (isNew \<or> crf_canonical f = None \<and> crf_candidate f = None) then CompletionPhaseReceiptDurable
          else if isNew \<and> \<not> crf_receiptPresent f then CompletionPhaseCanonicalCommitted
          else if \<not> crf_receiptPresent f \<and> priorMatches C (ri_PriorState i) (crf_canonical f) then CompletionPhaseNotCommitted
          else CompletionPhaseCommitIndeterminate, fs1)))"

definition finishCompletion ::
    "Codec \<Rightarrow> string \<Rightarrow> ReplaceIntentV1 \<Rightarrow> CompletionReceiptBinding \<Rightarrow> ReplaceRecoveryAction \<Rightarrow> FS \<Rightarrow>
     (ReplaceRecoveryAction \<times> CompletionPhase \<times> string option) \<times> FS" where
  "finishCompletion C sfx i b action fs = (case finishRecoveredCompletion C sfx i b fs of
       ((phase, Some e), fs1) \<Rightarrow> ((ReplaceRefuse, phase, Some e), fs1)
     | ((phase, None), fs1) \<Rightarrow> ((action, phase, None), fs1))"

definition recoverCompletionReplaceIntent ::
    "Codec \<Rightarrow> string \<Rightarrow> ReplaceIntentV1 \<Rightarrow> CompletionReceiptBinding \<Rightarrow> bytes \<Rightarrow> FS \<Rightarrow>
     (ReplaceRecoveryAction \<times> CompletionPhase \<times> string option) \<times> FS" where
  "recoverCompletionReplaceIntent C sfx i b intentBytes fs =
     reading QueuesDir (replaceIntentPath (ri_NormalizedName i)) fs
       (\<lambda>e. (ReplaceRefuse, CompletionPhaseCommitIndeterminate, Some (wrapErr ''read durable completion intent'' e)))
       (\<lambda>durable fs1.
         if durable \<noteq> Some intentBytes
         then ((ReplaceRefuse, CompletionPhaseRejected, Some ''durable completion intent differs''), fs1)
         else (case classifyCompletionIntent C i b fs1 of
             ((action, Some e), fs2) \<Rightarrow> (let (phase, fs3) = completionRecoveryPhase C i b fs2 in ((action, phase, Some e), fs3))
           | ((action, None), fs2) \<Rightarrow> (case action of
                 ReplaceRetryRename \<Rightarrow> (case retryCompletionRename i fs2 of
                     (Some e, fs3) \<Rightarrow> ((ReplaceRefuse, CompletionPhaseCommitIndeterminate, Some e), fs3)
                   | (None, fs3) \<Rightarrow> finishCompletion C sfx i b action fs3)
               | ReplacePromoteCanonical \<Rightarrow> finishCompletion C sfx i b action fs2
               | ReplaceNotCommitted \<Rightarrow> (case discardCandidate i fs2 of
                     (Some e, fs3) \<Rightarrow> ((ReplaceRefuse, CompletionPhaseNotCommitted, Some e), fs3)
                   | (None, fs3) \<Rightarrow> ((ReplaceNotCommitted, CompletionPhaseNotCommitted, None), fs3))
               | ReplaceRefuse \<Rightarrow> ((ReplaceRefuse, CompletionPhaseRejected, Some ''unsupported completion recovery action''), fs2))))"

definition recoverFailedReplaceIntent ::
    "Codec \<Rightarrow> string \<Rightarrow> ReplaceIntentV1 \<Rightarrow> FailedRecoveryReceiptBinding \<Rightarrow> bytes \<Rightarrow> FS \<Rightarrow>
     (ReplaceRecoveryAction \<times> string option) \<times> FS" where
  "recoverFailedReplaceIntent C sfx i b intentBytes fs =
     reading QueuesDir (replaceIntentPath (ri_NormalizedName i)) fs
       (\<lambda>e. (ReplaceRefuse, Some ''durable failed recovery intent differs''))
       (\<lambda>durable fs1.
         if durable \<noteq> Some intentBytes then ((ReplaceRefuse, Some ''durable failed recovery intent differs''), fs1)
         else (case classifyFailedRecoveryIntent C i b fs1 of
             ((action, Some e), fs2) \<Rightarrow> ((action, Some e), fs2)
           | ((ReplacePromoteCanonical, None), fs2) \<Rightarrow>
               (case writeFailedRecoveryReceipt C sfx (ri_QueueID i) (ri_TransactionID i) b fs2 of
                  (Some e, fs3) \<Rightarrow> ((ReplaceRefuse, Some (wrapErr ''write failed recovery receipt'' e)), fs3)
                | (None, fs3) \<Rightarrow> (case cleanupReplaceIntent (ri_NormalizedName i) fs3 of
                    (Some e, fs4) \<Rightarrow> ((ReplaceRefuse, Some (wrapErr ''cleanup failed recovery intent'' e)), fs4)
                  | (None, fs4) \<Rightarrow> ((ReplacePromoteCanonical, None), fs4)))
           | ((ReplaceNotCommitted, None), fs2) \<Rightarrow>
               (case removeAbsentOk QueuesDir (ri_CandidateTempBasename i) fs2 of
                  (Some e, fs3) \<Rightarrow> ((ReplaceRefuse, Some (wrapErr ''remove failed recovery candidate'' e)), fs3)
                | (None, fs3) \<Rightarrow> (case syncDirectory QueuesDir fs3 of
                    (Some e, fs4) \<Rightarrow> ((ReplaceRefuse, Some (wrapErr ''sync failed recovery candidate removal'' e)), fs4)
                  | (None, fs4) \<Rightarrow> (case cleanupReplaceIntent (ri_NormalizedName i) fs4 of
                      (Some e, fs5) \<Rightarrow> ((ReplaceRefuse, Some (wrapErr ''cleanup failed recovery intent'' e)), fs5)
                    | (None, fs5) \<Rightarrow> ((ReplaceNotCommitted, None), fs5))))
           | ((_, None), fs2) \<Rightarrow> ((ReplaceRefuse, Some ''unsupported failed recovery action''), fs2)))"

definition recoverReplaceIntent ::
    "Codec \<Rightarrow> ReplaceIntentV1 \<Rightarrow> bytes \<Rightarrow> FS \<Rightarrow> (ReplaceRecoveryAction \<times> string option) \<times> FS" where
  "recoverReplaceIntent C i intentBytes fs =
     reading QueuesDir (replaceIntentPath (ri_NormalizedName i)) fs
       (\<lambda>e. (ReplaceRefuse, Some (wrapErr ''re-read durable replace intent'' e)))
       (\<lambda>durable fs1.
         if durable = None then ((ReplaceRefuse, Some ''durable replace intent is gone''), fs1)
         else if durable \<noteq> Some intentBytes then ((ReplaceRefuse, Some ''durable replace intent differs''), fs1)
         else (case classifyReplaceIntent C i fs1 of
             ((action, Some e), fs2) \<Rightarrow> ((action, Some e), fs2)
           | ((action, None), fs2) \<Rightarrow>
               (let done = (\<lambda>r. (case r of (Some e, fs3) \<Rightarrow> ((ReplaceRefuse, Some e), fs3) | (None, fs3) \<Rightarrow> ((action, None), fs3))) in
                case action of
                  ReplacePromoteCanonical \<Rightarrow> (case cleanupReplaceIntent (ri_NormalizedName i) fs2 of
                     (e, fs3) \<Rightarrow> done (map_option (wrapErr ''cleanup replace intent'') e, fs3))
                | ReplaceRetryRename \<Rightarrow> done (retryCandidateRename i fs2)
                | ReplaceNotCommitted \<Rightarrow> done (discardCandidate i fs2)
                | ReplaceRefuse \<Rightarrow> ((ReplaceRefuse, Some ''unsupported replace recovery action''), fs2))))"

record CompletionIntentRecovery =
  cir_Phase :: CompletionPhase
  cir_ReleaseMarkerPending :: bool

record ReplaceIntentRecovery =
  rir_NormalizedName :: string
  rir_Action :: ReplaceRecoveryAction
  rir_Completion :: "CompletionIntentRecovery option"
  rir_Err :: "string option"

definition Resolved :: "ReplaceIntentRecovery \<Rightarrow> bool" where
  "Resolved r \<longleftrightarrow> rir_Err r = None \<and> rir_Action r \<noteq> ReplaceRefuse"

definition hasSuffix :: "string \<Rightarrow> string \<Rightarrow> bool" where
  "hasSuffix s suffix \<longleftrightarrow> length suffix \<le> length s \<and> drop (length s - length suffix) s = suffix"

definition trimSuffix :: "string \<Rightarrow> string \<Rightarrow> string" where
  "trimSuffix s suffix = (if hasSuffix s suffix then take (length s - length suffix) s else s)"

definition recoverOneIntentFile ::
    "Codec \<Rightarrow> string \<Rightarrow> string \<Rightarrow> FS \<Rightarrow> ReplaceIntentRecovery option \<times> FS" where
  "recoverOneIntentFile C sfx basename fs =
     (let nameFromFile = trimSuffix basename replaceIntentSuffix;
          report = (\<lambda>name action completion err. Some \<lparr>rir_NormalizedName = name, rir_Action = action, rir_Completion = completion, rir_Err = err\<rparr>);
          refuse = (\<lambda>e. report nameFromFile ReplaceRefuse None (Some e)) in
      reading QueuesDir basename fs (\<lambda>e. refuse (wrapErr ''read replace intent'' e)) (\<lambda>found fs1. (case found of
        None \<Rightarrow> (None, fs1)
      | Some intentBytes \<Rightarrow> (case decodeReplaceIntent C intentBytes of
          Inl e \<Rightarrow> (refuse (wrapErr ''decode replace intent'' e), fs1)
        | Inr i \<Rightarrow>
            if ri_NormalizedName i \<noteq> nameFromFile
            then (refuse (''replace intent names queue '' @ cd_quote C (ri_NormalizedName i) @ '' but is filed under '' @ cd_quote C nameFromFile), fs1)
            else if ri_ArchiveHandoffBinding i \<noteq> None
            then (refuse ''queue: leftover archive-handoff intent needs the linked-handoff continuation, which is not wired'', fs1)
            else (case ri_FailedRecoveryReceiptBinding i of
                Some b \<Rightarrow> (case recoverFailedReplaceIntent C sfx i b intentBytes fs1 of
                    ((action, err), fs2) \<Rightarrow> (report (ri_NormalizedName i) action None err, fs2))
              | None \<Rightarrow> (case ri_CompletionReceiptBinding i of
                  Some b \<Rightarrow> (case recoverCompletionReplaceIntent C sfx i b intentBytes fs1 of
                      ((action, phase, err), fs2) \<Rightarrow>
                        (report (ri_NormalizedName i) action
                           (Some \<lparr>cir_Phase = phase, cir_ReleaseMarkerPending =
                              (err = None \<and> (action = ReplacePromoteCanonical \<or> action = ReplaceRetryRename))\<rparr>) err, fs2))
                | None \<Rightarrow> (case recoverReplaceIntent C i intentBytes fs1 of
                    ((action, err), fs2) \<Rightarrow> (report (ri_NormalizedName i) action None err, fs2))))))))"

text \<open>The sweep over the entries of the queues directory, in directory order.\<close>

fun recoverReplaceIntents_from ::
    "Codec \<Rightarrow> (nat \<Rightarrow> string) \<Rightarrow> string list \<Rightarrow> FS \<Rightarrow> ReplaceIntentRecovery list \<times> FS" where
  "recoverReplaceIntents_from C sfx [] fs = ([], fs)"
| "recoverReplaceIntents_from C sfx (e # es) fs =
     (if \<not> hasSuffix e replaceIntentSuffix then recoverReplaceIntents_from C sfx es fs
      else (case recoverOneIntentFile C (sfx (length es)) e fs of
          (None, fs1) \<Rightarrow> recoverReplaceIntents_from C sfx es fs1
        | (Some r, fs1) \<Rightarrow> (let (rs, fs2) = recoverReplaceIntents_from C sfx es fs1 in (r # rs, fs2))))"

section \<open>Installing the successor of a linked archive\<close>

definition installBoundArchiveIntent ::
    "Codec \<Rightarrow> string \<Rightarrow> ReplaceIntentV1 \<Rightarrow> FS \<Rightarrow> (NamespaceOutcome \<times> string option) \<times> FS" where
  "installBoundArchiveIntent C sfx predecessor fs = (case validateReplaceIntent C predecessor of
       Some e \<Rightarrow> ((OutcomeRejected, Some e), fs)
     | None \<Rightarrow> (case ri_ArchiveHandoffBinding predecessor of
         None \<Rightarrow> ((OutcomeRejected, Some ''predecessor has no archive handoff''), fs)
       | Some h \<Rightarrow> (case cd_unbase64 C (ah_SuccessorArchiveIntentBytesBase64 h) of
           Inl e \<Rightarrow> ((OutcomeRejected, Some e), fs)
         | Inr data \<Rightarrow> (case op_mkdirAll fs of
             (Some e, fs1) \<Rightarrow> ((OutcomeNotCommitted, Some (FsErr_text e)), fs1)
           | (None, fs1) \<Rightarrow>
              (case durableNoReplace sfx QueuesDir (archiveIntentPath (ri_NormalizedName predecessor)) data fs1 of
                 ((noReplaceNotInstalled, err), fs2) \<Rightarrow> ((OutcomeNotCommitted, err), fs2)
               | ((noReplaceInstalled, err), fs2) \<Rightarrow> (case syncDirectory QueuesDir fs2 of
                     (Some e, fs3) \<Rightarrow> ((OutcomeCommitIndeterminate, Some e), fs3)
                   | (None, fs3) \<Rightarrow> ((OutcomeCommittedDurable, None), fs3))
               | ((_, err), fs2) \<Rightarrow> ((OutcomeCommitIndeterminate, err), fs2))))))"

end
