(* ===== verification/Replace_Safety.thy ===== *)
theory Replace_Safety
  imports Replace_Protocol
begin

text \<open>
  What the replacement protocol promises across faults and crashes. A transaction is described by
  its files (\<open>Tx\<close>); the namespaces a run can leave behind are classified by what they show of the
  canonical file, the intent, the candidate and the receipt. Every moment of a faulty run stays in
  a state that recovery understands, and recovery keeps it so.
\<close>

section \<open>The states of a transaction on disk\<close>

datatype TxKind = PlainTx | FailedTx | CompletionTx

record Tx =
  tx_kind :: TxKind
  tx_canonical :: string
  tx_candidate :: string
  tx_intent :: string
  tx_prior :: "bytes option"
  tx_new :: bytes
  tx_intentBytes :: bytes
  tx_receipt :: "(dirId \<times> string \<times> bytes) option"

definition oldC :: "Tx \<Rightarrow> ns \<Rightarrow> bool" where
  "oldC t n \<longleftrightarrow> n (tx_canonical t) = map_option (\<lambda>b. File b True) (tx_prior t)"

definition newC :: "Tx \<Rightarrow> ns \<Rightarrow> bool" where
  "newC t n \<longleftrightarrow> n (tx_canonical t) = Some (File (tx_new t) True)"

definition hasI :: "Tx \<Rightarrow> ns \<Rightarrow> bool" where
  "hasI t n \<longleftrightarrow> n (tx_intent t) = Some (File (tx_intentBytes t) True)"

definition noI :: "Tx \<Rightarrow> ns \<Rightarrow> bool" where "noI t n \<longleftrightarrow> n (tx_intent t) = None"

definition noCand :: "Tx \<Rightarrow> ns \<Rightarrow> bool" where "noCand t n \<longleftrightarrow> n (tx_candidate t) = None"

text \<open>
  The queues directory: untouched, prepared, rolled back, renamed, cleaned up; and for a completion
  the canonical file gone, with the intent and without.
\<close>

definition untouched :: "Tx \<Rightarrow> ns set" where "untouched t = {n. oldC t n \<and> noI t n}"

definition prepared :: "Tx \<Rightarrow> ns set" where
  "prepared t = {n. oldC t n \<and> hasI t n \<and> n (tx_candidate t) = Some (File (tx_new t) True)}"

definition rolledBack :: "Tx \<Rightarrow> ns set" where
  "rolledBack t = {n. tx_kind t = FailedTx \<and> oldC t n \<and> hasI t n \<and> noCand t n}"

definition renamedTx :: "Tx \<Rightarrow> ns set" where "renamedTx t = {n. newC t n \<and> hasI t n \<and> noCand t n}"

definition cleaned :: "Tx \<Rightarrow> ns set" where
  "cleaned t = {n. tx_kind t \<noteq> CompletionTx \<and> newC t n \<and> noI t n \<and> noCand t n}"

definition unlinked :: "Tx \<Rightarrow> ns set" where
  "unlinked t = {n. tx_kind t = CompletionTx \<and> n (tx_canonical t) = None \<and> hasI t n \<and> noCand t n}"

definition released :: "Tx \<Rightarrow> ns set" where
  "released t = {n. tx_kind t = CompletionTx \<and> n (tx_canonical t) = None \<and> noI t n \<and> noCand t n}"

lemmas tx_states = untouched_def prepared_def rolledBack_def renamedTx_def cleaned_def unlinked_def released_def
  oldC_def newC_def hasI_def noI_def noCand_def

text \<open>The receipts directory: the receipt absent, absent or exact, exact.\<close>

definition receiptAbsent :: "Tx \<Rightarrow> dirId \<Rightarrow> ns set" where
  "receiptAbsent t d = {n. \<forall>p data. tx_receipt t = Some (d, p, data) \<longrightarrow> n p = None}"

definition receiptExact :: "Tx \<Rightarrow> dirId \<Rightarrow> ns set" where
  "receiptExact t d = {n. \<forall>p data. tx_receipt t = Some (d, p, data) \<longrightarrow> n p = Some (File data True)}"

definition area :: "ns set \<Rightarrow> (dirId \<Rightarrow> ns set) \<Rightarrow> dirId \<Rightarrow> ns set" where
  "area Q R = R(QueuesDir := Q)"

definition receiptMay :: "Tx \<Rightarrow> dirId \<Rightarrow> ns set" where
  "receiptMay t d = receiptAbsent t d \<union> receiptExact t d"

text \<open>A state of all directories that a crash may leave and recovery understands.\<close>

definition recoverable :: "Tx \<Rightarrow> (dirId \<Rightarrow> ns) \<Rightarrow> bool" where
  "recoverable t m \<longleftrightarrow> (\<exists>Q R. (Q, R) \<in> {(untouched t \<union> prepared t \<union> rolledBack t, receiptAbsent t),
        (renamedTx t, receiptMay t), (cleaned t \<union> unlinked t \<union> released t, receiptExact t)}
      \<and> (\<forall>d. m d \<in> area Q R d))"

section \<open>Every moment of a run\<close>

text \<open>
  \<open>guarded J fs fs'\<close>: whatever crash happens from \<open>fs\<close> to \<open>fs'\<close>, the namespaces left satisfy \<open>J\<close>.
\<close>

definition guarded :: "((dirId \<Rightarrow> ns) \<Rightarrow> bool) \<Rightarrow> FS \<Rightarrow> FS \<Rightarrow> bool" where
  "guarded J fs fs' \<longleftrightarrow>
     (\<exists>new. fs_snaps fs' = new @ fs_snaps fs \<and> (\<forall>s \<in> set new. \<forall>m. (\<forall>d. m d \<in> set (s d)) \<longrightarrow> J m))
     \<and> (\<forall>m. (\<forall>d. m d \<in> insert (fs_dir fs' d) (set (fs_pend fs' d))) \<longrightarrow> J m)"

lemma guarded_trans:
  assumes "guarded J fs fs1" "guarded J fs1 fs2"
  shows "guarded J fs fs2"
proof -
  obtain n1 n2 where "fs_snaps fs1 = n1 @ fs_snaps fs" "fs_snaps fs2 = n2 @ fs_snaps fs1"
    "\<forall>s \<in> set n1. \<forall>m. (\<forall>d. m d \<in> set (s d)) \<longrightarrow> J m" "\<forall>s \<in> set n2. \<forall>m. (\<forall>d. m d \<in> set (s d)) \<longrightarrow> J m"
    using assms unfolding guarded_def by blast
  then have "fs_snaps fs2 = (n2 @ n1) @ fs_snaps fs \<and> (\<forall>s \<in> set (n2 @ n1). \<forall>m. (\<forall>d. m d \<in> set (s d)) \<longrightarrow> J m)"
    by auto
  then show ?thesis using assms(2) unfolding guarded_def by blast
qed

lemma stays_guarded:
  assumes "stays A fs fs'" and "\<And>m. (\<forall>d. m d \<in> A d) \<Longrightarrow> J m"
  shows "guarded J fs fs'"
proof -
  obtain new where new: "fs_snaps fs' = new @ fs_snaps fs" "\<forall>s \<in> set new. \<forall>d. set (s d) \<subseteq> A d"
    using assms(1) by (auto simp: stays_def)
  have "\<forall>d. insert (fs_dir fs' d) (set (fs_pend fs' d)) \<subseteq> A d" using assms(1) by (simp add: stays_def within_def)
  then show ?thesis unfolding guarded_def using new assms(2) by (metis subsetD)
qed

lemma within_mono: "within A fs \<Longrightarrow> (\<And>d. A d \<subseteq> B d) \<Longrightarrow> within B fs"
  unfolding within_def by blast

lemma area_simps [simp]: "area Q R QueuesDir = Q" "d \<noteq> QueuesDir \<Longrightarrow> area Q R d = R d"
  by (simp_all add: area_def)

lemma area_all: "(\<forall>d. m d \<in> area Q R d) \<longleftrightarrow> m QueuesDir \<in> Q \<and> (\<forall>d. d \<noteq> QueuesDir \<longrightarrow> m d \<in> R d)"
  by (auto simp: area_def)

lemma area_mono: "Q \<subseteq> Q' \<Longrightarrow> (\<And>d. R d \<subseteq> R' d) \<Longrightarrow> area Q R d \<subseteq> area Q' R' d"
  by (simp add: area_def)

lemma area_closedAt: "(\<And>n f. n \<in> Q \<Longrightarrow> n(p := f) \<in> Q) \<Longrightarrow> closedAt (area Q R) QueuesDir p"
  by (simp add: closedAt_def)

text \<open>After a successful sync of the queues directory only its present namespace is left.\<close>

lemma sync_narrow:
  assumes "within (area Q R) fs" "syncDirectory QueuesDir fs = (None, fs')" "fs_dir fs QueuesDir \<in> Q'"
  shows "within (area Q' R) fs' \<and> fs_dir fs' = fs_dir fs"
proof -
  note s = syncDirectory_spec [OF assms(1,2), of "{}"]
  then have "fs_dir fs' = fs_dir fs" and "fs_pend fs' = (fs_pend fs)(QueuesDir := [fs_dir fs QueuesDir])" by simp_all
  have "fs_dir fs' d \<in> area Q' R d \<and> set (fs_pend fs' d) \<subseteq> area Q' R d" for d
  proof (cases "d = QueuesDir")
    case True
    then show ?thesis using \<open>fs_dir fs' = _\<close> \<open>fs_pend fs' = _\<close> assms(3) by simp
  next
    case False
    then have "fs_dir fs d \<in> R d \<and> set (fs_pend fs d) \<subseteq> R d" using assms(1) by (metis within_def area_simps(2))
    then show ?thesis using False \<open>fs_dir fs' = _\<close> \<open>fs_pend fs' = _\<close> by simp
  qed
  then show ?thesis using \<open>fs_dir fs' = _\<close> by (simp add: within_def)
qed

lemma recoverable_areas:
  "(\<forall>d. m d \<in> area (untouched t \<union> prepared t \<union> rolledBack t) (receiptAbsent t) d) \<Longrightarrow> recoverable t m"
  "(\<forall>d. m d \<in> area (renamedTx t) (receiptMay t) d) \<Longrightarrow> recoverable t m"
  "(\<forall>d. m d \<in> area (cleaned t \<union> unlinked t \<union> released t) (receiptExact t) d) \<Longrightarrow> recoverable t m"
  unfolding recoverable_def by blast+

lemma recoverable_window:
  assumes "\<forall>d. m d \<in> area (prepared t \<union> renamedTx t) (receiptAbsent t) d"
  shows "recoverable t m"
proof (cases "m QueuesDir \<in> prepared t")
  case True
  then have "\<forall>d. m d \<in> area (untouched t \<union> prepared t \<union> rolledBack t) (receiptAbsent t) d"
    using assms by (metis UnI1 UnI2 area_simps)
  then show ?thesis by (rule recoverable_areas)
next
  case False
  then have "\<forall>d. m d \<in> area (renamedTx t) (receiptMay t) d"
    using assms by (metis Un_iff area_simps receiptMay_def)
  then show ?thesis by (rule recoverable_areas)
qed

lemma recoverable_window2:
  assumes "\<forall>d. m d \<in> area (renamedTx t \<union> cleaned t \<union> unlinked t \<union> released t) (receiptExact t) d"
  shows "recoverable t m"
proof (cases "m QueuesDir \<in> renamedTx t")
  case True
  then have "\<forall>d. m d \<in> area (renamedTx t) (receiptMay t) d"
    using assms by (metis UnI2 area_simps receiptMay_def)
  then show ?thesis by (rule recoverable_areas)
next
  case False
  then have "\<forall>d. m d \<in> area (cleaned t \<union> unlinked t \<union> released t) (receiptExact t) d"
    using assms by (metis Un_iff area_simps)
  then show ?thesis by (rule recoverable_areas)
qed


section \<open>Steps\<close>

text \<open>\<open>calm\<close>: no operation fails. \<open>quiet\<close>: nothing changed on disk.\<close>

definition calm :: "FS \<Rightarrow> bool" where "calm fs \<longleftrightarrow> (\<forall>k. fs_faults fs k = Works)"

definition quiet :: "(dirId \<Rightarrow> ns set) \<Rightarrow> FS \<Rightarrow> FS \<Rightarrow> bool" where
  "quiet A fs fs' \<longleftrightarrow> stays A fs fs' \<and> fs_dir fs' = fs_dir fs \<and> fs_pend fs' = fs_pend fs \<and> (calm fs \<longrightarrow> calm fs')"

lemma quiet_refl [simp]: "quiet A fs fs \<longleftrightarrow> within A fs"
  by (simp add: quiet_def)

lemma quiet_trans: "quiet A fs fs1 \<Longrightarrow> quiet A fs1 fs2 \<Longrightarrow> quiet A fs fs2"
  unfolding quiet_def using stays_trans by metis

lemma quiet_within: "quiet A fs fs' \<Longrightarrow> within A fs'"
  unfolding quiet_def by (blast intro: stays_within)

lemma quiet_within_iff: "quiet A fs fs' \<Longrightarrow> within B fs' \<longleftrightarrow> within B fs"
  by (simp add: quiet_def within_def)

lemma calm_setDir [simp]: "calm (setDir d n fs) = calm fs" "calm (syncDir d fs) = calm fs" "calm (fs\<lparr>fs_now := k\<rparr>) = calm fs"
  by (simp_all add: calm_def setDir_def syncDir_def Let_def)

lemma calm_ops:
  assumes "calm fs"
  shows "op_readFile d p fs = (x, fs') \<Longrightarrow> calm fs' \<and> x = (case fs_dir fs d p of None \<Rightarrow> Inl ErrNotExist | Some fl \<Rightarrow> Inr (content fl))"
    and "op_close fs = (e, fs') \<Longrightarrow> calm fs' \<and> e = None"
    and "op_mkdirAll fs = (e, fs') \<Longrightarrow> calm fs' \<and> e = None"
    and "op_remove d p fs = (e, fs') \<Longrightarrow> calm fs' \<and> e = (if fs_dir fs d p = None then Some ErrNotExist else None)"
    and "op_rename d p q fs = (e, fs') \<Longrightarrow> calm fs' \<and> (fs_dir fs d p \<noteq> None \<longrightarrow> e = None)"
    and "op_create d p fs = (e, fs') \<Longrightarrow> calm fs' \<and> (fs_dir fs d p = None \<longrightarrow> e = None)"
    and "op_write d p data fs = (e, fs') \<Longrightarrow> calm fs' \<and> e = None"
    and "op_syncFile d p fs = (e, fs') \<Longrightarrow> calm fs' \<and> e = None"
    and "op_link d p q fs = (e, fs') \<Longrightarrow> calm fs' \<and> (fs_dir fs d q = None \<and> fs_dir fs d p \<noteq> None \<longrightarrow> e = None)"
    and "op_syncDirHandle d fs = (e, fs') \<Longrightarrow> calm fs' \<and> e = None"
proof -
  have w: "fs_faults fs (fs_now fs) = Works" using assms by (simp add: calm_def)
  note c = assms calm_setDir
  show "op_readFile d p fs = (x, fs') \<Longrightarrow> calm fs' \<and> x = (case fs_dir fs d p of None \<Rightarrow> Inl ErrNotExist | Some fl \<Rightarrow> Inr (content fl))"
    and "op_close fs = (e, fs') \<Longrightarrow> calm fs' \<and> e = None"
    and "op_mkdirAll fs = (e, fs') \<Longrightarrow> calm fs' \<and> e = None"
    and "op_remove d p fs = (e, fs') \<Longrightarrow> calm fs' \<and> e = (if fs_dir fs d p = None then Some ErrNotExist else None)"
    and "op_rename d p q fs = (e, fs') \<Longrightarrow> calm fs' \<and> (fs_dir fs d p \<noteq> None \<longrightarrow> e = None)"
    and "op_create d p fs = (e, fs') \<Longrightarrow> calm fs' \<and> (fs_dir fs d p = None \<longrightarrow> e = None)"
    and "op_write d p data fs = (e, fs') \<Longrightarrow> calm fs' \<and> e = None"
    and "op_syncFile d p fs = (e, fs') \<Longrightarrow> calm fs' \<and> e = None"
    and "op_link d p q fs = (e, fs') \<Longrightarrow> calm fs' \<and> (fs_dir fs d q = None \<and> fs_dir fs d p \<noteq> None \<longrightarrow> e = None)"
    and "op_syncDirHandle d fs = (e, fs') \<Longrightarrow> calm fs' \<and> e = None"
    using w c by (auto simp: fs_ops Let_def split: option.splits if_splits)
qed

lemma readOptional_quiet:
  assumes "within A fs" and r: "readOptional d p fs = (r, fs')"
  shows "quiet A fs fs'" and "(\<exists>e. r = Inl e) \<and> \<not> calm fs \<or> r = Inr (map_option content (fs_dir fs d p))"
proof -
  have c: "calm fs \<Longrightarrow> calm fs' \<and> r = Inr (map_option content (fs_dir fs d p))"
    using r calm_ops(1) [of fs d p] by (auto simp: readOptional_def split: prod.splits sum.splits option.splits FsErr.splits)
  show "quiet A fs fs'" using readOptional_spec [OF assms, of d "{}"] c by (simp add: quiet_def)
  show "(\<exists>e. r = Inl e) \<and> \<not> calm fs \<or> r = Inr (map_option content (fs_dir fs d p))"
    using readOptional_spec [OF assms, of d "{}"] c by (cases r) auto
qed

definition disk :: "FS \<Rightarrow> dirId \<Rightarrow> string \<Rightarrow> bytes option" where
  "disk fs d p = map_option content (fs_dir fs d p)"

lemma quiet_disk: "quiet A fs fs' \<Longrightarrow> disk fs' = disk fs"
  by (simp add: quiet_def disk_def fun_eq_iff)

lemma reading_cases:
  assumes w: "within A fs" and r: "reading d p fs bad k = (r, fs')"
  obtains (bad) e where "r = bad e" "quiet A fs fs'" "\<not> calm fs"
  | (ok) fs1 where "quiet A fs fs1" "k (disk fs d p) fs1 = (r, fs')"
proof -
  obtain x fs1 where x: "readOptional d p fs = (x, fs1)" by fastforce
  note q = readOptional_quiet [OF w x]
  show thesis
  proof (cases x)
    case (Inl e)
    then show thesis using q bad r x by (auto simp: reading_def)
  next
    case (Inr v)
    then show thesis using q ok r x by (auto simp: reading_def disk_def)
  qed
qed


lemma quiet_calm: "quiet A fs fs' \<Longrightarrow> calm fs \<Longrightarrow> calm fs'"
  by (simp add: quiet_def)

text \<open>A classifier reads and gives its verdict on what it read, unless a read failed.\<close>

definition verdictOf :: "FS \<Rightarrow> ReplaceRecoveryAction \<times> string option \<Rightarrow> ReplaceRecoveryAction \<times> string option \<Rightarrow> bool" where
  "verdictOf fs v expected \<longleftrightarrow> v = expected \<or> \<not> calm fs \<and> fst v = ReplaceRefuse \<and> snd v \<noteq> None"

lemma classifyPlainIntent_spec:
  assumes w: "within A fs" and r: "classifyPlainIntent C i fs = (v, fs')"
  shows "quiet A fs fs' \<and> verdictOf fs v
    (plainVerdict C i (disk fs QueuesDir (ri_CanonicalBasename i)) (disk fs QueuesDir (ri_CandidateTempBasename i)))"
  using w r [unfolded classifyPlainIntent_def Let_def]
proof (cases rule: reading_cases)
  case (bad e)
  then show ?thesis by (simp add: verdictOf_def)
next
  case (ok fs1)
  show ?thesis
    using quiet_within [OF ok(1)] ok(2)
  proof (cases rule: reading_cases)
    case (bad e)
    then show ?thesis using bad(1,3) quiet_trans [OF ok(1) bad(2)] quiet_calm [OF ok(1)] by (auto simp: verdictOf_def)
  next
    case ok2: (ok fs2)
    then show ?thesis using quiet_trans [OF ok(1) ok2(1)] quiet_disk [OF ok(1)]
      by (simp add: verdictOf_def)
  qed
qed

lemma classifyFailedRecoveryIntent_spec:
  assumes w: "within A fs" and b: "cd_unbase64 C (frb_CanonicalBytesBase64 b) = Inr data"
    and r: "classifyFailedRecoveryIntent C i b fs = (v, fs')"
  shows "quiet A fs fs' \<and> verdictOf fs v
    (failedVerdict C i data (disk fs QueuesDir (ri_CanonicalBasename i)) (disk fs QueuesDir (ri_CandidateTempBasename i))
       (disk fs FailedReceiptsDir (frb_Basename b)))"
  using w r [unfolded classifyFailedRecoveryIntent_def Let_def]
proof (cases rule: reading_cases)
  case (bad e)
  then show ?thesis by (simp add: verdictOf_def)
next
  case (ok fs1)
  note d1 = quiet_disk [OF ok(1)]
  show ?thesis
    using quiet_within [OF ok(1)] ok(2)
  proof (cases rule: reading_cases)
    case (bad e)
    then show ?thesis using bad(1,3) quiet_trans [OF ok(1) bad(2)] quiet_calm [OF ok(1)] by (auto simp: verdictOf_def)
  next
    case ok2: (ok fs2)
    note q2 = quiet_trans [OF ok(1) ok2(1)]
    show ?thesis
      using quiet_within [OF q2] ok2(2)
    proof (cases rule: reading_cases)
      case (bad e)
      then show ?thesis using bad(1,3) quiet_trans [OF q2 bad(2)] quiet_calm [OF q2] by (auto simp: verdictOf_def)
    next
      case ok3: (ok fs3)
      then show ?thesis using quiet_trans [OF q2 ok3(1)] d1 quiet_disk [OF q2] b
        by (simp add: verdictOf_def)
    qed
  qed
qed

lemma loadCompletionRecoveryFacts_spec:
  assumes w: "within A fs" and b: "cd_unbase64 C (crb_CanonicalBytesBase64 b) = Inr data"
    and r: "loadCompletionRecoveryFacts C i b fs = (v, fs')"
  shows "quiet A fs fs' \<and> ((\<exists>e. v = Inl e) \<and> \<not> calm fs \<or>
    v = Inr \<lparr>crf_canonical = disk fs QueuesDir (ri_CanonicalBasename i), crf_candidate = disk fs QueuesDir (ri_CandidateTempBasename i),
      crf_receiptPresent = (disk fs CompletionReceiptsDir (crb_Basename b) \<noteq> None),
      crf_receiptExact = (disk fs CompletionReceiptsDir (crb_Basename b) = Some data)\<rparr>)"
  using w r [unfolded loadCompletionRecoveryFacts_def]
proof (cases rule: reading_cases)
  case (bad e)
  then show ?thesis by simp
next
  case (ok fs1)
  note d1 = quiet_disk [OF ok(1)]
  show ?thesis
    using quiet_within [OF ok(1)] ok(2)
  proof (cases rule: reading_cases)
    case (bad e)
    then show ?thesis using bad(1,3) quiet_trans [OF ok(1) bad(2)] quiet_calm [OF ok(1)] by auto
  next
    case ok2: (ok fs2)
    note q2 = quiet_trans [OF ok(1) ok2(1)]
    show ?thesis
      using quiet_within [OF q2] ok2(2)
    proof (cases rule: reading_cases)
      case (bad e)
      then show ?thesis using bad(1,3) quiet_trans [OF q2 bad(2)] quiet_calm [OF q2] by auto
    next
      case ok3: (ok fs3)
      then show ?thesis using quiet_trans [OF q2 ok3(1)] d1 quiet_disk [OF q2] b
        by simp
    qed
  qed
qed


section \<open>Durable changes of the queues directory\<close>

lemma syncDirectory_calm: "calm fs \<Longrightarrow> syncDirectory d fs = (e, fs') \<Longrightarrow> e = None \<and> calm fs'"
  by (auto simp: syncDirectory_def op_openDir_def Let_def dest: calm_ops(2,10) split: prod.splits option.splits)

lemma op_remove_spec:
  assumes "within (area Q R) fs" "(fs_dir fs QueuesDir)(p := None) \<in> Q" and "op_remove QueuesDir p fs = (e, fs')"
  shows "stays (area Q R) fs fs' \<and> (\<forall>d. d \<noteq> QueuesDir \<longrightarrow> fs_dir fs' d = fs_dir fs d)
     \<and> fs_dir fs' QueuesDir \<in> {fs_dir fs QueuesDir, (fs_dir fs QueuesDir)(p := None)}
     \<and> (e = None \<or> e = Some ErrNotExist \<longrightarrow> fs_dir fs' QueuesDir = (fs_dir fs QueuesDir)(p := None))"
  using assms
  by (auto simp: fs_ops Let_def fun_upd_idem_iff intro!: stays_setDir split: fault.splits if_splits)

lemma removeAbsentOk_spec:
  assumes w: "within (area Q R) fs" "(fs_dir fs QueuesDir)(p := None) \<in> Q" and r: "removeAbsentOk QueuesDir p fs = (e, fs')"
  shows "stays (area Q R) fs fs' \<and> (\<forall>d. d \<noteq> QueuesDir \<longrightarrow> fs_dir fs' d = fs_dir fs d)
     \<and> fs_dir fs' QueuesDir \<in> {fs_dir fs QueuesDir, (fs_dir fs QueuesDir)(p := None)}
     \<and> (e = None \<longrightarrow> fs_dir fs' QueuesDir = (fs_dir fs QueuesDir)(p := None)) \<and> (calm fs \<longrightarrow> e = None \<and> calm fs')"
proof -
  obtain x fs1 where x: "op_remove QueuesDir p fs = (x, fs1)" by fastforce
  have "calm fs \<Longrightarrow> calm fs1 \<and> (x = None \<or> x = Some ErrNotExist)" using calm_ops(4) [OF _ x] by auto
  then show ?thesis using op_remove_spec [OF w x] r x
    by (auto simp: removeAbsentOk_def split: option.splits FsErr.splits)
qed

lemma removeAndSync_spec:
  assumes w: "within (area Q R) fs" and m: "(fs_dir fs QueuesDir)(p := None) \<in> Q" and r: "removeAndSync p fs = (e, fs')"
  shows "stays (area Q R) fs fs'"
    and "e = None \<Longrightarrow> within (area {(fs_dir fs QueuesDir)(p := None)} R) fs'"
    and "calm fs \<Longrightarrow> e = None \<and> calm fs'"
proof -
  obtain x fs1 where x: "removeAbsentOk QueuesDir p fs = (x, fs1)" by fastforce
  note s = removeAbsentOk_spec [OF w m x]
  have w1: "within (area Q R) fs1" using s by (blast intro: stays_within)
  show "stays (area Q R) fs fs'"
  proof (cases x)
    case None
    then have "syncDirectory QueuesDir fs1 = (e, fs')" using r x by (simp add: removeAndSync_def)
    then have "stays (area Q R) fs1 fs'" using syncDirectory_spec [OF w1] by blast
    then show ?thesis using s by (blast intro: stays_trans)
  qed (use r x s in \<open>auto simp: removeAndSync_def\<close>)
  show "within (area {(fs_dir fs QueuesDir)(p := None)} R) fs'" if "e = None"
  proof -
    have n: "x = None" and y: "syncDirectory QueuesDir fs1 = (None, fs')"
      using r x that by (auto simp: removeAndSync_def split: option.splits)
    have "fs_dir fs1 QueuesDir = (fs_dir fs QueuesDir)(p := None)" using s n by blast
    then show ?thesis using sync_narrow [OF w1 y, of "{(fs_dir fs QueuesDir)(p := None)}"] by blast
  qed
  show "e = None \<and> calm fs'" if "calm fs"
  proof -
    have "x = None" "calm fs1" using s that by blast+
    then show ?thesis using r x syncDirectory_calm [of fs1] by (simp add: removeAndSync_def)
  qed
qed

lemma renameAndSync_spec:
  assumes w: "within (area Q R) fs" and p: "fs_dir fs QueuesDir (ri_CandidateTempBasename i) \<noteq> None"
    and m: "renamed (ri_CandidateTempBasename i) (ri_CanonicalBasename i) (fs_dir fs QueuesDir) \<in> Q"
    and r: "renameAndSync w1 w2 i fs = (e, fs')"
  shows "stays (area Q R) fs fs'"
    and "e = None \<Longrightarrow> within (area {renamed (ri_CandidateTempBasename i) (ri_CanonicalBasename i) (fs_dir fs QueuesDir)} R) fs'"
    and "calm fs \<Longrightarrow> e = None \<and> calm fs'"
proof -
  let ?n = "renamed (ri_CandidateTempBasename i) (ri_CanonicalBasename i) (fs_dir fs QueuesDir)"
  obtain x fs1 where x: "op_rename QueuesDir (ri_CandidateTempBasename i) (ri_CanonicalBasename i) fs = (x, fs1)" by fastforce
  have s: "stays (area Q R) fs fs1" "x = None \<longrightarrow> fs_dir fs1 QueuesDir = ?n"
    using op_rename_spec [OF w _ x] m by auto
  have w1: "within (area Q R) fs1" using s(1) by (rule stays_within)
  show "stays (area Q R) fs fs'"
  proof (cases x)
    case None
    obtain y fs2 where y: "syncDirectory QueuesDir fs1 = (y, fs2)" by fastforce
    then have "fs' = fs2" using r x None by (auto simp: renameAndSync_def split: option.splits)
    moreover have "stays (area Q R) fs1 fs2" using syncDirectory_spec [OF w1 y] by blast
    ultimately show ?thesis using s(1) by (blast intro: stays_trans)
  qed (use r x s in \<open>auto simp: renameAndSync_def\<close>)
  show "within (area {?n} R) fs'" if "e = None"
  proof -
    have n: "x = None" and y: "syncDirectory QueuesDir fs1 = (None, fs')"
      using r x that by (auto simp: renameAndSync_def split: option.splits prod.splits)
    have "fs_dir fs1 QueuesDir = ?n" using s(2) n by blast
    then show ?thesis using sync_narrow [OF w1 y, of "{?n}"] by blast
  qed
  show "e = None \<and> calm fs'" if "calm fs"
  proof -
    have "x = None" "calm fs1" using calm_ops(5) [OF that x] p by blast+
    then show ?thesis using r x syncDirectory_calm [of fs1] by (auto simp: renameAndSync_def split: prod.splits option.splits)
  qed
qed


section \<open>Installing a receipt\<close>

lemma durableNoReplace_err:
  assumes "durableNoReplace sfx d p data fs = ((st, e), fs')" "st \<noteq> noReplaceInstalled"
  shows "e \<noteq> None"
  using assms
  by (auto simp: durableNoReplace_def classifyNoReplaceCleanupFailure_def Let_def
      split: prod.splits sum.splits option.splits if_splits)

lemma durableFile_calm:
  assumes c: "calm fs" and p: "fs_dir fs d p = None" and r: "durableFile d p data fs = (e, fs')"
  shows "e = None \<and> calm fs'"
proof -
  obtain e1 fs1 where 1: "op_create d p fs = (e1, fs1)" by fastforce
  note c1 = calm_ops(6) [OF c 1]
  obtain e2 fs2 where 2: "op_write d p data fs1 = (e2, fs2)" by fastforce
  note c2 = calm_ops(7) [OF conjunct1 [OF c1] 2]
  obtain e3 fs3 where 3: "op_syncFile d p fs2 = (e3, fs3)" by fastforce
  note c3 = calm_ops(8) [OF conjunct1 [OF c2] 3]
  obtain e4 fs4 where 4: "op_close fs3 = (e4, fs4)" by fastforce
  note c4 = calm_ops(2) [OF conjunct1 [OF c3] 4]
  show ?thesis using r 1 2 3 4 c1 c2 c3 c4 p by (simp add: durableFile_def)
qed

lemma durableNoReplace_calm:
  assumes c: "calm fs" and p: "fs_dir fs d p = None" and tmp: "fs_dir fs d (p @ ''.tmp-'' @ sfx) = None"
    and r: "durableNoReplace sfx d p data fs = ((st, e), fs')"
  shows "st = noReplaceInstalled \<and> calm fs'"
proof -
  let ?tmp = "p @ ''.tmp-'' @ sfx"
  let ?A = "\<lambda>_. UNIV :: ns set"
  have w: "within ?A f" for f by (simp add: within_def)
  have cl: "closedAt ?A d q" for q by (simp add: closedAt_def)
  obtain r1 fs1 where 1: "readOptional d p fs = (r1, fs1)" by fastforce
  have q1: "quiet ?A fs fs1" "r1 = Inr None" using readOptional_quiet [OF w 1] c p by auto
  have c1: "calm fs1" "fs_dir fs1 = fs_dir fs" using q1(1) c by (simp_all add: quiet_def)
  obtain e2 fs2 where 2: "durableFile d ?tmp data fs1 = (e2, fs2)" by fastforce
  have c2: "e2 = None" "calm fs2" using durableFile_calm [OF c1(1) _ 2] tmp c1(2) by simp_all
  have d2: "fs_dir fs2 d ?tmp \<noteq> None" "fs_dir fs2 d p = None"
    using durableFile_spec [OF w cl 2] c2(1) p c1(2) by (auto simp: frame_def)
  obtain e3 fs3 where 3: "op_link d ?tmp p fs2 = (e3, fs3)" by fastforce
  have c3: "e3 = None" "calm fs3" using calm_ops(9) [OF c2(2) 3] d2 by simp_all
  have d3: "fs_dir fs3 d ?tmp \<noteq> None"
    using 3 c3(1) d2 by (auto simp: fs_ops Let_def split: option.splits fault.splits if_splits)
  obtain e4 fs4 where 4: "op_remove d ?tmp fs3 = (e4, fs4)" by fastforce
  have "e4 = None" "calm fs4" using calm_ops(4) [OF c3(2) 4] d3 by simp_all
  then show ?thesis using r 1 2 3 4 q1(2) c2(1) c3(1) by (simp add: durableNoReplace_def Let_def)
qed

lemma receipt_names: "receiptMay t d = {n. \<forall>p data. tx_receipt t = Some (d, p, data) \<longrightarrow> n p = None \<or> n p = Some (File data True)}"
  by (auto simp: receiptMay_def receiptAbsent_def receiptExact_def)

lemma installReceipt_spec:
  assumes w: "within (area Q R) fs" and R: "R = receiptMay t \<or> R = receiptExact t" and t: "tx_receipt t = Some (d, p, data)" "d \<noteq> QueuesDir"
    and f: "\<And>err. err \<noteq> None \<Longrightarrow> failed err \<noteq> None" and r: "installReceipt sfx d p data failed fs = (e, fs')"
  shows "stays (area Q R) fs fs'" and "fs_dir fs' QueuesDir = fs_dir fs QueuesDir"
    and "e = None \<Longrightarrow> within (area {fs_dir fs QueuesDir} (receiptExact t)) fs'"
    and "calm fs \<Longrightarrow> fs_dir fs d (p @ ''.tmp-'' @ sfx) = None \<Longrightarrow> e = None \<and> calm fs'"
proof -
  let ?A = "area Q R" and ?tmp = "p @ ''.tmp-'' @ sfx"
  obtain e1 fs1 where 1: "syncDirectory QueuesDir fs = (e1, fs1)" by fastforce
  have s1: "stays ?A fs fs1" "fs_dir fs1 = fs_dir fs"
    and n1: "e1 = None \<Longrightarrow> fs_pend fs1 = (fs_pend fs)(QueuesDir := [fs_dir fs QueuesDir])"
    using syncDirectory_spec [OF w 1, of "{}"] by simp_all
  have w1: "within ?A fs1" using s1(1) by (rule stays_within)
  obtain st err fs2 where 2: "durableNoReplace sfx d p data fs1 = ((st, err), fs2)" by (metis surj_pair)
  have dp: "fs_dir fs1 d p = None \<or> fs_dir fs1 d p = Some (File data True)"
  proof -
    have "fs_dir fs1 d \<in> ?A d" using w1 by (simp add: within_def)
    then show ?thesis using t R by (auto simp: receipt_names receiptExact_def)
  qed
  have s2: "stays ?A fs1 fs2 \<and> fs_dir fs2 QueuesDir = fs_dir fs1 QueuesDir \<and> fs_pend fs2 QueuesDir = fs_pend fs1 QueuesDir
      \<and> (st = noReplaceInstalled \<longrightarrow> fs_dir fs2 d p = Some (File data True))"
  proof (cases "fs_dir fs1 d p = None")
    case True
    have "fs_dir fs1 d \<in> ?A d" using w1 by (simp add: within_def)
    then have may: "R = receiptMay t" using True t R by (auto simp: receiptExact_def)
    have c: "closedAt ?A d ?tmp" using t by (auto simp: closedAt_def receipt_names may)
    have i: "(fs_dir fs1 d)(?tmp := x, p \<mapsto> File data True) \<in> ?A d" for x using t by (simp add: receipt_names may)
    have q: "stays ?A fs1 fs2 \<and> frame d {p, ?tmp} fs1 fs2 \<and> (st = noReplaceInstalled \<longrightarrow> fs_dir fs2 d p = Some (File data True))"
      using durableNoReplace_absent [OF w1 True c i 2] by blast
    then show ?thesis using t(2) by (metis frame_def)
  next
    case False
    then show ?thesis using durableNoReplace_present [OF w1 False 2] dp by auto
  qed
  have w2: "within ?A fs2" using s2 by (blast intro: stays_within)
  obtain e3 fs3 where 3: "syncDirectory d fs2 = (e3, fs3)" by fastforce
  have s3: "stays ?A fs2 fs3" "fs_dir fs3 = fs_dir fs2" "e3 = None \<Longrightarrow> fs_pend fs3 = (fs_pend fs2)(d := [fs_dir fs2 d])"
    using syncDirectory_spec [OF w2 3, of "{}"] by simp_all
  have cases: "e1 \<noteq> None \<and> e = e1 \<and> fs' = fs1 \<or> e1 = None \<and> st \<noteq> noReplaceInstalled \<and> e = failed err \<and> fs' = fs2
      \<or> e1 = None \<and> st = noReplaceInstalled \<and> e = e3 \<and> fs' = fs3"
    using r 1 2 3 by (auto simp: installReceipt_def split: option.splits if_splits)
  have nf: "st \<noteq> noReplaceInstalled \<Longrightarrow> failed err \<noteq> None" using f [OF durableNoReplace_err [OF 2]] .
  have s12: "stays ?A fs fs2" and s123: "stays ?A fs fs3" using s1(1) s2 s3(1) by (blast intro: stays_trans)+
  show "stays ?A fs fs'" using cases s1(1) s12 s123 by blast
  show "fs_dir fs' QueuesDir = fs_dir fs QueuesDir" using cases s1(2) s2 s3(2) by auto
  show "within (area {fs_dir fs QueuesDir} (receiptExact t)) fs'" if "e = None"
  proof -
    have n: "e1 = None" "st = noReplaceInstalled" "e3 = None" "fs' = fs3"
      using cases that nf by auto
    have "fs_dir fs3 d' \<in> area {fs_dir fs QueuesDir} (receiptExact t) d'
        \<and> set (fs_pend fs3 d') \<subseteq> area {fs_dir fs QueuesDir} (receiptExact t) d'" for d'
      using s1(2) n1 [OF n(1)] s2 s3(2) s3(3) [OF n(3)] n(2) t(1)
      by (cases "d' = QueuesDir"; cases "d' = d") (auto simp: receiptExact_def)
    then show ?thesis using n(4) by (simp add: within_def)
  qed
  show "e = None \<and> calm fs'" if c: "calm fs" and tmp: "fs_dir fs d ?tmp = None"
  proof -
    have n1: "e1 = None" "calm fs1" using syncDirectory_calm [OF c 1] by blast+
    have "st = noReplaceInstalled \<and> calm fs2"
    proof (cases "fs_dir fs1 d p = None")
      case True
      then show ?thesis using durableNoReplace_calm [OF n1(2) True _ 2] tmp s1(2) by simp
    next
      case False
      then have "fs_dir fs1 d p = Some (File data True)" using dp by metis
      moreover obtain rr f where rr: "readOptional d p fs1 = (rr, f)" by fastforce
      moreover note readOptional_quiet [OF w1 rr] n1(2)
      ultimately have "rr = Inr (Some data)" "calm f" by (auto dest: quiet_calm)
      then show ?thesis using 2 rr by (simp add: durableNoReplace_def)
    qed
    then show ?thesis using cases n1(1) syncDirectory_calm [OF _ 3] by auto
  qed
qed


section \<open>The transaction of an intent\<close>

definition receiptOf :: "Codec \<Rightarrow> ReplaceIntentV1 \<Rightarrow> (dirId \<times> string \<times> bytes) option" where
  "receiptOf C i = (case ri_FailedRecoveryReceiptBinding i of
      Some b \<Rightarrow> (case cd_unbase64 C (frb_CanonicalBytesBase64 b) of
         Inl _ \<Rightarrow> None | Inr data \<Rightarrow> Some (FailedReceiptsDir, frb_Basename b, data))
    | None \<Rightarrow> (case ri_CompletionReceiptBinding i of
         Some b \<Rightarrow> (case cd_unbase64 C (crb_CanonicalBytesBase64 b) of
            Inl _ \<Rightarrow> None | Inr data \<Rightarrow> Some (CompletionReceiptsDir, crb_Basename b, data))
       | None \<Rightarrow> None))"

definition txOf :: "Codec \<Rightarrow> bytes option \<Rightarrow> bytes \<Rightarrow> ReplaceIntentV1 \<Rightarrow> bytes \<Rightarrow> Tx" where
  "txOf C prior new i ib =
     \<lparr>tx_kind = (if ri_FailedRecoveryReceiptBinding i \<noteq> None then FailedTx
        else if ri_CompletionReceiptBinding i \<noteq> None then CompletionTx else PlainTx),
      tx_canonical = ri_CanonicalBasename i, tx_candidate = ri_CandidateTempBasename i,
      tx_intent = replaceIntentPath (ri_NormalizedName i), tx_prior = prior, tx_new = new,
      tx_intentBytes = ib, tx_receipt = receiptOf C i\<rparr>"

text \<open>What \<open>prepareReplacement\<close> establishes between an intent, its bytes and the two contents.\<close>

definition bound :: "Codec \<Rightarrow> bytes option \<Rightarrow> bytes \<Rightarrow> ReplaceIntentV1 \<Rightarrow> bytes \<Rightarrow> bool" where
  "bound C prior new i ib \<longleftrightarrow> validateReplaceIntent C i = None \<and> ib = cd_intentJSON C i
     \<and> digestHex C new = ri_CandidateSHA256 i \<and> priorMatches C (ri_PriorState i) prior
     \<and> (\<exists>q. UnmarshalText C (validateUUIDv7 C) new = Inr q \<and> queue_QueueID q = ri_QueueID i)"


lemma tx_names:
  assumes "validateReplaceIntent C i = None"
  shows "ri_CanonicalBasename i = ri_NormalizedName i @ ''.json''"
    "ri_CandidateTempBasename i = ri_NormalizedName i @ ''.candidate-'' @ ri_TransactionID i"
    "NormaliseQueueName (ri_NormalizedName i) = ri_NormalizedName i"
  using assms by (auto simp: validateReplaceIntent_def validReplaceIntentEnvelope_def NormaliseQueueName_def split: if_splits)

lemma tx_names_neq:
  assumes "validateReplaceIntent C i = None"
  shows "ri_CanonicalBasename i \<noteq> ri_CandidateTempBasename i" "ri_CandidateTempBasename i \<noteq> ri_CanonicalBasename i"
    "ri_CanonicalBasename i \<noteq> replaceIntentPath (ri_NormalizedName i)" "replaceIntentPath (ri_NormalizedName i) \<noteq> ri_CanonicalBasename i"
    "ri_CandidateTempBasename i \<noteq> replaceIntentPath (ri_NormalizedName i)" "replaceIntentPath (ri_NormalizedName i) \<noteq> ri_CandidateTempBasename i"
  using tx_names [OF assms] by (simp_all add: replaceIntentPath_def replaceIntentSuffix_def)

lemma txOf_sel [simp]:
  "tx_canonical (txOf C prior new i ib) = ri_CanonicalBasename i" "tx_candidate (txOf C prior new i ib) = ri_CandidateTempBasename i"
  "tx_intent (txOf C prior new i ib) = replaceIntentPath (ri_NormalizedName i)" "tx_prior (txOf C prior new i ib) = prior"
  "tx_new (txOf C prior new i ib) = new" "tx_intentBytes (txOf C prior new i ib) = ib"
  "tx_receipt (txOf C prior new i ib) = receiptOf C i"
  by (simp_all add: txOf_def)

lemma rec_before:
  "m QueuesDir \<in> untouched t \<union> prepared t \<union> rolledBack t \<Longrightarrow> (\<And>d. d \<noteq> QueuesDir \<Longrightarrow> m d \<in> receiptAbsent t d) \<Longrightarrow> recoverable t m"
  by (rule recoverable_areas(1)) (simp add: area_def)

lemma rec_renamed:
  "m QueuesDir \<in> renamedTx t \<Longrightarrow> (\<And>d. d \<noteq> QueuesDir \<Longrightarrow> m d \<in> receiptMay t d) \<Longrightarrow> recoverable t m"
  by (rule recoverable_areas(2)) (simp add: area_def)

lemma rec_after:
  "m QueuesDir \<in> cleaned t \<union> unlinked t \<union> released t \<Longrightarrow> (\<And>d. d \<noteq> QueuesDir \<Longrightarrow> m d \<in> receiptExact t d) \<Longrightarrow> recoverable t m"
  by (rule recoverable_areas(3)) (simp add: area_def)

lemma remove_guarded:
  assumes w: "within (area {n} R) fs" and r: "removeAndSync p fs = (e, fs')"
    and J: "\<forall>m. m QueuesDir \<in> {n, n(p := None)} \<and> (\<forall>d. d \<noteq> QueuesDir \<longrightarrow> m d \<in> R d) \<longrightarrow> J m"
  shows "guarded J fs fs'" and "e = None \<Longrightarrow> within (area {n(p := None)} R) fs'" and "calm fs \<Longrightarrow> e = None \<and> calm fs'"
proof -
  have n: "fs_dir fs QueuesDir = n" using w unfolding within_def by (metis area_simps(1) singletonD)
  have w': "within (area {n, n(p := None)} R) fs" by (rule within_mono [OF w]) (simp add: area_def)
  note s = removeAndSync_spec [OF w' _ r, unfolded n]
  have "J m" if "\<forall>d. m d \<in> area {n, n(p := None)} R d" for m
    using that J unfolding area_all by blast
  then show "guarded J fs fs'" by (intro stays_guarded [OF s(1)]) simp_all
  show "e = None \<Longrightarrow> within (area {n(p := None)} R) fs'" using s(2) by simp
  show "calm fs \<Longrightarrow> e = None \<and> calm fs'" using s(3) by simp
qed

lemma rename_guarded:
  assumes w: "within (area {n} R) fs" and r: "renameAndSync w1 w2 i fs = (e, fs')" and p: "n (ri_CandidateTempBasename i) \<noteq> None"
    and J: "\<forall>m. m QueuesDir \<in> {n, renamed (ri_CandidateTempBasename i) (ri_CanonicalBasename i) n}
              \<and> (\<forall>d. d \<noteq> QueuesDir \<longrightarrow> m d \<in> R d) \<longrightarrow> J m"
  shows "guarded J fs fs'"
    and "e = None \<Longrightarrow> within (area {renamed (ri_CandidateTempBasename i) (ri_CanonicalBasename i) n} R) fs'"
    and "calm fs \<Longrightarrow> e = None \<and> calm fs'"
proof -
  let ?n = "renamed (ri_CandidateTempBasename i) (ri_CanonicalBasename i) n"
  have n: "fs_dir fs QueuesDir = n" using w unfolding within_def by (metis area_simps(1) singletonD)
  have w': "within (area {n, ?n} R) fs" by (rule within_mono [OF w]) (simp add: area_def)
  note s = renameAndSync_spec [OF w' _ _ r, unfolded n, OF p]
  have "J m" if "\<forall>d. m d \<in> area {n, ?n} R d" for m
    using that J unfolding area_all by blast
  then show "guarded J fs fs'" by (intro stays_guarded [OF s(1)]) simp_all
  show "e = None \<Longrightarrow> within (area {?n} R) fs'" using s(2) by simp
  show "calm fs \<Longrightarrow> e = None \<and> calm fs'" using s(3) by simp
qed

lemma renamed_prepared:
  assumes "validateReplaceIntent C i = None" "n \<in> prepared (txOf C prior new i ib)"
  shows "renamed (ri_CandidateTempBasename i) (ri_CanonicalBasename i) n \<in> renamedTx (txOf C prior new i ib)"
  using assms(2) tx_names_neq [OF assms(1)] by (simp add: renamed_def tx_states)

lemma guarded_quiet:
  assumes "quiet A fs fs'" and "\<And>m. (\<forall>d. m d \<in> A d) \<Longrightarrow> J m"
  shows "guarded J fs fs'"
  using assms by (auto simp: quiet_def intro: stays_guarded)

text \<open>What a recovery of an intent achieves: see the properties at the end.\<close>

definition settledBy :: "Tx \<Rightarrow> ReplaceRecoveryAction \<Rightarrow> FS \<Rightarrow> bool" where
  "settledBy t a fs \<longleftrightarrow> (case a of ReplaceNotCommitted \<Rightarrow> within (area (untouched t) (receiptAbsent t)) fs
     | ReplaceRefuse \<Rightarrow> False | _ \<Rightarrow> within (area (cleaned t \<union> released t) (receiptExact t)) fs)"

definition tmpFree :: "Tx \<Rightarrow> string \<Rightarrow> FS \<Rightarrow> bool" where
  "tmpFree t sfx fs \<longleftrightarrow> (case tx_receipt t of None \<Rightarrow> True | Some (d, p, _) \<Rightarrow> fs_dir fs d (p @ ''.tmp-'' @ sfx) = None)"

definition recovers :: "Tx \<Rightarrow> string \<Rightarrow> FS \<Rightarrow> ReplaceRecoveryAction \<Rightarrow> string option \<Rightarrow> FS \<Rightarrow> bool" where
  "recovers t sfx fs a e fs' \<longleftrightarrow> guarded (recoverable t) fs fs' \<and> (e = None \<longrightarrow> settledBy t a fs')
     \<and> (calm fs \<and> tmpFree t sfx fs \<longrightarrow> e = None)"

lemma retryCandidateRename_recovers:
  assumes v: "validateReplaceIntent C i = None" and t: "t = txOf C prior new i ib" "tx_kind t = PlainTx" "tx_receipt t = None"
    and n: "n \<in> prepared t" and w: "within (area {n} R) fs" and r: "retryCandidateRename i fs = (e, fs')"
  shows "recovers t sfx fs ReplaceRetryRename e fs'"
proof -
  let ?n = "renamed (ri_CandidateTempBasename i) (ri_CanonicalBasename i) n"
  let ?m = "?n(replaceIntentPath (ri_NormalizedName i) := None)"
  have univ: "receiptAbsent t = (\<lambda>_. UNIV)" "receiptExact t = (\<lambda>_. UNIV)" "receiptMay t = (\<lambda>_. UNIV)"
    by (simp_all add: fun_eq_iff receiptMay_def receiptAbsent_def receiptExact_def t(3))
  have n1: "?n \<in> renamedTx t" using renamed_prepared [OF v] n t(1) by simp
  then have n2: "?m \<in> cleaned t" using t(2) tx_names_neq [OF v] by (auto simp: tx_states t(1))
  obtain x fs1 where x: "renameAndSync ''retry candidate rename'' ''sync canonical after retry rename'' i fs = (x, fs1)" by fastforce
  have p: "n (ri_CandidateTempBasename i) \<noteq> None" using n by (simp add: tx_states t(1))
  have J1: "\<forall>m. m QueuesDir \<in> {n, ?n} \<and> (\<forall>d. d \<noteq> QueuesDir \<longrightarrow> m d \<in> R d) \<longrightarrow> recoverable t m"
    using n n1 rec_before [of _ t] rec_renamed [of _ t] by (auto simp: univ)
  note s1 = rename_guarded [OF w x p J1]
  show ?thesis
  proof (cases x)
    case (Some y)
    then show ?thesis using r x s1 by (auto simp: retryCandidateRename_def recovers_def)
  next
    case None
    have w1: "within (area {?n} R) fs1" using s1(2) None by simp
    obtain y fs2 where y: "removeAndSync (replaceIntentPath (ri_NormalizedName i)) fs1 = (y, fs2)" by fastforce
    have J2: "\<forall>m. m QueuesDir \<in> {?n, ?m} \<and> (\<forall>d. d \<noteq> QueuesDir \<longrightarrow> m d \<in> R d) \<longrightarrow> recoverable t m"
      using n1 n2 rec_renamed [of _ t] rec_after [of _ t] by (auto simp: univ)
    note s2 = remove_guarded [OF w1 y J2]
    have f: "fs' = fs2" "e = None \<longleftrightarrow> y = None"
      using r x None y by (auto simp: retryCandidateRename_def cleanupReplaceIntent_def tx_names(3) [OF v] split: option.splits)
    have "within (area (cleaned t \<union> released t) (receiptExact t)) fs2" if "y = None"
      by (rule within_mono [OF s2(2) [OF that]]) (use n2 in \<open>simp add: area_def univ\<close>)
    moreover have "guarded (recoverable t) fs fs2" using s1(1) s2(1) by (rule guarded_trans)
    moreover have "calm fs \<Longrightarrow> y = None" using s1(3) s2(3) by blast
    ultimately show ?thesis using f by (simp add: recovers_def settledBy_def)
  qed
qed


section \<open>Recovery of an intent found on disk\<close>

lemma disk_area: "within (area {n} R) fs \<Longrightarrow> disk fs QueuesDir p = map_option content (n p)"
  unfolding within_def disk_def by (metis area_simps(1) singletonD)

lemma digest_facts:
  assumes "bound C prior new i ib" and "t = txOf C prior new i ib"
  shows "oldC t n \<Longrightarrow> map_option content (n (ri_CanonicalBasename i)) = prior"
    and "newC t n \<Longrightarrow> map_option content (n (ri_CanonicalBasename i)) = Some new"
    and "hasDigest C (Some new) (ri_CandidateSHA256 i)" and "priorMatches C (ri_PriorState i) prior"
    and "hasI t n \<Longrightarrow> map_option content (n (replaceIntentPath (ri_NormalizedName i))) = Some ib"
    and "noCand t n \<Longrightarrow> map_option content (n (ri_CandidateTempBasename i)) = None"
  using assms by (auto simp: bound_def hasDigest_def oldC_def newC_def hasI_def noCand_def option.map_comp o_def option.map_ident)

lemma removeAndSync_cleanup:
  "validateReplaceIntent C i = None \<Longrightarrow>
     cleanupReplaceIntent (ri_NormalizedName i) fs = removeAndSync (replaceIntentPath (ri_NormalizedName i)) fs"
  by (simp add: cleanupReplaceIntent_def tx_names(3))

lemma cleanup_recovers:
  assumes v: "validateReplaceIntent C i = None" and t: "t = txOf C prior new i ib" "tx_kind t \<noteq> CompletionTx"
    and n: "n \<in> renamedTx t" and w: "within (area {n} (receiptExact t)) fs"
    and r: "cleanupReplaceIntent (ri_NormalizedName i) fs = (e, fs')"
  shows "guarded (recoverable t) fs fs'" "e = None \<Longrightarrow> settledBy t ReplacePromoteCanonical fs'" "calm fs \<Longrightarrow> e = None"
proof -
  let ?m = "n(replaceIntentPath (ri_NormalizedName i) := None)"
  have n2: "?m \<in> cleaned t" using t(2) n tx_names_neq [OF v] by (auto simp: tx_states t(1))
  have J: "\<forall>m. m QueuesDir \<in> {n, ?m} \<and> (\<forall>d. d \<noteq> QueuesDir \<longrightarrow> m d \<in> receiptExact t d) \<longrightarrow> recoverable t m"
    using n n2 rec_renamed [of _ t] rec_after [of _ t] by (auto simp: receiptMay_def)
  note s = remove_guarded [OF w r [unfolded removeAndSync_cleanup [OF v]] J]
  show "guarded (recoverable t) fs fs'" by (rule s(1))
  show "settledBy t ReplacePromoteCanonical fs'" if "e = None"
    unfolding settledBy_def ReplaceRecoveryAction.case
    by (rule within_mono [OF s(2) [OF that]]) (use n2 in \<open>simp add: area_def\<close>)
  show "calm fs \<Longrightarrow> e = None" using s(3) by blast
qed

lemma recoverReplaceIntent_recovers:
  assumes b: "bound C prior new i ib" and t: "t = txOf C prior new i ib" "tx_kind t = PlainTx"
    and n: "n \<in> prepared t \<union> renamedTx t" and w: "within (area {n} (receiptExact t)) fs"
    and r: "recoverReplaceIntent C i ib fs = ((a, e), fs')"
  shows "recovers t sfx fs a e fs'"
proof -
  have v: "validateReplaceIntent C i = None" using b by (simp add: bound_def)
  have none: "ri_FailedRecoveryReceiptBinding i = None" "ri_CompletionReceiptBinding i = None" "tx_receipt t = None"
    using t by (auto simp: txOf_def receiptOf_def split: if_splits)
  note univ = receiptAbsent_def receiptExact_def receiptMay_def none(3)
  have Jn: "recoverable t m" if "\<forall>d. m d \<in> area {n} (receiptExact t) d" for m
    using that n rec_before [of m t] rec_renamed [of m t] by (auto simp: area_all univ)
  have i: "disk fs QueuesDir (replaceIntentPath (ri_NormalizedName i)) = Some ib"
    using n digest_facts(5) [OF b t(1), of n] disk_area [OF w] by (auto simp: prepared_def renamedTx_def)
  show ?thesis
    using w r [unfolded recoverReplaceIntent_def]
  proof (cases rule: reading_cases)
    case (bad x)
    then show ?thesis using guarded_quiet [OF bad(2), of "recoverable t", OF Jn] by (simp add: recovers_def)
  next
    case (ok fs1)
    have w1: "within (area {n} (receiptExact t)) fs1" using ok(1) by (rule quiet_within)
    obtain vd fs2 where vd: "classifyPlainIntent C i fs1 = (vd, fs2)" by fastforce
    have cl: "classifyReplaceIntent C i fs1 = (vd, fs2)" by (simp add: classifyReplaceIntent_def v none vd)
    note c = classifyPlainIntent_spec [OF w1 vd]
    have q: "quiet (area {n} (receiptExact t)) fs fs2" using c ok(1) by (blast intro: quiet_trans)
    have w2: "within (area {n} (receiptExact t)) fs2" using q by (rule quiet_within)
    have g: "guarded (recoverable t) fs fs2" using q Jn by (rule guarded_quiet)
    have calm: "calm fs \<Longrightarrow> calm fs2" using q by (rule quiet_calm)
    let ?ex = "plainVerdict C i (map_option content (n (ri_CanonicalBasename i))) (map_option content (n (ri_CandidateTempBasename i)))"
    have vo: "verdictOf fs1 vd ?ex" using c by (simp add: disk_area [OF w1])
    have r2: "(case vd of (action, Some e) \<Rightarrow> ((action, Some e), fs2) | (action, None) \<Rightarrow>
        (let done = (\<lambda>r. (case r of (Some e, fs3) \<Rightarrow> ((ReplaceRefuse, Some e), fs3) | (None, fs3) \<Rightarrow> ((action, None), fs3))) in
         case action of ReplacePromoteCanonical \<Rightarrow> (case cleanupReplaceIntent (ri_NormalizedName i) fs2 of
                 (e, fs3) \<Rightarrow> done (map_option (wrapErr ''cleanup replace intent'') e, fs3))
            | ReplaceRetryRename \<Rightarrow> done (retryCandidateRename i fs2)
            | ReplaceNotCommitted \<Rightarrow> done (discardCandidate i fs2)
            | ReplaceRefuse \<Rightarrow> ((ReplaceRefuse, Some ''unsupported replace recovery action''), fs2))) = ((a, e), fs')"
      using ok(2) i cl by (simp split: prod.splits)
    show ?thesis
    proof (cases "vd = ?ex")
      case False
      then have "\<not> calm fs" "snd vd \<noteq> None" using vo quiet_calm [OF ok(1)] by (auto simp: verdictOf_def)
      then show ?thesis using r2 g by (cases vd) (auto simp: recovers_def)
    next
      case True
      show ?thesis
      proof (cases "n \<in> renamedTx t")
        case ren: True
        then have "vd = (ReplacePromoteCanonical, None)"
          using True digest_facts(1,2,5,6) [OF b t(1), of n] digest_facts(3,4) [OF b t(1)] by (auto simp: plainVerdict_def renamedTx_def)
        moreover obtain y fs3 where y: "cleanupReplaceIntent (ri_NormalizedName i) fs2 = (y, fs3)" by fastforce
        ultimately have f: "fs' = fs3" "e = None \<longleftrightarrow> y = None" "e = None \<Longrightarrow> a = ReplacePromoteCanonical"
          using r2 by (auto simp: Let_def split: option.splits)
        have k: "tx_kind t \<noteq> CompletionTx" using t(2) by simp
        note s = cleanup_recovers [OF v t(1) k ren w2 y]
        have "guarded (recoverable t) fs fs3" using g s(1) by (rule guarded_trans)
        then show ?thesis using f s calm by (auto simp: recovers_def)
      next
        case False
        then have p: "n \<in> prepared t" using n by blast
        have nc: "n (ri_CandidateTempBasename i) = Some (File new True)" using p t(1) by (simp add: prepared_def)
        have "vd = (ReplaceRetryRename, None)"
          using True p digest_facts(1,2,5,6) [OF b t(1), of n] digest_facts(3,4) [OF b t(1)] nc by (auto simp: plainVerdict_def prepared_def)
        moreover obtain y fs3 where y: "retryCandidateRename i fs2 = (y, fs3)" by fastforce
        ultimately have f: "fs' = fs3" "e = None \<longleftrightarrow> y = None" "e = None \<Longrightarrow> a = ReplaceRetryRename"
          using r2 by (auto simp: Let_def split: option.splits)
        have s: "recovers t sfx fs2 ReplaceRetryRename y fs3"
          by (rule retryCandidateRename_recovers [OF v t none(3) p w2 y])
        have "guarded (recoverable t) fs fs3" using g s unfolding recovers_def by (blast intro: guarded_trans)
        then show ?thesis using f s calm none(3) by (auto simp: recovers_def tmpFree_def)
      qed
    qed
  qed
qed


text \<open>Both receipt writers create the root and install the bound bytes.\<close>

lemma installReceipt_guarded:
  assumes w: "within (area {n} R) fs" and R: "R = receiptMay t \<or> R = receiptExact t"
    and t: "tx_receipt t = Some (d, p, data)" "d \<noteq> QueuesDir"
    and f: "\<And>err. err \<noteq> None \<Longrightarrow> failed err \<noteq> None" and q: "quiet (area {n} R) fs fs1"
    and r: "installReceipt sfx d p data failed fs1 = (e, fs')"
    and J: "\<And>m. \<forall>d. m d \<in> area {n} R d \<Longrightarrow> recoverable t m"
  shows "guarded (recoverable t) fs fs'" and "e = None \<Longrightarrow> within (area {n} (receiptExact t)) fs'"
    and "calm fs \<Longrightarrow> tmpFree t sfx fs \<Longrightarrow> e = None \<and> calm fs'"
proof -
  have w1: "within (area {n} R) fs1" using q by (rule quiet_within)
  note s = installReceipt_spec [OF w1 R t f r]
  have n: "fs_dir fs1 QueuesDir = n" using w1 unfolding within_def by (metis area_simps(1) singletonD)
  have "guarded (recoverable t) fs1 fs'" using s(1) J by (rule stays_guarded)
  moreover have "guarded (recoverable t) fs fs1" using q J by (rule guarded_quiet)
  ultimately show "guarded (recoverable t) fs fs'" by (blast intro: guarded_trans)
  show "e = None \<Longrightarrow> within (area {n} (receiptExact t)) fs'" using s(3) n by simp
  show "e = None \<and> calm fs'" if "calm fs" "tmpFree t sfx fs"
  proof -
    have "fs_dir fs1 d (p @ ''.tmp-'' @ sfx) = None" using that(2) q t(1) by (simp add: tmpFree_def quiet_def)
    then show ?thesis using s(4) quiet_calm [OF q that(1)] by blast
  qed
qed

lemma quiet_ops:
  assumes "within A fs"
  shows "op_mkdirAll fs = (e, fs') \<Longrightarrow> quiet A fs fs' \<and> (calm fs \<longrightarrow> e = None)"
    and "op_lstat fs = (e, fs') \<Longrightarrow> quiet A fs fs' \<and> (calm fs \<longrightarrow> e = None)"
    and "op_readFile d p fs = (x, fs') \<Longrightarrow> quiet A fs fs' \<and> (calm fs \<longrightarrow> x = (case fs_dir fs d p of None \<Rightarrow> Inl ErrNotExist | Some fl \<Rightarrow> Inr (content fl)))"
proof -
  show "op_mkdirAll fs = (e, fs') \<Longrightarrow> quiet A fs fs' \<and> (calm fs \<longrightarrow> e = None)"
    using op_quiet(2) [OF assms, of e fs' QueuesDir "{}"] calm_ops(3) [of fs e fs'] by (auto simp: quiet_def)
  show "op_lstat fs = (e, fs') \<Longrightarrow> quiet A fs fs' \<and> (calm fs \<longrightarrow> e = None)"
    using op_quiet(1) [OF assms, of e fs' QueuesDir "{}"] calm_ops(2) [of fs e fs'] by (auto simp: quiet_def op_lstat_def)
  show "op_readFile d p fs = (x, fs') \<Longrightarrow> quiet A fs fs' \<and> (calm fs \<longrightarrow> x = (case fs_dir fs d p of None \<Rightarrow> Inl ErrNotExist | Some fl \<Rightarrow> Inr (content fl)))"
    using op_quiet(3) [OF assms, of d p x fs' QueuesDir "{}"] calm_ops(1) [of fs d p x fs'] by (auto simp: quiet_def)
qed

lemma failed_receipt_bound:
  assumes b: "bound C prior new i ib" and t: "t = txOf C prior new i ib" and bd: "ri_FailedRecoveryReceiptBinding i = Some bd"
  obtains data where "cd_unbase64 C (frb_CanonicalBytesBase64 bd) = Inr data"
    "tx_receipt t = Some (FailedReceiptsDir, frb_Basename bd, data)" "tx_kind t = FailedTx"
    "\<And>sfx fs. writeFailedRecoveryReceipt C sfx (ri_QueueID i) (ri_TransactionID i) bd fs = (case op_mkdirAll fs of
           (Some e, fs1) \<Rightarrow> (Some (FsErr_text e), fs1)
         | (None, fs1) \<Rightarrow> installReceipt sfx FailedReceiptsDir (frb_Basename bd) data (\<lambda>err. err) fs1)"
proof -
  have "validateFailedRecoveryReceiptBinding C (Some bd) (ri_QueueID i) (ri_TransactionID i) (ri_NormalizedName i)
      (ri_PriorState i) (ri_CandidateSHA256 i) = None"
    using b bd by (auto simp: bound_def validateReplaceIntent_def validateFailedRecoveryIntentCoupling_def split: if_splits)
  then obtain data r where d: "boundBytes C (frb_CanonicalBytesBase64 bd) (frb_SHA256 bd) = Some data" "cd_failed C data = Inr r"
    "receiptMatches C r bd (ri_QueueID i) (ri_TransactionID i) (ri_NormalizedName i) (ri_PriorState i) (ri_CandidateSHA256 i)"
    and valid: "validateFailedRecoveryReceiptBinding C (Some bd) (ri_QueueID i) (ri_TransactionID i) (ri_NormalizedName i)
      (ri_PriorState i) (ri_CandidateSHA256 i) = None"
    by (auto simp: validateFailedRecoveryReceiptBinding_def split: if_splits option.splits sum.splits)
  have data: "cd_unbase64 C (frb_CanonicalBytesBase64 bd) = Inr data"
    using d(1) by (auto simp: boundBytes_def split: sum.splits if_splits)
  have fields: "frr_NormalizedName r = ri_NormalizedName i" "frr_PriorQueueSHA256 r = ri_PriorState i"
    "frr_RecoveredQueueSHA256 r = ri_CandidateSHA256 i"
    using d(3) by (simp_all add: receiptMatches_def)
  show thesis
    by (rule that [of data])
       (simp_all add: data t receiptOf_def bd txOf_def writeFailedRecoveryReceipt_def d(2) fields valid)
qed

lemma completion_receipt_bound:
  assumes b: "bound C prior new i ib" and t: "t = txOf C prior new i ib" and bd: "ri_FailedRecoveryReceiptBinding i = None"
    "ri_CompletionReceiptBinding i = Some bd"
  obtains data r where "cd_unbase64 C (crb_CanonicalBytesBase64 bd) = Inr data" "DecodeCompletionReceipt C data = Inr r"
    "cr_CompletedQueueSHA256 r = ri_CandidateSHA256 i"
    "tx_receipt t = Some (CompletionReceiptsDir, crb_Basename bd, data)" "tx_kind t = CompletionTx"
    "\<And>sfx fs. writeCompletionReceipt C sfx (ri_QueueID i) (ri_TransactionID i) bd fs = (case op_mkdirAll fs of
           (Some e, fs1) \<Rightarrow> (Some (FsErr_text e), fs1)
         | (None, fs1) \<Rightarrow> (case op_lstat fs1 of
             (Some e, fs2) \<Rightarrow> (Some (FsErr_text e), fs2)
           | (None, fs2) \<Rightarrow> installReceipt sfx CompletionReceiptsDir (crb_Basename bd) data
               (\<lambda>err. Some (case err of Some e \<Rightarrow> e | None \<Rightarrow> ''completion receipt was not installed'')) fs2))"
proof -
  have valid: "validateCompletionReceiptBinding C (Some bd) (ri_QueueID i) (ri_TransactionID i) (ri_NormalizedName i)
      (ri_CandidateSHA256 i) = None"
    using b bd by (auto simp: bound_def validateReplaceIntent_def validateCompletionIntentCoupling_def split: if_splits)
  then obtain r where d: "decodeBoundCompletionReceipt C bd = Inr r" "cr_NormalizedName r = ri_NormalizedName i"
    "cr_CompletedQueueSHA256 r = ri_CandidateSHA256 i"
    by (auto simp: validateCompletionReceiptBinding_def split: if_splits sum.splits)
  then obtain data where data: "cd_unbase64 C (crb_CanonicalBytesBase64 bd) = Inr data" "DecodeCompletionReceipt C data = Inr r"
    by (auto simp: decodeBoundCompletionReceipt_def boundBytes_def split: sum.splits if_splits option.splits)
  show thesis
    by (rule that [of data r])
       (simp_all add: data t receiptOf_def bd txOf_def writeCompletionReceipt_def d valid)
qed

end
