(* ===== verification/Replace_Recovery.thy ===== *)
theory Replace_Recovery
  imports Replace_Safety
begin

text \<open>
  Recovery of a leftover intent (\<^verbatim>\<open>internal/queue/intentrecovery.go\<close>): from every state a crash can
  leave it never makes the state unrecoverable, whatever fails; when nothing fails it resolves the
  transaction to the old or the new queue, whole and durable.
\<close>

section \<open>Failed-recovery intents\<close>

lemma discard_steps:
  assumes v: "validateReplaceIntent C i = None" and t: "t = txOf C prior new i ib" "tx_kind t = FailedTx"
    and n: "n \<in> prepared t \<union> rolledBack t" and w: "within (area {n} (receiptAbsent t)) fs"
    and x: "removeAndSync (ri_CandidateTempBasename i) fs = (x, fs1)"
    and y: "removeAndSync (replaceIntentPath (ri_NormalizedName i)) fs1 = (y, fs2)"
  shows "guarded (recoverable t) fs fs1" "x = None \<Longrightarrow> guarded (recoverable t) fs fs2"
    "x = None \<Longrightarrow> y = None \<Longrightarrow> settledBy t ReplaceNotCommitted fs2" "calm fs \<Longrightarrow> x = None \<and> y = None"
proof -
  let ?n = "n(ri_CandidateTempBasename i := None)"
  let ?m = "?n(replaceIntentPath (ri_NormalizedName i) := None)"
  have n1: "?n \<in> rolledBack t" using n t(2) tx_names_neq [OF v] by (auto simp: tx_states t(1))
  then have n2: "?m \<in> untouched t" using tx_names_neq [OF v] by (auto simp: tx_states t(1))
  have J1: "\<forall>m. m QueuesDir \<in> {n, ?n} \<and> (\<forall>d. d \<noteq> QueuesDir \<longrightarrow> m d \<in> receiptAbsent t d) \<longrightarrow> recoverable t m"
    using n n1 rec_before [of _ t] by auto
  have J2: "\<forall>m. m QueuesDir \<in> {?n, ?m} \<and> (\<forall>d. d \<noteq> QueuesDir \<longrightarrow> m d \<in> receiptAbsent t d) \<longrightarrow> recoverable t m"
    using n1 n2 rec_before [of _ t] by auto
  note s1 = remove_guarded [OF w x J1]
  show "guarded (recoverable t) fs fs1" by (rule s1(1))
  have w1: "within (area {?n} (receiptAbsent t)) fs1" if "x = None" using s1(2) that .
  show "guarded (recoverable t) fs fs2" if "x = None"
    using s1(1) remove_guarded(1) [OF w1 [OF that] y J2] by (rule guarded_trans)
  show "settledBy t ReplaceNotCommitted fs2" if "x = None" "y = None"
    unfolding settledBy_def ReplaceRecoveryAction.case
    by (rule within_mono [OF remove_guarded(2) [OF w1 [OF that(1)] y J2 that(2)]]) (use n2 in \<open>simp add: area_def\<close>)
  show "x = None \<and> y = None" if "calm fs"
    using s1(3) [OF that] remove_guarded(3) [OF w1 y J2] by blast
qed

lemma failedVerdict_states:
  assumes b: "bound C prior new i ib" and t: "t = txOf C prior new i ib"
    and nc: "\<forall>p. prior = Some p \<longrightarrow> digestHex C p = digestHex C new \<longrightarrow> p = new"
    and n: "n \<in> prepared t \<union> rolledBack t \<and> receipt = None \<or> n \<in> renamedTx t \<and> (receipt = None \<or> receipt = Some data)"
    and vd: "vd = failedVerdict C i data (map_option content (n (ri_CanonicalBasename i)))
      (map_option content (n (ri_CandidateTempBasename i))) receipt"
  shows "vd = (ReplacePromoteCanonical, None) \<and> n \<in> renamedTx t
       \<or> vd = (ReplaceNotCommitted, None) \<and> n \<in> prepared t \<union> rolledBack t \<and> receipt = None"
proof -
  note d = digest_facts(1,2,5,6) [OF b t, of n] digest_facts(3,4) [OF b t]
  show ?thesis
  proof (cases "n \<in> renamedTx t")
    case True
    then show ?thesis using n vd d by (auto simp: failedVerdict_def renamedTx_def)
  next
    case False
    then have p: "n \<in> prepared t \<union> rolledBack t" "receipt = None" using n by blast+
    have old: "map_option content (n (ri_CanonicalBasename i)) = prior" using p(1) d(1) by (auto simp: prepared_def rolledBack_def)
    have cand: "n (ri_CandidateTempBasename i) = None \<or> n (ri_CandidateTempBasename i) = Some (File new True)"
      using p(1) by (auto simp: prepared_def rolledBack_def noCand_def t)
    have "\<not> (hasDigest C prior (ri_CandidateSHA256 i) \<and> n (ri_CandidateTempBasename i) = None)"
    proof
      assume h: "hasDigest C prior (ri_CandidateSHA256 i) \<and> n (ri_CandidateTempBasename i) = None"
      then obtain p' where "prior = Some p'" "digestHex C p' = digestHex C new"
        using b by (auto simp: hasDigest_def bound_def split: option.splits)
      then have "prior = Some new" using nc by simp
      moreover have "n \<in> rolledBack t" using p(1) h by (auto simp: prepared_def t)
      ultimately have "n \<in> renamedTx t" by (auto simp: tx_states t)
      then show False using False by blast
    qed
    then show ?thesis using p vd old cand d(5,6) by (auto simp: failedVerdict_def)
  qed
qed

lemma discard_shape:
  assumes r: "(case removeAbsentOk QueuesDir p fs of
      (Some e, fs3) \<Rightarrow> (bad1 e, fs3)
    | (None, fs3) \<Rightarrow> (case syncDirectory QueuesDir fs3 of
        (Some e, fs4) \<Rightarrow> (bad2 e, fs4) | (None, fs4) \<Rightarrow> k fs4)) = (res, fs')"
    and x: "removeAndSync p fs = (x, fs1)"
  shows "x = None \<and> k fs1 = (res, fs') \<or> x \<noteq> None \<and> fs' = fs1 \<and> (res = bad1 (the x) \<or> res = bad2 (the x))"
  using assms by (auto simp: removeAndSync_def split: prod.splits option.splits)

lemma recoverFailedReplaceIntent_recovers:
  assumes b: "bound C prior new i ib" and t: "t = txOf C prior new i ib"
    and bd: "ri_FailedRecoveryReceiptBinding i = Some bd"
    and nc: "\<forall>p. prior = Some p \<longrightarrow> digestHex C p = digestHex C new \<longrightarrow> p = new"
    and n: "n \<in> prepared t \<union> rolledBack t \<and> R = receiptAbsent t \<or> n \<in> renamedTx t \<and> R = receiptMay t"
    and w: "within (area {n} R) fs" and r: "recoverFailedReplaceIntent C sfx i bd ib fs = ((a, e), fs')"
  shows "recovers t sfx fs a e fs'"
proof -
  have v: "validateReplaceIntent C i = None" using b by (simp add: bound_def)
  obtain data where data: "cd_unbase64 C (frb_CanonicalBytesBase64 bd) = Inr data"
    "tx_receipt t = Some (FailedReceiptsDir, frb_Basename bd, data)" "tx_kind t = FailedTx"
    and wr: "\<And>sfx fs. writeFailedRecoveryReceipt C sfx (ri_QueueID i) (ri_TransactionID i) bd fs = (case op_mkdirAll fs of
           (Some e, fs1) \<Rightarrow> (Some (FsErr_text e), fs1)
         | (None, fs1) \<Rightarrow> installReceipt sfx FailedReceiptsDir (frb_Basename bd) data (\<lambda>err. err) fs1)"
    by (rule failed_receipt_bound [OF b t bd]) (rule that; assumption)
  have Jn: "recoverable t m" if "\<forall>d. m d \<in> area {n} R d" for m
    using that n rec_before [of m t] rec_renamed [of m t] by (auto simp: area_all)
  have i: "disk fs QueuesDir (replaceIntentPath (ri_NormalizedName i)) = Some ib"
    using n digest_facts(5) [OF b t, of n] disk_area [OF w] by (auto simp: prepared_def rolledBack_def renamedTx_def)
  show ?thesis
    using w r [unfolded recoverFailedReplaceIntent_def]
  proof (cases rule: reading_cases)
    case (bad x)
    then show ?thesis using guarded_quiet [OF bad(2), of "recoverable t", OF Jn] by (simp add: recovers_def)
  next
    case (ok fs1)
    have w1: "within (area {n} R) fs1" using ok(1) by (rule quiet_within)
    obtain vd fs2 where vd: "classifyFailedRecoveryIntent C i bd fs1 = (vd, fs2)" by fastforce
    note c = classifyFailedRecoveryIntent_spec [OF w1 data(1) vd]
    have q: "quiet (area {n} R) fs fs2" using c ok(1) by (blast intro: quiet_trans)
    have w2: "within (area {n} R) fs2" using q by (rule quiet_within)
    have g: "guarded (recoverable t) fs fs2" using q Jn by (rule guarded_quiet)
    let ?rc = "disk fs1 FailedReceiptsDir (frb_Basename bd)"
    let ?ex = "failedVerdict C i data (map_option content (n (ri_CanonicalBasename i)))
      (map_option content (n (ri_CandidateTempBasename i))) ?rc"
    have vo: "verdictOf fs1 vd ?ex" using c by (simp add: disk_area [OF w1])
    have rcn: "fs_dir fs1 FailedReceiptsDir \<in> R FailedReceiptsDir" using w1 unfolding within_def by (metis area_simps(2) dirId.distinct(1))
    have n': "n \<in> prepared t \<union> rolledBack t \<and> ?rc = None \<or> n \<in> renamedTx t \<and> (?rc = None \<or> ?rc = Some data)"
      using n rcn data(2) by (auto simp: disk_def receipt_names receiptAbsent_def)
    show ?thesis
    proof (cases "vd = ?ex")
      case False
      then have "\<not> calm fs" "snd vd \<noteq> None" using vo quiet_calm [OF ok(1)] by (auto simp: verdictOf_def)
      then obtain act er where "vd = (act, Some er)" by (cases vd) auto
      then show ?thesis using ok(2) i vd g \<open>\<not> calm fs\<close> by (cases act) (auto simp: recovers_def)
    next
      case True
      from failedVerdict_states [OF b t nc n' True] show ?thesis
      proof (elim disjE conjE)
        assume vp: "vd = (ReplacePromoteCanonical, None)" and ren: "n \<in> renamedTx t"
        have w3: "within (area {n} (receiptMay t)) fs2"
          by (rule within_mono [OF w2]) (use n in \<open>auto simp: area_def receiptMay_def\<close>)
        have J3: "recoverable t m" if "\<forall>d. m d \<in> area {n} (receiptMay t) d" for m
          using that ren rec_renamed [of m t] by (auto simp: area_all)
        obtain e1 fs3 where 1: "op_mkdirAll fs2 = (e1, fs3)" by fastforce
        note q1 = quiet_ops(1) [OF w3 1]
        obtain e2 fs4 where 2: "installReceipt sfx FailedReceiptsDir (frb_Basename bd) data (\<lambda>err. err) fs3 = (e2, fs4)" by fastforce
        note s2 = installReceipt_guarded [OF w3 disjI1 [OF refl] data(2) _ _ conjunct1 [OF q1] 2 J3]
        obtain e3 fs5 where 3: "cleanupReplaceIntent (ri_NormalizedName i) fs4 = (e3, fs5)" by fastforce
        have k: "tx_kind t \<noteq> CompletionTx" using data(3) by simp
        have sh: "e1 \<noteq> None \<and> e \<noteq> None \<and> fs' = fs3 \<or> e1 = None \<and> e2 \<noteq> None \<and> e \<noteq> None \<and> fs' = fs4
            \<or> e1 = None \<and> e2 = None \<and> fs' = fs5 \<and> (e = None \<longleftrightarrow> e3 = None) \<and> (e = None \<longrightarrow> a = ReplacePromoteCanonical)"
          using ok(2) i vd vp 1 2 3 by (auto simp: wr split: option.splits)
        have tmp: "tmpFree t sfx fs \<Longrightarrow> tmpFree t sfx fs2" using q by (simp add: tmpFree_def quiet_def split: option.splits prod.splits)
        have g3: "guarded (recoverable t) fs fs3" using g guarded_quiet [OF conjunct1 [OF q1] J3] by (rule guarded_trans)
        have g4: "guarded (recoverable t) fs fs4" using g s2(1) by (blast intro: guarded_trans)
        show ?thesis
        proof (cases "e2 = None")
          case False
          then show ?thesis using sh g3 g4 q1 s2(3) quiet_calm [OF q] tmp by (auto simp: recovers_def)
        next
          case e2: True
          have w4: "within (area {n} (receiptExact t)) fs4" using s2(2) e2 by simp
          note s3 = cleanup_recovers [OF v t k ren w4 3]
          have "guarded (recoverable t) fs fs5" using g4 s3(1) by (rule guarded_trans)
          then show ?thesis using sh g3 g4 q1 s2(3) s3 quiet_calm [OF q] tmp e2 by (auto simp: recovers_def)
        qed
      next
        assume vp: "vd = (ReplaceNotCommitted, None)" and pre: "n \<in> prepared t \<union> rolledBack t" and rc: "?rc = None"
        have w3: "within (area {n} (receiptAbsent t)) fs2"
        proof (cases "R = receiptAbsent t")
          case False
          then have ren: "n \<in> renamedTx t" using n by blast
          then have "map_option content (n (ri_CanonicalBasename i)) = Some new" "n (ri_CandidateTempBasename i) = None"
            using digest_facts(2) [OF b t, of n] by (auto simp: renamedTx_def noCand_def t)
          then have "?ex = (ReplacePromoteCanonical, None)"
            using rc digest_facts(3) [OF b t] by (simp add: failedVerdict_def del: map_option_eq_Some)
          then show ?thesis using vp True by simp
        qed (use w2 in simp)
        obtain x fs3 where x: "removeAndSync (ri_CandidateTempBasename i) fs2 = (x, fs3)" by fastforce
        obtain y fs4 where y: "removeAndSync (replaceIntentPath (ri_NormalizedName i)) fs3 = (y, fs4)" by fastforce
        note s = discard_steps [OF v t data(3) pre w3 x y]
        have "(case removeAbsentOk QueuesDir (ri_CandidateTempBasename i) fs2 of
                  (Some e, fs3) \<Rightarrow> ((ReplaceRefuse, Some (wrapErr ''remove failed recovery candidate'' e)), fs3)
                | (None, fs3) \<Rightarrow> (case syncDirectory QueuesDir fs3 of
                    (Some e, fs4) \<Rightarrow> ((ReplaceRefuse, Some (wrapErr ''sync failed recovery candidate removal'' e)), fs4)
                  | (None, fs4) \<Rightarrow> (case cleanupReplaceIntent (ri_NormalizedName i) fs4 of
                      (Some e, fs5) \<Rightarrow> ((ReplaceRefuse, Some (wrapErr ''cleanup failed recovery intent'' e)), fs5)
                    | (None, fs5) \<Rightarrow> ((ReplaceNotCommitted, None), fs5)))) = ((a, e), fs')"
          using ok(2) i vd vp by simp
        note sh = discard_shape [OF this x]
        have f: "x \<noteq> None \<and> e \<noteq> None \<and> fs' = fs3 \<or> x = None \<and> fs' = fs4 \<and> (e = None \<longleftrightarrow> y = None)
            \<and> (e = None \<longrightarrow> a = ReplaceNotCommitted)"
          using sh y by (auto simp: removeAndSync_cleanup [OF v] split: option.splits)
        have g3: "guarded (recoverable t) fs fs3" using g s(1) by (rule guarded_trans)
        have g4: "x = None \<Longrightarrow> guarded (recoverable t) fs fs4" using g s(2) by (blast intro: guarded_trans)
        show ?thesis using f g3 g4 s(3,4) quiet_calm [OF q] by (auto simp: recovers_def)
      qed
    qed
  qed
qed


section \<open>Completion intents\<close>

lemma cleanupCompletedCanonical_spec:
  assumes b: "bound C prior new i ib" and t: "t = txOf C prior new i ib" "tx_kind t = CompletionTx"
    and n: "n \<in> renamedTx t \<union> unlinked t" and w: "within (area {n} (receiptExact t)) fs"
    and sha: "sha = ri_CandidateSHA256 i"
    and r: "cleanupCompletedCanonical C (ri_NormalizedName i) (ri_QueueID i) sha fs = (e, fs')"
  shows "guarded (recoverable t) fs fs'"
    and "e = None \<Longrightarrow> within (area {n(ri_CanonicalBasename i := None)} (receiptExact t)) fs'"
    and "calm fs \<Longrightarrow> e = None \<and> calm fs'"
proof -
  let ?n = "n(ri_CanonicalBasename i := None)"
  have v: "validateReplaceIntent C i = None" using b by (simp add: bound_def)
  have path: "queuePath (NormaliseQueueName (ri_NormalizedName i)) = ri_CanonicalBasename i"
    using tx_names [OF v] by (simp add: queuePath_def)
  have n1: "?n \<in> unlinked t" using n t(2) tx_names_neq [OF v] by (auto simp: tx_states t(1))
  have J: "\<forall>m. m QueuesDir \<in> {n, ?n} \<and> (\<forall>d. d \<noteq> QueuesDir \<longrightarrow> m d \<in> receiptExact t d) \<longrightarrow> recoverable t m"
    using n n1 rec_renamed [of _ t] rec_after [of _ t] by (auto simp: receiptMay_def)
  have Jn: "recoverable t m" if "\<forall>d. m d \<in> area {n} (receiptExact t) d" for m
    using that J by (auto simp: area_all)
  obtain x fs1 where x: "op_readFile QueuesDir (ri_CanonicalBasename i) fs = (x, fs1)" by fastforce
  note q = quiet_ops(3) [OF w x]
  have w1: "within (area {n} (receiptExact t)) fs1" using q by (blast intro: quiet_within)
  have g1: "guarded (recoverable t) fs fs1" using conjunct1 [OF q] Jn by (rule guarded_quiet)
  have dn: "fs_dir fs QueuesDir = n" using w unfolding within_def by (metis area_simps(1) singletonD)
  consider (io) er where "x = Inl er" "er \<noteq> ErrNotExist" | (gone) "x = Inl ErrNotExist" "n (ri_CanonicalBasename i) = None"
    | (data) "x = Inr new" "n (ri_CanonicalBasename i) = Some (File new True)"
  proof -
    have "n (ri_CanonicalBasename i) = None \<or> n (ri_CanonicalBasename i) = Some (File new True)"
      using n by (auto simp: tx_states t(1))
    then have "(\<exists>er. x = Inl er \<and> er \<noteq> ErrNotExist) \<or> (x = Inl ErrNotExist \<and> n (ri_CanonicalBasename i) = None)
        \<or> (x = Inr new \<and> n (ri_CanonicalBasename i) = Some (File new True))"
      using x dn by (auto simp: fs_ops Let_def split: fault.splits)
    then show thesis using that by blast
  qed
  then show "guarded (recoverable t) fs fs'" and "e = None \<Longrightarrow> within (area {?n} (receiptExact t)) fs'"
    and "calm fs \<Longrightarrow> e = None \<and> calm fs'"
  proof (atomize (full), cases)
    case io
    then have "fs' = fs1" "e \<noteq> None" using r x path by (auto simp: cleanupCompletedCanonical_def split: FsErr.splits)
    moreover have "\<not> calm fs" using q io by (auto split: option.splits)
    ultimately show "guarded (recoverable t) fs fs' \<and> (e = None \<longrightarrow> within (area {?n} (receiptExact t)) fs')
      \<and> (calm fs \<longrightarrow> e = None \<and> calm fs')" using g1 by blast
  next
    case gone
    then have y: "syncDirectory QueuesDir fs1 = (e, fs')" using r x path by (simp add: cleanupCompletedCanonical_def)
    note s = syncDirectory_spec [OF w1 y, of "{}"]
    have "guarded (recoverable t) fs1 fs'" using conjunct1 [OF s] Jn by (rule stays_guarded)
    then have "guarded (recoverable t) fs fs'" using g1 by (blast intro: guarded_trans)
    moreover have "?n = n" using gone(2) by (simp add: fun_upd_idem)
    moreover have "within (area {n} (receiptExact t)) fs'" using s by (blast intro: stays_within)
    ultimately show "guarded (recoverable t) fs fs' \<and> (e = None \<longrightarrow> within (area {?n} (receiptExact t)) fs')
      \<and> (calm fs \<longrightarrow> e = None \<and> calm fs')" using syncDirectory_calm [OF _ y] quiet_calm [OF conjunct1 [OF q]] by auto
  next
    case data
    obtain qq where "UnmarshalText C (validateUUIDv7 C) new = Inr qq" "queue_QueueID qq = ri_QueueID i"
      using b by (auto simp: bound_def)
    moreover have "digestHex C new = sha" using b sha by (simp add: bound_def)
    ultimately have y: "removeAndSync (ri_CanonicalBasename i) fs1 = (e, fs')"
      using r x path data by (simp add: cleanupCompletedCanonical_def)
    note s = remove_guarded [OF w1 y J]
    have "guarded (recoverable t) fs fs'" using g1 s(1) by (rule guarded_trans)
    then show "guarded (recoverable t) fs fs' \<and> (e = None \<longrightarrow> within (area {?n} (receiptExact t)) fs')
      \<and> (calm fs \<longrightarrow> e = None \<and> calm fs')" using s(2,3) quiet_calm [OF conjunct1 [OF q]] by blast
  qed
qed

lemma finishRecoveredCompletion_recovers:
  assumes b: "bound C prior new i ib" and t: "t = txOf C prior new i ib"
    and bd: "ri_FailedRecoveryReceiptBinding i = None" "ri_CompletionReceiptBinding i = Some bd"
    and n: "n \<in> renamedTx t \<and> R = receiptMay t \<or> n \<in> unlinked t \<and> R = receiptExact t"
    and w: "within (area {n} R) fs" and a: "a = ReplacePromoteCanonical \<or> a = ReplaceRetryRename"
    and r: "finishRecoveredCompletion C sfx i bd fs = ((ph, e), fs')"
  shows "recovers t sfx fs a e fs'"
proof -
  have v: "validateReplaceIntent C i = None" using b by (simp add: bound_def)
  obtain data rc where data: "cd_unbase64 C (crb_CanonicalBytesBase64 bd) = Inr data" "DecodeCompletionReceipt C data = Inr rc"
    "cr_CompletedQueueSHA256 rc = ri_CandidateSHA256 i"
    "tx_receipt t = Some (CompletionReceiptsDir, crb_Basename bd, data)" "tx_kind t = CompletionTx"
    and wr: "\<And>sfx fs. writeCompletionReceipt C sfx (ri_QueueID i) (ri_TransactionID i) bd fs = (case op_mkdirAll fs of
           (Some e, fs1) \<Rightarrow> (Some (FsErr_text e), fs1)
         | (None, fs1) \<Rightarrow> (case op_lstat fs1 of
             (Some e, fs2) \<Rightarrow> (Some (FsErr_text e), fs2)
           | (None, fs2) \<Rightarrow> installReceipt sfx CompletionReceiptsDir (crb_Basename bd) data
               (\<lambda>err. Some (case err of Some e \<Rightarrow> e | None \<Rightarrow> ''completion receipt was not installed'')) fs2))"
    by (rule completion_receipt_bound [OF b t bd]) (rule that; assumption)
  have Jn: "recoverable t m" if "\<forall>d. m d \<in> area {n} R d" for m
    using that n rec_renamed [of m t] rec_after [of m t] by (auto simp: area_all)
  have R: "R = receiptMay t \<or> R = receiptExact t" using n by blast
  obtain e1 fs1 where 1: "op_mkdirAll fs = (e1, fs1)" by fastforce
  note q1 = quiet_ops(1) [OF w 1]
  have w1: "within (area {n} R) fs1" using q1 by (blast intro: quiet_within)
  obtain e2 fs2 where 2: "op_lstat fs1 = (e2, fs2)" by fastforce
  note q2 = quiet_ops(2) [OF w1 2]
  have q12: "quiet (area {n} R) fs fs2" using q1 q2 by (blast intro: quiet_trans)
  obtain e3 fs3 where 3: "installReceipt sfx CompletionReceiptsDir (crb_Basename bd) data
      (\<lambda>err. Some (case err of Some e \<Rightarrow> e | None \<Rightarrow> ''completion receipt was not installed'')) fs2 = (e3, fs3)" by fastforce
  have ne: "CompletionReceiptsDir \<noteq> QueuesDir" by simp
  have fl: "Some (case err of Some e \<Rightarrow> e | None \<Rightarrow> ''completion receipt was not installed'') \<noteq> None" for err :: "string option"
    by simp
  note s3 = installReceipt_guarded [OF w R data(4) ne fl q12 3 Jn]
  obtain e4 fs4 where 4: "cleanupCompletedCanonical C (ri_NormalizedName i) (ri_QueueID i) (cr_CompletedQueueSHA256 rc) fs3 = (e4, fs4)"
    by fastforce
  obtain e5 fs5 where 5: "cleanupReplaceIntent (ri_NormalizedName i) fs4 = (e5, fs5)" by fastforce
  have sh: "e1 \<noteq> None \<and> e \<noteq> None \<and> fs' = fs1 \<or> e1 = None \<and> e2 \<noteq> None \<and> e \<noteq> None \<and> fs' = fs2
      \<or> e1 = None \<and> e2 = None \<and> e3 \<noteq> None \<and> e \<noteq> None \<and> fs' = fs3
      \<or> e1 = None \<and> e2 = None \<and> e3 = None \<and> e4 \<noteq> None \<and> e \<noteq> None \<and> fs' = fs4
      \<or> e1 = None \<and> e2 = None \<and> e3 = None \<and> e4 = None \<and> fs' = fs5 \<and> (e = None \<longleftrightarrow> e5 = None)"
    using r 1 2 3 4 5 data(1,2) by (auto simp: finishRecoveredCompletion_def wr split: option.splits)
  have g1: "guarded (recoverable t) fs fs1" using conjunct1 [OF q1] Jn by (rule guarded_quiet)
  have g2: "guarded (recoverable t) fs fs2" using q12 Jn by (rule guarded_quiet)
  have c3: "calm fs \<and> tmpFree t sfx fs \<Longrightarrow> e1 = None \<and> e2 = None \<and> e3 = None \<and> calm fs3"
    using q1 q2 quiet_calm s3(3) by blast
  show ?thesis
  proof (cases "e3 = None")
    case False
    then show ?thesis using sh g1 g2 s3(1) c3 by (auto simp: recovers_def)
  next
    case n3: True
    have w3: "within (area {n} (receiptExact t)) fs3" using s3(2) n3 by simp
    have nn: "n \<in> renamedTx t \<union> unlinked t" using n by blast
    note s4 = cleanupCompletedCanonical_spec [OF b t data(5) nn w3 data(3) 4]
    have g4: "guarded (recoverable t) fs fs4" using s3(1) s4(1) by (rule guarded_trans)
    show ?thesis
    proof (cases "e4 = None")
      case False
      then show ?thesis using sh n3 g1 g2 g4 c3 s4(3) by (auto simp: recovers_def)
    next
      case n4: True
      let ?n = "n(ri_CanonicalBasename i := None)"
      let ?m = "?n(replaceIntentPath (ri_NormalizedName i) := None)"
      have w4: "within (area {?n} (receiptExact t)) fs4" using s4(2) n4 by simp
      have n1: "?n \<in> unlinked t" using n data(5) tx_names_neq [OF v] by (auto simp: tx_states t)
      have n2: "?m \<in> released t" using n data(5) tx_names_neq [OF v] by (auto simp: tx_states t)
      have J: "\<forall>m. m QueuesDir \<in> {?n, ?m} \<and> (\<forall>d. d \<noteq> QueuesDir \<longrightarrow> m d \<in> receiptExact t d) \<longrightarrow> recoverable t m"
        using n1 n2 rec_after [of _ t] by auto
      note s5 = remove_guarded [OF w4 5 [unfolded removeAndSync_cleanup [OF v]] J]
      have g5: "guarded (recoverable t) fs fs5" using g4 s5(1) by (rule guarded_trans)
      have "within (area (cleaned t \<union> released t) (receiptExact t)) fs5" if "e5 = None"
        by (rule within_mono [OF s5(2) [OF that]]) (use n2 in \<open>simp add: area_def\<close>)
      then have "e5 = None \<Longrightarrow> settledBy t a fs5" using a by (auto simp: settledBy_def)
      then show ?thesis using sh n3 n4 g1 g2 g5 c3 s4(3) s5(3) by (auto simp: recovers_def)
    qed
  qed
qed


lemma completionVerdict_states:
  assumes b: "bound C prior new i ib" and t: "t = txOf C prior new i ib"
    and n: "n \<in> prepared t \<and> receipt = None \<or> n \<in> renamedTx t \<and> (receipt = None \<or> receipt = Some data)
       \<or> n \<in> unlinked t \<and> receipt = Some data"
    and f: "f = \<lparr>crf_canonical = map_option content (n (ri_CanonicalBasename i)),
      crf_candidate = map_option content (n (ri_CandidateTempBasename i)),
      crf_receiptPresent = (receipt \<noteq> None), crf_receiptExact = (receipt = Some data)\<rparr>"
  shows "completionVerdict C i f = (if n \<in> prepared t then (ReplaceRetryRename, None) else (ReplacePromoteCanonical, None))"
proof -
  note d = digest_facts(1,2,5,6) [OF b t, of n] digest_facts(3,4) [OF b t]
  note defs = completionVerdict_def canPromoteCanonical_def canFinishCleanup_def canRetryRename_def canonicalIsCandidate_def
  show ?thesis
  proof (cases "n \<in> prepared t")
    case True
    then have "n (ri_CandidateTempBasename i) = Some (File new True)" "map_option content (n (ri_CanonicalBasename i)) = prior"
      using d(1) by (simp_all add: prepared_def t)
    moreover have "receipt = None" using True n by (auto simp: tx_states t)
    ultimately show ?thesis using True f d(5,6) by (simp add: defs)
  next
    case False
    then have "noCand t n" and "newC t n \<and> (receipt = None \<or> receipt = Some data) \<or> n (ri_CanonicalBasename i) = None \<and> receipt = Some data"
      using n by (auto simp: renamedTx_def unlinked_def t)
    then show ?thesis using False f d(2,4,5) by (auto simp: defs)
  qed
qed

lemma recoverCompletionReplaceIntent_recovers:
  assumes b: "bound C prior new i ib" and t: "t = txOf C prior new i ib"
    and bd: "ri_FailedRecoveryReceiptBinding i = None" "ri_CompletionReceiptBinding i = Some bd"
    and n: "n \<in> prepared t \<and> R = receiptAbsent t \<or> n \<in> renamedTx t \<and> R = receiptMay t \<or> n \<in> unlinked t \<and> R = receiptExact t"
    and w: "within (area {n} R) fs" and r: "recoverCompletionReplaceIntent C sfx i bd ib fs = ((a, ph, e), fs')"
  shows "recovers t sfx fs a e fs'"
proof -
  have v: "validateReplaceIntent C i = None" using b by (simp add: bound_def)
  obtain data where data: "cd_unbase64 C (crb_CanonicalBytesBase64 bd) = Inr data"
    "tx_receipt t = Some (CompletionReceiptsDir, crb_Basename bd, data)" "tx_kind t = CompletionTx"
    by (rule completion_receipt_bound [OF b t bd]) (rule that; assumption)
  have Jn: "recoverable t m" if "\<forall>d. m d \<in> area {n} R d" for m
    using that n rec_before [of m t] rec_renamed [of m t] rec_after [of m t] by (auto simp: area_all)
  have i: "disk fs QueuesDir (replaceIntentPath (ri_NormalizedName i)) = Some ib"
    using n digest_facts(5) [OF b t, of n] disk_area [OF w] by (auto simp: prepared_def unlinked_def renamedTx_def)
  show ?thesis
    using w r [unfolded recoverCompletionReplaceIntent_def]
  proof (cases rule: reading_cases)
    case (bad x)
    then show ?thesis using guarded_quiet [OF bad(2), of "recoverable t", OF Jn] by (simp add: recovers_def)
  next
    case (ok fs1)
    have w1: "within (area {n} R) fs1" using ok(1) by (rule quiet_within)
    obtain lf fs2 where lf: "loadCompletionRecoveryFacts C i bd fs1 = (lf, fs2)" by fastforce
    note c = loadCompletionRecoveryFacts_spec [OF w1 data(1) lf]
    have q: "quiet (area {n} R) fs fs2" using c ok(1) by (blast intro: quiet_trans)
    have w2: "within (area {n} R) fs2" using q by (rule quiet_within)
    have g: "guarded (recoverable t) fs fs2" using q Jn by (rule guarded_quiet)
    let ?rc = "disk fs1 CompletionReceiptsDir (crb_Basename bd)"
    let ?f = "\<lparr>crf_canonical = map_option content (n (ri_CanonicalBasename i)),
      crf_candidate = map_option content (n (ri_CandidateTempBasename i)),
      crf_receiptPresent = (?rc \<noteq> None), crf_receiptExact = (?rc = Some data)\<rparr>"
    have vo: "(\<exists>x. lf = Inl x) \<and> \<not> calm fs1 \<or> lf = Inr ?f" using c by (simp add: disk_area [OF w1])
    have rcn: "fs_dir fs1 CompletionReceiptsDir \<in> R CompletionReceiptsDir" using w1 unfolding within_def by (metis area_simps(2) dirId.distinct(3))
    have n': "n \<in> prepared t \<and> ?rc = None \<or> n \<in> renamedTx t \<and> (?rc = None \<or> ?rc = Some data)
        \<or> n \<in> unlinked t \<and> ?rc = Some data"
      using n rcn data(2) by (auto simp: disk_def receipt_names receiptAbsent_def receiptExact_def)
    note vd = completionVerdict_states [OF b t n' refl]
    show ?thesis
    proof (cases lf)
      case (Inl x)
      then have nc: "\<not> calm fs" using vo quiet_calm [OF ok(1)] by auto
      obtain p fs3 where p: "completionRecoveryPhase C i bd fs2 = (p, fs3)" by fastforce
      obtain l2 fs4 where l2: "loadCompletionRecoveryFacts C i bd fs2 = (l2, fs4)" by fastforce
      have "fs4 = fs3" using p l2 by (auto simp: completionRecoveryPhase_def Let_def split: sum.splits)
      then have "quiet (area {n} R) fs2 fs3" using loadCompletionRecoveryFacts_spec [OF w2 data(1) l2] by blast
      then have "guarded (recoverable t) fs fs3" using quiet_trans [OF q] Jn guarded_quiet by blast
      moreover have "classifyCompletionIntent C i bd fs1 = ((ReplaceRefuse, Some x), fs2)"
        using lf Inl by (simp add: classifyCompletionIntent_def)
      ultimately show ?thesis using ok(2) i p nc by (auto simp: recovers_def)
    next
      case (Inr f)
      then have f: "f = ?f" using vo by auto
      have cl: "classifyCompletionIntent C i bd fs1 = (if n \<in> prepared t then (ReplaceRetryRename, None) else (ReplacePromoteCanonical, None), fs2)"
        using lf Inr f vd by (simp add: classifyCompletionIntent_def)
      have tmp: "tmpFree t sfx fs2 \<longleftrightarrow> tmpFree t sfx fs" using q by (simp add: tmpFree_def quiet_def split: option.splits prod.splits)
      show ?thesis
      proof (cases "n \<in> prepared t")
        case True
        then have R: "R = receiptAbsent t" using n by (auto simp: tx_states t)
        obtain x fs3 where x: "retryCompletionRename i fs2 = (x, fs3)" by fastforce
        let ?n = "renamed (ri_CandidateTempBasename i) (ri_CanonicalBasename i) n"
        have n1: "?n \<in> renamedTx t" using renamed_prepared [OF v] True t by simp
        have p: "n (ri_CandidateTempBasename i) \<noteq> None" using True by (simp add: tx_states t)
        have J: "\<forall>m. m QueuesDir \<in> {n, ?n} \<and> (\<forall>d. d \<noteq> QueuesDir \<longrightarrow> m d \<in> R d) \<longrightarrow> recoverable t m"
          using True n1 rec_before [of _ t] rec_renamed [of _ t] by (auto simp: R receiptMay_def)
        note s = rename_guarded [OF w2 x [unfolded retryCompletionRename_def] p J]
        have g3: "guarded (recoverable t) fs fs3" using g s(1) by (rule guarded_trans)
        obtain p2 e2 fs4 where fin: "finishRecoveredCompletion C sfx i bd fs3 = ((p2, e2), fs4)" by (metis surj_pair)
        have sh: "x \<noteq> None \<and> e \<noteq> None \<and> fs' = fs3 \<or> x = None \<and> fs' = fs4 \<and> (e = None \<longleftrightarrow> e2 = None)
            \<and> (e = None \<longrightarrow> a = ReplaceRetryRename)"
          using ok(2) i cl True x fin by (auto simp: finishCompletion_def split: option.splits)
        show ?thesis
        proof (cases "x = None")
          case False
          then show ?thesis using sh g3 s(3) quiet_calm [OF q] by (auto simp: recovers_def)
        next
          case n3: True
          have w3: "within (area {?n} (receiptMay t)) fs3"
            by (rule within_mono [OF s(2) [OF n3]]) (auto simp: area_def R receiptMay_def)
          have nR: "?n \<in> renamedTx t \<and> receiptMay t = receiptMay t \<or> ?n \<in> unlinked t \<and> receiptMay t = receiptExact t"
            using n1 by blast
          have fr: "recovers t sfx fs3 ReplaceRetryRename e2 fs4"
            by (rule finishRecoveredCompletion_recovers [OF b t bd nR w3 _ fin]) simp
          have "fs_dir fs3 CompletionReceiptsDir = fs_dir fs2 CompletionReceiptsDir"
          proof -
            obtain y fsy where y: "op_rename QueuesDir (ri_CandidateTempBasename i) (ri_CanonicalBasename i) fs2 = (y, fsy)" by fastforce
            have wU: "within (\<lambda>_. UNIV) k" for k by (simp add: within_def)
            have "frame QueuesDir {ri_CandidateTempBasename i, ri_CanonicalBasename i} fs2 fsy" using op_rename_spec [OF wU _ y] by simp
            then have "fs_dir fsy CompletionReceiptsDir = fs_dir fs2 CompletionReceiptsDir" by (simp add: frame_def)
            moreover have "fs_dir fs3 = fs_dir fsy"
              using x y syncDirectory_spec [OF wU, of QueuesDir fsy] by (auto simp: retryCompletionRename_def renameAndSync_def split: option.splits prod.splits)
            ultimately show ?thesis by simp
          qed
          then have tmp3: "tmpFree t sfx fs3 \<longleftrightarrow> tmpFree t sfx fs" using tmp data(2) by (simp add: tmpFree_def)
          have "guarded (recoverable t) fs fs4" using g3 fr unfolding recovers_def by (blast intro: guarded_trans)
          then show ?thesis using sh fr s(3) n3 quiet_calm [OF q] tmp3 by (auto simp: recovers_def)
        qed
      next
        case False
        then have nR: "n \<in> renamedTx t \<and> R = receiptMay t \<or> n \<in> unlinked t \<and> R = receiptExact t" using n by blast
        obtain p2 e2 fs4 where fin: "finishRecoveredCompletion C sfx i bd fs2 = ((p2, e2), fs4)" by (metis surj_pair)
        have sh: "fs' = fs4 \<and> (e = None \<longleftrightarrow> e2 = None) \<and> (e = None \<longrightarrow> a = ReplacePromoteCanonical)"
          using ok(2) i cl False fin by (auto simp: finishCompletion_def split: option.splits)
        have fr: "recovers t sfx fs2 ReplacePromoteCanonical e2 fs4"
          by (rule finishRecoveredCompletion_recovers [OF b t bd nR w2 _ fin]) simp
        have "guarded (recoverable t) fs fs4" using g fr unfolding recovers_def by (blast intro: guarded_trans)
        then show ?thesis using sh fr quiet_calm [OF q] tmp by (auto simp: recovers_def)
      qed
    qed
  qed
qed


section \<open>The sweep over one intent file\<close>

lemma trimSuffix_append: "trimSuffix (name @ suffix) suffix = name"
  by (simp add: trimSuffix_def hasSuffix_def)

lemma decode_bound: "bound C prior new i ib \<Longrightarrow> cd_intent C ib = Inr i \<Longrightarrow> decodeReplaceIntent C ib = Inr i"
  by (simp add: bound_def decodeReplaceIntent_def orFail_def)

definition txBase :: "ReplaceIntentV1 \<Rightarrow> string" where "txBase i = replaceIntentPath (ri_NormalizedName i)"

definition reported :: "ReplaceIntentRecovery option \<Rightarrow> ReplaceRecoveryAction \<times> string option" where
  "reported r = (case r of None \<Rightarrow> (ReplaceRefuse, Some []) | Some r \<Rightarrow> (rir_Action r, rir_Err r))"

text \<open>The namespaces right after a restart: what was durable is there, and is all there is.\<close>

definition restarted :: "(dirId \<Rightarrow> ns) \<Rightarrow> FS \<Rightarrow> bool" where
  "restarted m fs \<longleftrightarrow> (\<forall>d. fs_dir fs d = m d \<and> set (fs_pend fs d) = {m d})"

lemma restarted_within: "restarted m fs \<Longrightarrow> (\<And>d. m d \<in> A d) \<Longrightarrow> within A fs"
  by (simp add: restarted_def within_def)

lemma restarted_guarded: "restarted m fs \<Longrightarrow> J m \<Longrightarrow> guarded J fs fs"
  unfolding guarded_def restarted_def by (auto simp: fun_eq_iff) (metis ext)

theorem recoverOneIntentFile_recovers:
  assumes b: "bound C prior new i ib" and dec: "cd_intent C ib = Inr i" and ah: "ri_ArchiveHandoffBinding i = None"
    and t: "t = txOf C prior new i ib"
    and nc: "\<forall>p. prior = Some p \<longrightarrow> digestHex C p = digestHex C new \<longrightarrow> p = new"
    and m: "recoverable t m" "restarted m fs"
    and r: "recoverOneIntentFile C sfx (txBase i) fs = (res, fs')"
  shows "guarded (recoverable t) fs fs'"
    and "res = Some rr \<Longrightarrow> Resolved rr \<Longrightarrow> settledBy t (rir_Action rr) fs'"
    and "calm fs \<Longrightarrow> tmpFree t sfx fs \<Longrightarrow>
      (m QueuesDir \<in> untouched t \<union> cleaned t \<union> released t \<and> res = None \<and> fs_dir fs' = fs_dir fs \<and> fs_pend fs' = fs_pend fs)
       \<or> (\<exists>rr. res = Some rr \<and> Resolved rr)"
proof -
  have v: "validateReplaceIntent C i = None" using b by (simp add: bound_def)
  let ?n = "m QueuesDir"
  note d5 = digest_facts(5) [OF b t, of ?n]
  have base: "trimSuffix (txBase i) replaceIntentSuffix = ri_NormalizedName i"
    by (simp add: txBase_def replaceIntentPath_def trimSuffix_append)
  have kinds: "ri_FailedRecoveryReceiptBinding i \<noteq> None \<longleftrightarrow> tx_kind t = FailedTx"
    "ri_FailedRecoveryReceiptBinding i = None \<Longrightarrow> ri_CompletionReceiptBinding i \<noteq> None \<longleftrightarrow> tx_kind t = CompletionTx"
    by (auto simp: t txOf_def)
  obtain R where w: "within (area {?n} R) fs" and Jn: "\<forall>m'. (\<forall>d. m' d \<in> area {?n} R d) \<longrightarrow> recoverable t m'"
    and cs: "?n \<in> untouched t \<union> prepared t \<union> rolledBack t \<and> R = receiptAbsent t \<or> ?n \<in> renamedTx t \<and> R = receiptMay t
      \<or> ?n \<in> cleaned t \<union> unlinked t \<union> released t \<and> R = receiptExact t"
  proof -
    obtain Q R where QR: "(Q, R) \<in> {(untouched t \<union> prepared t \<union> rolledBack t, receiptAbsent t),
        (renamedTx t, receiptMay t), (cleaned t \<union> unlinked t \<union> released t, receiptExact t)}"
      and all: "\<forall>d. m d \<in> area Q R d" using m(1) unfolding recoverable_def by blast
    have "m d \<in> area {?n} R d" for d using all unfolding area_all by (simp add: area_def)
    then have "within (area {?n} R) fs" by (intro restarted_within [OF m(2)])
    moreover have "recoverable t m'" if "\<forall>d. m' d \<in> area {?n} R d" for m'
      unfolding recoverable_def using that QR all by (intro exI [of _ Q] exI [of _ R]) (simp add: area_all)
    ultimately show thesis using that [of R] QR all unfolding area_all by blast
  qed
  have all: "guarded (recoverable t) fs fs' \<and> (\<forall>rr. res = Some rr \<longrightarrow> Resolved rr \<longrightarrow> settledBy t (rir_Action rr) fs')
    \<and> (calm fs \<and> tmpFree t sfx fs \<longrightarrow>
      (?n \<in> untouched t \<union> cleaned t \<union> released t \<and> res = None \<and> fs_dir fs' = fs_dir fs \<and> fs_pend fs' = fs_pend fs)
       \<or> (\<exists>rr. res = Some rr \<and> Resolved rr))"
    using w r [unfolded recoverOneIntentFile_def Let_def]
  proof (cases rule: reading_cases)
    case (bad e)
    then show ?thesis using guarded_quiet [OF bad(2), of "recoverable t"] Jn by (simp add: Resolved_def)
  next
    case (ok fs1)
    have g: "guarded (recoverable t) fs fs1" using ok(1) by (rule guarded_quiet) (use Jn in blast)
    have w1: "within (area {?n} R) fs1" using ok(1) by (rule quiet_within)
    have q: "calm fs \<Longrightarrow> calm fs1" "tmpFree t sfx fs1 \<longleftrightarrow> tmpFree t sfx fs"
      using ok(1) by (auto simp: quiet_def tmpFree_def split: option.splits)
    have dsk: "disk fs QueuesDir (txBase i) = map_option content (?n (replaceIntentPath (ri_NormalizedName i)))"
      by (simp add: disk_area [OF w] txBase_def)
    show ?thesis
    proof (cases "noI t ?n")
      case True
      then have f: "res = None" "fs' = fs1" using ok(2) dsk by (auto simp: noI_def t)
      have "?n \<in> untouched t \<union> cleaned t \<union> released t"
        using cs True by (auto simp: tx_states)
      then show ?thesis using f g ok(1) by (auto simp: quiet_def)
    next
      case False
      then have n: "?n \<in> prepared t \<union> rolledBack t \<and> R = receiptAbsent t \<or> ?n \<in> renamedTx t \<and> R = receiptMay t
          \<or> ?n \<in> unlinked t \<and> R = receiptExact t"
        using cs by (auto simp: untouched_def cleaned_def released_def)
      then have "hasI t ?n" by (auto simp: prepared_def rolledBack_def renamedTx_def unlinked_def)
      then have ib: "disk fs QueuesDir (txBase i) = Some ib" using dsk d5 by simp
      note r1 = ok(2) [unfolded ib option.case]
      have fin: "guarded (recoverable t) fs fs' \<and> (e = None \<longrightarrow> settledBy t a fs') \<and> (calm fs \<and> tmpFree t sfx fs \<longrightarrow> e = None)"
        if "recovers t sfx fs1 a e fs'" for a e
        using that g q unfolding recovers_def by (blast intro: guarded_trans)
      have ref: "settledBy t a fs' \<Longrightarrow> a \<noteq> ReplaceRefuse" for a by (auto simp: settledBy_def)
      show ?thesis
      proof (cases "ri_FailedRecoveryReceiptBinding i")
        case (Some bd)
        obtain a e fs2 where k: "recoverFailedReplaceIntent C sfx i bd ib fs1 = ((a, e), fs2)" by (metis surj_pair)
        have "?n \<notin> unlinked t" using kinds Some by (auto simp: unlinked_def)
        then have n': "?n \<in> prepared t \<union> rolledBack t \<and> R = receiptAbsent t \<or> ?n \<in> renamedTx t \<and> R = receiptMay t"
          using n by blast
        have "fs' = fs2" "\<exists>rr. res = Some rr \<and> rir_Action rr = a \<and> rir_Err rr = e" using r1 Some k by (auto simp: decode_bound [OF b dec] base ah)
        then show ?thesis
          using fin [of a e] recoverFailedReplaceIntent_recovers [OF b t Some nc n' w1 k] ref [of a] by (auto simp: Resolved_def)
      next
        case fn: None
        then have nf: "?n \<notin> rolledBack t" using kinds by (auto simp: rolledBack_def)
        show ?thesis
        proof (cases "ri_CompletionReceiptBinding i")
          case (Some bd)
          obtain a ph e fs2 where k: "recoverCompletionReplaceIntent C sfx i bd ib fs1 = ((a, ph, e), fs2)" by (metis surj_pair)
          have n': "?n \<in> prepared t \<and> R = receiptAbsent t \<or> ?n \<in> renamedTx t \<and> R = receiptMay t \<or> ?n \<in> unlinked t \<and> R = receiptExact t"
            using n nf by blast
          have "fs' = fs2" "\<exists>rr. res = Some rr \<and> rir_Action rr = a \<and> rir_Err rr = e" using r1 fn Some k by (auto simp: decode_bound [OF b dec] base ah)
          then show ?thesis
            using fin [of a e] recoverCompletionReplaceIntent_recovers [OF b t fn Some n' w1 k] ref [of a] by (auto simp: Resolved_def)
        next
          case None
          obtain a e fs2 where k: "recoverReplaceIntent C i ib fs1 = ((a, e), fs2)" by (metis surj_pair)
          have p: "tx_kind t = PlainTx" "tx_receipt t = None" using fn None by (simp_all add: t txOf_def receiptOf_def)
          have "?n \<notin> unlinked t" using p by (auto simp: unlinked_def)
          then have n': "?n \<in> prepared t \<union> renamedTx t" using n nf by blast
          have "within (area {?n} (receiptExact t)) fs1"
            by (rule within_mono [OF w1]) (simp add: area_def receiptExact_def p(2))
          note rp = recoverReplaceIntent_recovers [OF b t p(1) n' this k]
          have "fs' = fs2" "\<exists>rr. res = Some rr \<and> rir_Action rr = a \<and> rir_Err rr = e" using r1 fn None k by (auto simp: decode_bound [OF b dec] base ah)
          then show ?thesis using fin [of a e] rp ref [of a] by (auto simp: Resolved_def)
        qed
      qed
    qed
  qed
  show "guarded (recoverable t) fs fs'" using all by blast
  show "res = Some rr \<Longrightarrow> Resolved rr \<Longrightarrow> settledBy t (rir_Action rr) fs'" using all by blast
  show "calm fs \<Longrightarrow> tmpFree t sfx fs \<Longrightarrow>
      (m QueuesDir \<in> untouched t \<union> cleaned t \<union> released t \<and> res = None \<and> fs_dir fs' = fs_dir fs \<and> fs_pend fs' = fs_pend fs)
       \<or> (\<exists>rr. res = Some rr \<and> Resolved rr)" using all by blast
qed

end
