(* ===== verification/Replace_Write.thy ===== *)
theory Replace_Write
  imports Replace_Recovery
begin

text \<open>
  The writing side of the replacement protocol: what \<open>prepareReplacement\<close> establishes, that every
  moment of a faulty \<open>writeReplacement\<close> leaves a state recovery understands, and that the reported
  outcome is true of the disk. Writing and recovery are then put together over any number of
  crashes.
\<close>

section \<open>Preparing\<close>

lemma hexEncode_not_absent: "hexEncode bs \<noteq> ''absent''"
proof
  assume a: "hexEncode bs = ''absent''"
  have digits: "set (hexEncode bs) \<subseteq> hexDigit ` {..<16}"
    by (auto simp: hexEncode_def less_mult_imp_div_less intro!: imageI)
  have "CHR ''s'' \<in> set (hexEncode bs)" unfolding a by simp
  with digits obtain k where "k < 16" "CHR ''s'' = hexDigit k" by blast
  moreover have "\<forall>k \<in> set (map hexDigit [0..<16]). k \<noteq> CHR ''s''" by code_simp
  ultimately show False by (auto simp: image_iff)
qed

lemma hexDigits_valid: "k < 16 \<Longrightarrow> isHexDigit (hexDigit k)"
proof -
  have "\<forall>k \<in> set [0..<16]. isHexDigit (hexDigit k)" by code_simp
  then show "k < 16 \<Longrightarrow> isHexDigit (hexDigit k)" by simp
qed

lemma validSHA256_hexEncode:
  assumes "length bs = 32"
  shows "validSHA256 (hexEncode bs)"
proof -
  have "length (hexEncode cs) = 2 * length cs \<and> list_all isHexDigit (hexEncode cs)" for cs
    by (induction cs) (auto simp: hexEncode_def less_mult_imp_div_less intro!: hexDigits_valid)
  then show ?thesis using assms by (simp add: validSHA256_def)
qed

lemma prepareReplacement_bound:
  assumes "prepareReplacement C newTx newSuccessor plan = Inr (i, ib)"
  shows "bound C (rp_PriorBytes plan) (rp_CandidateBytes plan) i ib"
    and "ri_NormalizedName i = NormaliseQueueName (rp_NormalizedName plan)"
proof -
  obtain tid sid where p: "prepareReplacementWithIDs C plan tid sid = Inr (i, ib)"
    using assms by (auto simp: prepareReplacement_def split: sum.splits if_splits)
  have "digestHex C p \<noteq> ''absent''" for p by (simp add: digestHex_def hexEncode_not_absent)
  then show "bound C (rp_PriorBytes plan) (rp_CandidateBytes plan) i ib"
    and "ri_NormalizedName i = NormaliseQueueName (rp_NormalizedName plan)"
    using p
    by (auto simp: prepareReplacementWithIDs_def bound_def priorMatches_def Let_def
        split: prod.splits bool.splits if_splits sum.splits option.splits)
qed

section \<open>The outcome of a failed rename\<close>

lemma classify_pending:
  assumes b: "bound C prior new i ib" and t: "t = txOf C prior new i ib"
    and w: "within (area Q (receiptAbsent t)) fs" and n: "fs_dir fs QueuesDir \<in> prepared t \<union> renamedTx t"
    and r: "classifyReplaceIntent C i fs = (v, fs')"
  shows "quiet (area Q (receiptAbsent t)) fs fs'"
    and "fst v \<in> {ReplaceRetryRename, ReplaceNotCommitted} \<Longrightarrow> fs_dir fs QueuesDir \<in> prepared t"
proof -
  let ?n = "fs_dir fs QueuesDir"
  let ?can = "disk fs QueuesDir (ri_CanonicalBasename i)" and ?cand = "disk fs QueuesDir (ri_CandidateTempBasename i)"
  note d = digest_facts(1,2,5,6) [OF b t, of ?n] digest_facts(3,4) [OF b t]
  have promote: "hasDigest C ?can (ri_CandidateSHA256 i)" "?cand = None" if "?n \<notin> prepared t"
    using that n d by (auto simp: renamedTx_def disk_def)
  have v: "validateReplaceIntent C i = None" using b by (simp add: bound_def)
  have rcpt: "disk fs dd p = None" if "tx_receipt t = Some (dd, p, data)" "dd \<noteq> QueuesDir" for dd p data
  proof -
    have "fs_dir fs dd \<in> receiptAbsent t dd" using w that(2) by (metis area_simps(2) within_def)
    then show ?thesis using that(1) by (simp add: receiptAbsent_def disk_def)
  qed
  have "quiet (area Q (receiptAbsent t)) fs fs'
      \<and> (fst v \<in> {ReplaceRetryRename, ReplaceNotCommitted} \<longrightarrow> ?n \<in> prepared t)"
  proof (cases "ri_FailedRecoveryReceiptBinding i")
    case (Some bd)
    obtain data where bd: "cd_unbase64 C (frb_CanonicalBytesBase64 bd) = Inr data"
      "tx_receipt t = Some (FailedReceiptsDir, frb_Basename bd, data)"
      using failed_receipt_bound [OF b t Some] by metis
    have "classifyFailedRecoveryIntent C i bd fs = (v, fs')" using r v Some by (simp add: classifyReplaceIntent_def)
    note c = classifyFailedRecoveryIntent_spec [OF w bd(1) this]
    show ?thesis using c promote rcpt [OF bd(2)]
      by (cases "?n \<in> prepared t") (auto simp: verdictOf_def failedVerdict_def split: if_splits)
  next
    case nf: None
    show ?thesis
    proof (cases "ri_CompletionReceiptBinding i")
      case (Some bd)
      obtain data where bd: "cd_unbase64 C (crb_CanonicalBytesBase64 bd) = Inr data"
        "tx_receipt t = Some (CompletionReceiptsDir, crb_Basename bd, data)"
        using completion_receipt_bound [OF b t nf Some] by metis
      obtain x where x: "loadCompletionRecoveryFacts C i bd fs = (x, fs')"
        and xv: "v = (case x of Inl e \<Rightarrow> (ReplaceRefuse, Some e) | Inr f \<Rightarrow> completionVerdict C i f)"
        using r v nf Some by (auto simp: classifyReplaceIntent_def classifyCompletionIntent_def split: prod.splits sum.splits)
      note c = loadCompletionRecoveryFacts_spec [OF w bd(1) x]
      show ?thesis using c xv promote rcpt [OF bd(2)]
        by (cases "?n \<in> prepared t") (auto simp: completionVerdict_def canPromoteCanonical_def canonicalIsCandidate_def split: if_splits)
    next
      case None
      have "classifyPlainIntent C i fs = (v, fs')" using r v nf None by (simp add: classifyReplaceIntent_def)
      note c = classifyPlainIntent_spec [OF w this]
      show ?thesis using c promote by (cases "?n \<in> prepared t") (auto simp: verdictOf_def plainVerdict_def split: if_splits)
    qed
  qed
  then show "quiet (area Q (receiptAbsent t)) fs fs'"
    and "fst v \<in> {ReplaceRetryRename, ReplaceNotCommitted} \<Longrightarrow> ?n \<in> prepared t" by blast+
qed

section \<open>The receipts\<close>

text \<open>\<open>wrote t fs r fs'\<close>: what a step of the protocol promises of its outcome and of the disk.\<close>

definition wrote :: "Tx \<Rightarrow> FS \<Rightarrow> ReplacementCommit \<Rightarrow> FS \<Rightarrow> bool" where
  "wrote t fs r fs' \<longleftrightarrow> guarded (recoverable t) fs fs'
     \<and> (rc_Outcome r = OutcomeNotCommitted \<longrightarrow> within (area (untouched t \<union> prepared t) (receiptAbsent t)) fs')
     \<and> (Committed r \<longrightarrow> within (area (renamedTx t) (receiptExact t)) fs')"

lemma commitReceipts_wrote:
  assumes b: "bound C prior new i ib" and t: "t = txOf C prior new i ib"
    and n: "n \<in> renamedTx t" and w: "within (area {n} (receiptMay t)) fs" and r: "commitReceipts C sfx i fs = (res, fs')"
  shows "wrote t fs res fs' \<and> rc_Outcome res \<noteq> OutcomeRejected" and "calm fs \<Longrightarrow> tmpFree t sfx fs \<Longrightarrow> Committed res"
proof -
  have J: "recoverable t m" if "\<forall>d. m d \<in> area {n} (receiptMay t) d" for m
    using that n rec_renamed [of m t] by (simp add: area_all)
  have fin: "within (area (renamedTx t) (receiptExact t)) fx" if "within (area {n} (receiptExact t)) fx" for fx
    by (rule within_mono [OF that]) (use n in \<open>simp add: area_def\<close>)
  have v: "validateReplaceIntent C i = None" using b by (simp add: bound_def)
  have "(wrote t fs res fs' \<and> rc_Outcome res \<noteq> OutcomeRejected) \<and> (calm fs \<and> tmpFree t sfx fs \<longrightarrow> Committed res)"
  proof (cases "ri_FailedRecoveryReceiptBinding i")
    case (Some bd)
    obtain data where bd: "tx_receipt t = Some (FailedReceiptsDir, frb_Basename bd, data)"
      and wr: "\<And>sfx fs. writeFailedRecoveryReceipt C sfx (ri_QueueID i) (ri_TransactionID i) bd fs = (case op_mkdirAll fs of
           (Some e, fs1) \<Rightarrow> (Some (FsErr_text e), fs1)
         | (None, fs1) \<Rightarrow> installReceipt sfx FailedReceiptsDir (frb_Basename bd) data (\<lambda>err. err) fs1)"
      by (rule failed_receipt_bound [OF b t Some]) (rule that; assumption)
    have nc: "ri_CompletionReceiptBinding i = None" "ri_OperationKind i \<noteq> OperationCompletion"
      using v Some by (auto simp: validateReplaceIntent_def validateFailedRecoveryIntentCoupling_def split: if_splits)
    obtain x fs1 where x: "op_mkdirAll fs = (x, fs1)" by fastforce
    note q = quiet_ops(1) [OF w x]
    obtain y fs2 where y: "installReceipt sfx FailedReceiptsDir (frb_Basename bd) data (\<lambda>err. err) fs1 = (y, fs2)" by fastforce
    note g = installReceipt_guarded [OF w disjI1 [OF refl] bd _ _ conjunct1 [OF q] y J, simplified]
    show ?thesis
    proof (cases x)
      case None
      then show ?thesis using r Some x y g(1,3) fin [OF g(2)] nc q
        by (cases y) (auto simp: commitReceipts_def wr wrote_def Committed_def replacementFailure_def Let_def)
    next
      case (Some e)
      then show ?thesis using r \<open>ri_FailedRecoveryReceiptBinding i = _\<close> x q guarded_quiet [OF conjunct1 [OF q] J] nc
        by (auto simp: commitReceipts_def wr wrote_def Committed_def replacementFailure_def Let_def)
    qed
  next
    case nf: None
    show ?thesis
    proof (cases "ri_CompletionReceiptBinding i")
      case (Some bd)
      let ?f = "\<lambda>err. Some (case err of Some e \<Rightarrow> e | None \<Rightarrow> ''completion receipt was not installed'')"
      obtain data where bd: "tx_receipt t = Some (CompletionReceiptsDir, crb_Basename bd, data)"
        and wr: "\<And>sfx fs. writeCompletionReceipt C sfx (ri_QueueID i) (ri_TransactionID i) bd fs = (case op_mkdirAll fs of
           (Some e, fs1) \<Rightarrow> (Some (FsErr_text e), fs1)
         | (None, fs1) \<Rightarrow> (case op_lstat fs1 of
             (Some e, fs2) \<Rightarrow> (Some (FsErr_text e), fs2)
           | (None, fs2) \<Rightarrow> installReceipt sfx CompletionReceiptsDir (crb_Basename bd) data ?f fs2))"
        by (rule completion_receipt_bound [OF b t nf Some]) (rule that; assumption)
      obtain x fs1 where x: "op_mkdirAll fs = (x, fs1)" by fastforce
      note q = quiet_ops(1) [OF w x]
      obtain z fs2 where z: "op_lstat fs1 = (z, fs2)" by fastforce
      note q2 = quiet_ops(2) [OF quiet_within [OF conjunct1 [OF q]] z]
      note q12 = quiet_trans [OF conjunct1 [OF q] conjunct1 [OF q2]]
      obtain y fs3 where y: "installReceipt sfx CompletionReceiptsDir (crb_Basename bd) data ?f fs2 = (y, fs3)" by fastforce
      note g = installReceipt_guarded [OF w disjI1 [OF refl] bd _ _ q12 y J, simplified]
      have none: "calm fs \<longrightarrow> x = None \<and> z = None" using q q2 quiet_calm by blast
      have gs: "guarded (recoverable t) fs fs1" "guarded (recoverable t) fs fs2"
        using guarded_quiet [OF conjunct1 [OF q] J] guarded_quiet [OF q12 J] by simp_all
      have cs: "x \<noteq> None \<and> fs' = fs1 \<and> rc_Outcome res = OutcomeCommitIndeterminate
         \<or> x = None \<and> z \<noteq> None \<and> fs' = fs2 \<and> rc_Outcome res = OutcomeCommitIndeterminate
         \<or> x = None \<and> z = None \<and> fs' = fs3 \<and> rc_Outcome res = (if y = None then OutcomeCommittedDurable else OutcomeCommitIndeterminate)"
        using r nf Some x y z by (auto simp: commitReceipts_def wr Let_def split: option.splits)
      show ?thesis using cs gs g(1,3) fin [OF g(2)] none
        by (auto simp: wrote_def Committed_def split: if_splits)
    next
      case None
      have rn: "tx_receipt t = None" by (simp add: t receiptOf_def nf None)
      have "within (area {n} (receiptExact t)) fs"
        by (rule within_mono [OF w]) (simp add: area_def receiptExact_def rn)
      moreover have "guarded (recoverable t) fs fs" using w J by (intro guarded_quiet [of "area {n} (receiptMay t)"]) simp_all
      ultimately show ?thesis using r nf None fin
        by (auto simp: commitReceipts_def wrote_def Committed_def Let_def)
    qed
  qed
  then show "wrote t fs res fs' \<and> rc_Outcome res \<noteq> OutcomeRejected"
    and "calm fs \<Longrightarrow> tmpFree t sfx fs \<Longrightarrow> Committed res" by blast+
qed

section \<open>The rename\<close>

lemma wrote_before:
  assumes "guarded (recoverable t) fs fs1" and "wrote t fs1 r fs'"
  shows "wrote t fs r fs'"
  using assms unfolding wrote_def by (blast intro: guarded_trans)

lemma replacementFailure_outcome [simp]: "rc_Outcome (replacementFailure i outcome err) = outcome"
  by (simp add: replacementFailure_def)

lemma wrote_failure:
  assumes "guarded (recoverable t) fs fs'"
    and "outcome = OutcomeNotCommitted \<longrightarrow> within (area (untouched t \<union> prepared t) (receiptAbsent t)) fs'"
    and "outcome \<noteq> OutcomeCommittedDurable"
  shows "wrote t fs (replacementFailure i outcome err) fs'"
  using assms by (simp add: wrote_def Committed_def replacementFailure_def)

lemma tmpFree_receipts:
  assumes "\<And>d. d \<noteq> QueuesDir \<Longrightarrow> fs_dir fs' d = fs_dir fs d" and "t = txOf C prior new i ib"
  shows "tmpFree t sfx fs' \<longleftrightarrow> tmpFree t sfx fs"
  using assms by (auto simp: tmpFree_def txOf_def receiptOf_def split: option.splits sum.splits)

lemma renameCandidate_wrote:
  assumes b: "bound C prior new i ib" and t: "t = txOf C prior new i ib"
    and w: "within (area (untouched t \<union> prepared t) (receiptAbsent t)) fs" and n: "fs_dir fs QueuesDir \<in> prepared t"
    and r: "renameCandidate C sfx (ri_NormalizedName i) i fs = (res, fs')"
  shows "wrote t fs res fs' \<and> rc_Outcome res \<noteq> OutcomeRejected" and "calm fs \<Longrightarrow> tmpFree t sfx fs \<Longrightarrow> Committed res"
proof -
  let ?n = "fs_dir fs QueuesDir" and ?p = "ri_CandidateTempBasename i" and ?q = "ri_CanonicalBasename i"
  let ?m = "renamed ?p ?q ?n"
  let ?fail = "\<lambda>what e. replacementFailure i OutcomeCommitIndeterminate (Some (wrapErr what e))"
  have v: "validateReplaceIntent C i = None" using b by (simp add: bound_def)
  have qp: "queuePath (ri_NormalizedName i) = ?q" by (simp add: queuePath_def tx_names(1) [OF v])
  have m: "?m \<in> renamedTx t" using renamed_prepared [OF v n [unfolded t]] t by simp
  have A: "recoverable t x" if "\<forall>d. x d \<in> area (untouched t \<union> prepared t) (receiptAbsent t) d" for x
    using that rec_before [of x t] by (auto simp: area_all)
  have B: "recoverable t x" if "\<forall>d. x d \<in> area {?n, ?m} (receiptAbsent t) d" for x
    using that m n recoverable_window [of x t] by (auto simp: area_all)
  obtain e1 fs1 where 1: "syncDirectory QueuesDir fs = (e1, fs1)" by fastforce
  have s1: "stays (area (untouched t \<union> prepared t) (receiptAbsent t)) fs fs1" using syncDirectory_spec [OF w 1] by blast
  note g1 = stays_guarded [OF s1 A]
  have d1: "fs_dir fs1 = fs_dir fs" using syncDirectory_spec [OF w 1, of "{}"] by blast
  have "(wrote t fs res fs' \<and> rc_Outcome res \<noteq> OutcomeRejected) \<and> (calm fs \<and> tmpFree t sfx fs \<longrightarrow> Committed res)"
  proof (cases e1)
    case (Some e)
    then show ?thesis using r 1 wrote_failure [OF g1] syncDirectory_calm [OF _ 1]
      by (auto simp: renameCandidate_def Let_def)
  next
    case n1: None
    have w1: "within (area {?n} (receiptAbsent t)) fs1" using sync_narrow [OF w 1 [unfolded n1], of "{?n}"] by simp
    have w1': "within (area {?n, ?m} (receiptAbsent t)) fs1" by (rule within_mono [OF w1]) (simp add: area_def)
    obtain e2 fs2 where 2: "op_rename QueuesDir ?p ?q fs1 = (e2, fs2)" by fastforce
    have s2: "stays (area {?n, ?m} (receiptAbsent t)) fs1 fs2" "frame QueuesDir {?p, ?q} fs1 fs2"
        "e2 = None \<longrightarrow> fs_dir fs2 QueuesDir = ?m"
        "fs_dir fs2 QueuesDir \<in> {?n, ?m}"
        "fs_dir fs2 QueuesDir = ?n \<and> fs_pend fs2 QueuesDir = fs_pend fs1 QueuesDir \<or> fs_pend fs2 QueuesDir = fs_dir fs2 QueuesDir # fs_pend fs1 QueuesDir"
      using op_rename_spec [OF w1' _ 2] by (auto simp: d1)
    note g2 = guarded_trans [OF g1 stays_guarded [OF s2(1) B]]
    have w2: "within (area {?n, ?m} (receiptAbsent t)) fs2" using s2(1) by (rule stays_within)
    have fr2: "\<And>d. d \<noteq> QueuesDir \<Longrightarrow> fs_dir fs2 d = fs_dir fs1 d" using s2(2) by (simp add: frame_def)
    have cp: "calm fs \<Longrightarrow> e2 = None \<and> calm fs2"
      using calm_ops(5) [OF _ 2] syncDirectory_calm [OF _ 1] n d1 by (auto simp: prepared_def t)
    show ?thesis
    proof (cases e2)
      case (Some e)
      obtain a x fs3 where 3: "classifyReplaceIntent C i fs2 = ((a, x), fs3)" by (metis surj_pair)
      have dn: "fs_dir fs2 QueuesDir \<in> prepared t \<union> renamedTx t" using s2(4) n m by auto
      note c = classify_pending [OF b t w2 dn 3]
      have g3: "guarded (recoverable t) fs fs3" using g2 guarded_quiet [OF c(1) B] by (rule guarded_trans)
      have f: "fs' = fs3" "res = replacementFailure i (case a of ReplaceRetryRename \<Rightarrow> OutcomeNotCommitted | ReplaceNotCommitted \<Rightarrow> OutcomeNotCommitted
           | _ \<Rightarrow> OutcomeCommitIndeterminate) (joinErrs [Some (wrapErr ''rename candidate'' (FsErr_text e)), x])"
        using r 1 n1 2 Some 3 by (simp_all add: renameCandidate_def qp classifyReplacementFailure_def Let_def)
      have "within (area (untouched t \<union> prepared t) (receiptAbsent t)) fs3" if "a = ReplaceRetryRename \<or> a = ReplaceNotCommitted"
      proof -
        have p2: "fs_dir fs2 QueuesDir \<in> prepared t" using c(2) that by auto
        have pe: "set (fs_pend fs1 QueuesDir) \<subseteq> {?n}" using w1 by (metis area_simps(1) within_def)
        have "fs_dir fs2 d \<in> area (untouched t \<union> prepared t) (receiptAbsent t) d
            \<and> set (fs_pend fs2 d) \<subseteq> area (untouched t \<union> prepared t) (receiptAbsent t) d" for d
        proof (cases "d = QueuesDir")
          case True
          then show ?thesis using p2 pe n s2(5) by auto
        next
          case False
          then show ?thesis using w2 by (metis area_simps(2) within_def)
        qed
        then have "within (area (untouched t \<union> prepared t) (receiptAbsent t)) fs2" unfolding within_def by blast
        then show ?thesis by (simp only: quiet_within_iff [OF c(1)])
      qed
      then have "wrote t fs res fs' \<and> rc_Outcome res \<noteq> OutcomeRejected"
        unfolding f by (intro conjI wrote_failure [OF g3]) (auto split: ReplaceRecoveryAction.splits)
      then show ?thesis using cp Some by blast
    next
      case n2: None
      obtain e3 fs3 where 3: "syncDirectory QueuesDir fs2 = (e3, fs3)" by fastforce
      have s3: "stays (area {?n, ?m} (receiptAbsent t)) fs2 fs3" "fs_dir fs3 = fs_dir fs2"
        using syncDirectory_spec [OF w2 3, of "{}"] by blast+
      note g3 = guarded_trans [OF g2 stays_guarded [OF s3(1) B]]
      show ?thesis
      proof (cases e3)
        case (Some e)
        then show ?thesis using r 1 n1 2 n2 3 wrote_failure [OF g3] syncDirectory_calm [OF _ 3] cp
          by (auto simp: renameCandidate_def qp Let_def)
      next
        case n3: None
        have "within (area {?m} (receiptAbsent t)) fs3" using sync_narrow [OF w2 3 [unfolded n3], of "{?m}"] s2(3) n2 by simp
        then have w3: "within (area {?m} (receiptMay t)) fs3" by (rule within_mono) (auto simp: area_def receiptMay_def)
        have c: "commitReceipts C sfx i fs3 = (res, fs')" using r 1 n1 2 n2 3 n3 by (simp add: renameCandidate_def qp Let_def)
        note cw = commitReceipts_wrote [OF b t m w3 c]
        have "tmpFree t sfx fs3 \<longleftrightarrow> tmpFree t sfx fs" using fr2 d1 s3(2) by (intro tmpFree_receipts [OF _ t]) simp
        moreover have "calm fs \<Longrightarrow> calm fs3" using cp syncDirectory_calm [OF _ 3] by blast
        ultimately show ?thesis using wrote_before [OF g3] cw by blast
      qed
    qed
  qed
  then show "wrote t fs res fs' \<and> rc_Outcome res \<noteq> OutcomeRejected"
    and "calm fs \<Longrightarrow> tmpFree t sfx fs \<Longrightarrow> Committed res" by blast+
qed

section \<open>The whole write\<close>

lemma candidate_closed:
  assumes "validateReplaceIntent C i = None" and "t = txOf C prior new i ib"
  shows "closedAt (area (untouched t) R) QueuesDir (ri_CandidateTempBasename i)"
    and "closedAt (area (untouched t \<union> prepared t) R) QueuesDir (replaceIntentPath (ri_NormalizedName i) @ ''.tmp-'' @ sfx)"
  using tx_names [OF assms(1)] tx_names_neq [OF assms(1)]
  by (auto simp: closedAt_def tx_states assms(2) replaceIntentPath_def replaceIntentSuffix_def)

lemma writeReplacement_unprepared:
  assumes "prepareReplacement C newTx newSuccessor plan = Inl e \<or> ctxErr \<noteq> None"
    and "writeReplacement C ctxErr newTx newSuccessor sfx1 sfx2 plan fs = (res, fs')"
  shows "fs' = fs \<and> rc_Outcome res = OutcomeRejected"
  using assms by (auto simp: writeReplacement_def split: sum.splits option.splits prod.splits)

lemma writeReplacement_prepared:
  assumes p: "prepareReplacement C newTx newSuccessor plan = Inr (i, ib)"
    and nm: "NormaliseQueueName (rp_NormalizedName plan) = rp_NormalizedName plan"
    and t: "t = txOf C (rp_PriorBytes plan) (rp_CandidateBytes plan) i ib"
    and w: "within (area (untouched t) (receiptAbsent t)) fs"
    and r: "writeReplacement C None newTx newSuccessor sfx1 sfx2 plan fs = (res, fs')"
  shows "wrote t fs res fs' \<and> rc_Outcome res \<noteq> OutcomeRejected"
    and "calm fs \<Longrightarrow> fs_dir fs QueuesDir (ri_CandidateTempBasename i) = None \<Longrightarrow>
      fs_dir fs QueuesDir (replaceIntentPath (ri_NormalizedName i) @ ''.tmp-'' @ sfx1) = None \<Longrightarrow> tmpFree t sfx2 fs \<Longrightarrow> Committed res"
proof -
  let ?cand = "ri_CandidateTempBasename i" and ?path = "replaceIntentPath (ri_NormalizedName i)"
  let ?tmp = "?path @ ''.tmp-'' @ sfx1" and ?new = "rp_CandidateBytes plan"
  let ?A0 = "area (untouched t) (receiptAbsent t)" and ?A1 = "area (untouched t \<union> prepared t) (receiptAbsent t)"
  note b = prepareReplacement_bound(1) [OF p]
  have name: "rp_NormalizedName plan = ri_NormalizedName i" using prepareReplacement_bound(2) [OF p] nm by simp
  have v: "validateReplaceIntent C i = None" using b by (simp add: bound_def)
  note neq = tx_names_neq [OF v]
  have A: "recoverable t x" if "\<forall>d. x d \<in> ?A1 d" for x using that rec_before [of x t] by (auto simp: area_all)
  have mono: "within ?A0 f \<Longrightarrow> within ?A1 f" "stays ?A0 f g \<Longrightarrow> stays ?A1 f g" for f g
    by (auto elim!: within_mono stays_mono simp: area_def)
  obtain e1 fs1 where 1: "op_mkdirAll fs = (e1, fs1)" by fastforce
  have q1: "quiet ?A0 fs fs1" "calm fs \<Longrightarrow> e1 = None" using quiet_ops(1) [OF w 1] by blast+
  have w1: "within ?A0 fs1" using q1(1) by (rule quiet_within)
  have g1: "guarded (recoverable t) fs fs1" using q1(1) mono(2) by (intro stays_guarded [OF _ A]) (auto simp: quiet_def)
  obtain e2 fs2 where 2: "durableFile QueuesDir ?cand ?new fs1 = (e2, fs2)" by fastforce
  note s2 = durableFile_spec [OF w1 candidate_closed(1) [OF v t] 2]
  have w2: "within ?A0 fs2" using s2 by (blast intro: stays_within)
  have g2: "guarded (recoverable t) fs fs2"
    using g1 stays_guarded [OF mono(2) [OF conjunct1 [OF s2]] A] by (rule guarded_trans)
  have u2: "fs_dir fs2 QueuesDir \<in> untouched t" using w2 by (metis area_simps(1) within_def)
  have free: "fs_dir fs2 QueuesDir ?path = None" using u2 by (simp add: untouched_def noI_def t)
  obtain st err fs3 where 3: "durableNoReplace sfx1 QueuesDir ?path ib fs2 = ((st, err), fs3)" by (metis surj_pair)
  have "(wrote t fs res fs' \<and> rc_Outcome res \<noteq> OutcomeRejected) \<and>
    (calm fs \<and> fs_dir fs QueuesDir ?cand = None \<and> fs_dir fs QueuesDir ?tmp = None \<and> tmpFree t sfx2 fs \<longrightarrow> Committed res)"
  proof (cases "e1 = None \<and> e2 = None")
    case False
    have "(e1 \<noteq> None \<and> fs' = fs1 \<or> e2 \<noteq> None \<and> e1 = None \<and> fs' = fs2) \<and> (\<exists>err. res = replacementFailure i OutcomeNotCommitted err)"
      using r p 1 2 False by (cases e1; cases e2) (auto simp: writeReplacement_def Let_def)
    moreover have "calm fs \<Longrightarrow> fs_dir fs QueuesDir ?cand = None \<Longrightarrow> e1 = None \<and> e2 = None"
      using q1 durableFile_calm [OF quiet_calm [OF q1(1)] _ 2] by (auto simp: quiet_def)
    ultimately show ?thesis using g1 g2 mono(1) w1 w2 False by (auto intro!: wrote_failure)
  next
    case True
    then have cand: "fs_dir fs2 QueuesDir ?cand = Some (File ?new True)" using s2 by blast
    have inst: "(fs_dir fs2 QueuesDir)(?tmp := f, ?path \<mapsto> File ib True) \<in> ?A1 QueuesDir" for f
      using u2 cand neq tx_names [OF v] by (auto simp: tx_states t replaceIntentPath_def replaceIntentSuffix_def)
    have s3: "stays ?A1 fs2 fs3 \<and> frame QueuesDir {?path, ?tmp} fs2 fs3
      \<and> (st = noReplaceInstalled \<longrightarrow> fs_dir fs3 QueuesDir ?path = Some (File ib True))
      \<and> (st = noReplaceNotInstalled \<or> st = noReplaceRefused \<longrightarrow> fs_dir fs3 QueuesDir ?path = None)"
      using durableNoReplace_absent [OF mono(1) [OF w2] free candidate_closed(2) [OF v t] inst 3] by blast
    have w3: "within ?A1 fs3" using s3 by (blast intro: stays_within)
    have g3: "guarded (recoverable t) fs fs3"
      using g2 stays_guarded [OF conjunct1 [OF s3] A] by (rule guarded_trans)
    have d3: "fs_dir fs3 QueuesDir \<in> untouched t \<union> prepared t" using w3 by (metis area_simps(1) within_def)
    have run: "writeReplacement C None newTx newSuccessor sfx1 sfx2 plan fs =
       (let fail = (\<lambda>outcome what e. replacementFailure i outcome (Some (wrapErr what e))) in
        case st of
          noReplaceNotInstalled \<Rightarrow> (let (c, fs4) = op_remove QueuesDir ?cand fs3 in
             (fail OutcomeNotCommitted ''replace intent'' (orText (joinErrs [err, toErr c])), fs4))
        | noReplaceRefused \<Rightarrow> (let (c, fs4) = op_remove QueuesDir ?cand fs3 in
             (fail OutcomeCommitIndeterminate ''replace intent refused'' (orText (joinErrs [err, toErr c])), fs4))
        | noReplaceIndeterminate \<Rightarrow> (fail OutcomeCommitIndeterminate ''replace intent indeterminate'' (orText err), fs3)
        | noReplaceInstalled \<Rightarrow> renameCandidate C sfx2 (ri_NormalizedName i) i fs3)"
      using p 1 2 3 True by (simp add: writeReplacement_def name Let_def split: noReplaceState.split)
    have calm3: "st = noReplaceInstalled \<and> calm fs3" if "calm fs" "fs_dir fs QueuesDir ?cand = None" "fs_dir fs QueuesDir ?tmp = None"
    proof -
      have "calm fs2" using durableFile_calm [OF quiet_calm [OF q1(1) that(1)] _ 2] that(2) q1(1) by (simp add: quiet_def)
      moreover have "fs_dir fs2 QueuesDir ?tmp = None"
        using s2 that(3) q1(1) tx_names [OF v] by (auto simp: frame_def quiet_def replaceIntentPath_def replaceIntentSuffix_def)
      ultimately show ?thesis using durableNoReplace_calm [OF _ free _ 3] by blast
    qed
    show ?thesis
    proof (cases "st = noReplaceInstalled")
      case installed: True
      then have n3: "fs_dir fs3 QueuesDir \<in> prepared t" using d3 s3 by (auto simp: untouched_def noI_def t)
      have "renameCandidate C sfx2 (ri_NormalizedName i) i fs3 = (res, fs')" using r run installed by simp
      note rw = renameCandidate_wrote [OF b t w3 n3 this]
      have "fs_dir fs3 d = fs_dir fs d" if "d \<noteq> QueuesDir" for d
        using that s3 s2 q1(1) by (auto simp: frame_def quiet_def)
      then have "tmpFree t sfx2 fs3 \<longleftrightarrow> tmpFree t sfx2 fs" by (intro tmpFree_receipts [OF _ t])
      then show ?thesis using rw wrote_before [OF g3] calm3 by blast
    next
      case False
      then have nc: "\<not> (calm fs \<and> fs_dir fs QueuesDir ?cand = None \<and> fs_dir fs QueuesDir ?tmp = None)" using calm3 by blast
      show ?thesis
      proof (cases "st = noReplaceIndeterminate")
        case True
        then show ?thesis using r run g3 nc by (auto simp: Let_def intro!: wrote_failure)
      next
        case ni: False
        obtain x fs4 where x: "op_remove QueuesDir ?cand fs3 = (x, fs4)" by fastforce
        have "fs_dir fs3 QueuesDir \<in> untouched t"
          using False ni s3 d3 by (cases st) (auto simp: prepared_def hasI_def t)
        then have "(fs_dir fs3 QueuesDir)(?cand := None) \<in> untouched t \<union> prepared t"
          using neq by (auto simp: untouched_def oldC_def noI_def t)
        note s4 = op_remove_spec [OF w3 this x]
        have g4: "guarded (recoverable t) fs fs4"
          using g3 stays_guarded [OF conjunct1 [OF s4] A] by (rule guarded_trans)
        have w4: "within ?A1 fs4" using s4 by (blast intro: stays_within)
        have "fs' = fs4 \<and> (\<exists>outcome e. outcome \<in> {OutcomeNotCommitted, OutcomeCommitIndeterminate} \<and> res = replacementFailure i outcome e)"
          using r run False ni x by (cases st) (auto simp: Let_def)
        then show ?thesis using nc w4 g4 by (auto intro!: wrote_failure)
      qed
    qed
  qed
  then show "wrote t fs res fs' \<and> rc_Outcome res \<noteq> OutcomeRejected"
    and "calm fs \<Longrightarrow> fs_dir fs QueuesDir ?cand = None \<Longrightarrow> fs_dir fs QueuesDir ?tmp = None \<Longrightarrow> tmpFree t sfx2 fs \<Longrightarrow> Committed res"
    by blast+
qed

section \<open>A concrete instance\<close>

text \<open>A codec that satisfies the laws the properties name, and the replacement of \<open>O\<close> by \<open>N\<close>.\<close>

definition wit_codec_queue :: Queue where
  "wit_codec_queue = zeroQueue\<lparr>queue_SchemaVersion := 1, queue_QueueID := ''i'', queue_Name := ''q''\<rparr>"

definition wit_digest :: "bytes \<Rightarrow> bytes" where
  "wit_digest b = replicate 32 (case b of [] \<Rightarrow> CHR ''a'' | c # _ \<Rightarrow> c)"

definition wit_intent :: ReplaceIntentV1 where
  "wit_intent = \<lparr>ri_SchemaVersion = 1, ri_TransactionID = ''t'', ri_OperationKind = OperationSubmit,
     ri_NormalizedName = ''q'', ri_QueueID = ''i'', ri_CanonicalBasename = ''q.json'',
     ri_PriorState = hexEncode (wit_digest ''O''), ri_CandidateSHA256 = hexEncode (wit_digest ''N''),
     ri_CandidateTempBasename = ''q.candidate-t'', ri_WakeRequired = True, ri_CompletionReceiptBinding = None,
     ri_FailedRecoveryReceiptBinding = None, ri_ArchiveHandoffBinding = None\<rparr>"

definition wit_codec :: Codec where
  "wit_codec = \<lparr>cd_uuidParse = (\<lambda>s. Some (s, 7)), cd_sha256 = wit_digest, cd_base64 = id, cd_unbase64 = Inr,
     cd_queueJSON = (\<lambda>q. Inr (if queue_Workers q = 0 then ''O'' else ''N'')),
     cd_queue = (\<lambda>b. Inr wit_codec_queue), cd_queueErr = (\<lambda>e. ''bad''),
     cd_intentJSON = (\<lambda>i. ''I''), cd_intent = (\<lambda>b. Inr wit_intent),
     cd_receiptJSON = (\<lambda>r. ''R''), cd_receipt = (\<lambda>b. Inl ''bad''), cd_failedJSON = (\<lambda>r. ''F''), cd_failed = (\<lambda>b. Inl ''bad''),
     cd_archiveJSON = (\<lambda>r. ''A''), cd_archive = (\<lambda>b. Inl ''bad''), cd_markerJSON = (\<lambda>r. ''M''), cd_marker = (\<lambda>b. Inl ''bad''),
     cd_formatTime = (\<lambda>t. []), cd_parseTime = (\<lambda>s. None), cd_quote = id\<rparr>"

definition wit_replacement :: ReplacementPlan where
  "wit_replacement = \<lparr>rp_TransactionID = ''t'', rp_OperationKind = OperationSubmit, rp_NormalizedName = ''q'',
     rp_QueueID = ''i'', rp_PriorBytes = Some ''O'', rp_CandidateBytes = ''N'', rp_WakeRequired = True,
     rp_ArchiveHandoff = None, rp_FailedRecoveryReceiptBinding = None, rp_CompletionReceiptBinding = None\<rparr>"

definition wit_disk :: "dirId \<Rightarrow> ns" where
  "wit_disk = (\<lambda>d. Map.empty)(QueuesDir := [''q.json'' \<mapsto> File ''O'' True])"

definition wit_boot :: "(nat \<Rightarrow> fault) \<Rightarrow> (dirId \<Rightarrow> ns) \<Rightarrow> FS" where
  "wit_boot faults m = \<lparr>fs_dir = m, fs_pend = (\<lambda>d. [m d]), fs_snaps = [], fs_faults = faults, fs_now = 0\<rparr>"

definition wit_write :: "(nat \<Rightarrow> fault) \<Rightarrow> ReplacementCommit \<times> FS" where
  "wit_write faults = writeReplacement wit_codec None (Inr []) (Inr []) ''x'' ''y'' wit_replacement (wit_boot faults wit_disk)"

lemma wit_prepared: "prepareReplacement wit_codec (Inr []) (Inr []) wit_replacement = Inr (wit_intent, ''I'')"
proof -
  have digests: "digestHex wit_codec ''O'' = hexEncode (wit_digest ''O'')" "digestHex wit_codec ''N'' = hexEncode (wit_digest ''N'')"
    by (simp_all add: digestHex_def wit_codec_def)
  have valid: "validSHA256 (hexEncode (wit_digest b))" for b
    by (simp add: validSHA256_hexEncode wit_digest_def)
  have queue: "UnmarshalText wit_codec (validateUUIDv7 wit_codec) b = Inr wit_codec_queue" for b
    by (simp add: UnmarshalText_def UnmarshalQueue_def wit_codec_def wit_codec_queue_def zeroQueue_def schemaVersion_def)
  have name: "ValidateQueueName ''q'' = (True, [])" by code_simp
  have uuid: "validateUUIDv7 wit_codec v" for v by (simp add: validateUUIDv7_def wit_codec_def)
  have "cd_intentJSON wit_codec i = ''I''" for i by (simp add: wit_codec_def)
  then show ?thesis
    by (simp add: prepareReplacement_def prepareReplacementWithIDs_def wit_replacement_def validateArchiveOperationCoupling_def
        validateCancellationCoupling_def validateFailedRecoveryPlan_def validateCompletionPlan_def prepareArchiveHandoff_def
        validateReplaceIntent_def validReplaceIntentEnvelope_def validOperationKind_def validateFailedRecoveryIntentCoupling_def
        validateCompletionIntentCoupling_def validateArchiveHandoff_def NormaliseQueueName_def maxQueueFileBytes_def
        orFail_def andThen_def wit_codec_queue_def zeroQueue_def digests valid queue [unfolded wit_codec_queue_def zeroQueue_def] name uuid wit_intent_def)
qed

lemma wit_restarted: "restarted m (wit_boot faults m)"
  by (simp add: restarted_def wit_boot_def)

lemma wit_name: "NormaliseQueueName (rp_NormalizedName wit_replacement) = rp_NormalizedName wit_replacement"
  by (simp add: wit_replacement_def NormaliseQueueName_def)

abbreviation wit_tx :: Tx where
  "wit_tx \<equiv> txOf wit_codec (rp_PriorBytes wit_replacement) (rp_CandidateBytes wit_replacement) wit_intent ''I''"

lemma wit_untouched: "\<forall>d. wit_disk d \<in> area (untouched wit_tx) (receiptAbsent wit_tx) d"
  by (simp add: area_all wit_disk_def tx_states receiptAbsent_def txOf_def receiptOf_def wit_intent_def wit_replacement_def
      replaceIntentPath_def replaceIntentSuffix_def)

lemma wit_distinct: "digestHex wit_codec ''O'' \<noteq> digestHex wit_codec ''N''"
proof -
  have second: "digestHex wit_codec [c] ! 1 = hexDigit (of_char c mod 16)" for c
  proof -
    have "wit_digest [c] = c # replicate 31 c" by (simp add: wit_digest_def flip: replicate_Suc)
    then show ?thesis by (simp add: digestHex_def wit_codec_def hexEncode_def)
  qed
  have "hexDigit (of_char (CHR ''O'') mod 16) \<noteq> hexDigit (of_char (CHR ''N'') mod 16)" by code_simp
  then show ?thesis using second by metis
qed

lemma wit_tmpFree: "tmpFree wit_tx sfx fs"
  by (simp add: tmpFree_def txOf_def receiptOf_def wit_intent_def)

section \<open>What recovery answers\<close>

text \<open>What a crash may leave of a run from \<open>fs\<close> to \<open>fs'\<close>, at any moment of it or after it.\<close>

definition crashLeaves :: "FS \<Rightarrow> FS \<Rightarrow> (dirId \<Rightarrow> ns) \<Rightarrow> bool" where
  "crashLeaves fs fs' m \<longleftrightarrow>
     (\<exists>new s. fs_snaps fs' = new @ fs_snaps fs \<and> s \<in> set new \<and> (\<forall>d. m d \<in> set (s d)))
     \<or> (\<forall>d. m d \<in> insert (fs_dir fs' d) (set (fs_pend fs' d)))"

lemma guarded_crash: "guarded J fs fs' \<Longrightarrow> crashLeaves fs fs' m \<Longrightarrow> J m"
  unfolding guarded_def crashLeaves_def by (metis append_same_eq)

text \<open>
  The answer of a recovery without faults to the files \<open>m\<close>. It settles the transaction, unless the
  intent hands its queue over to an archive: such an intent, which a cancellation leaves on purpose,
  is refused, and every file stays as it is.
\<close>

definition answered :: "Tx \<Rightarrow> ReplaceIntentV1 \<Rightarrow> (dirId \<Rightarrow> ns) \<Rightarrow> ReplaceIntentRecovery option \<Rightarrow> FS \<Rightarrow> bool" where
  "answered t i m res fs' \<longleftrightarrow>
     (if ri_ArchiveHandoffBinding i = None
      then within (area (untouched t) (receiptAbsent t)) fs' \<or> within (area (cleaned t \<union> released t) (receiptExact t)) fs'
      else (\<forall>d. fs_dir fs' d = m d) \<and>
        (if hasI t (m QueuesDir)
         then \<exists>r. res = Some r \<and> rir_Action r = ReplaceRefuse \<and> rir_Err r = Some
           ''queue: leftover archive-handoff intent needs the linked-handoff continuation, which is not wired''
         else res = None))"

lemma recoverable_intent: "recoverable t m \<Longrightarrow> hasI t (m QueuesDir) \<or> noI t (m QueuesDir)"
  by (auto simp: recoverable_def area_all tx_states)

lemma recoverable_settled:
  "recoverable t m \<Longrightarrow> noI t (m QueuesDir) \<Longrightarrow>
    (\<forall>d. m d \<in> area (untouched t) (receiptAbsent t) d) \<or> (\<forall>d. m d \<in> area (cleaned t \<union> released t) (receiptExact t) d)"
  unfolding recoverable_def area_all by (auto simp: prepared_def rolledBack_def renamedTx_def unlinked_def noI_def hasI_def)

text \<open>A handoff intent is refused, whatever fails: nothing on disk is touched.\<close>

lemma handoff_refused:
  assumes b: "bound C prior new i ib" and dec: "cd_intent C ib = Inr i" and ah: "ri_ArchiveHandoffBinding i \<noteq> None"
    and t: "t = txOf C prior new i ib" and m: "recoverable t m" "restarted m fs"
    and r: "recoverOneIntentFile C sfx (txBase i) fs = (res, fs')"
  shows "guarded (recoverable t) fs fs'" and "calm fs \<Longrightarrow> answered t i m res fs'"
proof -
  have w: "within (area {m QueuesDir} (\<lambda>d. {m d})) fs" by (rule restarted_within [OF m(2)]) (simp add: area_def)
  have J: "recoverable t m'" if "\<forall>d. m' d \<in> area {m QueuesDir} (\<lambda>d. {m d}) d" for m'
  proof -
    have "m' d = m d" for d using that [rule_format, of d] by (cases "d = QueuesDir") (simp_all add: area_def)
    then have "m' = m" by (rule ext)
    then show ?thesis using m(1) by simp
  qed
  have base: "trimSuffix (txBase i) replaceIntentSuffix = ri_NormalizedName i"
    by (simp add: txBase_def replaceIntentPath_def trimSuffix_append)
  have dsk: "disk fs QueuesDir (txBase i) = map_option content (m QueuesDir (tx_intent t))"
    by (simp add: disk_area [OF w] txBase_def t)
  have "guarded (recoverable t) fs fs' \<and> (calm fs \<longrightarrow> answered t i m res fs')"
    using w r [unfolded recoverOneIntentFile_def Let_def]
  proof (cases rule: reading_cases)
    case (bad e)
    then show ?thesis using guarded_quiet [OF bad(2) J] by simp
  next
    case (ok fs1)
    have keep: "fs_dir fs1 d = m d" for d using ok(1) m(2) by (simp add: quiet_def restarted_def)
    have fin: "fs' = fs1 \<and> (noI t (m QueuesDir) \<longrightarrow> res = None) \<and> (hasI t (m QueuesDir) \<longrightarrow>
        (\<exists>r. res = Some r \<and> rir_Action r = ReplaceRefuse \<and> rir_Err r = Some
           ''queue: leftover archive-handoff intent needs the linked-handoff continuation, which is not wired''))"
      using recoverable_intent [OF m(1)] ok(2) dsk decode_bound [OF b dec] ah
      by (auto simp: noI_def hasI_def t base split: if_splits)
    then show ?thesis using guarded_quiet [OF ok(1) J] keep ah recoverable_intent [OF m(1)] by (auto simp: answered_def noI_def hasI_def)
  qed
  then show "guarded (recoverable t) fs fs'" and "calm fs \<Longrightarrow> answered t i m res fs'" by blast+
qed

lemma recovery_answers:
  assumes b: "bound C prior new i ib" and dec: "cd_intent C ib = Inr i" and t: "t = txOf C prior new i ib"
    and nc: "\<forall>p. prior = Some p \<longrightarrow> digestHex C p = digestHex C new \<longrightarrow> p = new"
    and m: "recoverable t m" "restarted m fs"
    and r: "recoverOneIntentFile C sfx (txBase i) fs = (res, fs')"
  shows "guarded (recoverable t) fs fs'" and "calm fs \<Longrightarrow> tmpFree t sfx fs \<Longrightarrow> answered t i m res fs'"
proof -
  have "guarded (recoverable t) fs fs' \<and> (calm fs \<longrightarrow> tmpFree t sfx fs \<longrightarrow> answered t i m res fs')"
  proof (cases "ri_ArchiveHandoffBinding i = None")
    case False
    then show ?thesis using handoff_refused [OF b dec False t m r] by blast
  next
    case ah: True
    note s = recoverOneIntentFile_recovers [OF b dec ah t nc m r]
    have "answered t i m res fs'" if fs: "calm fs" "tmpFree t sfx fs" using s(3) [OF fs]
    proof
      assume "\<exists>rr. res = Some rr \<and> Resolved rr"
      then obtain rr where rr: "res = Some rr" "Resolved rr" by blast
      have "settledBy t (rir_Action rr) fs'" by (rule s(2) [OF rr])
      then show ?thesis using ah by (cases "rir_Action rr") (auto simp: settledBy_def answered_def)
    next
      assume a: "m QueuesDir \<in> untouched t \<union> cleaned t \<union> released t \<and> res = None \<and> fs_dir fs' = fs_dir fs \<and> fs_pend fs' = fs_pend fs"
      then have no: "noI t (m QueuesDir)" by (auto simp: untouched_def cleaned_def released_def)
      have keep: "within A fs'" if "\<forall>d. m d \<in> A d" for A
        using restarted_within [OF m(2), of A] that a by (simp add: within_def)
      show ?thesis using recoverable_settled [OF m(1) no] keep ah by (auto simp: answered_def)
    qed
    then show ?thesis using s(1) by blast
  qed
  then show "guarded (recoverable t) fs fs'" and "calm fs \<Longrightarrow> tmpFree t sfx fs \<Longrightarrow> answered t i m res fs'" by blast+
qed

section \<open>Properties\<close>

text \<open>
  C3. A replacement is written crash-safely. Whatever operations fail and wherever the process dies,
  the files left are the old file whole with no receipt, or the candidate in place with the intent
  still there and the receipt absent or exact; and when the intent decodes and the two contents have
  distinct digests, one recovery without a fault answers every such leftover: it settles the
  transaction, except that the intent of an archive handoff, as a cancellation writes, is refused and
  left with its files for the operator. The reported outcome is true: a rejected write touched
  nothing, one reported as not committed has left the old file, and one reported as committed has the
  new file durable together with its receipt. Without a fault, and with the temporary names free, the
  write commits.
\<close>
theorem writeReplacement_crash_safe:
  assumes "prepareReplacement C newTx newSuccessor plan = Inr (i, ib)"
    and "NormaliseQueueName (rp_NormalizedName plan) = rp_NormalizedName plan"
    and "t = txOf C (rp_PriorBytes plan) (rp_CandidateBytes plan) i ib"
    and "within (area (untouched t) (receiptAbsent t)) fs"
    and "writeReplacement C ctxErr newTx newSuccessor sfx1 sfx2 plan fs = (res, fs')"
  shows "guarded (recoverable t) fs fs'
     \<and> (cd_intent C ib = Inr i
        \<and> (\<forall>p. rp_PriorBytes plan = Some p \<longrightarrow> digestHex C p = digestHex C (rp_CandidateBytes plan) \<longrightarrow> p = rp_CandidateBytes plan)
        \<longrightarrow> (\<forall>m fs1 sfx. crashLeaves fs fs' m \<and> restarted m fs1 \<and> calm fs1 \<and> tmpFree t sfx fs1
              \<longrightarrow> (case recoverOneIntentFile C sfx (txBase i) fs1 of (r, fs2) \<Rightarrow> answered t i m r fs2)))
     \<and> (rc_Outcome res = OutcomeRejected \<longleftrightarrow> ctxErr \<noteq> None) \<and> (rc_Outcome res = OutcomeRejected \<longrightarrow> fs' = fs)
     \<and> (rc_Outcome res = OutcomeNotCommitted \<longrightarrow> within (area (untouched t \<union> prepared t) (receiptAbsent t)) fs')
     \<and> (Committed res \<longrightarrow> within (area (renamedTx t) (receiptExact t)) fs')
     \<and> (calm fs \<and> ctxErr = None \<and> fs_dir fs QueuesDir (ri_CandidateTempBasename i) = None
        \<and> fs_dir fs QueuesDir (replaceIntentPath (ri_NormalizedName i) @ ''.tmp-'' @ sfx1) = None \<and> tmpFree t sfx2 fs
        \<longrightarrow> Committed res)"
proof -
  have g: "guarded (recoverable t) fs fs'"
  proof (cases ctxErr)
    case None
    then show ?thesis using writeReplacement_prepared(1) [OF assms(1-4) assms(5) [unfolded None]] by (simp add: wrote_def)
  next
    case (Some e)
    then have "fs' = fs" using writeReplacement_unprepared [OF _ assms(5)] by blast
    then show ?thesis
      using assms(4) rec_before by (auto simp: area_all intro: guarded_quiet [of "area (untouched t) (receiptAbsent t)"])
  qed
  note b = prepareReplacement_bound(1) [OF assms(1)]
  have recovered: "case recoverOneIntentFile C sfx (txBase i) fs1 of (r, fs2) \<Rightarrow> answered t i m r fs2"
    if "cd_intent C ib = Inr i"
      "\<forall>p. rp_PriorBytes plan = Some p \<longrightarrow> digestHex C p = digestHex C (rp_CandidateBytes plan) \<longrightarrow> p = rp_CandidateBytes plan"
      "crashLeaves fs fs' m" "restarted m fs1" "calm fs1" "tmpFree t sfx fs1" for m fs1 sfx
    by (cases "recoverOneIntentFile C sfx (txBase i) fs1")
       (simp add: recovery_answers(2) [OF b that(1) assms(3) that(2) guarded_crash [OF g that(3)] that(4) _ that(5,6)])
  show ?thesis
  proof (cases ctxErr)
    case None
    note w = writeReplacement_prepared [OF assms(1-4) assms(5) [unfolded None]]
    then show ?thesis using None g recovered by (simp add: wrote_def)
  next
    case (Some e)
    then have "fs' = fs" "rc_Outcome res = OutcomeRejected" using writeReplacement_unprepared [OF _ assms(5)] by blast+
    then show ?thesis using Some g recovered by (simp add: Committed_def)
  qed
qed

theorem writeReplacement_crash_safe_witness:
  "guarded (recoverable wit_tx) (wit_boot (\<lambda>k. if k = 4 then FailsAfter else Works) wit_disk)
     (snd (wit_write (\<lambda>k. if k = 4 then FailsAfter else Works)))
   \<and> Committed (fst (wit_write (\<lambda>k. Works)))"
proof -
  have w: "within (area (untouched wit_tx) (receiptAbsent wit_tx)) (wit_boot f wit_disk)" for f
    using wit_untouched by (intro restarted_within [OF wit_restarted]) blast
  have r: "writeReplacement wit_codec None (Inr []) (Inr []) ''x'' ''y'' wit_replacement (wit_boot f wit_disk) =
      (fst (wit_write f), snd (wit_write f))" for f
    by (simp add: wit_write_def)
  note safe = writeReplacement_crash_safe [OF wit_prepared wit_name refl w r]
  have "calm (wit_boot (\<lambda>k. Works) wit_disk)" by (simp add: calm_def wit_boot_def)
  moreover have "fs_dir (wit_boot f wit_disk) QueuesDir (ri_CandidateTempBasename wit_intent) = None"
    "fs_dir (wit_boot f wit_disk) QueuesDir (replaceIntentPath (ri_NormalizedName wit_intent) @ ''.tmp-'' @ ''x'') = None" for f
    by (simp_all add: wit_boot_def wit_disk_def wit_intent_def replaceIntentPath_def replaceIntentSuffix_def)
  moreover note safe [THEN conjunct2, THEN conjunct2, THEN conjunct2, THEN conjunct2, THEN conjunct2, THEN conjunct2, of "\<lambda>k. Works"]
  ultimately have "Committed (fst (wit_write (\<lambda>k. Works)))" using wit_tmpFree by simp
  then show ?thesis using conjunct1 [OF safe] by blast
qed

section \<open>Crashes and restarts\<close>

text \<open>
  The disks a project can find at a start after the write of a replacement was begun: the write
  crashed, or a recovery of it did, any number of times, each under any faults.
\<close>

inductive outage :: "Codec \<Rightarrow> ReplacementPlan \<Rightarrow> ReplaceIntentV1 \<Rightarrow> (dirId \<Rightarrow> ns) \<Rightarrow> (dirId \<Rightarrow> ns) \<Rightarrow> bool"
  for C plan i m0 where
  written: "restarted m0 fs \<Longrightarrow> writeReplacement C ctxErr newTx newSuccessor sfx1 sfx2 plan fs = (res, fs') \<Longrightarrow>
     prepareReplacement C newTx newSuccessor plan = Inr (i, cd_intentJSON C i) \<Longrightarrow>
     crashLeaves fs fs' m \<Longrightarrow> outage C plan i m0 m"
| recovered: "outage C plan i m0 m \<Longrightarrow> restarted m fs \<Longrightarrow> recoverOneIntentFile C sfx (txBase i) fs = (r, fs') \<Longrightarrow>
     crashLeaves fs fs' m' \<Longrightarrow> outage C plan i m0 m'"

lemma outage_prepared:
  "outage C plan i m0 m \<Longrightarrow> \<exists>newTx newSuccessor. prepareReplacement C newTx newSuccessor plan = Inr (i, cd_intentJSON C i)"
  by (induction rule: outage.induct) blast+

lemma outage_recoverable:
  assumes "outage C plan i m0 m" and t: "t = txOf C (rp_PriorBytes plan) (rp_CandidateBytes plan) i (cd_intentJSON C i)"
    and nm: "NormaliseQueueName (rp_NormalizedName plan) = rp_NormalizedName plan"
    and dec: "cd_intent C (cd_intentJSON C i) = Inr i"
    and nc: "\<forall>p. rp_PriorBytes plan = Some p \<longrightarrow> digestHex C p = digestHex C (rp_CandidateBytes plan) \<longrightarrow> p = rp_CandidateBytes plan"
    and m0: "\<forall>d. m0 d \<in> area (untouched t) (receiptAbsent t) d"
  shows "recoverable t m"
  using assms(1)
proof (induction rule: outage.induct)
  case (written fs ctxErr newTx newSuccessor sfx1 sfx2 res fs' m)
  have "within (area (untouched t) (receiptAbsent t)) fs" using m0 by (intro restarted_within [OF written(1)]) blast
  then have "guarded (recoverable t) fs fs'" using writeReplacement_prepared(1) [OF written(3) nm t]
      writeReplacement_unprepared [OF _ written(2)] restarted_guarded [OF written(1)] m0 rec_before written(2)
    by (cases ctxErr) (auto simp: wrote_def area_all)
  then show ?case using written(4) by (rule guarded_crash)
next
  case (recovered m fs sfx r fs' m')
  obtain newTx newSuccessor where "prepareReplacement C newTx newSuccessor plan = Inr (i, cd_intentJSON C i)"
    using outage_prepared [OF recovered(1)] by blast
  note b = prepareReplacement_bound(1) [OF this]
  show ?case
    by (rule guarded_crash [OF recovery_answers(1) [OF b dec t nc recovered(5) recovered(2,3)] recovered(4)])
qed

lemma handoff_kind: "validateReplaceIntent C i = None \<Longrightarrow> ri_ArchiveHandoffBinding i \<noteq> None \<Longrightarrow> ri_CompletionReceiptBinding i = None"
  by (auto simp: validateReplaceIntent_def validateCompletionIntentCoupling_def andThen_def split: if_splits option.splits)

text \<open>
  C2. A replacement is atomic across crashes. After a write that crashed at any moment under any
  faults, and any number of recoveries that crashed or failed in their turn, one recovery without a
  fault leaves, for a plan without an archive handoff, either exactly the old file with no intent and
  no receipt, or the new file installed (for a completion: the queue file gone) with its exact receipt,
  and no intent. A plan with an archive handoff, which is what a cancellation writes, is not resolved:
  if its intent is there the recovery refuses it and leaves every file as it is, which is the old file
  whole or the new one whole, beside the intent. The laws used of the libraries are that the written
  intent decodes, and that the two contents have distinct digests.
\<close>

theorem replacement_atomic:
  assumes out: "outage C plan i m0 m" and t: "t = txOf C (rp_PriorBytes plan) (rp_CandidateBytes plan) i (cd_intentJSON C i)"
    and nm: "NormaliseQueueName (rp_NormalizedName plan) = rp_NormalizedName plan"
    and dec: "cd_intent C (cd_intentJSON C i) = Inr i"
    and nc: "\<forall>p. rp_PriorBytes plan = Some p \<longrightarrow> digestHex C p = digestHex C (rp_CandidateBytes plan) \<longrightarrow> p = rp_CandidateBytes plan"
    and m0: "\<forall>d. m0 d \<in> area (untouched t) (receiptAbsent t) d"
    and fs: "restarted m fs" "calm fs" "tmpFree t sfx fs"
    and r: "recoverOneIntentFile C sfx (txBase i) fs = (res, fs')"
  shows "(ri_ArchiveHandoffBinding i = None \<longrightarrow>
        within (area (untouched t) (receiptAbsent t)) fs' \<or> within (area (cleaned t \<union> released t) (receiptExact t)) fs')
    \<and> (ri_ArchiveHandoffBinding i \<noteq> None \<longrightarrow> (\<forall>d. fs_dir fs' d = m d) \<and> (oldC t (m QueuesDir) \<or> newC t (m QueuesDir))
        \<and> (if hasI t (m QueuesDir) then \<exists>rr. res = Some rr \<and> rir_Action rr = ReplaceRefuse \<and> rir_Err rr \<noteq> None else res = None))"
proof -
  obtain newTx newSuccessor where "prepareReplacement C newTx newSuccessor plan = Inr (i, cd_intentJSON C i)"
    using outage_prepared [OF out] by blast
  note b = prepareReplacement_bound(1) [OF this]
  have rec: "recoverable t m" by (rule outage_recoverable [OF out t nm dec nc m0])
  then have "oldC t (m QueuesDir) \<or> newC t (m QueuesDir) \<or> tx_kind t = CompletionTx"
    by (auto simp: recoverable_def area_all tx_states)
  moreover have "tx_kind t \<noteq> CompletionTx" if "ri_ArchiveHandoffBinding i \<noteq> None"
    using handoff_kind [of C i] b that by (simp add: bound_def t txOf_def)
  ultimately have files: "oldC t (m QueuesDir) \<or> newC t (m QueuesDir)" if "ri_ArchiveHandoffBinding i \<noteq> None"
    using that by blast
  show ?thesis
    using recovery_answers(2) [OF b dec t nc rec fs(1) r fs(2,3)] files by (cases "ri_ArchiveHandoffBinding i = None") (auto simp: answered_def split: if_splits)
qed

theorem replacement_atomic_witness:
  "within (area (untouched wit_tx) (receiptAbsent wit_tx))
     (snd (recoverOneIntentFile wit_codec ''z'' (txBase wit_intent)
       (wit_boot (\<lambda>k. Works) (fs_dir (snd (wit_write (\<lambda>k. if k = 12 then FailsAfter else Works)))))))
   \<or> within (area (cleaned wit_tx \<union> released wit_tx) (receiptExact wit_tx))
     (snd (recoverOneIntentFile wit_codec ''z'' (txBase wit_intent)
       (wit_boot (\<lambda>k. Works) (fs_dir (snd (wit_write (\<lambda>k. if k = 12 then FailsAfter else Works)))))))"
proof -
  let ?f = "\<lambda>k. if k = 12 then FailsAfter else Works"
  let ?m = "fs_dir (snd (wit_write ?f))"
  have json: "cd_intentJSON wit_codec wit_intent = ''I''" "cd_intent wit_codec (cd_intentJSON wit_codec wit_intent) = Inr wit_intent"
    by (simp_all add: wit_codec_def)
  have out: "outage wit_codec wit_replacement wit_intent wit_disk ?m"
    by (rule outage.written [OF wit_restarted [of wit_disk ?f], of _ None "Inr []" "Inr []" "''x''" "''y''" _ "fst (wit_write ?f)" "snd (wit_write ?f)"])
       (simp_all add: wit_write_def wit_prepared json crashLeaves_def)
  have nc: "\<forall>p. rp_PriorBytes wit_replacement = Some p \<longrightarrow> digestHex wit_codec p = digestHex wit_codec (rp_CandidateBytes wit_replacement)
      \<longrightarrow> p = rp_CandidateBytes wit_replacement"
    using wit_distinct by (simp add: wit_replacement_def)
  have ah: "ri_ArchiveHandoffBinding wit_intent = None" by (simp add: wit_intent_def)
  have calm: "calm (wit_boot (\<lambda>k. Works) ?m)" by (simp add: calm_def wit_boot_def)
  show ?thesis
    by (rule replacement_atomic [OF out refl wit_name json(2) nc _ wit_restarted calm _ surjective_pairing, unfolded json(1),
          THEN conjunct1, rule_format, OF _ _ ah])
       (use wit_untouched wit_tmpFree in blast)+
qed

section \<open>The round trip of the intent\<close>

text \<open>
  C16. A replace intent survives its file. For an intent the JSON functions return unchanged, the
  strict decoder reads it back from exactly one content, its own bytes, and only when it is valid;
  and the bytes a replacement is prepared with decode to the prepared intent, which names the
  canonical file, the digest of the candidate and the state of the prior content.
\<close>

theorem intent_roundtrip:
  assumes law: "cd_intent C (cd_intentJSON C i) = Inr i"
  shows "(decodeReplaceIntent C data = Inr i \<longleftrightarrow> data = cd_intentJSON C i \<and> validateReplaceIntent C i = None)
    \<and> (prepareReplacement C newTx newSuccessor plan = Inr (i, ib) \<longrightarrow>
        decodeReplaceIntent C ib = Inr i \<and> ri_CanonicalBasename i = queuePath (ri_NormalizedName i)
        \<and> ri_CandidateSHA256 i = digestHex C (rp_CandidateBytes plan) \<and> priorMatches C (ri_PriorState i) (rp_PriorBytes plan))"
proof (intro conjI impI)
  show "decodeReplaceIntent C data = Inr i \<longleftrightarrow> data = cd_intentJSON C i \<and> validateReplaceIntent C i = None"
    using law by (auto simp: decodeReplaceIntent_def orFail_def split: sum.splits option.splits if_splits)
  assume "prepareReplacement C newTx newSuccessor plan = Inr (i, ib)"
  then have b: "bound C (rp_PriorBytes plan) (rp_CandidateBytes plan) i ib" by (rule prepareReplacement_bound)
  then show "decodeReplaceIntent C ib = Inr i" using law by (intro decode_bound [OF b]) (simp add: bound_def)
  show "ri_CanonicalBasename i = queuePath (ri_NormalizedName i)" "ri_CandidateSHA256 i = digestHex C (rp_CandidateBytes plan)"
    "priorMatches C (ri_PriorState i) (rp_PriorBytes plan)"
    using b tx_names(1) by (auto simp: bound_def queuePath_def)
qed

theorem intent_roundtrip_witness:
  "decodeReplaceIntent wit_codec (cd_intentJSON wit_codec wit_intent) = Inr wit_intent
   \<and> ri_CandidateSHA256 wit_intent = digestHex wit_codec ''N''"
proof -
  have "cd_intent wit_codec (cd_intentJSON wit_codec wit_intent) = Inr wit_intent" "cd_intentJSON wit_codec wit_intent = ''I''"
    "rp_CandidateBytes wit_replacement = ''N''" by (simp_all add: wit_codec_def wit_replacement_def)
  then show ?thesis using intent_roundtrip [of wit_codec wit_intent "''I''" "Inr []" "Inr []" wit_replacement "''I''"] wit_prepared by simp
qed

end
