(* ===== verification/Completion_Records.thy ===== *)
theory Completion_Records
  imports Replace_Safety
begin

text \<open>
  The completion records of \<^verbatim>\<open>internal/queue\<close>: the release marker that anchors the retention of a
  completion receipt (\<^verbatim>\<open>completion_marker.go\<close>), the receipt lookup for status
  (\<^verbatim>\<open>completion_status.go\<close>) and the garbage collection of receipt and marker
  (\<^verbatim>\<open>completion_gc.go\<close>). The directory listing a pass works on is an argument, \<open>entries\<close>;
  every entry is a regular file. The receipt directory always exists in the file-system model, so the
  early return of a collection without one (no results, no error) has no counterpart here, nor
  has the refusal of a root that is not a directory. Deleting is receipt first, marker last, at every moment of a pass.
\<close>

section \<open>Names\<close>

definition markerSuffix :: string where "markerSuffix = ''.release-v1.json''"

definition receiptName :: "string \<Rightarrow> string \<Rightarrow> string" where
  "receiptName queueID receiptID = queueID @ ''--'' @ receiptID @ ''.json''"

definition markerName :: "string \<Rightarrow> string \<Rightarrow> string" where
  "markerName queueID receiptID = queueID @ ''--'' @ receiptID @ markerSuffix"

definition CompletionReleaseMarkerBasename :: "Codec \<Rightarrow> string \<Rightarrow> string \<Rightarrow> string + string" where
  "CompletionReleaseMarkerBasename C queueID receiptID = (case CompletionReceiptBasename C queueID receiptID of
     Inl e \<Rightarrow> Inl e | Inr basename \<Rightarrow> Inr (trimSuffix basename ''.json'' @ markerSuffix))"

text \<open>\<^verbatim>\<open>strings.HasPrefix\<close>, \<^verbatim>\<open>strings.Contains\<close> and \<^verbatim>\<open>strings.Split\<close> with the separator \<^verbatim>\<open>--\<close>.\<close>

definition hasPrefix :: "string \<Rightarrow> string \<Rightarrow> bool" where
  "hasPrefix s p \<longleftrightarrow> take (length p) s = p"

fun containsStr :: "string \<Rightarrow> string \<Rightarrow> bool" where
  "containsStr [] p \<longleftrightarrow> p = []"
| "containsStr (c # s) p \<longleftrightarrow> hasPrefix (c # s) p \<or> containsStr s p"

fun splitDashes :: "string \<Rightarrow> string \<Rightarrow> string list" where
  "splitDashes acc [] = [rev acc]"
| "splitDashes acc [c] = [rev (c # acc)]"
| "splitDashes acc (c # d # s) =
     (if c = CHR ''-'' \<and> d = CHR ''-'' then rev acc # splitDashes [] s else splitDashes (c # acc) (d # s))"

definition completionMarkerIdentityFromName :: "string \<Rightarrow> (string \<times> string) option" where
  "completionMarkerIdentityFromName name =
     (if \<not> hasSuffix name markerSuffix \<or> containsStr name ''.tmp-'' then None
      else (case splitDashes [] (trimSuffix name markerSuffix) of [q, r] \<Rightarrow> Some (q, r) | _ \<Rightarrow> None))"

definition completionReceiptIdentityFromName :: "string \<Rightarrow> (string \<times> string) option" where
  "completionReceiptIdentityFromName name =
     (if \<not> hasSuffix name ''.json'' \<or> hasSuffix name markerSuffix \<or> containsStr name ''.tmp-'' then None
      else (case splitDashes [] (trimSuffix name ''.json'') of [q, r] \<Rightarrow> Some (q, r) | _ \<Rightarrow> None))"

section \<open>The release marker\<close>

definition completionReceiptRetention :: int where
  "completionReceiptRetention = 720 * 3600 * 1000000000"

definition validateCompletionReleaseMarker :: "Codec \<Rightarrow> CompletionReleaseMarker \<Rightarrow> string option" where
  "validateCompletionReleaseMarker C m =
     (if crm_RecordType m \<noteq> ''completion-release'' \<or> crm_SchemaVersion m \<noteq> 1
         \<or> \<not> validateUUIDv7 C (crm_QueueID m) \<or> \<not> validateUUIDv7 C (crm_ReceiptID m) \<or> \<not> validateUUIDv7 C (crm_TransactionID m)
         \<or> \<not> validSHA256 (crm_ReceiptSHA256 m) \<or> \<not> validSHA256 (crm_CompletedQueueSHA256 m)
      then Some ''invalid completion release marker''
      else (case (parseRecoveryTimestamp C (crm_ReleasedAt m), parseRecoveryTimestamp C (crm_GCNotBefore m)) of
          (Some rel, Some gc) \<Rightarrow> (let want = rel + completionReceiptRetention in
             if want < rel \<or> gc \<noteq> want then Some ''invalid completion release retention interval'' else None)
        | _ \<Rightarrow> Some ''invalid completion release marker''))"

definition DecodeCompletionReleaseMarker :: "Codec \<Rightarrow> bytes \<Rightarrow> string + CompletionReleaseMarker" where
  "DecodeCompletionReleaseMarker C data = (case cd_marker C data of
       Inl e \<Rightarrow> Inl (wrapErr ''completion release marker'' e)
     | Inr m \<Rightarrow>
         if cd_markerJSON C m \<noteq> data then Inl ''completion release marker bytes are not canonical''
         else orFail (validateCompletionReleaseMarker C m) (Inr m))"

definition validateCompletionReleaseMarkerInputs :: "Codec \<Rightarrow> CompletionReleaseMarkerInputs \<Rightarrow> string option" where
  "validateCompletionReleaseMarkerInputs C i =
     (if \<not> validateUUIDv7 C (cmi_QueueID i) \<or> \<not> validateUUIDv7 C (cmi_ReceiptID i) \<or> \<not> validateUUIDv7 C (cmi_TransactionID i)
         \<or> \<not> validSHA256 (cmi_ReceiptSHA256 i) \<or> \<not> validSHA256 (cmi_CompletedQueueSHA256 i)
      then Some ''invalid completion release marker inputs'' else None)"

definition PrepareCompletionReleaseMarker ::
    "Codec \<Rightarrow> CompletionReleaseMarkerInputs \<Rightarrow> go_time \<Rightarrow> string + CompletionReleaseMarker \<times> bytes" where
  "PrepareCompletionReleaseMarker C i releasedAt0 =
     orFail (validateCompletionReleaseMarkerInputs C i)
      (let releasedAt = truncateMillisecond releasedAt0;
           marker = \<lparr>crm_RecordType = ''completion-release'', crm_SchemaVersion = 1, crm_QueueID = cmi_QueueID i,
             crm_ReceiptID = cmi_ReceiptID i, crm_TransactionID = cmi_TransactionID i, crm_ReceiptSHA256 = cmi_ReceiptSHA256 i,
             crm_CompletedQueueSHA256 = cmi_CompletedQueueSHA256 i, crm_ReleasedAt = cd_formatTime C releasedAt,
             crm_GCNotBefore = cd_formatTime C (releasedAt + completionReceiptRetention)\<rparr> in
       orFail (validateCompletionReleaseMarker C marker) (Inr (marker, cd_markerJSON C marker)))"

text \<open>The facts a marker shares with the receipt it is for.\<close>

definition receiptHasFacts :: "Codec \<Rightarrow> bytes \<Rightarrow> CompletionReceipt \<Rightarrow> string \<Rightarrow> string \<Rightarrow> string \<Rightarrow> string \<Rightarrow> string \<Rightarrow> bool" where
  "receiptHasFacts C data r queueID receiptID transactionID receiptSHA queueSHA \<longleftrightarrow>
     cr_QueueID r = queueID \<and> cr_ReceiptID r = receiptID \<and> cr_TransactionID r = transactionID
     \<and> digestHex C data = receiptSHA \<and> cr_CompletedQueueSHA256 r = queueSHA"

definition validateCompletionMarkerReceipt ::
    "Codec \<Rightarrow> CompletionReleaseMarkerInputs \<Rightarrow> FS \<Rightarrow> string option \<times> FS" where
  "validateCompletionMarkerReceipt C i fs = (case op_lstat fs of
       (Some e, fs1) \<Rightarrow> (Some (wrapErr ''inspect completion receipt root for marker'' (FsErr_text e)), fs1)
     | (None, fs1) \<Rightarrow> (case CompletionReceiptBasename C (cmi_QueueID i) (cmi_ReceiptID i) of
         Inl e \<Rightarrow> (Some e, fs1)
       | Inr basename \<Rightarrow> (case op_lstatFile CompletionReceiptsDir basename fs1 of
           (Some e, fs2) \<Rightarrow> (Some (wrapErr ''inspect completion receipt for marker'' (FsErr_text e)), fs2)
         | (None, fs2) \<Rightarrow> (case op_readFile CompletionReceiptsDir basename fs2 of
             (Inl e, fs3) \<Rightarrow> (Some (wrapErr ''read completion receipt for marker'' (FsErr_text e)), fs3)
           | (Inr data, fs3) \<Rightarrow> (case DecodeCompletionReceipt C data of
               Inl e \<Rightarrow> (Some e, fs3)
             | Inr r \<Rightarrow>
                 if \<not> receiptHasFacts C data r (cmi_QueueID i) (cmi_ReceiptID i) (cmi_TransactionID i)
                        (cmi_ReceiptSHA256 i) (cmi_CompletedQueueSHA256 i)
                 then (Some ''completion release marker inputs do not match receipt'', fs3)
                 else (None, fs3))))))"

definition acceptExistingCompletionReleaseMarker ::
    "Codec \<Rightarrow> bytes \<Rightarrow> CompletionReleaseMarkerInputs \<Rightarrow> string + CompletionReleaseMarker" where
  "acceptExistingCompletionReleaseMarker C data i = (case DecodeCompletionReleaseMarker C data of
       Inl e \<Rightarrow> Inl e
     | Inr m \<Rightarrow>
         if crm_QueueID m \<noteq> cmi_QueueID i \<or> crm_ReceiptID m \<noteq> cmi_ReceiptID i \<or> crm_TransactionID m \<noteq> cmi_TransactionID i
            \<or> crm_ReceiptSHA256 m \<noteq> cmi_ReceiptSHA256 i \<or> crm_CompletedQueueSHA256 m \<noteq> cmi_CompletedQueueSHA256 i
         then Inl ''completion release marker conflicts with receipt'' else Inr m)"

definition installCompletionReleaseMarker ::
    "Codec \<Rightarrow> string \<Rightarrow> CompletionReleaseMarkerInputs \<Rightarrow> go_time \<Rightarrow> FS \<Rightarrow> (string + CompletionReleaseMarker) \<times> FS" where
  "installCompletionReleaseMarker C sfx i releasedAt fs = (case PrepareCompletionReleaseMarker C i releasedAt of
       Inl e \<Rightarrow> (Inl e, fs)
     | Inr (marker, data) \<Rightarrow> (case validateCompletionMarkerReceipt C i fs of
         (Some e, fs1) \<Rightarrow> (Inl e, fs1)
       | (None, fs1) \<Rightarrow> (case CompletionReleaseMarkerBasename C (cmi_QueueID i) (cmi_ReceiptID i) of
           Inl e \<Rightarrow> (Inl e, fs1)
         | Inr basename \<Rightarrow> (case op_lstatFile CompletionReceiptsDir basename fs1 of
             (statErr, fs2) \<Rightarrow>
               if statErr \<noteq> None \<and> statErr \<noteq> Some ErrNotExist then (Inl (FsErr_text (the statErr)), fs2)
               else (case readOptional CompletionReceiptsDir basename fs2 of
                   (Inl e, fs3) \<Rightarrow> (Inl e, fs3)
                 | (Inr (Some existing), fs3) \<Rightarrow> (case acceptExistingCompletionReleaseMarker C existing i of
                     Inl e \<Rightarrow> (Inl e, fs3)
                   | Inr accepted \<Rightarrow> (case syncDirectory CompletionReceiptsDir fs3 of
                       (Some e, fs4) \<Rightarrow> (Inl e, fs4) | (None, fs4) \<Rightarrow> (Inr accepted, fs4)))
                 | (Inr None, fs3) \<Rightarrow> (case durableNoReplace sfx CompletionReceiptsDir basename data fs3 of
                     ((st, err), fs4) \<Rightarrow>
                       if st \<noteq> noReplaceInstalled
                       then (Inl (case err of Some e \<Rightarrow> e | None \<Rightarrow> ''completion release marker was not installed''), fs4)
                       else (case syncDirectory CompletionReceiptsDir fs4 of
                           (Some e, fs5) \<Rightarrow> (Inl e, fs5) | (None, fs5) \<Rightarrow> (Inr marker, fs5))))))))"

section \<open>Receipts for status\<close>

definition statusErr :: "string \<Rightarrow> string" where
  "statusErr = wrapErr ''queue: completion receipt identity integrity''"

text \<open>\<open>None\<close>: not selected.\<close>

definition selectCompletionStatusEntry ::
    "Codec \<Rightarrow> string \<Rightarrow> string \<Rightarrow> string \<Rightarrow> FS \<Rightarrow> (string + string option) \<times> FS" where
  "selectCompletionStatusEntry C name prefix receiptID fs =
     (if \<not> hasPrefix name prefix \<or> \<not> hasSuffix name ''.json'' \<or> hasSuffix name markerSuffix \<or> containsStr name ''.tmp-''
      then (Inr None, fs)
      else (case op_lstatFile CompletionReceiptsDir name fs of
          (Some e, fs1) \<Rightarrow> (Inl (statusErr (wrapErr (''inspect completion receipt '' @ cd_quote C name) (FsErr_text e))), fs1)
        | (None, fs1) \<Rightarrow> (let candidate = trimSuffix (drop (length prefix) name) ''.json'' in
            if receiptID \<noteq> [] \<and> candidate \<noteq> receiptID then (Inr None, fs1) else (Inr (Some candidate), fs1))))"

definition readCompletionStatusReceipt ::
    "Codec \<Rightarrow> string \<Rightarrow> string \<Rightarrow> string \<Rightarrow> FS \<Rightarrow> (string + CompletionReceipt) \<times> FS" where
  "readCompletionStatusReceipt C name queueID receiptID fs = (case op_readFile CompletionReceiptsDir name fs of
       (Inl e, fs1) \<Rightarrow> (Inl (wrapErr ''read completion receipt'' (FsErr_text e)), fs1)
     | (Inr data, fs1) \<Rightarrow> (case DecodeCompletionReceipt C data of
         Inl e \<Rightarrow> (Inl (statusErr (wrapErr (''decode receipt '' @ cd_quote C name) e)), fs1)
       | Inr r \<Rightarrow>
           if cr_QueueID r \<noteq> queueID \<or> cr_ReceiptID r \<noteq> receiptID
           then (Inl (statusErr (''receipt '' @ cd_quote C name @ '' does not match its filename'')), fs1)
           else if CompletionReceiptBasename C (cr_QueueID r) (cr_ReceiptID r) \<noteq> Inr name
           then (Inl (statusErr (''invalid receipt basename '' @ cd_quote C name)), fs1)
           else (Inr r, fs1)))"

fun statusMatches ::
    "Codec \<Rightarrow> string \<Rightarrow> string \<Rightarrow> string list \<Rightarrow> FS \<Rightarrow> (string + CompletionReceipt list) \<times> FS" where
  "statusMatches C queueID receiptID [] fs = (Inr [], fs)"
| "statusMatches C queueID receiptID (name # names) fs =
     (case selectCompletionStatusEntry C name (queueID @ ''--'') receiptID fs of
        (Inl e, fs1) \<Rightarrow> (Inl e, fs1)
      | (Inr None, fs1) \<Rightarrow> statusMatches C queueID receiptID names fs1
      | (Inr (Some candidate), fs1) \<Rightarrow> (case readCompletionStatusReceipt C name queueID candidate fs1 of
          (Inl e, fs2) \<Rightarrow> (Inl e, fs2)
        | (Inr r, fs2) \<Rightarrow> (case statusMatches C queueID receiptID names fs2 of
            (Inl e, fs3) \<Rightarrow> (Inl e, fs3) | (Inr rs, fs3) \<Rightarrow> (Inr (r # rs), fs3))))"

text \<open>\<open>ls\<close> is \<^verbatim>\<open>os.ReadDir\<close> on the receipts directory.\<close>

definition ReadCompletionReceiptForStatus ::
    "Codec \<Rightarrow> (FS \<Rightarrow> string + string list) \<Rightarrow> string \<Rightarrow> string \<Rightarrow> FS \<Rightarrow> (string + CompletionReceipt option) \<times> FS" where
  "ReadCompletionReceiptForStatus C ls queueID receiptID fs =
     (if \<not> validateUUIDv7 C queueID then (Inl (statusErr (wrapErr ''queue id'' ''must be canonical lowercase UUIDv7'')), fs)
      else if receiptID \<noteq> [] \<and> \<not> validateUUIDv7 C receiptID
      then (Inl (statusErr (wrapErr ''receipt id'' ''must be canonical lowercase UUIDv7'')), fs)
      else (case op_lstat fs of
          (Some e, fs1) \<Rightarrow> (Inl (wrapErr ''read completion receipt root'' (FsErr_text e)), fs1)
        | (None, fs1) \<Rightarrow> (case ls fs1 of
            Inl e \<Rightarrow> (Inl (wrapErr ''read completion receipt root'' e), fs1)
          | Inr names \<Rightarrow> (case statusMatches C queueID receiptID names fs1 of
              (Inl e, fs2) \<Rightarrow> (Inl e, fs2)
            | (Inr [], fs2) \<Rightarrow> (Inr None, fs2)
            | (Inr [r], fs2) \<Rightarrow> (Inr (Some r), fs2)
            | (Inr rs, fs2) \<Rightarrow> (Inl (statusErr (''queue id '' @ cd_quote C queueID @ '' has '' @ itoa (int (length rs)) @ '' receipts'')), fs2)))))"

section \<open>Recovering markers\<close>

definition confirmCompletedIdentityReleased :: "Codec \<Rightarrow> CompletionReceipt \<Rightarrow> FS \<Rightarrow> string option \<times> FS" where
  "confirmCompletedIdentityReleased C receipt fs = (let path = queuePath (cr_NormalizedName receipt) in
     case op_lstatFile QueuesDir path fs of
       (Some ErrNotExist, fs1) \<Rightarrow> (None, fs1)
     | (Some e, fs1) \<Rightarrow> (Some (FsErr_text e), fs1)
     | (None, fs1) \<Rightarrow> (case op_readFile QueuesDir path fs1 of
         (Inl e, fs2) \<Rightarrow> (Some (FsErr_text e), fs2)
       | (Inr canonical, fs2) \<Rightarrow> (case UnmarshalText C (validateUUIDv7 C) canonical of
           Inl e \<Rightarrow> (Some (wrapErr ''classify completion marker canonical'' e), fs2)
         | Inr live \<Rightarrow>
             if \<not> validateUUIDv7 C (queue_QueueID live) \<or> queue_Name live \<noteq> cr_NormalizedName receipt
                \<or> NormaliseQueueName (queue_Name live) \<noteq> queue_Name live
             then (Some ''canonical queue has invalid identity'', fs2)
             else if queue_QueueID live = cr_QueueID receipt
             then (Some ''completed queue identity still owns its canonical name'', fs2)
             else (None, fs2))))"

text \<open>\<open>Inr None\<close>: there is a marker already.\<close>

definition recoverOneCompletionReleaseMarker ::
    "Codec \<Rightarrow> string \<Rightarrow> (FS \<Rightarrow> string + string list) \<Rightarrow> go_time \<Rightarrow> string \<Rightarrow> string \<Rightarrow> FS \<Rightarrow>
     (string + CompletionReleaseMarker option) \<times> FS" where
  "recoverOneCompletionReleaseMarker C sfx ls now queueID receiptID fs =
     (case ReadCompletionReceiptForStatus C ls queueID receiptID fs of
        (Inl e, fs1) \<Rightarrow> (Inl e, fs1)
      | (Inr None, fs1) \<Rightarrow> (Inl ''completion receipt disappeared during marker recovery'', fs1)
      | (Inr (Some receipt), fs1) \<Rightarrow> (case CompletionReleaseMarkerBasename C queueID receiptID of
          Inl e \<Rightarrow> (Inl e, fs1)
        | Inr markerBasename \<Rightarrow> (case op_lstatFile CompletionReceiptsDir markerBasename fs1 of
            (None, fs2) \<Rightarrow> (Inr None, fs2)
          | (Some e, fs2) \<Rightarrow>
              if e \<noteq> ErrNotExist then (Inl (FsErr_text e), fs2)
              else (case readOptional QueuesDir (replaceIntentPath (cr_NormalizedName receipt)) fs2 of
                  (Inl e, fs3) \<Rightarrow> (Inl e, fs3)
                | (Inr (Some _), fs3) \<Rightarrow> (Inl ''completion intent still owns the receipt'', fs3)
                | (Inr None, fs3) \<Rightarrow> (case confirmCompletedIdentityReleased C receipt fs3 of
                    (Some e, fs4) \<Rightarrow> (Inl e, fs4)
                  | (None, fs4) \<Rightarrow> (case op_readFile CompletionReceiptsDir (receiptName (cr_QueueID receipt) (cr_ReceiptID receipt)) fs4 of
                      (Inl e, fs5) \<Rightarrow> (Inl (FsErr_text e), fs5)
                    | (Inr receiptBytes, fs5) \<Rightarrow>
                       (case installCompletionReleaseMarker C sfx
                          \<lparr>cmi_QueueID = cr_QueueID receipt, cmi_ReceiptID = cr_ReceiptID receipt,
                           cmi_TransactionID = cr_TransactionID receipt, cmi_ReceiptSHA256 = digestHex C receiptBytes,
                           cmi_CompletedQueueSHA256 = cr_CompletedQueueSHA256 receipt\<rparr> now fs5 of
                          (Inl e, fs6) \<Rightarrow> (Inl e, fs6) | (Inr m, fs6) \<Rightarrow> (Inr (Some m), fs6))))))))"

record CompletionMarkerRecovery =
  cmr_QueueID :: string
  cmr_ReceiptID :: string
  cmr_Marker :: "CompletionReleaseMarker option"
  cmr_Err :: "string option"

text \<open>\<open>nows\<close> are the times the release clock gives, \<open>sfx\<close> the temporary suffixes, by rest length.\<close>

fun recoverMarkers_from ::
    "Codec \<Rightarrow> (nat \<Rightarrow> string) \<Rightarrow> (nat \<Rightarrow> go_time) \<Rightarrow> (FS \<Rightarrow> string + string list) \<Rightarrow> string list \<Rightarrow> FS \<Rightarrow> CompletionMarkerRecovery list \<times> FS" where
  "recoverMarkers_from C sfx nows ls [] fs = ([], fs)"
| "recoverMarkers_from C sfx nows ls (name # names) fs = (case completionReceiptIdentityFromName name of
       None \<Rightarrow> recoverMarkers_from C sfx nows ls names fs
     | Some (q, r) \<Rightarrow>
        (let (res, fs1) = recoverOneCompletionReleaseMarker C (sfx (length names)) ls (nows (length names)) q r fs;
             (rest, fs2) = recoverMarkers_from C sfx nows ls names fs1 in
         (\<lparr>cmr_QueueID = q, cmr_ReceiptID = r, cmr_Marker = (case res of Inr m \<Rightarrow> m | Inl _ \<Rightarrow> None),
           cmr_Err = (case res of Inl e \<Rightarrow> Some e | Inr _ \<Rightarrow> None)\<rparr> # rest, fs2)))"

definition RecoverCompletionReleaseMarkers ::
    "Codec \<Rightarrow> (nat \<Rightarrow> string) \<Rightarrow> (nat \<Rightarrow> go_time) option \<Rightarrow> (FS \<Rightarrow> string + string list) \<Rightarrow> FS \<Rightarrow>
     (string + CompletionMarkerRecovery list) \<times> FS" where
  "RecoverCompletionReleaseMarkers C sfx releaseTime ls fs = (case releaseTime of
       None \<Rightarrow> (Inl ''completion marker recovery requires a release time source'', fs)
     | Some nows \<Rightarrow> (case op_lstat fs of
         (Some e, fs1) \<Rightarrow> (Inl (FsErr_text e), fs1)
       | (None, fs1) \<Rightarrow> (case ls fs1 of
           Inl e \<Rightarrow> (Inl e, fs1)
         | Inr names \<Rightarrow> (case recoverMarkers_from C sfx nows ls names fs1 of (rs, fs2) \<Rightarrow> (Inr rs, fs2)))))"

section \<open>Garbage collection\<close>

datatype CompletionGCPhase =
    CompletionGCPhaseUnset | CompletionGCPhasePreserved | CompletionGCPhaseIneligible | CompletionGCPhaseReceiptAbsentDurable
  | CompletionGCPhaseReceiptSyncIndeterminate | CompletionGCPhaseMarkerAbsentDurable | CompletionGCPhaseMarkerSyncIndeterminate

record CompletionGCResult =
  gcr_QueueID :: string
  gcr_ReceiptID :: string
  gcr_ReceiptRemoved :: bool
  gcr_MarkerRemoved :: bool
  gcr_Eligible :: bool
  gcr_Phase :: CompletionGCPhase
  gcr_Err :: "string option"

record CompletionGCObservation =
  gco_Now :: go_time
  gco_Synchronized :: bool
  gco_Regressed :: bool

definition CompletionReceiptGCEligible :: "Codec \<Rightarrow> CompletionReleaseMarker \<Rightarrow> CompletionGCObservation \<Rightarrow> string + bool" where
  "CompletionReceiptGCEligible C m obs = (case validateCompletionReleaseMarker C m of
       Some e \<Rightarrow> Inl e
     | None \<Rightarrow>
         if \<not> gco_Synchronized obs \<or> gco_Regressed obs then Inr False
         else (case cd_parseTime C (crm_ReleasedAt m) of
             None \<Rightarrow> Inl ''parsing time''
           | Some releasedAt \<Rightarrow> (case cd_parseTime C (crm_GCNotBefore m) of
               None \<Rightarrow> Inl ''parsing time''
             | Some gcNotBefore \<Rightarrow> Inr (\<not> (gco_Now obs < releasedAt \<or> gco_Now obs < gcNotBefore)))))"

definition readOptionalRegular :: "dirId \<Rightarrow> string \<Rightarrow> FS \<Rightarrow> (FsErr + bytes option) \<times> FS" where
  "readOptionalRegular d p fs = (case op_lstatFile d p fs of
       (Some ErrNotExist, fs1) \<Rightarrow> (Inr None, fs1)
     | (Some e, fs1) \<Rightarrow> (Inl e, fs1)
     | (None, fs1) \<Rightarrow> (case op_readFile d p fs1 of (Inl e, fs2) \<Rightarrow> (Inl e, fs2) | (Inr data, fs2) \<Rightarrow> (Inr (Some data), fs2)))"

definition validateCompletionGCPair :: "Codec \<Rightarrow> bytes \<Rightarrow> CompletionReleaseMarker \<Rightarrow> string option" where
  "validateCompletionGCPair C data m = (case DecodeCompletionReceipt C data of
       Inl e \<Rightarrow> Some e
     | Inr r \<Rightarrow>
         if \<not> receiptHasFacts C data r (crm_QueueID m) (crm_ReceiptID m) (crm_TransactionID m)
                (crm_ReceiptSHA256 m) (crm_CompletedQueueSHA256 m)
         then Some ''completion receipt and release marker disagree'' else None)"

definition removeExactAndSync :: "Codec \<Rightarrow> string \<Rightarrow> bytes \<Rightarrow> FS \<Rightarrow> string option \<times> FS" where
  "removeExactAndSync C p expected fs = (case readOptionalRegular CompletionReceiptsDir p fs of
       (Inl e, fs1) \<Rightarrow> (Some (FsErr_text e), fs1)
     | (Inr None, fs1) \<Rightarrow> syncDirectory CompletionReceiptsDir fs1
     | (Inr (Some current), fs1) \<Rightarrow>
         if current \<noteq> expected then (Some (''refuse to remove changed completion record '' @ cd_quote C (filepath_Base p)), fs1)
         else (case op_remove CompletionReceiptsDir p fs1 of
             (None, fs2) \<Rightarrow> syncDirectory CompletionReceiptsDir fs2
           | (Some removeErr, fs2) \<Rightarrow> (case readOptionalRegular CompletionReceiptsDir p fs2 of
               (Inl reloadErr, fs3) \<Rightarrow> (joinErrs [Some (FsErr_text removeErr), Some (FsErr_text reloadErr)], fs3)
             | (Inr (Some _), fs3) \<Rightarrow> (Some (FsErr_text removeErr), fs3)
             | (Inr None, fs3) \<Rightarrow> syncDirectory CompletionReceiptsDir fs3)))"

definition completionGCSyncFailurePhase ::
    "string \<Rightarrow> CompletionGCPhase \<Rightarrow> CompletionGCPhase \<Rightarrow> FS \<Rightarrow> CompletionGCPhase \<times> FS" where
  "completionGCSyncFailurePhase p absentPhase presentPhase fs = (case readOptionalRegular CompletionReceiptsDir p fs of
     (Inr None, fs1) \<Rightarrow> (absentPhase, fs1) | (_, fs1) \<Rightarrow> (presentPhase, fs1))"

text \<open>The last part of the pass over one pair: the marker is removed once the receipt is durably gone.\<close>

definition gcRemoveMarker :: "Codec \<Rightarrow> string \<Rightarrow> bytes \<Rightarrow> CompletionGCResult \<Rightarrow> FS \<Rightarrow> CompletionGCResult \<times> FS" where
  "gcRemoveMarker C name markerBytes res fs = (case removeExactAndSync C name markerBytes fs of
       (Some e, fs1) \<Rightarrow> (case completionGCSyncFailurePhase name CompletionGCPhaseMarkerSyncIndeterminate
                                 CompletionGCPhaseReceiptAbsentDurable fs1 of
          (phase, fs2) \<Rightarrow> (res\<lparr>gcr_Phase := phase, gcr_Err := Some e\<rparr>, fs2))
     | (None, fs1) \<Rightarrow> (res\<lparr>gcr_MarkerRemoved := True, gcr_Phase := CompletionGCPhaseMarkerAbsentDurable\<rparr>, fs1))"

definition gcEligiblePair ::
    "Codec \<Rightarrow> string \<Rightarrow> bytes \<Rightarrow> CompletionReleaseMarker \<Rightarrow> CompletionGCResult \<Rightarrow> FS \<Rightarrow> CompletionGCResult \<times> FS" where
  "gcEligiblePair C name markerBytes m res0 fs =
     (let res = res0\<lparr>gcr_Eligible := True\<rparr>; receipt = receiptName (gcr_QueueID res) (gcr_ReceiptID res);
          preserved = (\<lambda>e. res\<lparr>gcr_Phase := CompletionGCPhasePreserved, gcr_Err := Some e\<rparr>) in
      case readOptionalRegular CompletionReceiptsDir receipt fs of
        (Inl e, fs1) \<Rightarrow> (preserved (FsErr_text e), fs1)
      | (Inr None, fs1) \<Rightarrow> gcRemoveMarker C name markerBytes (res\<lparr>gcr_Phase := CompletionGCPhaseReceiptAbsentDurable\<rparr>) fs1
      | (Inr (Some data), fs1) \<Rightarrow> (case validateCompletionGCPair C data m of
          Some e \<Rightarrow> (preserved e, fs1)
        | None \<Rightarrow> (case removeExactAndSync C receipt data fs1 of
            (Some e, fs2) \<Rightarrow> (case completionGCSyncFailurePhase receipt CompletionGCPhaseReceiptSyncIndeterminate
                                       CompletionGCPhasePreserved fs2 of
               (phase, fs3) \<Rightarrow> (res\<lparr>gcr_Phase := phase, gcr_Err := Some e\<rparr>, fs3))
          | (None, fs2) \<Rightarrow> gcRemoveMarker C name markerBytes
              (res\<lparr>gcr_ReceiptRemoved := True, gcr_Phase := CompletionGCPhaseReceiptAbsentDurable\<rparr>) fs2)))"

definition gcOneCompletionPair ::
    "Codec \<Rightarrow> CompletionGCObservation \<Rightarrow> string \<Rightarrow> CompletionGCResult \<Rightarrow> FS \<Rightarrow> CompletionGCResult \<times> FS" where
  "gcOneCompletionPair C obs name res fs =
     (let preserved = (\<lambda>e. res\<lparr>gcr_Phase := CompletionGCPhasePreserved, gcr_Err := e\<rparr>);
          disagrees = ''completion release marker identity disagrees with filename'' in
      case op_lstatFile CompletionReceiptsDir name fs of
        (Some e, fs1) \<Rightarrow> (preserved (joinErrs [Some (FsErr_text e), Some ''completion release marker is not a regular file'']), fs1)
      | (None, fs1) \<Rightarrow> (case op_readFile CompletionReceiptsDir name fs1 of
          (Inl e, fs2) \<Rightarrow> (preserved (Some (FsErr_text e)), fs2)
        | (Inr markerBytes, fs2) \<Rightarrow> (case DecodeCompletionReleaseMarker C markerBytes of
            Inl e \<Rightarrow> (preserved (joinErrs [Some e, Some disagrees]), fs2)
          | Inr m \<Rightarrow>
              if crm_QueueID m \<noteq> gcr_QueueID res \<or> crm_ReceiptID m \<noteq> gcr_ReceiptID res
              then (preserved (Some disagrees), fs2)
              else (case CompletionReceiptGCEligible C m obs of
                  Inl e \<Rightarrow> (preserved (Some e), fs2)
                | Inr False \<Rightarrow> (res\<lparr>gcr_Phase := CompletionGCPhaseIneligible, gcr_Err := None\<rparr>, fs2)
                | Inr True \<Rightarrow> gcEligiblePair C name markerBytes m res fs2))))"

fun gcPairs :: "Codec \<Rightarrow> CompletionGCObservation \<Rightarrow> string list \<Rightarrow> FS \<Rightarrow> CompletionGCResult list \<times> FS" where
  "gcPairs C obs [] fs = ([], fs)"
| "gcPairs C obs (name # names) fs = (case completionMarkerIdentityFromName name of
       None \<Rightarrow> gcPairs C obs names fs
     | Some (q, r) \<Rightarrow>
        (let (res, fs1) = gcOneCompletionPair C obs name
               \<lparr>gcr_QueueID = q, gcr_ReceiptID = r, gcr_ReceiptRemoved = False, gcr_MarkerRemoved = False, gcr_Eligible = False,
                gcr_Phase = CompletionGCPhaseUnset, gcr_Err = None\<rparr> fs;
             (rest, fs2) = gcPairs C obs names fs1 in (res # rest, fs2)))"

definition garbageCollectCompletionReceipts ::
    "Codec \<Rightarrow> (FS \<Rightarrow> string + string list) \<Rightarrow> CompletionGCObservation \<Rightarrow> FS \<Rightarrow> (string + CompletionGCResult list) \<times> FS" where
  "garbageCollectCompletionReceipts C ls obs fs = (case op_lstat fs of
       (Some e, fs1) \<Rightarrow> (Inl (FsErr_text e), fs1)
     | (None, fs1) \<Rightarrow> (case syncDirectory CompletionReceiptsDir fs1 of
         (Some e, fs2) \<Rightarrow> (Inl e, fs2)
       | (None, fs2) \<Rightarrow> (case ls fs2 of
           Inl e \<Rightarrow> (Inl e, fs2)
         | Inr names \<Rightarrow> (case gcPairs C obs names fs2 of (rs, fs3) \<Rightarrow> (Inr rs, fs3)))))"

definition GarbageCollectCompletionReceipts ::
    "Codec \<Rightarrow> (FS \<Rightarrow> string + string list) \<Rightarrow> CompletionGCObservation \<Rightarrow> FS \<Rightarrow> (string + CompletionGCResult list) \<times> FS" where
  "GarbageCollectCompletionReceipts C ls obs fs =
     (if \<not> gco_Synchronized obs \<or> gco_Regressed obs then (Inr [], fs) else garbageCollectCompletionReceipts C ls obs fs)"

section \<open>What a pass may do to the receipts directory\<close>

definition eligibleMarker :: "Codec \<Rightarrow> CompletionGCObservation \<Rightarrow> string \<Rightarrow> string \<Rightarrow> bytes \<Rightarrow> CompletionReleaseMarker \<Rightarrow> bool" where
  "eligibleMarker C obs q r data m \<longleftrightarrow> DecodeCompletionReleaseMarker C data = Inr m
     \<and> crm_QueueID m = q \<and> crm_ReceiptID m = r \<and> CompletionReceiptGCEligible C m obs = Inr True"

text \<open>The receipt may go: it is the valid partner of an eligible marker. The marker may go: it is
  eligible, and its receipt is gone.\<close>

definition gcReceipt :: "Codec \<Rightarrow> CompletionGCObservation \<Rightarrow> ns \<Rightarrow> string \<Rightarrow> bool" where
  "gcReceipt C obs n p \<longleftrightarrow> (\<exists>q r fl m rf. p = receiptName q r \<and> n (markerName q r) = Some fl
     \<and> eligibleMarker C obs q r (content fl) m \<and> n p = Some rf \<and> validateCompletionGCPair C (content rf) m = None)"

definition gcMarker :: "Codec \<Rightarrow> CompletionGCObservation \<Rightarrow> ns \<Rightarrow> ns \<Rightarrow> string \<Rightarrow> bool" where
  "gcMarker C obs n n' p \<longleftrightarrow> (\<exists>q r fl m. p = markerName q r \<and> n p = Some fl
     \<and> eligibleMarker C obs q r (content fl) m \<and> n' (receiptName q r) = None)"

definition gcSafe :: "Codec \<Rightarrow> CompletionGCObservation \<Rightarrow> ns \<Rightarrow> ns \<Rightarrow> bool" where
  "gcSafe C obs n n' \<longleftrightarrow> (\<forall>p. n' p \<noteq> n p \<longrightarrow> n' p = None \<and> (gcReceipt C obs n p \<or> gcMarker C obs n n' p))"

lemma gcSafe_refl: "gcSafe C obs n n"
  by (simp add: gcSafe_def)

lemma gcSafe_present: "gcSafe C obs n n' \<Longrightarrow> n' p = Some fl \<Longrightarrow> n p = Some fl"
  by (metis gcSafe_def option.distinct(1))

lemma gcMarker_mono: "gcMarker C obs n n' p \<Longrightarrow> (\<And>x. n' x = None \<Longrightarrow> n'' x = None) \<Longrightarrow> gcMarker C obs n n'' p"
  unfolding gcMarker_def by blast

lemma gcSafe_remove:
  assumes safe: "gcSafe C obs n n'" and p: "gcReceipt C obs n p \<or> gcMarker C obs n n' p"
  shows "gcSafe C obs n (n'(p := None))"
  unfolding gcSafe_def
proof (intro allI impI)
  fix x
  assume x: "(n'(p := None)) x \<noteq> n x"
  have mono: "gcMarker C obs n (n'(p := None)) y" if "gcMarker C obs n n' y" for y
    using that by (rule gcMarker_mono) simp
  show "(n'(p := None)) x = None \<and> (gcReceipt C obs n x \<or> gcMarker C obs n (n'(p := None)) x)"
  proof (cases "x = p")
    case True
    then show ?thesis using p mono by auto
  next
    case False
    then have "n' x = None \<and> (gcReceipt C obs n x \<or> gcMarker C obs n n' x)"
      using safe x by (simp add: gcSafe_def)
    then show ?thesis using mono False by auto
  qed
qed

text \<open>The namespaces of the receipts directory, the other directories free.\<close>

definition receiptsIn :: "ns set \<Rightarrow> dirId \<Rightarrow> ns set" where
  "receiptsIn K = (\<lambda>_. UNIV)(CompletionReceiptsDir := K)"

lemma receiptsIn_simps [simp]: "receiptsIn K CompletionReceiptsDir = K" "d \<noteq> CompletionReceiptsDir \<Longrightarrow> receiptsIn K d = UNIV"
  by (simp_all add: receiptsIn_def)

lemma receiptsIn_mono: "K \<subseteq> L \<Longrightarrow> receiptsIn K d \<subseteq> receiptsIn L d"
  by (simp add: receiptsIn_def)

lemma op_regular_quiet:
  assumes "within A fs"
  shows "op_lstatFile d p fs = (e, fs') \<Longrightarrow> stays A fs fs' \<and> fs_dir fs' = fs_dir fs \<and> fs_pend fs' = fs_pend fs
      \<and> (e = Some ErrNotExist \<longleftrightarrow> fs_dir fs d p = None)"
    and "op_readFile d p fs = (x, fs') \<Longrightarrow> stays A fs fs' \<and> fs_dir fs' = fs_dir fs \<and> fs_pend fs' = fs_pend fs
      \<and> (\<forall>data. x = Inr data \<longrightarrow> map_option content (fs_dir fs d p) = Some data)"
  using assms by (auto simp: op_lstatFile_def fs_ops Let_def split: fault.splits option.splits if_splits)

lemma readOptionalRegular_spec:
  assumes w: "within A fs" and r: "readOptionalRegular d p fs = (x, fs')"
  shows "stays A fs fs' \<and> fs_dir fs' = fs_dir fs \<and> fs_pend fs' = fs_pend fs
    \<and> (\<forall>v. x = Inr v \<longrightarrow> v = map_option content (fs_dir fs d p))"
proof -
  obtain e fs1 where 1: "op_lstatFile d p fs = (e, fs1)" by fastforce
  note s1 = op_regular_quiet(1) [OF w 1]
  obtain y fs2 where 2: "op_readFile d p fs1 = (y, fs2)" by fastforce
  have w1: "within A fs1" using s1 by (blast intro: stays_within)
  note s2 = op_regular_quiet(2) [OF w1 2]
  have s12: "stays A fs fs2" using s1 s2 by (blast intro: stays_trans)
  show ?thesis
  proof (cases e)
    case None
    then show ?thesis using r 1 2 s1 s2 s12 by (cases y) (auto simp: readOptionalRegular_def)
  next
    case (Some er)
    then show ?thesis using r 1 s1 by (cases er) (auto simp: readOptionalRegular_def)
  qed
qed

lemma removeExactAndSync_spec:
  assumes w: "within (receiptsIn K) fs" and k: "(fs_dir fs CompletionReceiptsDir)(p := None) \<in> K"
    and r: "removeExactAndSync C p expected fs = (e, fs')"
  shows "stays (receiptsIn K) fs fs'
    \<and> fs_dir fs' CompletionReceiptsDir \<in> {fs_dir fs CompletionReceiptsDir, (fs_dir fs CompletionReceiptsDir)(p := None)}
    \<and> (e = None \<longrightarrow> within (receiptsIn {(fs_dir fs CompletionReceiptsDir)(p := None)}) fs')"
proof -
  let ?d = CompletionReceiptsDir and ?A = "receiptsIn K"
  let ?n = "fs_dir fs ?d"
  have sync: "stays ?A fs f \<and> fs_dir f ?d \<in> {?n, ?n(p := None)} \<and> (e = None \<longrightarrow> within (receiptsIn {?n(p := None)}) f)"
    if "stays ?A fs f0" "fs_dir f0 ?d = ?n(p := None)" "syncDirectory ?d f0 = (e, f)" for f0 f
  proof -
    note s = syncDirectory_spec [OF stays_within [OF that(1)] that(3), of "{}"]
    have "within (receiptsIn {?n(p := None)}) f" if "e = None"
      unfolding within_def using s that \<open>fs_dir f0 ?d = _\<close> by (simp add: receiptsIn_def)
    then show ?thesis using s that(1,2) by (auto intro: stays_trans)
  qed
  obtain x fs1 where 1: "readOptionalRegular ?d p fs = (x, fs1)" by fastforce
  note s1 = readOptionalRegular_spec [OF w 1]
  show ?thesis
  proof (cases "x = Inr (Some expected)")
    case False
    show ?thesis
    proof (cases "x = Inr None")
      case True
      then have "?n p = None" using s1 by simp
      then have "fs_dir fs1 ?d = ?n(p := None)" using s1 by (simp add: fun_upd_idem)
      then show ?thesis using sync [of fs1 fs'] r 1 True s1 by (simp add: removeExactAndSync_def)
    next
      case F: False
      then have "fs' = fs1 \<and> e \<noteq> None"
        using r 1 False by (auto simp: removeExactAndSync_def split: sum.splits option.splits if_splits)
      then show ?thesis using s1 by auto
    qed
  next
    case True
    have w1: "within ?A fs1" using s1 by (blast intro: stays_within)
    obtain y fs2 where 2: "op_remove ?d p fs1 = (y, fs2)" by fastforce
    have s2: "stays ?A fs1 fs2" "fs_dir fs2 ?d \<in> {?n, ?n(p := None)}" "y = None \<longrightarrow> fs_dir fs2 ?d = ?n(p := None)"
      using 2 w1 s1 k by (auto simp: fs_ops Let_def fun_upd_idem_iff intro!: stays_setDir split: fault.splits if_splits)
    have s12: "stays ?A fs fs2" using s1 s2(1) by (blast intro: stays_trans)
    show ?thesis
    proof (cases y)
      case None
      then show ?thesis using sync [OF s12] r 1 2 True s2(3) by (simp add: removeExactAndSync_def)
    next
      case (Some er)
      obtain z fs3 where 3: "readOptionalRegular ?d p fs2 = (z, fs3)" by fastforce
      note s3 = readOptionalRegular_spec [OF stays_within [OF s12] 3]
      have s13: "stays ?A fs fs3" using s12 s3 by (blast intro: stays_trans)
      show ?thesis
      proof (cases "z = Inr None")
        case True
        then have "fs_dir fs2 ?d p = None" using s3 by simp
        then have "fs_dir fs3 ?d = ?n(p := None)" using s2(2) s3 by (auto simp: fun_upd_idem)
        then show ?thesis using sync [OF s13] r 1 2 Some 3 True \<open>x = _\<close> by (simp add: removeExactAndSync_def)
      next
        case False
        then have "fs' = fs3 \<and> e \<noteq> None"
          using r 1 2 Some 3 \<open>x = _\<close> by (auto simp: removeExactAndSync_def split: sum.splits option.splits)
        then show ?thesis using s13 s2(2) s3 by auto
      qed
    qed
  qed
qed

section \<open>One pair, and the whole pass\<close>

text \<open>The namespaces a pass may show; \<open>P\<close> is any further fact that removals keep.\<close>

definition gcSpace :: "Codec \<Rightarrow> CompletionGCObservation \<Rightarrow> ns \<Rightarrow> (ns \<Rightarrow> bool) \<Rightarrow> dirId \<Rightarrow> ns set" where
  "gcSpace C obs n P = receiptsIn {n'. gcSafe C obs n n' \<and> P n'}"

definition keptByRemoval :: "(ns \<Rightarrow> bool) \<Rightarrow> bool" where
  "keptByRemoval P \<longleftrightarrow> (\<forall>m p. P m \<longrightarrow> P (m(p := None)))"

lemma gcSpace_dir: "within (gcSpace C obs n P) fs \<Longrightarrow> gcSafe C obs n (fs_dir fs CompletionReceiptsDir) \<and> P (fs_dir fs CompletionReceiptsDir)"
  unfolding within_def gcSpace_def by (metis (mono_tags, lifting) mem_Collect_eq receiptsIn_simps(1))

definition absentAll :: "string set \<Rightarrow> FS \<Rightarrow> bool" where
  "absentAll ps fs \<longleftrightarrow> within (receiptsIn {m. \<forall>p\<in>ps. m p = None}) fs"

lemma completionGCSyncFailurePhase_quiet:
  "within A fs \<Longrightarrow> completionGCSyncFailurePhase p a b fs = (phase, fs') \<Longrightarrow>
     stays A fs fs' \<and> fs_dir fs' = fs_dir fs \<and> fs_pend fs' = fs_pend fs"
  by (auto simp: completionGCSyncFailurePhase_def dest: readOptionalRegular_spec split: prod.splits sum.splits option.splits)

lemma gcRemoveMarker_spec:
  assumes w: "within (gcSpace C obs n P) fs" and P: "keptByRemoval P"
    and absent: "fs_dir fs CompletionReceiptsDir (receiptName q r) = None"
    and mk: "n (markerName q r) = Some fl" "eligibleMarker C obs q r (content fl) m"
    and run: "gcRemoveMarker C (markerName q r) bs res fs = (res', fs')"
  shows "stays (gcSpace C obs n P) fs fs' \<and> gcr_QueueID res' = gcr_QueueID res \<and> gcr_ReceiptID res' = gcr_ReceiptID res
    \<and> gcr_ReceiptRemoved res' = gcr_ReceiptRemoved res
    \<and> (gcr_MarkerRemoved res' \<and> \<not> gcr_MarkerRemoved res \<longrightarrow> absentAll {receiptName q r, markerName q r} fs')"
proof -
  let ?n = "fs_dir fs CompletionReceiptsDir"
  note d = gcSpace_dir [OF w]
  have "gcMarker C obs n ?n (markerName q r)" using mk absent unfolding gcMarker_def by blast
  then have k: "?n(markerName q r := None) \<in> {n'. gcSafe C obs n n' \<and> P n'}"
    using gcSafe_remove [OF conjunct1 [OF d]] d P by (auto simp: keptByRemoval_def)
  obtain e fs1 where 1: "removeExactAndSync C (markerName q r) bs fs = (e, fs1)" by fastforce
  note s1 = removeExactAndSync_spec [OF w [unfolded gcSpace_def] k 1]
  show ?thesis
  proof (cases e)
    case None
    have "within (receiptsIn {?n(markerName q r := None)}) fs1" using s1 None by blast
    then have "absentAll {receiptName q r, markerName q r} fs1"
      unfolding absentAll_def by (rule within_mono, intro receiptsIn_mono) (use absent in auto)
    then show ?thesis using run 1 None s1 by (auto simp: gcRemoveMarker_def gcSpace_def)
  next
    case (Some x)
    obtain phase fs2 where 2: "completionGCSyncFailurePhase (markerName q r) CompletionGCPhaseMarkerSyncIndeterminate
        CompletionGCPhaseReceiptAbsentDurable fs1 = (phase, fs2)" by fastforce
    have "within (gcSpace C obs n P) fs1" using s1 by (auto simp: gcSpace_def intro: stays_within)
    note s2 = completionGCSyncFailurePhase_quiet [OF this 2]
    have "stays (gcSpace C obs n P) fs fs2" using s1 s2 unfolding gcSpace_def by (blast intro: stays_trans)
    then show ?thesis using run 1 2 Some by (auto simp: gcRemoveMarker_def)
  qed
qed

lemma gcEligiblePair_spec:
  assumes w: "within (gcSpace C obs n P) fs" and P: "keptByRemoval P"
    and mk: "n (markerName q r) = Some fl" "eligibleMarker C obs q r (content fl) m"
    and ids: "gcr_QueueID res = q" "gcr_ReceiptID res = r" "\<not> gcr_ReceiptRemoved res" "\<not> gcr_MarkerRemoved res"
    and run: "gcEligiblePair C (markerName q r) bs m res fs = (res', fs')"
  shows "stays (gcSpace C obs n P) fs fs' \<and> gcr_QueueID res' = q \<and> gcr_ReceiptID res' = r
    \<and> (gcr_ReceiptRemoved res' \<longrightarrow> absentAll {receiptName q r} fs')
    \<and> (gcr_MarkerRemoved res' \<longrightarrow> absentAll {receiptName q r, markerName q r} fs')"
proof -
  let ?n = "fs_dir fs CompletionReceiptsDir" and ?rc = "receiptName q r"
  note d = gcSpace_dir [OF w]
  obtain x fs1 where 1: "readOptionalRegular CompletionReceiptsDir ?rc fs = (x, fs1)" by fastforce
  note s1 = readOptionalRegular_spec [OF w 1]
  have w1: "within (gcSpace C obs n P) fs1" using s1 by (blast intro: stays_within)
  show ?thesis
  proof (cases x)
    case (Inl e)
    then show ?thesis using run 1 s1 ids by (auto simp: gcEligiblePair_def Let_def)
  next
    case (Inr v)
    show ?thesis
    proof (cases v)
      case None
      then have "fs_dir fs1 CompletionReceiptsDir ?rc = None" using s1 Inr by simp
      moreover have "gcRemoveMarker C (markerName q r) bs
          (res\<lparr>gcr_Eligible := True, gcr_Phase := CompletionGCPhaseReceiptAbsentDurable\<rparr>) fs1 = (res', fs')"
        using run 1 Inr None ids by (simp add: gcEligiblePair_def Let_def)
      ultimately have g: "stays (gcSpace C obs n P) fs1 fs' \<and> gcr_QueueID res' = q \<and> gcr_ReceiptID res' = r
          \<and> \<not> gcr_ReceiptRemoved res' \<and> (gcr_MarkerRemoved res' \<longrightarrow> absentAll {?rc, markerName q r} fs')"
        using gcRemoveMarker_spec [OF w1 P _ mk] ids by simp
      have "stays (gcSpace C obs n P) fs fs'" using conjunct1 [OF s1] conjunct1 [OF g] by (rule stays_trans)
      then show ?thesis using g by simp
    next
      case (Some data)
      obtain rf where rf: "?n ?rc = Some rf" "content rf = data" using s1 Inr Some by (metis map_option_eq_Some)
      show ?thesis
      proof (cases "validateCompletionGCPair C data m")
        case (Some e)
        then show ?thesis using run 1 s1 ids Inr \<open>v = _\<close> by (auto simp: gcEligiblePair_def Let_def)
      next
        case None
        have "n ?rc = Some rf" using gcSafe_present [OF conjunct1 [OF d] rf(1)] .
        then have "gcReceipt C obs n ?rc" unfolding gcReceipt_def using mk None rf(2) by blast
        then have k: "(fs_dir fs1 CompletionReceiptsDir)(?rc := None) \<in> {n'. gcSafe C obs n n' \<and> P n'}"
          using gcSafe_remove [OF conjunct1 [OF d]] d P s1 by (auto simp: keptByRemoval_def)
        obtain e fs2 where 2: "removeExactAndSync C ?rc data fs1 = (e, fs2)" by fastforce
        note s2 = removeExactAndSync_spec [OF w1 [unfolded gcSpace_def] k 2]
        have s12: "stays (gcSpace C obs n P) fs fs2" using s1 s2 unfolding gcSpace_def by (blast intro: stays_trans)
        show ?thesis
        proof (cases e)
          case (Some y)
          obtain phase fs3 where 3: "completionGCSyncFailurePhase ?rc CompletionGCPhaseReceiptSyncIndeterminate
              CompletionGCPhasePreserved fs2 = (phase, fs3)" by fastforce
          note s3 = completionGCSyncFailurePhase_quiet [OF stays_within [OF s12] 3]
          have "stays (gcSpace C obs n P) fs fs3" using s12 s3 by (blast intro: stays_trans)
          then show ?thesis using run 1 2 3 Inr \<open>v = _\<close> None Some ids by (auto simp: gcEligiblePair_def Let_def)
        next
          case n2: None
          have narrow: "within (receiptsIn {(fs_dir fs1 CompletionReceiptsDir)(?rc := None)}) fs2" using s2 n2 by blast
          let ?Q = "\<lambda>m. P m \<and> m ?rc = None"
          have w2: "within (gcSpace C obs n ?Q) fs2"
            unfolding gcSpace_def by (rule within_mono [OF narrow], intro receiptsIn_mono) (use k in auto)
          have Q: "keptByRemoval ?Q" using P by (auto simp: keptByRemoval_def)
          have a2: "fs_dir fs2 CompletionReceiptsDir ?rc = None" using gcSpace_dir [OF w2] by blast
          have r2: "gcRemoveMarker C (markerName q r) bs
              (res\<lparr>gcr_Eligible := True, gcr_ReceiptRemoved := True, gcr_Phase := CompletionGCPhaseReceiptAbsentDurable\<rparr>) fs2 = (res', fs')"
            using run 1 2 Inr \<open>v = _\<close> None n2 ids by (simp add: gcEligiblePair_def Let_def)
          note g = gcRemoveMarker_spec [OF w2 Q a2 mk r2]
          have "stays (gcSpace C obs n P) fs2 fs'"
            using conjunct1 [OF g] by (rule stays_mono) (auto simp: gcSpace_def receiptsIn_def)
          moreover have "absentAll {?rc} fs'" unfolding absentAll_def
            by (rule within_mono [OF stays_within [OF conjunct1 [OF g]]]) (auto simp: gcSpace_def receiptsIn_def)
          ultimately show ?thesis using g s12 ids by (auto intro: stays_trans)
        qed
      qed
    qed
  qed
qed

lemma gcOneCompletionPair_spec:
  assumes w: "within (gcSpace C obs n P) fs" and P: "keptByRemoval P"
    and ids: "gcr_QueueID res = q" "gcr_ReceiptID res = r" "\<not> gcr_ReceiptRemoved res" "\<not> gcr_MarkerRemoved res"
    and run: "gcOneCompletionPair C obs (markerName q r) res fs = (res', fs')"
  shows "stays (gcSpace C obs n P) fs fs' \<and> gcr_QueueID res' = q \<and> gcr_ReceiptID res' = r
    \<and> (gcr_ReceiptRemoved res' \<longrightarrow> absentAll {receiptName q r} fs')
    \<and> (gcr_MarkerRemoved res' \<longrightarrow> absentAll {receiptName q r, markerName q r} fs')"
proof -
  obtain e fs1 where 1: "op_lstatFile CompletionReceiptsDir (markerName q r) fs = (e, fs1)" by fastforce
  note s1 = op_regular_quiet(1) [OF w 1]
  have w1: "within (gcSpace C obs n P) fs1" using s1 by (blast intro: stays_within)
  obtain x fs2 where 2: "op_readFile CompletionReceiptsDir (markerName q r) fs1 = (x, fs2)" by fastforce
  note s2 = op_regular_quiet(2) [OF w1 2]
  have s12: "stays (gcSpace C obs n P) fs fs2" using s1 s2 by (blast intro: stays_trans)
  have w2: "within (gcSpace C obs n P) fs2" using s12 by (rule stays_within)
  show ?thesis
  proof (cases "\<exists>data m. e = None \<and> x = Inr data \<and> eligibleMarker C obs q r data m")
    case True
    then obtain data m where t: "e = None" "x = Inr data" "eligibleMarker C obs q r data m" by blast
    obtain fl where "fs_dir fs1 CompletionReceiptsDir (markerName q r) = Some fl" "content fl = data"
      using s2 t(2) by (metis map_option_eq_Some)
    then have mk: "n (markerName q r) = Some fl" "eligibleMarker C obs q r (content fl) m"
      using gcSafe_present [OF conjunct1 [OF gcSpace_dir [OF w1]]] t(3) by simp_all
    have "gcEligiblePair C (markerName q r) data m res fs2 = (res', fs')"
      using run 1 2 t ids by (simp add: gcOneCompletionPair_def eligibleMarker_def Let_def)
    note g = gcEligiblePair_spec [OF w2 P mk ids this]
    have "stays (gcSpace C obs n P) fs fs'" using s12 conjunct1 [OF g] by (rule stays_trans)
    then show ?thesis using g by simp
  next
    case False
    have "fs' \<in> {fs1, fs2} \<and> gcr_QueueID res' = q \<and> gcr_ReceiptID res' = r \<and> \<not> gcr_ReceiptRemoved res' \<and> \<not> gcr_MarkerRemoved res'"
      using run 1 2 ids False
      by (auto simp: gcOneCompletionPair_def eligibleMarker_def Let_def split: option.splits sum.splits if_splits bool.splits)
    then show ?thesis using s1 s12 by auto
  qed
qed

lemma splitDashes_join:
  "rev acc @ s = concat (butlast (map (\<lambda>x. x @ ''--'') (splitDashes acc s))) @ last (splitDashes acc s) \<and> splitDashes acc s \<noteq> []"
  by (induction acc s rule: splitDashes.induct) auto

lemma markerIdentity_name:
  assumes "completionMarkerIdentityFromName name = Some (q, r)"
  shows "name = markerName q r"
proof -
  have s: "hasSuffix name markerSuffix" "splitDashes [] (trimSuffix name markerSuffix) = [q, r]"
    using assms by (auto simp: completionMarkerIdentityFromName_def split: if_splits list.splits)
  have "trimSuffix name markerSuffix = q @ ''--'' @ r"
    using splitDashes_join [of "[]" "trimSuffix name markerSuffix"] s(2) by simp
  moreover have "name = trimSuffix name markerSuffix @ markerSuffix"
    using s(1) unfolding trimSuffix_def hasSuffix_def by (metis append_take_drop_id)
  ultimately show ?thesis by (simp add: markerName_def)
qed

lemma absentAll_kept:
  assumes "absentAll ps fs" "within (gcSpace C obs n P) fs" "gcPairs C obs names fs = (rs, fs')"
    and "\<And>P. keptByRemoval P \<Longrightarrow> within (gcSpace C obs n P) fs \<Longrightarrow> stays (gcSpace C obs n P) fs fs'"
  shows "absentAll ps fs'"
proof -
  let ?P = "\<lambda>m. \<forall>p\<in>ps. m p = None"
  have "within (gcSpace C obs n ?P) fs"
    unfolding within_def
  proof
    fix d
    show "fs_dir fs d \<in> gcSpace C obs n ?P d \<and> set (fs_pend fs d) \<subseteq> gcSpace C obs n ?P d"
      using assms(1,2) unfolding absentAll_def within_def gcSpace_def
      by (cases "d = CompletionReceiptsDir") (auto simp: subset_iff dest!: spec [of _ CompletionReceiptsDir])
  qed
  moreover have "keptByRemoval ?P" by (simp add: keptByRemoval_def)
  ultimately have "within (gcSpace C obs n ?P) fs'" by (blast intro: stays_within assms(4))
  then show ?thesis unfolding absentAll_def by (rule within_mono) (auto simp: gcSpace_def receiptsIn_def)
qed

lemma gcPairs_stays:
  assumes "keptByRemoval P" "within (gcSpace C obs n P) fs" "gcPairs C obs names fs = (rs, fs')"
  shows "stays (gcSpace C obs n P) fs fs'"
  using assms(2,3)
proof (induction names arbitrary: fs rs)
  case Nil
  then show ?case by simp
next
  case (Cons name names)
  show ?case
  proof (cases "completionMarkerIdentityFromName name")
    case None
    then show ?thesis using Cons by simp
  next
    case (Some qr)
    obtain q r where qr: "qr = (q, r)" by fastforce
    let ?r0 = "\<lparr>gcr_QueueID = q, gcr_ReceiptID = r, gcr_ReceiptRemoved = False, gcr_MarkerRemoved = False, gcr_Eligible = False,
                gcr_Phase = CompletionGCPhaseUnset, gcr_Err = None\<rparr>"
    obtain res fs1 where 1: "gcOneCompletionPair C obs name ?r0 fs = (res, fs1)" by fastforce
    obtain rest where 2: "gcPairs C obs names fs1 = (rest, fs')"
      using Cons.prems(2) Some qr 1 by (auto split: prod.splits)
    have "stays (gcSpace C obs n P) fs fs1"
      using gcOneCompletionPair_spec [OF Cons.prems(1) assms(1) _ _ _ _ 1 [unfolded markerIdentity_name [OF Some [unfolded qr]]]] by simp
    then show ?thesis using Cons.IH [OF _ 2] by (blast intro: stays_trans stays_within)
  qed
qed

lemma gcPairs_true:
  assumes "within (gcSpace C obs n (\<lambda>_. True)) fs" "gcPairs C obs names fs = (rs, fs')" "res \<in> set rs"
  shows "(gcr_ReceiptRemoved res \<longrightarrow> absentAll {receiptName (gcr_QueueID res) (gcr_ReceiptID res)} fs')
    \<and> (gcr_MarkerRemoved res \<longrightarrow> absentAll {receiptName (gcr_QueueID res) (gcr_ReceiptID res),
         markerName (gcr_QueueID res) (gcr_ReceiptID res)} fs')"
  using assms
proof (induction names arbitrary: fs rs)
  case Nil
  then show ?case by simp
next
  case (Cons name names)
  have true: "keptByRemoval (\<lambda>_. True)" by (simp add: keptByRemoval_def)
  show ?case
  proof (cases "completionMarkerIdentityFromName name")
    case None
    then show ?thesis using Cons by simp
  next
    case (Some qr)
    obtain q r where qr: "qr = (q, r)" by fastforce
    let ?r0 = "\<lparr>gcr_QueueID = q, gcr_ReceiptID = r, gcr_ReceiptRemoved = False, gcr_MarkerRemoved = False, gcr_Eligible = False,
                gcr_Phase = CompletionGCPhaseUnset, gcr_Err = None\<rparr>"
    obtain res1 fs1 where 1: "gcOneCompletionPair C obs name ?r0 fs = (res1, fs1)" by fastforce
    obtain rest where 2: "gcPairs C obs names fs1 = (rest, fs')" "rs = res1 # rest"
      using Cons.prems(2) Some qr 1 by (auto split: prod.splits)
    note g = gcOneCompletionPair_spec [OF Cons.prems(1) true _ _ _ _ 1 [unfolded markerIdentity_name [OF Some [unfolded qr]]], simplified]
    have w1: "within (gcSpace C obs n (\<lambda>_. True)) fs1" using g by (blast intro: stays_within)
    show ?thesis
    proof (cases "res = res1")
      case True
      then show ?thesis using g absentAll_kept [OF _ w1 2(1) gcPairs_stays [OF _ _ 2(1)]] by auto
    next
      case False
      then show ?thesis using Cons.IH [OF w1 2(1)] Cons.prems(3) 2(2) by simp
    qed
  qed
qed

text \<open>Without a fault an eligible pair is collected.\<close>

lemma calm_regular:
  assumes "calm fs"
  shows "op_lstatFile d p fs = (e, fs') \<Longrightarrow> calm fs' \<and> fs_dir fs' = fs_dir fs \<and> (e = None \<longleftrightarrow> fs_dir fs d p \<noteq> None)"
    and "op_readFile d p fs = (x, fs') \<Longrightarrow> calm fs' \<and> fs_dir fs' = fs_dir fs \<and>
      x = (case fs_dir fs d p of None \<Rightarrow> Inl ErrNotExist | Some fl \<Rightarrow> Inr (content fl))"
    and "readOptionalRegular d p fs = (y, fs') \<Longrightarrow> calm fs' \<and> fs_dir fs' = fs_dir fs \<and> y = Inr (map_option content (fs_dir fs d p))"
proof -
  have w: "fs_faults fs k = Works" for k using assms by (simp add: calm_def)
  note c = assms calm_setDir
  show "op_lstatFile d p fs = (e, fs') \<Longrightarrow> calm fs' \<and> fs_dir fs' = fs_dir fs \<and> (e = None \<longleftrightarrow> fs_dir fs d p \<noteq> None)"
    and "op_readFile d p fs = (x, fs') \<Longrightarrow> calm fs' \<and> fs_dir fs' = fs_dir fs \<and>
      x = (case fs_dir fs d p of None \<Rightarrow> Inl ErrNotExist | Some fl \<Rightarrow> Inr (content fl))"
    and "readOptionalRegular d p fs = (y, fs') \<Longrightarrow> calm fs' \<and> fs_dir fs' = fs_dir fs \<and> y = Inr (map_option content (fs_dir fs d p))"
    using w c by (auto simp: readOptionalRegular_def op_lstatFile_def fs_ops Let_def split: option.splits if_splits)
qed

lemma removeExactAndSync_calm:
  assumes c: "calm fs" and p: "map_option content (fs_dir fs CompletionReceiptsDir p) \<in> {None, Some expected}"
    and r: "removeExactAndSync C p expected fs = (e, fs')"
  shows "e = None \<and> calm fs' \<and> fs_dir fs' CompletionReceiptsDir = (fs_dir fs CompletionReceiptsDir)(p := None)"
proof -
  have univ: "within (\<lambda>_. UNIV) f" for f by (simp add: within_def)
  obtain x fs1 where 1: "readOptionalRegular CompletionReceiptsDir p fs = (x, fs1)" by fastforce
  note s1 = calm_regular(3) [OF c 1]
  obtain y fs2 where 2: "op_remove CompletionReceiptsDir p fs1 = (y, fs2)" by fastforce
  have s2: "calm fs2" "fs_dir fs1 CompletionReceiptsDir p \<noteq> None \<Longrightarrow> y = None \<and> fs_dir fs2 CompletionReceiptsDir = (fs_dir fs1 CompletionReceiptsDir)(p := None)"
    using calm_ops(4) [OF _ 2] s1 2 by (auto simp: op_remove_def nextFault_def calm_def Let_def)
  have sync: "e = None \<and> calm fs' \<and> fs_dir fs' = fs_dir f" if "syncDirectory CompletionReceiptsDir f = (e, fs')" "calm f" for f
    using syncDirectory_calm [OF that(2,1)] syncDirectory_spec [OF univ that(1), of "{}"] by blast
  show ?thesis
  proof (cases "fs_dir fs CompletionReceiptsDir p")
    case None
    then have "syncDirectory CompletionReceiptsDir fs1 = (e, fs')" using r 1 s1 by (simp add: removeExactAndSync_def)
    then show ?thesis using sync s1 None by (simp add: fun_upd_idem)
  next
    case (Some fl)
    then have "y = None" "fs_dir fs2 CompletionReceiptsDir = (fs_dir fs CompletionReceiptsDir)(p := None)" using s1 s2 by simp_all
    moreover have "syncDirectory CompletionReceiptsDir fs2 = (e, fs')"
      using r 1 2 s1 p Some \<open>y = None\<close> by (simp add: removeExactAndSync_def)
    ultimately show ?thesis using sync s2(1) by simp
  qed
qed

lemma gcOneCompletionPair_collects:
  assumes c: "calm fs" and mk: "fs_dir fs CompletionReceiptsDir (markerName q r) = Some fl" "eligibleMarker C obs q r (content fl) m"
    and rc: "\<And>rf. fs_dir fs CompletionReceiptsDir (receiptName q r) = Some rf \<Longrightarrow> validateCompletionGCPair C (content rf) m = None"
    and ids: "gcr_QueueID res = q" "gcr_ReceiptID res = r"
    and run: "gcOneCompletionPair C obs (markerName q r) res fs = (res', fs')"
  shows "gcr_MarkerRemoved res'"
proof -
  let ?d = CompletionReceiptsDir and ?mk = "markerName q r" and ?rc = "receiptName q r"
  have neq: "?mk \<noteq> ?rc" by (simp add: markerName_def receiptName_def markerSuffix_def)
  obtain e1 fs1 where 1: "op_lstatFile ?d ?mk fs = (e1, fs1)" by fastforce
  note s1 = calm_regular(1) [OF c 1]
  obtain x fs2 where 2: "op_readFile ?d ?mk fs1 = (x, fs2)" by fastforce
  note s2 = calm_regular(2) [OF conjunct1 [OF s1] 2]
  have pair: "gcEligiblePair C ?mk (content fl) m res fs2 = (res', fs')"
    using run 1 2 s1 s2 mk ids by (simp add: gcOneCompletionPair_def eligibleMarker_def Let_def)
  obtain y fs3 where 3: "readOptionalRegular ?d ?rc fs2 = (y, fs3)" by fastforce
  note s3 = calm_regular(3) [OF conjunct1 [OF s2] 3]
  have last: "gcr_MarkerRemoved res'"
    if "gcRemoveMarker C ?mk (content fl) res1 f = (res', fs')" "calm f" "fs_dir f ?d ?mk \<in> {None, Some fl}" for res1 f
  proof -
    obtain e fx where ex: "removeExactAndSync C ?mk (content fl) f = (e, fx)" by fastforce
    then have "e = None" using removeExactAndSync_calm [OF that(2) _ ex] that(3) by auto
    then show ?thesis using that(1) ex by (auto simp: gcRemoveMarker_def)
  qed
  show ?thesis
  proof (cases "fs_dir fs ?d ?rc")
    case None
    then show ?thesis using pair 3 s1 s2 s3 ids mk(1) by (intro last [of _ fs3]) (simp_all add: gcEligiblePair_def Let_def)
  next
    case (Some rf)
    obtain e fs4 where 4: "removeExactAndSync C ?rc (content rf) fs3 = (e, fs4)" by fastforce
    have s4: "e = None \<and> calm fs4 \<and> fs_dir fs4 ?d = (fs_dir fs3 ?d)(?rc := None)"
      using removeExactAndSync_calm [OF _ _ 4] s1 s2 s3 Some by simp
    then show ?thesis using pair 3 4 s1 s2 s3 ids Some rc mk(1) neq
      by (intro last [of _ fs4]) (simp_all add: gcEligiblePair_def Let_def)
  qed
qed

section \<open>A concrete instance\<close>

definition wit_marker :: CompletionReleaseMarker where
  "wit_marker = \<lparr>crm_RecordType = ''completion-release'', crm_SchemaVersion = 1, crm_QueueID = ''q'', crm_ReceiptID = ''r'',
     crm_TransactionID = ''t'', crm_ReceiptSHA256 = replicate 64 (CHR ''0''), crm_CompletedQueueSHA256 = replicate 64 (CHR ''0''),
     crm_ReleasedAt = [], crm_GCNotBefore = ''m''\<rparr>"

definition wit_gc_codec :: Codec where
  "wit_gc_codec = \<lparr>cd_uuidParse = (\<lambda>s. Some (s, 7)), cd_sha256 = id, cd_base64 = id, cd_unbase64 = Inr,
     cd_queueJSON = (\<lambda>q. Inr []), cd_queue = (\<lambda>b. Inl ''bad''), cd_queueErr = (\<lambda>e. ''bad''),
     cd_intentJSON = (\<lambda>i. ''I''), cd_intent = (\<lambda>b. Inl ''bad''),
     cd_receiptJSON = (\<lambda>r. ''R''), cd_receipt = (\<lambda>b. Inl ''bad''), cd_failedJSON = (\<lambda>r. ''F''), cd_failed = (\<lambda>b. Inl ''bad''),
     cd_archiveJSON = (\<lambda>r. ''A''), cd_archive = (\<lambda>b. Inl ''bad''), cd_markerJSON = (\<lambda>r. ''M''), cd_marker = (\<lambda>b. Inr wit_marker),
     cd_formatTime = (\<lambda>t. if t = 0 then [] else ''m''),
     cd_parseTime = (\<lambda>s. if s = [] then Some 0 else Some completionReceiptRetention), cd_quote = id\<rparr>"

definition wit_trusted :: "go_time \<Rightarrow> CompletionGCObservation" where
  "wit_trusted now = \<lparr>gco_Now = now, gco_Synchronized = True, gco_Regressed = False\<rparr>"

definition wit_receipts :: ns where "wit_receipts = [''q--r.release-v1.json'' \<mapsto> File ''M'' True]"

definition wit_gc_start :: FS where
  "wit_gc_start = \<lparr>fs_dir = (\<lambda>_. wit_receipts), fs_pend = (\<lambda>_. [wit_receipts]), fs_snaps = [], fs_faults = (\<lambda>_. Works), fs_now = 0\<rparr>"

lemma wit_marker_valid: "validateCompletionReleaseMarker wit_gc_codec wit_marker = None"
proof -
  have "validSHA256 (replicate 64 (CHR ''0''))"
    by (simp add: validSHA256_def list_all_iff isHexDigit_def)
  then show ?thesis
    by (simp add: validateCompletionReleaseMarker_def wit_marker_def wit_gc_codec_def validateUUIDv7_def
        parseRecoveryTimestamp_def completionReceiptRetention_def)
qed

lemma wit_gc_codec_sel:
  "cd_marker wit_gc_codec b = Inr wit_marker" "cd_markerJSON wit_gc_codec m = ''M''"
  "cd_parseTime wit_gc_codec v = (if v = [] then Some 0 else Some completionReceiptRetention)"
  by (simp_all add: wit_gc_codec_def)

lemma wit_eligible: "eligibleMarker wit_gc_codec (wit_trusted completionReceiptRetention) ''q'' ''r'' ''M'' wit_marker"
  by (simp add: eligibleMarker_def DecodeCompletionReleaseMarker_def orFail_def wit_marker_valid CompletionReceiptGCEligible_def
      wit_gc_codec_sel wit_trusted_def) (simp add: wit_marker_def completionReceiptRetention_def)

section \<open>Properties\<close>

text \<open>
  C14. A garbage collection pass deletes receipt first and marker last, and only what is due. Whatever
  operations fail and wherever the process dies, a file gone from the receipts directory is either
  the receipt of a marker whose retention has passed and whose facts it matches, or such a marker
  whose receipt is already gone; nothing else changes. A reported removal is durable, with the
  marker's removal the receipt's too; without a trusted clock the pass does nothing; and without a
  fault a pass that sees a due marker, whose receipt it fits, removes both.
\<close>

theorem gc_receipt_first:
  assumes "within (receiptsIn {n}) fs" and "GarbageCollectCompletionReceipts C ls obs fs = (res, fs')"
  shows "guarded (\<lambda>m. gcSafe C obs n (m CompletionReceiptsDir)) fs fs'
    \<and> (\<not> gco_Synchronized obs \<or> gco_Regressed obs \<longrightarrow> res = Inr [] \<and> fs' = fs)
    \<and> (\<forall>rs r. res = Inr rs \<and> r \<in> set rs \<longrightarrow>
         (gcr_ReceiptRemoved r \<longrightarrow> absentAll {receiptName (gcr_QueueID r) (gcr_ReceiptID r)} fs') \<and>
         (gcr_MarkerRemoved r \<longrightarrow> absentAll {receiptName (gcr_QueueID r) (gcr_ReceiptID r), markerName (gcr_QueueID r) (gcr_ReceiptID r)} fs'))
    \<and> (calm fs \<and> gco_Synchronized obs \<and> \<not> gco_Regressed obs \<and> (\<forall>f. ls f = Inr [name])
         \<and> completionMarkerIdentityFromName name = Some (q, r) \<and> n name = Some fl \<and> eligibleMarker C obs q r (content fl) m
         \<and> (\<forall>rf. n (receiptName q r) = Some rf \<longrightarrow> validateCompletionGCPair C (content rf) m = None)
       \<longrightarrow> absentAll {receiptName q r, markerName q r} fs')"
proof -
  let ?A = "gcSpace C obs n (\<lambda>_. True)"
  have w: "within ?A fs" by (rule within_mono [OF assms(1)]) (auto simp: gcSpace_def receiptsIn_def gcSafe_refl)
  have true: "keptByRemoval (\<lambda>_. True)" by (simp add: keptByRemoval_def)
  have all: "stays ?A fs fs' \<and> (\<forall>rs r. res = Inr rs \<and> r \<in> set rs \<longrightarrow>
         (gcr_ReceiptRemoved r \<longrightarrow> absentAll {receiptName (gcr_QueueID r) (gcr_ReceiptID r)} fs') \<and>
         (gcr_MarkerRemoved r \<longrightarrow> absentAll {receiptName (gcr_QueueID r) (gcr_ReceiptID r), markerName (gcr_QueueID r) (gcr_ReceiptID r)} fs'))"
  proof (cases "gco_Synchronized obs \<and> \<not> gco_Regressed obs")
    case False
    then have "res = Inr [] \<and> fs' = fs" using assms(2) by (auto simp: GarbageCollectCompletionReceipts_def)
    then show ?thesis using w by simp
  next
    case True
    obtain e1 fs1 where 1: "op_lstat fs = (e1, fs1)" by fastforce
    have s1: "stays ?A fs fs1" using quiet_ops(2) [OF w 1] by (simp add: quiet_def)
    obtain e2 fs2 where 2: "syncDirectory CompletionReceiptsDir fs1 = (e2, fs2)" by fastforce
    have "stays ?A fs1 fs2" using syncDirectory_spec [OF stays_within [OF s1] 2] by blast
    then have s2: "stays ?A fs fs2" using s1 by (blast intro: stays_trans)
    note run = assms(2) [unfolded GarbageCollectCompletionReceipts_def garbageCollectCompletionReceipts_def] True 1 2
    show ?thesis
    proof (cases "\<exists>names. e1 = None \<and> e2 = None \<and> ls fs2 = Inr names")
      case True
      then obtain names where n: "e1 = None" "e2 = None" "ls fs2 = Inr names" by blast
      obtain rs where rs: "gcPairs C obs names fs2 = (rs, fs')" "res = Inr rs"
        using run n by (auto split: prod.splits)
      have w2: "within ?A fs2" using s2 by (rule stays_within)
      have "stays ?A fs fs'" using s2 gcPairs_stays [OF true w2 rs(1)] by (rule stays_trans)
      then show ?thesis using gcPairs_true [OF w2 rs(1)] rs(2) by auto
    next
      case False
      then have "(\<exists>e. res = Inl e) \<and> fs' \<in> {fs1, fs2}"
        using run by (auto split: option.splits sum.splits)
      then show ?thesis using s1 s2 by auto
    qed
  qed
  have "guarded (\<lambda>m. gcSafe C obs n (m CompletionReceiptsDir)) fs fs'"
    using conjunct1 [OF all] by (rule stays_guarded) (auto simp: gcSpace_def dest!: spec [of _ CompletionReceiptsDir])
  moreover have "res = Inr [] \<and> fs' = fs" if "\<not> gco_Synchronized obs \<or> gco_Regressed obs"
    using that assms(2) by (auto simp: GarbageCollectCompletionReceipts_def)
  moreover have "absentAll {receiptName q r, markerName q r} fs'"
    if c: "calm fs" and clock: "gco_Synchronized obs" "\<not> gco_Regressed obs" and ls: "\<forall>f. ls f = Inr [name]"
      and name: "completionMarkerIdentityFromName name = Some (q, r)" and mk: "n name = Some fl" "eligibleMarker C obs q r (content fl) m"
      and rc: "\<forall>rf. n (receiptName q r) = Some rf \<longrightarrow> validateCompletionGCPair C (content rf) m = None"
  proof -
    let ?r0 = "\<lparr>gcr_QueueID = q, gcr_ReceiptID = r, gcr_ReceiptRemoved = False, gcr_MarkerRemoved = False, gcr_Eligible = False,
                gcr_Phase = CompletionGCPhaseUnset, gcr_Err = None\<rparr>"
    note nm = markerIdentity_name [OF name]
    obtain e1 fs1 where 1: "op_lstat fs = (e1, fs1)" by fastforce
    have s1: "e1 = None" "calm fs1" "fs_dir fs1 = fs_dir fs" using quiet_ops(2) [OF w 1] c by (auto simp: quiet_def)
    obtain e2 fs2 where 2: "syncDirectory CompletionReceiptsDir fs1 = (e2, fs2)" by fastforce
    have "within (\<lambda>_. UNIV) fs1" by (simp add: within_def)
    then have s2: "e2 = None" "calm fs2" "fs_dir fs2 = fs_dir fs"
      using syncDirectory_calm [OF s1(2) 2] syncDirectory_spec [OF _ 2, of _ "{}"] s1(3) by auto
    have dn: "fs_dir fs CompletionReceiptsDir = n" using assms(1) unfolding within_def by (metis receiptsIn_simps(1) singletonD)
    obtain r1 fs3 where 3: "gcOneCompletionPair C obs (markerName q r) ?r0 fs2 = (r1, fs3)" by fastforce
    have run: "res = Inr [r1]" "fs' = fs3"
      using assms(2) clock 1 2 s1(1) s2(1) ls name 3 [folded nm]
      by (auto simp: GarbageCollectCompletionReceipts_def garbageCollectCompletionReceipts_def)
    have "gcr_MarkerRemoved r1"
      by (rule gcOneCompletionPair_collects [OF s2(2) _ mk(2) _ _ _ 3]) (use mk(1) rc dn s2(3) nm in auto)
    moreover have "stays ?A fs fs2" using quiet_ops(2) [OF w 1] syncDirectory_spec [OF _ 2] by (auto simp: quiet_def intro: stays_trans stays_within)
    ultimately show ?thesis
      using gcOneCompletionPair_spec [OF stays_within true _ _ _ _ 3] run(2) by simp
  qed
  ultimately show ?thesis using conjunct2 [OF all] by blast
qed

theorem gc_receipt_first_witness:
  "absentAll {receiptName ''q'' ''r'', markerName ''q'' ''r''}
     (snd (GarbageCollectCompletionReceipts wit_gc_codec (\<lambda>_. Inr [''q--r.release-v1.json'']) (wit_trusted completionReceiptRetention) wit_gc_start))"
proof -
  have w: "within (receiptsIn {wit_receipts}) wit_gc_start" by (simp add: within_def wit_gc_start_def receiptsIn_def)
  have name: "completionMarkerIdentityFromName ''q--r.release-v1.json'' = Some (''q'', ''r'')" by code_simp
  have "calm wit_gc_start" by (simp add: calm_def wit_gc_start_def)
  moreover have "wit_receipts (receiptName ''q'' ''r'') = None" by (simp add: wit_receipts_def receiptName_def)
  ultimately show ?thesis
    using gc_receipt_first [OF w surjective_pairing, where C = wit_gc_codec and ls = "\<lambda>_. Inr [''q--r.release-v1.json'']"
        and obs = "wit_trusted completionReceiptRetention" and name = "''q--r.release-v1.json''" and q = "''q''" and r = "''r''"
        and fl = "File ''M'' True" and m = wit_marker] name wit_eligible
    by (simp add: wit_trusted_def wit_receipts_def)
qed

text \<open>
  C15. Retention is exact. A marker prepared at a time is eligible for deletion exactly from thirty
  days after that time, in milliseconds, on, under a synchronized and not regressed clock; the law
  used of the time format is that it reads back what it wrote.
\<close>

theorem marker_retention:
  assumes "PrepareCompletionReleaseMarker C i t = Inr (m, data)"
    and "cd_parseTime C (cd_formatTime C (truncateMillisecond t)) = Some (truncateMillisecond t)"
    and "cd_parseTime C (cd_formatTime C (truncateMillisecond t + completionReceiptRetention)) = Some (truncateMillisecond t + completionReceiptRetention)"
  shows "CompletionReceiptGCEligible C m obs =
    Inr (gco_Synchronized obs \<and> \<not> gco_Regressed obs \<and> t - t mod 1000000 + 30 * 24 * 3600 * 1000000000 \<le> gco_Now obs)"
proof -
  let ?t = "truncateMillisecond t"
  have m: "validateCompletionReleaseMarker C m = None" "crm_ReleasedAt m = cd_formatTime C ?t"
    "crm_GCNotBefore m = cd_formatTime C (?t + completionReceiptRetention)"
    using assms(1) by (auto simp: PrepareCompletionReleaseMarker_def Let_def)
  have "cd_parseTime C (crm_ReleasedAt m) = Some ?t" "cd_parseTime C (crm_GCNotBefore m) = Some (?t + completionReceiptRetention)"
    using m(2,3) assms(2,3) by simp_all
  then show ?thesis using m(1)
    by (auto simp: CompletionReceiptGCEligible_def completionReceiptRetention_def truncateMillisecond_def)
qed

theorem marker_retention_witness:
  "CompletionReceiptGCEligible wit_gc_codec wit_marker (wit_trusted (completionReceiptRetention - 1)) = Inr False
   \<and> CompletionReceiptGCEligible wit_gc_codec wit_marker (wit_trusted completionReceiptRetention) = Inr True"
proof -
  have "PrepareCompletionReleaseMarker wit_gc_codec \<lparr>cmi_QueueID = ''q'', cmi_ReceiptID = ''r'', cmi_TransactionID = ''t'',
      cmi_ReceiptSHA256 = replicate 64 (CHR ''0''), cmi_CompletedQueueSHA256 = replicate 64 (CHR ''0'')\<rparr> 0 = Inr (wit_marker, ''M'')"
  proof -
    have "validSHA256 (replicate 64 (CHR ''0''))" by (simp add: validSHA256_def list_all_iff isHexDigit_def)
    moreover have "wit_marker = \<lparr>crm_RecordType = ''completion-release'', crm_SchemaVersion = 1, crm_QueueID = ''q'', crm_ReceiptID = ''r'',
        crm_TransactionID = ''t'', crm_ReceiptSHA256 = replicate 64 (CHR ''0''), crm_CompletedQueueSHA256 = replicate 64 (CHR ''0''),
        crm_ReleasedAt = cd_formatTime wit_gc_codec 0, crm_GCNotBefore = cd_formatTime wit_gc_codec completionReceiptRetention\<rparr>"
      by (simp add: wit_marker_def wit_gc_codec_def completionReceiptRetention_def)
    ultimately show ?thesis using wit_marker_valid
      by (simp add: PrepareCompletionReleaseMarker_def validateCompletionReleaseMarkerInputs_def truncateMillisecond_def orFail_def
          validateUUIDv7_def) (simp add: wit_gc_codec_def)
  qed
  note m = marker_retention [OF this]
  show ?thesis
    using m [of "wit_trusted (completionReceiptRetention - 1)"] m [of "wit_trusted completionReceiptRetention"]
    by (simp add: truncateMillisecond_def wit_gc_codec_def wit_trusted_def completionReceiptRetention_def)
qed

end
