(* ===== verification/Queue_Store.thy ===== *)
theory Queue_Store
  imports Replace_Write Completion_Records Queue_Completion
begin

text \<open>
  The daemon's registry of live queues, \<^verbatim>\<open>internal/queuewiring/store.go\<close> and \<^verbatim>\<open>recovery.go\<close>: the
  name-keyed map with its generations and quarantines, the clone-mutate-persist-install transaction
  over the replacement protocol, the final completion of a queue, and failed recovery. Each
  operation holds \<open>queueMu\<close> from start to end and is one function on the store; \<open>Complete\<close> releases it
  for the observation and is two. \<open>RecoverFailed\<close>, which takes the lock three times, is its
  uninterrupted run; what an interruption changes, \<open>Transact\<close> refuses by the generation. The
  project directory is fixed. An entry of the map may be a nil queue. \<open>LockedQueueByName\<close> gives the live
  pointer in the code, and its callers may change the queue behind it before they set it again; here it
  gives the value, and a change is the argument of the following \<open>LockedSetQueueByName\<close>.
\<close>

section \<open>The store\<close>

record QueueStore =
  qs_queues :: "string \<rightharpoonup> Queue option"
  qs_generations :: "string \<Rightarrow> 64 word"
  qs_quarantined :: "string \<Rightarrow> string option"
  qs_wake :: bool

datatype StoreError = ErrQueueQuarantined string string | ErrStaleSnapshot string | StoreErr string

definition newQueueStore :: QueueStore where
  "newQueueStore = \<lparr>qs_queues = Map.empty, qs_generations = (\<lambda>_. 0), qs_quarantined = (\<lambda>_. None), qs_wake = False\<rparr>"

definition queueAt :: "QueueStore \<Rightarrow> string \<Rightarrow> Queue option" where
  "queueAt s name = (case qs_queues s name of None \<Rightarrow> None | Some q \<Rightarrow> q)"

definition bumpGeneration :: "string \<Rightarrow> QueueStore \<Rightarrow> QueueStore" where
  "bumpGeneration name s = s\<lparr>qs_generations := (qs_generations s)(name := qs_generations s name + 1)\<rparr>"

definition installQueue :: "string \<Rightarrow> Queue option \<Rightarrow> QueueStore \<Rightarrow> QueueStore" where
  "installQueue name q s = bumpGeneration name (s\<lparr>qs_queues := (qs_queues s)(name \<mapsto> q)\<rparr>)"

definition removeQueue :: "string \<Rightarrow> QueueStore \<Rightarrow> QueueStore" where
  "removeQueue name s = bumpGeneration name (s\<lparr>qs_queues := (qs_queues s)(name := None)\<rparr>)"

definition quarantine :: "string \<Rightarrow> string option \<Rightarrow> QueueStore \<Rightarrow> QueueStore" where
  "quarantine name e s = s\<lparr>qs_quarantined := (qs_quarantined s)(name := e)\<rparr>"

definition Wake :: "QueueStore \<Rightarrow> QueueStore" where "Wake s = s\<lparr>qs_wake := True\<rparr>"

definition LockedSetQueueByName :: "string \<Rightarrow> Queue option \<Rightarrow> QueueStore \<Rightarrow> QueueStore" where
  "LockedSetQueueByName name q s = (if qs_quarantined s name \<noteq> None then s else installQueue name q s)"

definition LockedSetQueue :: "Queue \<Rightarrow> QueueStore \<Rightarrow> QueueStore" where
  "LockedSetQueue q s = LockedSetQueueByName (NormaliseQueueName (queue_Name q)) (Some q) s"

definition SetQueueByName :: "string \<Rightarrow> Queue option \<Rightarrow> QueueStore \<Rightarrow> QueueStore" where
  "SetQueueByName name q s = (if qs_quarantined s name \<noteq> None then s else Wake (installQueue name q s))"

definition SetQueue :: "Queue \<Rightarrow> QueueStore \<Rightarrow> QueueStore" where
  "SetQueue q s = SetQueueByName (NormaliseQueueName (queue_Name q)) (Some q) s"

definition ClearQueueByName :: "string \<Rightarrow> QueueStore \<Rightarrow> QueueStore" where
  "ClearQueueByName name s = (if qs_quarantined s name \<noteq> None then s else removeQueue name s)"

definition ClearQueue :: "QueueStore \<Rightarrow> QueueStore" where
  "ClearQueue s = ClearQueueByName QueueNameMain s"

definition QueueByName :: "QueueStore \<Rightarrow> string \<Rightarrow> Queue option" where
  "QueueByName s name = CloneQueue (queueAt s name)"

definition AllQueues :: "QueueStore \<Rightarrow> string \<rightharpoonup> Queue option" where
  "AllQueues s = (\<lambda>name. map_option CloneQueue (qs_queues s name))"

definition LockedQueueByName :: "QueueStore \<Rightarrow> string \<Rightarrow> Queue option" where
  "LockedQueueByName s name = (if qs_quarantined s name \<noteq> None then None else queueAt s name)"

definition QuarantineReason :: "QueueStore \<Rightarrow> string \<Rightarrow> string option" where
  "QuarantineReason s name = qs_quarantined s (NormaliseQueueName name)"

definition otherQueuesLocked :: "QueueStore \<Rightarrow> string \<Rightarrow> string \<rightharpoonup> Queue option" where
  "otherQueuesLocked s exclude = (\<lambda>name. if name = exclude then None else map_option CloneQueue (qs_queues s name))"

section \<open>Transactions\<close>

record QueueSnapshot_store =
  sn_Name :: string
  sn_Queue :: "Queue option"
  sn_Generation :: "64 word"

definition Snapshot :: "QueueStore \<Rightarrow> string \<Rightarrow> QueueSnapshot_store" where
  "Snapshot s name0 = (let name = NormaliseQueueName name0 in
     \<lparr>sn_Name = name, sn_Queue = CloneQueue (queueAt s name), sn_Generation = qs_generations s name\<rparr>)"

text \<open>\<open>Mutate\<close> changes the candidate in place or fails; a nil function is \<open>None\<close>.\<close>

record TransactionRequest =
  tr_Snapshot :: QueueSnapshot_store
  tr_TransactionID :: string
  tr_OperationKind :: OperationKind
  tr_WakeRequired :: bool
  tr_ArchiveHandoff :: "ArchiveHandoffPlan option"
  tr_FailedRecoveryReceiptBinding :: "FailedRecoveryReceiptBinding option"
  tr_CompletionReceiptBinding :: "CompletionReceiptBinding option"
  tr_Mutate :: "(Queue \<Rightarrow> string + Queue) option"
  tr_Precondition :: "((string \<rightharpoonup> Queue option) \<Rightarrow> string option) option"

text \<open>The snapshot of a result is empty (\<open>None\<close>) unless committed state was installed.\<close>

record TransactionResult =
  res_Outcome :: NamespaceOutcome
  res_Err :: "StoreError option"
  res_Snapshot :: "QueueSnapshot_store option"
  res_CleanupErr :: "string option"

text \<open>What a write draws from outside: the context error, two fresh ids, two temporary suffixes.\<close>

record WriteEnv =
  we_ctxErr :: "string option"
  we_newTx :: "string + string"
  we_newSuccessor :: "string + string"
  we_sfx1 :: string
  we_sfx2 :: string

definition rejectedTransaction :: "StoreError \<Rightarrow> TransactionResult" where
  "rejectedTransaction e = \<lparr>res_Outcome = OutcomeRejected, res_Err = Some e, res_Snapshot = None, res_CleanupErr = None\<rparr>"

definition marshalOptional :: "Codec \<Rightarrow> Queue option \<Rightarrow> string + bytes option" where
  "marshalOptional C q = (case q of None \<Rightarrow> Inr None
     | Some q \<Rightarrow> (case cd_queueJSON C q of Inl e \<Rightarrow> Inl e | Inr b \<Rightarrow> Inr (Some b)))"

text \<open>\<^verbatim>\<open>bytes.Equal\<close>: a nil slice is an empty one.\<close>

definition sliceOf :: "bytes option \<Rightarrow> bytes" where "sliceOf b = (case b of None \<Rightarrow> [] | Some b \<Rightarrow> b)"

definition sameQueue :: "Codec \<Rightarrow> Queue option \<Rightarrow> Queue option \<Rightarrow> bool" where
  "sameQueue C a b = (case (marshalOptional C a, marshalOptional C b) of
     (Inr x, Inr y) \<Rightarrow> sliceOf x = sliceOf y | _ \<Rightarrow> False)"

definition receiptBearing :: "TransactionRequest \<Rightarrow> bool" where
  "receiptBearing req \<longleftrightarrow> tr_OperationKind req = OperationCancellation \<or> tr_ArchiveHandoff req \<noteq> None
     \<or> tr_OperationKind req = OperationFailedRecovery \<or> tr_OperationKind req = OperationCompletion"

text \<open>The checks before the candidate exists, in the code's order.\<close>

definition transactRefusal :: "Codec \<Rightarrow> TransactionRequest \<Rightarrow> QueueStore \<Rightarrow> StoreError option" where
  "transactRefusal C req s = (let name = NormaliseQueueName (sn_Name (tr_Snapshot req)) in
     if qs_quarantined s name \<noteq> None \<and> tr_OperationKind req \<noteq> OperationFailedRecovery
     then Some (ErrQueueQuarantined name (the (qs_quarantined s name)))
     else if sn_Generation (tr_Snapshot req) \<noteq> qs_generations s name then Some (ErrStaleSnapshot ''generation moved'')
     else if \<not> sameQueue C (CloneQueue (queueAt s name)) (sn_Queue (tr_Snapshot req))
     then Some (ErrStaleSnapshot ''bytes differ at the same generation'')
     else if tr_Mutate req = None then Some (StoreErr ''transaction mutation is required'')
     else (case tr_Precondition req of None \<Rightarrow> None
        | Some pre \<Rightarrow> map_option StoreErr (pre (otherQueuesLocked s name))))"

definition planOf :: "TransactionRequest \<Rightarrow> string \<Rightarrow> Queue \<Rightarrow> bytes option \<Rightarrow> bytes \<Rightarrow> ReplacementPlan" where
  "planOf req name candidate priorBytes candidateBytes =
     \<lparr>rp_TransactionID = tr_TransactionID req, rp_OperationKind = tr_OperationKind req, rp_NormalizedName = name,
      rp_QueueID = queue_QueueID candidate, rp_PriorBytes = priorBytes, rp_CandidateBytes = candidateBytes,
      rp_WakeRequired = tr_WakeRequired req, rp_ArchiveHandoff = tr_ArchiveHandoff req,
      rp_FailedRecoveryReceiptBinding = tr_FailedRecoveryReceiptBinding req,
      rp_CompletionReceiptBinding = tr_CompletionReceiptBinding req\<rparr>"

text \<open>After a committed write: failed recovery drops its intent before the memory changes, the others after.\<close>

definition installCommitted ::
    "TransactionRequest \<Rightarrow> string \<Rightarrow> Queue \<Rightarrow> ReplacementCommit \<Rightarrow> QueueStore \<Rightarrow> FS \<Rightarrow> TransactionResult \<times> QueueStore \<times> FS" where
  "installCommitted req name candidate commit s fs =
     (let failed = (tr_OperationKind req = OperationFailedRecovery);
          result = (\<lambda>snap cleanup. \<lparr>res_Outcome = rc_Outcome commit, res_Err = map_option StoreErr (rc_Err commit),
                      res_Snapshot = snap, res_CleanupErr = cleanup\<rparr>);
          (early, fs1) = (if failed then cleanupReplaceIntent name fs else (None, fs)) in
      case early of
        Some e \<Rightarrow> (result None (Some e), quarantine name (Some e) s, fs1)
      | None \<Rightarrow>
         (let s1 = installQueue name (CloneQueue (Some candidate)) s;
              s2 = (if failed then quarantine name None s1 else s1);
              snap = Some \<lparr>sn_Name = name, sn_Queue = CloneQueue (Some candidate), sn_Generation = qs_generations s2 name\<rparr>;
              s3 = (if tr_WakeRequired req then Wake s2 else s2) in
          if (case rc_Intent commit of Some i \<Rightarrow> ri_ArchiveHandoffBinding i = None | None \<Rightarrow> True) \<and> \<not> failed
          then (case cleanupReplaceIntent name fs1 of
              (Some e, fs2) \<Rightarrow> (result snap (Some e), quarantine name (Some e) s3, fs2)
            | (None, fs2) \<Rightarrow> (result snap None, s3, fs2))
          else (result snap None, s3, fs1)))"

definition Transact ::
    "Codec \<Rightarrow> WriteEnv \<Rightarrow> TransactionRequest \<Rightarrow> QueueStore \<Rightarrow> FS \<Rightarrow> TransactionResult \<times> QueueStore \<times> FS" where
  "Transact C env req s fs =
     (let name = NormaliseQueueName (sn_Name (tr_Snapshot req)); current = CloneQueue (queueAt s name) in
      case transactRefusal C req s of
        Some e \<Rightarrow> (rejectedTransaction e, s, fs)
      | None \<Rightarrow>
         (case the (tr_Mutate req) (case current of Some q \<Rightarrow> q | None \<Rightarrow> zeroQueue\<lparr>queue_Name := name\<rparr>) of
            Inl e \<Rightarrow> (rejectedTransaction (StoreErr e), s, fs)
          | Inr mutated \<Rightarrow> (let candidate = mutated\<lparr>queue_Name := name\<rparr> in
              case marshalOptional C current of
                Inl e \<Rightarrow> (rejectedTransaction (StoreErr (wrapErr ''marshal prior'' e)), s, fs)
              | Inr priorBytes \<Rightarrow> (case cd_queueJSON C candidate of
                  Inl e \<Rightarrow> (\<lparr>res_Outcome = OutcomeNotCommitted, res_Err = Some (StoreErr (wrapErr ''marshal candidate'' e)),
                              res_Snapshot = None, res_CleanupErr = None\<rparr>, s, fs)
                | Inr candidateBytes \<Rightarrow>
                    if sliceOf priorBytes = candidateBytes
                    then (if receiptBearing req
                          then (rejectedTransaction (StoreErr ''receipt-bearing transaction cannot collapse as no-op''), s, fs)
                          else (\<lparr>res_Outcome = OutcomeCommittedDurable, res_Err = None,
                                  res_Snapshot = Some \<lparr>sn_Name = name, sn_Queue = CloneQueue current, sn_Generation = qs_generations s name\<rparr>,
                                  res_CleanupErr = None\<rparr>, s, fs))
                    else (case writeReplacement C (we_ctxErr env) (we_newTx env) (we_newSuccessor env) (we_sfx1 env) (we_sfx2 env)
                                 (planOf req name candidate priorBytes candidateBytes) fs of
                        (commit, fs1) \<Rightarrow>
                          if \<not> Committed commit
                          then (\<lparr>res_Outcome = rc_Outcome commit, res_Err = map_option StoreErr (rc_Err commit),
                                  res_Snapshot = None, res_CleanupErr = None\<rparr>,
                                (if rc_Outcome commit \<noteq> OutcomeRejected then quarantine name (rc_Err commit) s else s), fs1)
                          else installCommitted req name candidate commit s fs1)))))"

section \<open>Failed recovery\<close>

definition ReadFailedRecoveryReceipt :: "Codec \<Rightarrow> Queue \<Rightarrow> FS \<Rightarrow> (string + FailedRecoveryReceipt \<times> bytes) \<times> FS" where
  "ReadFailedRecoveryReceipt C recovered0 fs = (case queue_FailedRecoveryReceiptID recovered0 of
       None \<Rightarrow> (Inl ''recovered queue has no failed recovery receipt ID'', fs)
     | Some receiptID \<Rightarrow> (let name = NormaliseQueueName (queue_Name recovered0); recovered = recovered0\<lparr>queue_Name := name\<rparr> in
         case cd_queueJSON C recovered of
           Inl e \<Rightarrow> (Inl (wrapErr ''marshal recovered queue'' e), fs)
         | Inr recoveredBytes \<Rightarrow> (let basename = queue_QueueID recovered @ ''--'' @ receiptID @ ''.json'' in
             case op_readFile FailedReceiptsDir basename fs of
               (Inl e, fs1) \<Rightarrow> (Inl (FsErr_text e), fs1)
             | (Inr data, fs1) \<Rightarrow> (case cd_failed C data of
                 Inl e \<Rightarrow> (Inl (wrapErr ''decode failed recovery receipt'' e), fs1)
               | Inr r \<Rightarrow> (case validateFailedRecoveryReceiptBinding C
                     (Some \<lparr>frb_ReceiptID = frr_ReceiptID r, frb_TransactionID = frr_TransactionID r,
                        frb_Basename = filepath_Base basename, frb_SchemaVersion = frr_SchemaVersion r,
                        frb_CanonicalBytesBase64 = cd_base64 C data, frb_SHA256 = digestHex C data\<rparr>)
                     (queue_QueueID recovered) (frr_TransactionID r) name (frr_PriorQueueSHA256 r) (digestHex C recoveredBytes) of
                   Some e \<Rightarrow> (Inl e, fs1)
                 | None \<Rightarrow> if frr_ReceiptID r \<noteq> receiptID
                     then (Inl ''failed recovery receipt ID does not match queue'', fs1) else (Inr (r, data), fs1))))))"

record FailedRecoveryResult =
  fr_Result :: TransactionResult
  fr_Receipt :: "FailedRecoveryReceipt option"
  fr_AlreadyRecovered :: bool

text \<open>\<open>newReceipt\<close>, \<open>newTx\<close> and \<open>now\<close> are the draws of \<open>PrepareFailedRecovery\<close>.\<close>

definition commitFailedRecovery ::
    "Codec \<Rightarrow> WriteEnv \<Rightarrow> string + string \<Rightarrow> string + string \<Rightarrow> go_time \<Rightarrow> string \<Rightarrow> QueueStore \<Rightarrow> FS \<Rightarrow>
     FailedRecoveryResult \<times> QueueStore \<times> FS" where
  "commitFailedRecovery C env newReceipt newTx now name0 s fs =
     (let name = NormaliseQueueName name0; snapshot = Snapshot s name;
          rejected = (\<lambda>e. \<lparr>fr_Result = rejectedTransaction (StoreErr e), fr_Receipt = None, fr_AlreadyRecovered = False\<rparr>) in
      case sn_Queue snapshot of
        None \<Rightarrow> (rejected ''failed recovery queue is absent'', s, fs)
      | Some q \<Rightarrow>
          if queue_Status q = QueueStatusActive \<and> queue_FailedRecoveryReceiptID q \<noteq> None
          then (case ReadFailedRecoveryReceipt C q fs of
              (Inl e, fs1) \<Rightarrow> (rejected (wrapErr ''read failed recovery receipt'' e), s, fs1)
            | (Inr (r, _), fs1) \<Rightarrow>
                (\<lparr>fr_Result = \<lparr>res_Outcome = OutcomeCommittedDurable, res_Err = None, res_Snapshot = Some snapshot, res_CleanupErr = None\<rparr>,
                  fr_Receipt = Some r, fr_AlreadyRecovered = True\<rparr>, s, fs1))
          else (case PrepareFailedRecovery C newReceipt newTx q now of
              Inl e \<Rightarrow> (rejected e, s, fs)
            | Inr p \<Rightarrow> (case Transact C env
                  \<lparr>tr_Snapshot = snapshot, tr_TransactionID = fp_TransactionID p, tr_OperationKind = OperationFailedRecovery,
                   tr_WakeRequired = True, tr_ArchiveHandoff = None, tr_FailedRecoveryReceiptBinding = Some (fp_Binding p),
                   tr_CompletionReceiptBinding = None, tr_Mutate = Some (\<lambda>_. Inr (fp_Candidate p)), tr_Precondition = None\<rparr> s fs of
                (res, s1, fs1) \<Rightarrow>
                  (\<lparr>fr_Result = res,
                    fr_Receipt = (if res_Outcome res \<noteq> OutcomeCommittedDurable \<or> res_CleanupErr res \<noteq> None then None else Some (fp_Receipt p)),
                    fr_AlreadyRecovered = False\<rparr>, s1, fs1))))"

text \<open>The message of an error of the store.\<close>

definition StoreError_text :: "Codec \<Rightarrow> StoreError \<Rightarrow> string" where
  "StoreError_text C e = (case e of
     ErrQueueQuarantined name cause \<Rightarrow>
       wrapErr ''queuewiring: queue is quarantined after a failed write'' (wrapErr (''queue name '' @ cd_quote C name) cause)
   | ErrStaleSnapshot why \<Rightarrow> wrapErr ''queuewiring: queue snapshot is stale'' why
   | StoreErr m \<Rightarrow> m)"

text \<open>The other fields are the Go zero values.\<close>

definition recoveryError :: "RecoveryReason \<Rightarrow> string \<Rightarrow> string \<Rightarrow> RecoveryError" where
  "recoveryError reason name queueID = \<lparr>re_Reason = reason, re_NormalizedName = name, re_QueueID = queueID,
     re_ObservedStatus = QueueStatusOther [], re_BeadID = [], re_BeadStatus = BeadStatusOther [], re_Cause = None\<rparr>"

fun preflightItems :: "(BeadID \<Rightarrow> string + BeadStatus) \<Rightarrow> string \<Rightarrow> string \<Rightarrow> Item list \<Rightarrow> RecoveryError option" where
  "preflightItems lookup name queueID [] = None"
| "preflightItems lookup name queueID (it # its) =
     (if item_Status it \<noteq> ItemStatusFailed then preflightItems lookup name queueID its
      else (case lookup (item_BeadID it) of
          Inl e \<Rightarrow> Some ((recoveryError RecoveryReasonReadFailed name queueID)
                     \<lparr>re_BeadID := item_BeadID it, re_Cause := Some e\<rparr>)
        | Inr status \<Rightarrow>
            if status \<noteq> BeadStatusOpen
            then Some ((recoveryError RecoveryReasonBeadNotOpen name queueID)\<lparr>re_BeadID := item_BeadID it, re_BeadStatus := status\<rparr>)
            else preflightItems lookup name queueID its))"

definition recoveryPreflight :: "(BeadID \<Rightarrow> string + BeadStatus) option \<Rightarrow> string \<Rightarrow> Queue \<Rightarrow> RecoveryError option" where
  "recoveryPreflight beads name q = (case beads of None \<Rightarrow> None
     | Some lookup \<Rightarrow> preflightItems lookup name (queue_QueueID q) (concat (map group_Items (queue_Groups q))))"

text \<open>No code raises \<^verbatim>\<open>errRecoveryStatusRaced\<close>, so its branch is never taken.\<close>

definition recoveryTransactionError :: "Codec \<Rightarrow> string \<Rightarrow> string \<Rightarrow> TransactionResult \<Rightarrow> RecoveryError option" where
  "recoveryTransactionError C name queueID res =
     (if res_Outcome res = OutcomeCommittedDurable \<and> res_CleanupErr res = None then None
      else (let cause = (case res_Err res of Some e \<Rightarrow> Some e
                  | None \<Rightarrow> (case res_CleanupErr res of Some e \<Rightarrow> Some (StoreErr e) | None \<Rightarrow> Some (StoreErr ''transaction outcome'')));
                quarantined = (case res_Err res of Some (ErrQueueQuarantined _ _) \<Rightarrow> True | _ \<Rightarrow> False);
                reason = (if quarantined then RecoveryReasonQueueQuarantined
                  else if res_Outcome res = OutcomeRejected then RecoveryReasonStaleSnapshot else RecoveryReasonWriteFailed) in
            Some ((recoveryError reason name queueID)\<lparr>re_Cause := map_option (StoreError_text C) cause\<rparr>)))"

record FailedRecoveryOutcome =
  fo_Name :: string
  fo_QueueID :: string
  fo_Rearmed :: "BeadID list"
  fo_Receipt :: "FailedRecoveryReceipt option"
  fo_AlreadyRecovered :: bool

definition rearmedFromReceipt :: "FailedRecoveryReceipt option \<Rightarrow> BeadID list" where
  "rearmedFromReceipt r = (case r of None \<Rightarrow> [] | Some r \<Rightarrow>
     (case frr_RecoveredItems r of None \<Rightarrow> [] | Some items \<Rightarrow> map fri_BeadID items))"

definition RecoverFailed ::
    "Codec \<Rightarrow> WriteEnv \<Rightarrow> string + string \<Rightarrow> string + string \<Rightarrow> go_time \<Rightarrow> (BeadID \<Rightarrow> string + BeadStatus) option \<Rightarrow>
     string \<Rightarrow> QueueStore \<Rightarrow> FS \<Rightarrow> (RecoveryError + FailedRecoveryOutcome) \<times> QueueStore \<times> FS" where
  "RecoverFailed C env newReceipt newTx now beads name0 s fs =
     (let name = NormaliseQueueName name0 in case sn_Queue (Snapshot s name) of
        None \<Rightarrow> (Inl (recoveryError RecoveryReasonQueueNotFound name []), s, fs)
      | Some q \<Rightarrow>
         (let already = (queue_Status q = QueueStatusActive \<and> queue_FailedRecoveryReceiptID q \<noteq> None) in
          if \<not> already \<and> queue_Status q \<noteq> QueueStatusPausedByFailure
          then (case QuarantineReason s name of
              Some e \<Rightarrow> (Inl ((recoveryError RecoveryReasonQueueQuarantined name (queue_QueueID q))
                           \<lparr>re_ObservedStatus := queue_Status q, re_Cause := Some e\<rparr>), s, fs)
            | None \<Rightarrow> (Inl ((recoveryError RecoveryReasonQueueNotRecoverable name (queue_QueueID q))
                           \<lparr>re_ObservedStatus := queue_Status q\<rparr>), s, fs))
          else (case (if already then None else recoveryPreflight beads name q) of
              Some e \<Rightarrow> (Inl e, s, fs)
            | None \<Rightarrow> (case commitFailedRecovery C env newReceipt newTx now name s fs of
                (res, s1, fs1) \<Rightarrow> (case recoveryTransactionError C name (queue_QueueID q) (fr_Result res) of
                    Some e \<Rightarrow> (Inl e, s1, fs1)
                  | None \<Rightarrow> (Inr \<lparr>fo_Name = name, fo_QueueID = queue_QueueID q, fo_Rearmed = rearmedFromReceipt (fr_Receipt res),
                                fo_Receipt = fr_Receipt res, fo_AlreadyRecovered = fr_AlreadyRecovered res\<rparr>, s1, fs1))))))"

section \<open>Completion\<close>

text \<open>\<open>Observe\<close> and \<open>ReleaseTime\<close> are callbacks; \<open>None\<close> is a nil one.\<close>

record CompletionRequest =
  cq_Snapshot :: QueueSnapshot_store
  cq_Candidate :: "Queue option"
  cq_DecisionInput :: GroupCompletionInput
  cq_TransactionID :: string
  cq_ReceiptID :: string
  cq_CompletedAt :: go_time
  cq_ReleaseTime :: "go_time option"
  cq_Observe :: "(CompletionReceipt \<Rightarrow> string option) option"

record CompletionResult =
  cres_Outcome :: NamespaceOutcome
  cres_Err :: "StoreError option"
  cres_Phase :: CompletionPhase
  cres_Receipt :: "CompletionReceipt option"
  cres_ObservationErr :: "string option"
  cres_CleanupErr :: "string option"
  cres_MarkerErr :: "string option"

definition completionRejected :: "StoreError \<Rightarrow> CompletionResult" where
  "completionRejected e = \<lparr>cres_Outcome = OutcomeRejected, cres_Err = Some e, cres_Phase = CompletionPhaseRejected,
     cres_Receipt = None, cres_ObservationErr = None, cres_CleanupErr = None, cres_MarkerErr = None\<rparr>"

definition validateCompletionSnapshotLocked :: "Codec \<Rightarrow> CompletionRequest \<Rightarrow> string \<Rightarrow> QueueStore \<Rightarrow> StoreError option" where
  "validateCompletionSnapshotLocked C req name s =
     (if qs_quarantined s name \<noteq> None then Some (StoreErr (the (qs_quarantined s name)))
      else if sn_Generation (cq_Snapshot req) \<noteq> qs_generations s name
              \<or> \<not> sameQueue C (queueAt s name) (sn_Queue (cq_Snapshot req)) \<or> sn_Queue (cq_Snapshot req) = None
      then Some (ErrStaleSnapshot ''completion snapshot no longer matches the live queue'')
      else if cq_Observe req = None \<or> cq_ReleaseTime req = None
      then Some (StoreErr ''completion observation and release time source are required'') else None)"

text \<open>\<open>decText\<close> is the message of an error of the decision.\<close>

definition validateCompletionCandidate ::
    "Codec \<Rightarrow> (CompletionError \<Rightarrow> string) \<Rightarrow> CompletionRequest \<Rightarrow> string \<Rightarrow> StoreError option" where
  "validateCompletionCandidate C decText req name = (let q = the (sn_Queue (cq_Snapshot req)) in
     case cq_Candidate req of
       None \<Rightarrow> Some (StoreErr ''completion candidate does not match snapshot identity'')
     | Some candidate \<Rightarrow>
         if queue_QueueID candidate \<noteq> queue_QueueID q \<or> queue_Name candidate \<noteq> name
         then Some (StoreErr ''completion candidate does not match snapshot identity'')
         else if cq_ReceiptID req \<noteq> gci_CompletionReceiptID (cq_DecisionInput req)
         then Some (StoreErr ''completion receipt does not match decision'')
         else (case DecideGroupCompletion (validateUUIDv7 C) q (cq_DecisionInput req) of
             Inl e \<Rightarrow> Some (StoreErr (orText (joinErrs [Some ''completion candidate does not match decision'', Some (decText e)])))
           | Inr expected \<Rightarrow>
               if gcr_Disposition expected \<noteq> GroupCompletionDispositionQueueCompleted
                  \<or> \<not> sameQueue C (gcr_NextQueue expected) (Some candidate)
               then Some (StoreErr ''completion candidate does not match decision'') else None))"

definition errCompletionObservationInProgress :: string where
  "errCompletionObservationInProgress = ''completion observation is in progress''"

definition completionWrite :: "Codec \<Rightarrow> WriteEnv \<Rightarrow> string \<Rightarrow> CompletionPlan \<Rightarrow> bytes \<Rightarrow> FS \<Rightarrow> ReplacementCommit \<times> FS" where
  "completionWrite C env name p priorBytes fs =
     writeReplacement C (we_ctxErr env) (we_newTx env) (we_newSuccessor env) (we_sfx1 env) (we_sfx2 env)
       \<lparr>rp_TransactionID = cp_TransactionID p, rp_OperationKind = OperationCompletion, rp_NormalizedName = name,
        rp_QueueID = queue_QueueID (cp_Candidate p), rp_PriorBytes = Some priorBytes, rp_CandidateBytes = cp_CandidateBytes p,
        rp_WakeRequired = False, rp_ArchiveHandoff = None, rp_FailedRecoveryReceiptBinding = None,
        rp_CompletionReceiptBinding = Some (cp_Binding p)\<rparr> fs"

text \<open>
  The first half, up to the release of the lock: \<open>Inl\<close> a final result, or \<open>Inr\<close> what the second half
  goes on with: the plan, the result so far and the generation it installed.
\<close>

definition completeBegin ::
    "Codec \<Rightarrow> (QueueOpError \<Rightarrow> string) \<Rightarrow> (CompletionError \<Rightarrow> string) \<Rightarrow> WriteEnv \<Rightarrow> CompletionRequest \<Rightarrow> QueueStore \<Rightarrow> FS \<Rightarrow>
     (CompletionResult + CompletionPlan \<times> CompletionResult \<times> 64 word) \<times> QueueStore \<times> FS" where
  "completeBegin C opText decText env req s fs =
     (let name = NormaliseQueueName (sn_Name (cq_Snapshot req)) in
      case validateCompletionSnapshotLocked C req name s of
        Some e \<Rightarrow> (Inl (completionRejected e), s, fs)
      | None \<Rightarrow> (case validateCompletionCandidate C decText req name of
          Some e \<Rightarrow> (Inl (completionRejected e), s, fs)
        | None \<Rightarrow> (case PrepareCompletion C opText (the (cq_Candidate req)) (cq_TransactionID req) (cq_ReceiptID req) (cq_CompletedAt req) of
            Inl e \<Rightarrow> (Inl (completionRejected (StoreErr e)), s, fs)
          | Inr p \<Rightarrow> (case cd_queueJSON C (the (sn_Queue (cq_Snapshot req))) of
              Inl e \<Rightarrow> (Inl (completionRejected (StoreErr e)), s, fs)
            | Inr priorBytes \<Rightarrow>
               (case completionWrite C env name p priorBytes fs of
                  (commit, fs1) \<Rightarrow>
                    (let result = \<lparr>cres_Outcome = rc_Outcome commit, cres_Err = map_option StoreErr (rc_Err commit), cres_Phase = rc_Phase commit,
                           cres_Receipt = Some (cp_Receipt p), cres_ObservationErr = None, cres_CleanupErr = None, cres_MarkerErr = None\<rparr> in
                     if \<not> Committed commit
                     then (Inl result, (if rc_Outcome commit \<noteq> OutcomeRejected then quarantine name (rc_Err commit) s else s), fs1)
                     else (let s1 = installQueue name (CloneQueue (Some (cp_Candidate p))) s in
                        (Inr (p, result\<lparr>cres_Phase := CompletionPhaseObservationAttempted,
                                 cres_ObservationErr := the (cq_Observe req) (cp_Receipt p)\<rparr>, qs_generations s1 name),
                         quarantine name (Some errCompletionObservationInProgress) s1, fs1))))))))"

text \<open>The second half, under the lock again, and the marker after its release.\<close>

definition completeEnd ::
    "Codec \<Rightarrow> string \<Rightarrow> CompletionRequest \<Rightarrow> CompletionPlan \<Rightarrow> CompletionResult \<Rightarrow> 64 word \<Rightarrow> QueueStore \<Rightarrow> FS \<Rightarrow>
     CompletionResult \<times> QueueStore \<times> FS" where
  "completeEnd C sfx req p result generation s fs =
     (let name = NormaliseQueueName (sn_Name (cq_Snapshot req));
          failed = (\<lambda>e fs. (result\<lparr>cres_CleanupErr := Some e\<rparr>, quarantine name (Some e) s, fs)) in
      if qs_generations s name \<noteq> generation \<or> \<not> sameQueue C (queueAt s name) (Some (cp_Candidate p))
      then failed ''completion ownership changed during observation'' fs
      else (case cleanupCompletedCanonical C name (queue_QueueID (cp_Candidate p)) (cr_CompletedQueueSHA256 (cp_Receipt p)) fs of
          (Some e, fs1) \<Rightarrow> failed e fs1
        | (None, fs1) \<Rightarrow> (case cleanupReplaceIntent name fs1 of
            (Some e, fs2) \<Rightarrow> failed e fs2
          | (None, fs2) \<Rightarrow> (let s1 = removeQueue name (quarantine name None s) in
              case installCompletionReleaseMarker C sfx (cp_MarkerInputs p) (the (cq_ReleaseTime req)) fs2 of
                (Inl e, fs3) \<Rightarrow> (result\<lparr>cres_Phase := CompletionPhaseMarkerFailed, cres_MarkerErr := Some e\<rparr>, s1, fs3)
              | (Inr _, fs3) \<Rightarrow> (result\<lparr>cres_Phase := CompletionPhaseMarkerDurable\<rparr>, s1, fs3)))))"

text \<open>\<open>window\<close> is what other callers do to the store and the disk during the observation.\<close>

definition complete_store ::
    "Codec \<Rightarrow> (QueueOpError \<Rightarrow> string) \<Rightarrow> (CompletionError \<Rightarrow> string) \<Rightarrow> WriteEnv \<Rightarrow> string \<Rightarrow> CompletionRequest \<Rightarrow>
     (QueueStore \<times> FS \<Rightarrow> QueueStore \<times> FS) \<Rightarrow> QueueStore \<Rightarrow> FS \<Rightarrow> CompletionResult \<times> QueueStore \<times> FS" where
  "complete_store C opText decText env sfx req window s fs = (case completeBegin C opText decText env req s fs of
     (Inl result, s1, fs1) \<Rightarrow> (result, s1, fs1)
   | (Inr (p, result, generation), s1, fs1) \<Rightarrow> (case window (s1, fs1) of
       (s2, fs2) \<Rightarrow> completeEnd C sfx req p result generation s2 fs2))"

section \<open>Memory and disk\<close>

text \<open>The queue is durably what the file of its name holds, and no intent is pending for the name.\<close>

definition holdsQueue :: "string \<Rightarrow> bytes option \<Rightarrow> ns set" where
  "holdsQueue name b = {n. n (queuePath name) = map_option (\<lambda>b. File b True) b \<and> n (replaceIntentPath name) = None}"

definition durableQueue :: "Codec \<Rightarrow> string \<Rightarrow> Queue option \<Rightarrow> FS \<Rightarrow> bool" where
  "durableQueue C name q fs \<longleftrightarrow> (\<exists>b. marshalOptional C q = Inr b \<and> within (area (holdsQueue name b) (\<lambda>_. UNIV)) fs)"

text \<open>The name of the receipt a failed recovery installs is free.\<close>

definition receiptFree :: "FailedRecoveryReceiptBinding option \<Rightarrow> FS \<Rightarrow> bool" where
  "receiptFree b fs \<longleftrightarrow> (\<forall>x. b = Some x \<longrightarrow>
     within ((\<lambda>_. UNIV)(FailedReceiptsDir := {n. n (frb_Basename x) = None})) fs)"

text \<open>The name of the receipt a completion installs is free.\<close>

definition completionFree :: "CompletionReceiptBinding option \<Rightarrow> FS \<Rightarrow> bool" where
  "completionFree b fs \<longleftrightarrow> (\<forall>x. b = Some x \<longrightarrow>
     within ((\<lambda>_. UNIV)(CompletionReceiptsDir := {n. n (crb_Basename x) = None})) fs)"

lemma completionFree_None [simp]: "completionFree None fs"
  by (simp add: completionFree_def)

lemma store_simps [simp]:
  "qs_quarantined (installQueue name q s) = qs_quarantined s" "qs_quarantined (removeQueue name s) = qs_quarantined s"
  "qs_quarantined (Wake s) = qs_quarantined s" "qs_quarantined (quarantine name e s) = (qs_quarantined s)(name := e)"
  "queueAt (quarantine name e s) = queueAt s" "queueAt (Wake s) = queueAt s"
  "queueAt (installQueue name q s) n = (if n = name then q else queueAt s n)"
  "queueAt (removeQueue name s) n = (if n = name then None else queueAt s n)"
  "qs_generations (quarantine name e s) = qs_generations s" "qs_generations (Wake s) = qs_generations s"
  "qs_generations (installQueue name q s) = (qs_generations s)(name := qs_generations s name + 1)"
  "qs_generations (removeQueue name s) = (qs_generations s)(name := qs_generations s name + 1)"
  by (auto simp: installQueue_def removeQueue_def bumpGeneration_def Wake_def quarantine_def queueAt_def fun_eq_iff)

lemma prepared_shape:
  assumes "prepareReplacement C newTx newSuccessor plan = Inr (i, ib)"
  shows "ri_FailedRecoveryReceiptBinding i = rp_FailedRecoveryReceiptBinding plan"
    and "ri_CompletionReceiptBinding i = rp_CompletionReceiptBinding plan"
    and "rp_ArchiveHandoff plan = None \<Longrightarrow> ri_ArchiveHandoffBinding i = None"
    and "ri_OperationKind i = rp_OperationKind plan"
proof -
  obtain tid sid where p: "prepareReplacementWithIDs C plan tid sid = Inr (i, ib)"
    using assms by (auto simp: prepareReplacement_def split: sum.splits if_splits)
  show "ri_FailedRecoveryReceiptBinding i = rp_FailedRecoveryReceiptBinding plan"
    and "ri_CompletionReceiptBinding i = rp_CompletionReceiptBinding plan"
    and "rp_ArchiveHandoff plan = None \<Longrightarrow> ri_ArchiveHandoffBinding i = None"
    and "ri_OperationKind i = rp_OperationKind plan"
    using p by (auto simp: prepareReplacementWithIDs_def prepareArchiveHandoff_def Let_def
        split: prod.splits bool.splits if_splits sum.splits option.splits)
qed

text \<open>The written transaction starts from the durable queue.\<close>

lemma start_untouched:
  assumes p: "prepareReplacement C newTx newSuccessor plan = Inr (i, ib)" and nm: "NormaliseQueueName (rp_NormalizedName plan) = rp_NormalizedName plan"
    and c: "completionFree (rp_CompletionReceiptBinding plan) fs" and free: "receiptFree (rp_FailedRecoveryReceiptBinding plan) fs"
    and w: "within (area (holdsQueue (rp_NormalizedName plan) (rp_PriorBytes plan)) (\<lambda>_. UNIV)) fs"
    and t: "t = txOf C (rp_PriorBytes plan) (rp_CandidateBytes plan) i ib"
  shows "within (area (untouched t) (receiptAbsent t)) fs"
proof -
  note b = prepareReplacement_bound [OF p]
  have v: "validateReplaceIntent C i = None" using b(1) by (simp add: bound_def)
  have name: "ri_NormalizedName i = rp_NormalizedName plan" using b(2) nm by simp
  have "holdsQueue (rp_NormalizedName plan) (rp_PriorBytes plan) \<subseteq> untouched t"
    using tx_names(1) [OF v] by (auto simp: holdsQueue_def untouched_def oldC_def noI_def t name queuePath_def)
  moreover have "fs_dir fs d \<in> receiptAbsent t d \<and> set (fs_pend fs d) \<subseteq> receiptAbsent t d" for d
  proof (cases "tx_receipt t")
    case None
    then show ?thesis by (simp add: receiptAbsent_def)
  next
    case (Some x)
    then consider (failed) bd data where "rp_FailedRecoveryReceiptBinding plan = Some bd" "x = (FailedReceiptsDir, frb_Basename bd, data)"
      | (complete) bd data where "rp_CompletionReceiptBinding plan = Some bd" "x = (CompletionReceiptsDir, crb_Basename bd, data)"
      by (auto simp: t receiptOf_def prepared_shape(1,2) [OF p] split: option.splits sum.splits)
    then show ?thesis
    proof cases
      case failed
      then have "fs_dir fs FailedReceiptsDir (frb_Basename bd) = None" "\<forall>n \<in> set (fs_pend fs FailedReceiptsDir). n (frb_Basename bd) = None"
        using free by (auto simp: receiptFree_def within_def dest!: spec [of _ FailedReceiptsDir])
      then show ?thesis using Some failed(2) by (auto simp: receiptAbsent_def)
    next
      case complete
      then have "fs_dir fs CompletionReceiptsDir (crb_Basename bd) = None" "\<forall>n \<in> set (fs_pend fs CompletionReceiptsDir). n (crb_Basename bd) = None"
        using c by (auto simp: completionFree_def within_def dest!: spec [of _ CompletionReceiptsDir])
      then show ?thesis using Some complete(2) by (auto simp: receiptAbsent_def)
    qed
  qed
  ultimately have "fs_dir fs d \<in> area (untouched t) (receiptAbsent t) d \<and> set (fs_pend fs d) \<subseteq> area (untouched t) (receiptAbsent t) d" for d
    using w [unfolded within_def, rule_format, of d] by (cases "d = QueuesDir") auto
  then show ?thesis by (simp add: within_def)
qed

text \<open>What a write and the removal of its intent make of the disk.\<close>

lemma committed_durable:
  assumes v: "validateReplaceIntent C i = None" and t: "t = txOf C prior new i ib" "tx_kind t \<noteq> CompletionTx"
    and w: "within (area (renamedTx t) (receiptExact t)) fs" and r: "cleanupReplaceIntent (ri_NormalizedName i) fs = (e, fs')"
  shows "e = None \<Longrightarrow> within (area (holdsQueue (ri_NormalizedName i) (Some new)) (\<lambda>_. UNIV)) fs'"
proof -
  let ?p = "replaceIntentPath (ri_NormalizedName i)"
  have n: "fs_dir fs QueuesDir \<in> renamedTx t" using w by (metis area_simps(1) within_def)
  then have m: "(fs_dir fs QueuesDir)(?p := None) \<in> cleaned t"
    using t tx_names_neq [OF v] by (auto simp: tx_states)
  have w2: "within (area (renamedTx t \<union> cleaned t) (receiptExact t)) fs" by (rule within_mono [OF w]) (simp add: area_def)
  have mm: "(fs_dir fs QueuesDir)(?p := None) \<in> renamedTx t \<union> cleaned t" using m by simp
  note s = removeAndSync_spec [OF w2 mm r [unfolded removeAndSync_cleanup [OF v]]]
  have h: "{(fs_dir fs QueuesDir)(?p := None)} \<subseteq> holdsQueue (ri_NormalizedName i) (Some new)"
    using m tx_names(1) [OF v] by (auto simp: holdsQueue_def cleaned_def newC_def noI_def t queuePath_def)
  show "within (area (holdsQueue (ri_NormalizedName i) (Some new)) (\<lambda>_. UNIV)) fs'" if "e = None"
    by (rule within_mono [OF s(2) [OF that]], rule area_mono [OF h]) simp
qed

lemma failure_phase [simp]: "rc_Phase (replacementFailure i outcome err) \<noteq> CompletionPhaseMarkerDurable"
  "rc_Phase (replacementFailure i outcome err) \<noteq> CompletionPhaseMarkerFailed"
  by (auto simp: replacementFailure_def split: NamespaceOutcome.splits)

lemma failure_shape: "rc_Outcome (replacementFailure i outcome err) = outcome" "rc_Err (replacementFailure i outcome err) = err" "rc_Intent (replacementFailure i outcome err) = Some i"
  by (simp_all add: replacementFailure_def)

lemma commitReceipts_shape:
  "commitReceipts C sfx i fs = (r, fs') \<Longrightarrow> rc_Intent r = Some i \<and> (rc_Outcome r = OutcomeCommittedDurable \<or> rc_Err r \<noteq> None)
     \<and> rc_Outcome r \<noteq> OutcomeRejected \<and> rc_Phase r \<notin> {CompletionPhaseMarkerDurable, CompletionPhaseMarkerFailed}"
  by (auto simp: commitReceipts_def Let_def failure_shape split: option.splits prod.splits)

lemma renameCandidate_shape:
  "renameCandidate C sfx name i fs = (r, fs') \<Longrightarrow> rc_Intent r = Some i \<and> (rc_Outcome r = OutcomeCommittedDurable \<or> rc_Err r \<noteq> None)
     \<and> rc_Outcome r \<noteq> OutcomeRejected \<and> rc_Phase r \<notin> {CompletionPhaseMarkerDurable, CompletionPhaseMarkerFailed}"
  by (auto simp: renameCandidate_def classifyReplacementFailure_def Let_def failure_shape dest: commitReceipts_shape
      split: option.splits prod.splits ReplaceRecoveryAction.splits)

lemma writeReplacement_shape:
  assumes "writeReplacement C ctxErr newTx newSuccessor sfx1 sfx2 plan fs = (r, fs')"
  shows "rc_Outcome r = OutcomeCommittedDurable \<or> rc_Err r \<noteq> None"
    and "rc_Outcome r \<noteq> OutcomeRejected \<Longrightarrow> \<exists>i ib. prepareReplacement C newTx newSuccessor plan = Inr (i, ib) \<and> ctxErr = None \<and> rc_Intent r = Some i"
    and "rc_Outcome r = OutcomeRejected \<Longrightarrow> fs' = fs"
    and "rc_Phase r \<notin> {CompletionPhaseMarkerDurable, CompletionPhaseMarkerFailed}"
proof -
  have "(rc_Outcome r = OutcomeCommittedDurable \<or> rc_Err r \<noteq> None) \<and>
    (rc_Outcome r \<noteq> OutcomeRejected \<longrightarrow> (\<exists>i ib. prepareReplacement C newTx newSuccessor plan = Inr (i, ib) \<and> ctxErr = None \<and> rc_Intent r = Some i))
    \<and> (rc_Outcome r = OutcomeRejected \<longrightarrow> fs' = fs) \<and> rc_Phase r \<notin> {CompletionPhaseMarkerDurable, CompletionPhaseMarkerFailed}"
  proof (cases "prepareReplacement C newTx newSuccessor plan")
    case (Inl e)
    then show ?thesis using assms by (auto simp: writeReplacement_def)
  next
    case (Inr x)
    then obtain i ib where "prepareReplacement C newTx newSuccessor plan = Inr (i, ib)" by (cases x) auto
    then show ?thesis using assms
      by (auto simp: writeReplacement_def Let_def failure_shape dest: renameCandidate_shape
          split: option.splits prod.splits noReplaceState.splits)
  qed
  then show "rc_Outcome r = OutcomeCommittedDurable \<or> rc_Err r \<noteq> None"
    and "rc_Outcome r \<noteq> OutcomeRejected \<Longrightarrow> \<exists>i ib. prepareReplacement C newTx newSuccessor plan = Inr (i, ib) \<and> ctxErr = None \<and> rc_Intent r = Some i"
    and "rc_Outcome r = OutcomeRejected \<Longrightarrow> fs' = fs"
    and "rc_Phase r \<notin> {CompletionPhaseMarkerDurable, CompletionPhaseMarkerFailed}"
    by blast+
qed

text \<open>What the mutation of a transaction is applied to.\<close>

definition workingCopy :: "QueueStore \<Rightarrow> string \<Rightarrow> Queue" where
  "workingCopy s name = (case queueAt s name of Some q \<Rightarrow> q | None \<Rightarrow> zeroQueue\<lparr>queue_Name := name\<rparr>)"

lemma marshalOptional_Some: "marshalOptional C (Some q) = (case cd_queueJSON C q of Inl e \<Rightarrow> Inl e | Inr b \<Rightarrow> Inr (Some b))"
  by (simp add: marshalOptional_def)

lemma sliceOf_Some: "sliceOf (Some b) = b"
  by (simp add: sliceOf_def)

lemma different_queue:
  "marshalOptional C a = Inr p \<Longrightarrow> cd_queueJSON C q = Inr b \<Longrightarrow> sliceOf p \<noteq> b \<Longrightarrow> \<not> sameQueue C a (Some q)"
  by (simp add: sameQueue_def marshalOptional_Some sliceOf_Some)

lemma transactRefusal_None:
  assumes "transactRefusal C req s = None" and "name = NormaliseQueueName (sn_Name (tr_Snapshot req))"
  shows "tr_Mutate req \<noteq> None" "sn_Generation (tr_Snapshot req) = qs_generations s name"
    "sameQueue C (queueAt s name) (sn_Queue (tr_Snapshot req))"
    "qs_quarantined s name = None \<or> tr_OperationKind req = OperationFailedRecovery"
  using assms by (auto simp: transactRefusal_def Let_def split: if_splits)

text \<open>A transaction either stops before the disk or is a write and what follows it.\<close>

lemma Transact_cases:
  assumes "Transact C env req s fs = (res, s', fs')" and name: "name = NormaliseQueueName (sn_Name (tr_Snapshot req))"
  obtains (stopped) "s' = s" "fs' = fs" "res_Outcome res \<noteq> OutcomeRejected \<Longrightarrow> transactRefusal C req s = None"
      "res_Outcome res = OutcomeCommittedDurable \<Longrightarrow> \<exists>m. the (tr_Mutate req) (workingCopy s name) = Inr m
        \<and> sameQueue C (queueAt s name) (Some (m\<lparr>queue_Name := name\<rparr>)) \<and> res_CleanupErr res = None
        \<and> res_Snapshot res = Some \<lparr>sn_Name = name, sn_Queue = queueAt s name, sn_Generation = qs_generations s name\<rparr>"
  | (wrote) m candidate priorBytes candidateBytes commit fs1 where
      "transactRefusal C req s = None" "marshalOptional C (queueAt s name) = Inr priorBytes" "cd_queueJSON C candidate = Inr candidateBytes"
      "the (tr_Mutate req) (workingCopy s name) = Inr m" "candidate = m\<lparr>queue_Name := name\<rparr>" "sliceOf priorBytes \<noteq> candidateBytes"
      "writeReplacement C (we_ctxErr env) (we_newTx env) (we_newSuccessor env) (we_sfx1 env) (we_sfx2 env)
         (planOf req name candidate priorBytes candidateBytes) fs = (commit, fs1)"
      "\<not> Committed commit \<Longrightarrow> res_Outcome res = rc_Outcome commit \<and> fs' = fs1 \<and>
         s' = (if rc_Outcome commit \<noteq> OutcomeRejected then quarantine name (rc_Err commit) s else s)"
      "Committed commit \<Longrightarrow> installCommitted req name candidate commit s fs1 = (res, s', fs')"
proof (cases "transactRefusal C req s")
  case (Some e)
  then show thesis using assms stopped by (auto simp: Transact_def Let_def rejectedTransaction_def)
next
  case ref: None
  let ?start = "workingCopy s name"
  show thesis
  proof (cases "\<exists>m p cb. the (tr_Mutate req) ?start = Inr m \<and> marshalOptional C (queueAt s name) = Inr p
      \<and> cd_queueJSON C (m\<lparr>queue_Name := name\<rparr>) = Inr cb \<and> sliceOf p \<noteq> cb")
    case True
    then obtain m p cb where c: "the (tr_Mutate req) ?start = Inr m" "marshalOptional C (queueAt s name) = Inr p"
      "cd_queueJSON C (m\<lparr>queue_Name := name\<rparr>) = Inr cb" "sliceOf p \<noteq> cb" by blast
    obtain commit fs1 where w: "writeReplacement C (we_ctxErr env) (we_newTx env) (we_newSuccessor env) (we_sfx1 env) (we_sfx2 env)
         (planOf req name (m\<lparr>queue_Name := name\<rparr>) p cb) fs = (commit, fs1)" by fastforce
    have run: "Transact C env req s fs = (if \<not> Committed commit
          then (\<lparr>res_Outcome = rc_Outcome commit, res_Err = map_option StoreErr (rc_Err commit), res_Snapshot = None, res_CleanupErr = None\<rparr>,
                (if rc_Outcome commit \<noteq> OutcomeRejected then quarantine name (rc_Err commit) s else s), fs1)
          else installCommitted req name (m\<lparr>queue_Name := name\<rparr>) commit s fs1)"
      unfolding Transact_def Let_def name [symmetric] CloneQueue_id by (simp add: ref c [unfolded workingCopy_def] w)
    show thesis by (rule wrote [OF ref c(2,3,1) refl c(4) w]) (use run assms(1) in \<open>auto split: if_splits\<close>)
  next
    case False
    have "s' = s \<and> fs' = fs \<and> (res_Outcome res = OutcomeCommittedDurable \<longrightarrow> (\<exists>m. the (tr_Mutate req) ?start = Inr m
        \<and> sameQueue C (queueAt s name) (Some (m\<lparr>queue_Name := name\<rparr>)) \<and> res_CleanupErr res = None
        \<and> res_Snapshot res = Some \<lparr>sn_Name = name, sn_Queue = queueAt s name, sn_Generation = qs_generations s name\<rparr>))"
      using assms(1) False unfolding Transact_def Let_def name [symmetric] CloneQueue_id ref option.case workingCopy_def [symmetric]
      by (cases "the (tr_Mutate req) ?start"; cases "marshalOptional C (queueAt s name)")
         (auto simp: rejectedTransaction_def sameQueue_def marshalOptional_Some sliceOf_Some split: sum.splits if_splits)
    then show thesis using stopped ref by blast
  qed
qed

text \<open>The write of a transaction, seen from the store.\<close>

lemma Transact_write:
  assumes w: "writeReplacement C (we_ctxErr env) (we_newTx env) (we_newSuccessor env) (we_sfx1 env) (we_sfx2 env)
         (planOf req name candidate priorBytes candidateBytes) fs = (commit, fs1)"
    and name: "NormaliseQueueName name = name"
    and plain: "tr_ArchiveHandoff req = None" "tr_CompletionReceiptBinding req = None"
    and free: "receiptFree (tr_FailedRecoveryReceiptBinding req) fs"
    and d: "within (area (holdsQueue name priorBytes) (\<lambda>_. UNIV)) fs"
  shows "rc_Outcome commit = OutcomeRejected \<Longrightarrow> fs1 = fs"
    and "Committed commit \<Longrightarrow> \<exists>i. rc_Intent commit = Some i \<and> ri_ArchiveHandoffBinding i = None \<and>
        (\<forall>e fs2. cleanupReplaceIntent name fs1 = (e, fs2) \<longrightarrow> e = None \<longrightarrow>
           within (area (holdsQueue name (Some candidateBytes)) (\<lambda>_. UNIV)) fs2)"
proof -
  let ?plan = "planOf req name candidate priorBytes candidateBytes"
  have plan: "rp_NormalizedName ?plan = name" "rp_PriorBytes ?plan = priorBytes" "rp_CandidateBytes ?plan = candidateBytes"
    "rp_ArchiveHandoff ?plan = None" "rp_CompletionReceiptBinding ?plan = None"
    "rp_FailedRecoveryReceiptBinding ?plan = tr_FailedRecoveryReceiptBinding req"
    using plain by (simp_all add: planOf_def)
  have nm: "NormaliseQueueName (rp_NormalizedName ?plan) = rp_NormalizedName ?plan" using name plan(1) by simp
  show "rc_Outcome commit = OutcomeRejected \<Longrightarrow> fs1 = fs" by (rule writeReplacement_shape(3) [OF w])
  show "\<exists>i. rc_Intent commit = Some i \<and> ri_ArchiveHandoffBinding i = None \<and>
        (\<forall>e fs2. cleanupReplaceIntent name fs1 = (e, fs2) \<longrightarrow> e = None \<longrightarrow>
           within (area (holdsQueue name (Some candidateBytes)) (\<lambda>_. UNIV)) fs2)" if com: "Committed commit"
  proof -
    obtain i ib where p: "prepareReplacement C (we_newTx env) (we_newSuccessor env) ?plan = Inr (i, ib)"
      and c: "we_ctxErr env = None" and i: "rc_Intent commit = Some i"
      using writeReplacement_shape(2) [OF w] com by (auto simp: Committed_def)
    let ?t = "txOf C (rp_PriorBytes ?plan) (rp_CandidateBytes ?plan) i ib"
    have u: "within (area (untouched ?t) (receiptAbsent ?t)) fs"
      by (rule start_untouched [OF p nm _ _ _ refl]) (use plan free d in simp_all)
    have wr: "within (area (renamedTx ?t) (receiptExact ?t)) fs1"
      using writeReplacement_prepared(1) [OF p nm refl u w [unfolded c]] com by (simp add: wrote_def)
    have v: "validateReplaceIntent C i = None" using prepareReplacement_bound(1) [OF p] by (simp add: bound_def)
    have iname: "ri_NormalizedName i = name" using prepareReplacement_bound(2) [OF p] name plan(1) by simp
    have kind: "tx_kind ?t \<noteq> CompletionTx" using prepared_shape(2) [OF p] plan(5) by (simp add: txOf_def)
    show ?thesis
      using committed_durable [OF v refl kind wr, unfolded iname plan(3)] i prepared_shape(3) [OF p plan(4)] by blast
  qed
qed

text \<open>What a committed write without archive handoff makes of the store, by the result of the removal of its intent.\<close>

lemma installCommitted_spec:
  assumes "installCommitted req name candidate commit s fs = (res, s', fs')" "Committed commit"
    "rc_Intent commit = Some i" "ri_ArchiveHandoffBinding i = None" "cleanupReplaceIntent name fs = (e, fs2)"
  shows "res_Outcome res = OutcomeCommittedDurable" "res_CleanupErr res = e" "fs' = fs2"
    "if e \<noteq> None \<and> tr_OperationKind req = OperationFailedRecovery then queueAt s' = queueAt s \<and> qs_generations s' = qs_generations s
      else queueAt s' name = Some candidate \<and> qs_generations s' name = qs_generations s name + 1"
    "e \<noteq> None \<Longrightarrow> qs_quarantined s' name = e"
    "e = None \<Longrightarrow> res_Snapshot res = Some \<lparr>sn_Name = name, sn_Queue = queueAt s' name, sn_Generation = qs_generations s' name\<rparr>
       \<and> qs_quarantined s' name = (if tr_OperationKind req = OperationFailedRecovery then None else qs_quarantined s name)"
    "\<forall>n. n \<noteq> name \<longrightarrow> queueAt s' n = queueAt s n \<and> qs_generations s' n = qs_generations s n \<and> qs_quarantined s' n = qs_quarantined s n"
  using assms by (auto simp: installCommitted_def Let_def Committed_def split: if_splits option.splits)

section \<open>Runs without faults\<close>

text \<open>No operation changes which of the coming ones fail.\<close>

lemma op_faults:
  "op_readFile d p fs = (x, fs') \<Longrightarrow> fs_faults fs' = fs_faults fs"
  "op_close fs = (e, fs') \<Longrightarrow> fs_faults fs' = fs_faults fs"
  "op_mkdirAll fs = (e, fs') \<Longrightarrow> fs_faults fs' = fs_faults fs"
  "op_remove d p fs = (e, fs') \<Longrightarrow> fs_faults fs' = fs_faults fs"
  "op_rename d p q fs = (e, fs') \<Longrightarrow> fs_faults fs' = fs_faults fs"
  "op_create d p fs = (e, fs') \<Longrightarrow> fs_faults fs' = fs_faults fs"
  "op_write d p data fs = (e, fs') \<Longrightarrow> fs_faults fs' = fs_faults fs"
  "op_syncFile d p fs = (e, fs') \<Longrightarrow> fs_faults fs' = fs_faults fs"
  "op_link d p q fs = (e, fs') \<Longrightarrow> fs_faults fs' = fs_faults fs"
  "op_syncDirHandle d fs = (e, fs') \<Longrightarrow> fs_faults fs' = fs_faults fs"
  "op_openDir fs = (e, fs') \<Longrightarrow> fs_faults fs' = fs_faults fs"
  "op_lstat fs = (e, fs') \<Longrightarrow> fs_faults fs' = fs_faults fs"
  "op_lstatFile d p fs = (e, fs') \<Longrightarrow> fs_faults fs' = fs_faults fs"
  by (auto simp: fs_ops op_openDir_def op_lstat_def op_lstatFile_def setDir_def syncDir_def Let_def split: fault.splits option.splits if_splits)

lemma helper_faults:
  "readOptional d p fs = (x, fs') \<Longrightarrow> fs_faults fs' = fs_faults fs"
  "syncDirectory d fs = (e, fs') \<Longrightarrow> fs_faults fs' = fs_faults fs"
  "durableFile d p data fs = (e, fs') \<Longrightarrow> fs_faults fs' = fs_faults fs"
  by (auto simp: readOptional_def syncDirectory_def durableFile_def Let_def op_faults dest!: op_faults split: prod.splits sum.splits option.splits FsErr.splits)

lemma noReplace_faults: "durableNoReplace sfx d p data fs = (x, fs') \<Longrightarrow> fs_faults fs' = fs_faults fs"
  by (auto simp: durableNoReplace_def classifyNoReplaceCleanupFailure_def Let_def dest!: op_faults helper_faults split: prod.splits sum.splits option.splits if_splits)

lemma reading_faults:
  assumes "reading d p fs bad k = (r, fs')" and "\<And>x fs1 r fs'. k x fs1 = (r, fs') \<Longrightarrow> fs_faults fs' = fs_faults fs1"
  shows "fs_faults fs' = fs_faults fs"
  using assms by (auto simp: reading_def dest!: helper_faults(1) split: prod.splits sum.splits)

lemma classify_faults: "classifyReplaceIntent C i fs = (x, fs') \<Longrightarrow> fs_faults fs' = fs_faults fs"
  unfolding classifyReplaceIntent_def classifyFailedRecoveryIntent_def classifyCompletionIntent_def classifyPlainIntent_def loadCompletionRecoveryFacts_def
  by (auto simp: Let_def reading_def dest!: helper_faults(1) split: option.splits prod.splits sum.splits)

lemma receipts_faults: "commitReceipts C sfx i fs = (r, fs') \<Longrightarrow> fs_faults fs' = fs_faults fs"
  by (auto simp: commitReceipts_def writeCompletionReceipt_def writeFailedRecoveryReceipt_def installReceipt_def Let_def
      dest!: op_faults helper_faults noReplace_faults split: option.splits prod.splits sum.splits if_splits)

lemma rename_faults: "renameCandidate C sfx name i fs = (r, fs') \<Longrightarrow> fs_faults fs' = fs_faults fs"
  by (auto simp: renameCandidate_def classifyReplacementFailure_def Let_def
      dest!: op_faults helper_faults classify_faults receipts_faults split: option.splits prod.splits)

lemma writeReplacement_faults:
  "writeReplacement C ctxErr newTx newSuccessor sfx1 sfx2 plan fs = (r, fs') \<Longrightarrow> fs_faults fs' = fs_faults fs"
  by (auto simp: writeReplacement_def Let_def
      dest!: op_faults helper_faults noReplace_faults rename_faults split: option.splits prod.splits sum.splits noReplaceState.splits)

lemma writeReplacement_calm: "writeReplacement C ctxErr newTx newSuccessor sfx1 sfx2 plan fs = (r, fs') \<Longrightarrow> calm fs \<Longrightarrow> calm fs'"
  using writeReplacement_faults by (simp add: calm_def)

text \<open>Without a fault, and with the temporary names free, an accepted transaction commits and removes its intent.\<close>

lemma cleanupReplaceIntent_calm: "calm fs \<Longrightarrow> cleanupReplaceIntent name fs = (e, fs') \<Longrightarrow> e = None \<and> calm fs'"
  using removeAndSync_spec(3) [of UNIV "\<lambda>_. UNIV" fs _ e fs'] by (simp add: cleanupReplaceIntent_def area_def within_def)

lemma Transact_calm:
  assumes run: "Transact C env req s fs = (res, s', fs')" and name: "name = NormaliseQueueName (sn_Name (tr_Snapshot req))"
    and go: "transactRefusal C req s = None" "the (tr_Mutate req) (workingCopy s name) = Inr m"
    and bytes: "marshalOptional C (queueAt s name) = Inr prior" "cd_queueJSON C (m\<lparr>queue_Name := name\<rparr>) = Inr new" "sliceOf prior \<noteq> new"
    and p: "prepareReplacement C (we_newTx env) (we_newSuccessor env) (planOf req name (m\<lparr>queue_Name := name\<rparr>) prior new) = Inr (i, ib)"
    and ctx: "we_ctxErr env = None" and plain: "tr_ArchiveHandoff req = None" "tr_CompletionReceiptBinding req = None" "tr_FailedRecoveryReceiptBinding req = None"
    and d: "durableQueue C name (queueAt s name) fs" and calm: "calm fs"
    and names: "fs_dir fs QueuesDir (ri_CandidateTempBasename i) = None" "fs_dir fs QueuesDir (replaceIntentPath name @ ''.tmp-'' @ we_sfx1 env) = None"
  shows "res_Outcome res = OutcomeCommittedDurable \<and> res_CleanupErr res = None"
proof -
  have norm: "NormaliseQueueName name = name" using name by (simp add: NormaliseQueueName_def QueueNameMain_def)
  let ?plan = "planOf req name (m\<lparr>queue_Name := name\<rparr>) prior new"
  have plan: "rp_NormalizedName ?plan = name" "rp_PriorBytes ?plan = prior" "rp_CandidateBytes ?plan = new" "rp_ArchiveHandoff ?plan = None"
    "rp_CompletionReceiptBinding ?plan = None" "rp_FailedRecoveryReceiptBinding ?plan = None"
    by (simp_all add: planOf_def plain)
  let ?t = "txOf C prior new i ib"
  have w: "within (area (untouched ?t) (receiptAbsent ?t)) fs"
    by (rule start_untouched [OF p]) (use plan norm d bytes(1) in \<open>auto simp: receiptFree_def durableQueue_def\<close>)
  obtain commit fs1 where wr: "writeReplacement C (we_ctxErr env) (we_newTx env) (we_newSuccessor env) (we_sfx1 env) (we_sfx2 env) ?plan fs = (commit, fs1)"
    by fastforce
  have iname: "ri_NormalizedName i = name" using prepareReplacement_bound(2) [OF p] plan(1) norm by simp
  have tmp: "tmpFree ?t (we_sfx2 env) fs"
    using prepared_shape(1,2) [OF p] plan by (simp add: tmpFree_def receiptOf_def txOf_def)
  have nm: "NormaliseQueueName (rp_NormalizedName ?plan) = rp_NormalizedName ?plan" using norm plan(1) by simp
  have tx: "?t = txOf C (rp_PriorBytes ?plan) (rp_CandidateBytes ?plan) i ib" using plan by simp
  have com: "Committed commit"
    by (rule writeReplacement_prepared(2) [OF p nm tx w wr [unfolded ctx] calm names(1)]) (use names(2) iname tmp in simp_all)
  obtain i' where i': "rc_Intent commit = Some i'" "prepareReplacement C (we_newTx env) (we_newSuccessor env) ?plan = Inr (i', ib)"
    using writeReplacement_shape(2) [OF wr] com p by (auto simp: Committed_def)
  have ah: "ri_ArchiveHandoffBinding i' = None" by (rule prepared_shape(3) [OF i'(2) plan(4)])
  obtain e fs2 where c: "cleanupReplaceIntent name fs1 = (e, fs2)" by fastforce
  have "e = None" using cleanupReplaceIntent_calm [OF _ c] writeReplacement_calm [OF wr calm] by blast
  moreover have inst: "installCommitted req name (m\<lparr>queue_Name := name\<rparr>) commit s fs1 = (res, s', fs')"
    using run go bytes wr com unfolding Transact_def Let_def name [symmetric] CloneQueue_id by (simp add: workingCopy_def)
  ultimately show ?thesis using installCommitted_spec(1,2) [OF inst com i'(1) ah c] by simp
qed

section \<open>Quarantine\<close>

text \<open>The slot of a name: its queue, its generation, its quarantine.\<close>

definition slot :: "string \<Rightarrow> QueueStore \<Rightarrow> Queue option \<times> 64 word \<times> string option" where
  "slot name s = (queueAt s name, qs_generations s name, qs_quarantined s name)"

lemma installCommitted_other:
  "installCommitted req name candidate commit s fs = (res, s', fs') \<Longrightarrow> other \<noteq> name \<Longrightarrow> slot other s' = slot other s"
  by (auto simp: installCommitted_def Let_def slot_def split: if_splits option.splits prod.splits)

lemma Transact_other:
  assumes "Transact C env req s fs = (res, s', fs')" and "other \<noteq> NormaliseQueueName (sn_Name (tr_Snapshot req))"
  shows "slot other s' = slot other s"
  using assms(1) refl
proof (cases rule: Transact_cases)
  case (wrote m candidate priorBytes candidateBytes commit fs1)
  then show ?thesis using assms(2) installCommitted_other by (cases "Committed commit") (auto simp: slot_def)
qed simp

lemma Transact_quarantined:
  assumes "Transact C env req s fs = (res, s', fs')" "tr_OperationKind req \<noteq> OperationFailedRecovery"
    "qs_quarantined s (NormaliseQueueName (sn_Name (tr_Snapshot req))) \<noteq> None"
  shows "s' = s \<and> fs' = fs"
  using assms by (auto simp: Transact_def transactRefusal_def Let_def)

lemma completeBegin_quarantined:
  assumes "completeBegin C opText decText env req s fs = (r, s', fs')"
    "qs_quarantined s (NormaliseQueueName (sn_Name (cq_Snapshot req))) \<noteq> None"
  shows "s' = s \<and> fs' = fs"
  using assms by (auto simp: completeBegin_def validateCompletionSnapshotLocked_def Let_def)

lemma completeBegin_other:
  assumes "completeBegin C opText decText env req s fs = (r, s', fs')" "other \<noteq> NormaliseQueueName (sn_Name (cq_Snapshot req))"
  shows "slot other s' = slot other s"
  using assms by (auto simp: completeBegin_def Let_def slot_def split: option.splits sum.splits prod.splits if_splits)

lemma completeBegin_stopped:
  assumes run: "completeBegin C opText decText env req s fs = (Inl res, s', fs')" and name: "name = NormaliseQueueName (sn_Name (cq_Snapshot req))"
  shows "cres_Phase res \<notin> {CompletionPhaseMarkerDurable, CompletionPhaseMarkerFailed}
    \<and> (cres_Outcome res = OutcomeRejected \<and> s' = s \<and> fs' = fs
      \<or> cres_Outcome res \<noteq> OutcomeRejected \<and> (\<exists>e. s' = quarantine name (Some e) s))"
proof (cases "\<exists>p pb commit f. completionWrite C env name p pb fs = (commit, f) \<and> \<not> Committed commit \<and> cres_Outcome res = rc_Outcome commit
    \<and> cres_Phase res = rc_Phase commit \<and> fs' = f \<and> s' = (if rc_Outcome commit \<noteq> OutcomeRejected then quarantine name (rc_Err commit) s else s)")
  case True
  then obtain p pb commit where w: "completionWrite C env name p pb fs = (commit, fs')" "\<not> Committed commit"
    "cres_Outcome res = rc_Outcome commit" "cres_Phase res = rc_Phase commit"
    "s' = (if rc_Outcome commit \<noteq> OutcomeRejected then quarantine name (rc_Err commit) s else s)" by blast
  show ?thesis using writeReplacement_shape [OF w(1) [unfolded completionWrite_def]] w(2-5) by (auto simp: Committed_def)
next
  case False
  have "\<exists>e. res = completionRejected e \<and> s' = s \<and> fs' = fs"
  proof (rule ccontr)
    assume ne: "\<not> ?thesis"
    then obtain p pb where *: "validateCompletionSnapshotLocked C req name s = None" "validateCompletionCandidate C decText req name = None"
      "PrepareCompletion C opText (the (cq_Candidate req)) (cq_TransactionID req) (cq_ReceiptID req) (cq_CompletedAt req) = Inr p"
      "cd_queueJSON C (the (sn_Queue (cq_Snapshot req))) = Inr pb"
      using run unfolding completeBegin_def Let_def name [symmetric] by (auto split: option.splits sum.splits)
    obtain commit f where w: "completionWrite C env name p pb fs = (commit, f)" by fastforce
    have "\<not> Committed commit \<and> cres_Outcome res = rc_Outcome commit \<and> cres_Phase res = rc_Phase commit \<and> fs' = f
        \<and> s' = (if rc_Outcome commit \<noteq> OutcomeRejected then quarantine name (rc_Err commit) s else s)"
      using run * w unfolding completeBegin_def Let_def name [symmetric]
      by (auto split: if_splits)
    then show False using False w by blast
  qed
  then show ?thesis by (auto simp: completionRejected_def)
qed

section \<open>Failed recovery, step by step\<close>

lemma failedItemsOf_beads: "map fri_BeadID (failedItemsOf its) = map item_BeadID (filter (\<lambda>it. item_Status it = ItemStatusFailed) its)"
  by (induction its) auto

lemma PrepareFailedRecovery_shape:
  assumes "PrepareFailedRecovery C newReceipt newTx q now = Inr p"
  shows "queue_Status q = QueueStatusPausedByFailure"
    and "queue_Status (fp_Candidate p) = QueueStatusActive" "queue_Groups (fp_Candidate p) = map reopened (queue_Groups q)"
    and "queue_QueueID (fp_Candidate p) = queue_QueueID q" "queue_FailedRecoveryReceiptID (fp_Candidate p) \<noteq> None"
    and "frr_RecoveredItems (fp_Receipt p) = Some (failedRecoveryItems q)"
  using assms
  by (auto simp: PrepareFailedRecovery_def Let_def ResumeFromFailure_def resumeGroups_eq status_ops failedRecoveryItems_def
      split: if_splits sum.splits prod.splits)






lemma Transact_outcomes:
  assumes "Transact C env req s fs = (res, s', fs')" and name: "name = NormaliseQueueName (sn_Name (tr_Snapshot req))"
    and failed: "tr_OperationKind req = OperationFailedRecovery"
  shows "res_Outcome res = OutcomeRejected \<Longrightarrow> s' = s"
    and "res_Outcome res = OutcomeCommittedDurable \<Longrightarrow> res_CleanupErr res = None \<Longrightarrow>
      \<exists>m. the (tr_Mutate req) (case queueAt s name of Some q \<Rightarrow> q | None \<Rightarrow> zeroQueue\<lparr>queue_Name := name\<rparr>) = Inr m
        \<and> queueAt s' name = Some (m\<lparr>queue_Name := name\<rparr>) \<and> qs_quarantined s' name = None \<and> qs_generations s' name = qs_generations s name + 1"
    and "s' = s \<or> qs_quarantined s' name \<noteq> None \<or> res_Outcome res = OutcomeCommittedDurable \<and> res_CleanupErr res = None"
    and "\<nexists>n e. res_Err res = Some (ErrQueueQuarantined n e)"
    and "\<not> (res_Outcome res = OutcomeCommittedDurable \<and> res_CleanupErr res = None) \<Longrightarrow> queueAt s' = queueAt s \<and> qs_generations s' = qs_generations s"
proof -
  let ?start = "case queueAt s name of Some q \<Rightarrow> q | None \<Rightarrow> zeroQueue\<lparr>queue_Name := name\<rparr>"
  have "(res_Outcome res = OutcomeRejected \<longrightarrow> s' = s)
    \<and> (res_Outcome res = OutcomeCommittedDurable \<and> res_CleanupErr res = None \<longrightarrow>
      (\<exists>m. the (tr_Mutate req) ?start = Inr m
        \<and> queueAt s' name = Some (m\<lparr>queue_Name := name\<rparr>) \<and> qs_quarantined s' name = None \<and> qs_generations s' name = qs_generations s name + 1))
    \<and> (s' = s \<or> qs_quarantined s' name \<noteq> None \<or> res_Outcome res = OutcomeCommittedDurable \<and> res_CleanupErr res = None)
    \<and> (\<nexists>n e. res_Err res = Some (ErrQueueQuarantined n e))
    \<and> (\<not> (res_Outcome res = OutcomeCommittedDurable \<and> res_CleanupErr res = None) \<longrightarrow> queueAt s' = queueAt s \<and> qs_generations s' = qs_generations s)"
  proof (cases "transactRefusal C req s")
    case (Some x)
    then have "s' = s \<and> res = rejectedTransaction x" using assms(1) unfolding Transact_def Let_def name [symmetric] by auto
    moreover have "\<nexists>n e. x = ErrQueueQuarantined n e"
      using Some failed by (auto simp: transactRefusal_def Let_def split: if_splits option.splits)
    ultimately show ?thesis by (auto simp: rejectedTransaction_def)
  next
    case ref: None
    show ?thesis
    proof (cases "\<exists>m p cb. the (tr_Mutate req) ?start = Inr m \<and> marshalOptional C (queueAt s name) = Inr p
        \<and> cd_queueJSON C (m\<lparr>queue_Name := name\<rparr>) = Inr cb \<and> sliceOf p \<noteq> cb")
      case True
      then obtain m p cb where c: "the (tr_Mutate req) ?start = Inr m" "marshalOptional C (queueAt s name) = Inr p"
        "cd_queueJSON C (m\<lparr>queue_Name := name\<rparr>) = Inr cb" "sliceOf p \<noteq> cb" by blast
      obtain commit fs1 where w: "writeReplacement C (we_ctxErr env) (we_newTx env) (we_newSuccessor env) (we_sfx1 env) (we_sfx2 env)
         (planOf req name (m\<lparr>queue_Name := name\<rparr>) p cb) fs = (commit, fs1)" by fastforce
      have run: "(res, s', fs') = (if \<not> Committed commit
          then (\<lparr>res_Outcome = rc_Outcome commit, res_Err = map_option StoreErr (rc_Err commit), res_Snapshot = None, res_CleanupErr = None\<rparr>,
                (if rc_Outcome commit \<noteq> OutcomeRejected then quarantine name (rc_Err commit) s else s), fs1)
          else installCommitted req name (m\<lparr>queue_Name := name\<rparr>) commit s fs1)"
        using assms(1) unfolding Transact_def Let_def name [symmetric] CloneQueue_id by (simp add: ref c w)
      show ?thesis
      proof (cases "Committed commit")
        case False
        then show ?thesis using run writeReplacement_shape(1) [OF w] by (auto simp: Committed_def split: if_splits)
      next
        case True
        obtain e f where "cleanupReplaceIntent name fs1 = (e, f)" by fastforce
        then show ?thesis using run True failed c(1)
          by (cases e) (auto simp: installCommitted_def Let_def Committed_def)
      qed
    next
      case False
      have "s' = s \<and> res_Outcome res \<noteq> OutcomeCommittedDurable \<and> (\<nexists>n e. res_Err res = Some (ErrQueueQuarantined n e))"
        using assms(1) False unfolding Transact_def Let_def name [symmetric] CloneQueue_id ref option.case
        by (cases "the (tr_Mutate req) ?start"; cases "marshalOptional C (queueAt s name)")
           (auto simp: rejectedTransaction_def receiptBearing_def failed split: sum.splits if_splits)
      then show ?thesis by blast
    qed
  qed
  then show "res_Outcome res = OutcomeRejected \<Longrightarrow> s' = s"
    and "res_Outcome res = OutcomeCommittedDurable \<Longrightarrow> res_CleanupErr res = None \<Longrightarrow>
      \<exists>m. the (tr_Mutate req) ?start = Inr m
        \<and> queueAt s' name = Some (m\<lparr>queue_Name := name\<rparr>) \<and> qs_quarantined s' name = None \<and> qs_generations s' name = qs_generations s name + 1"
    and "s' = s \<or> qs_quarantined s' name \<noteq> None \<or> res_Outcome res = OutcomeCommittedDurable \<and> res_CleanupErr res = None"
    and "\<nexists>n e. res_Err res = Some (ErrQueueQuarantined n e)"
    and "\<not> (res_Outcome res = OutcomeCommittedDurable \<and> res_CleanupErr res = None) \<Longrightarrow> queueAt s' = queueAt s \<and> qs_generations s' = qs_generations s"
    by blast+
qed

text \<open>What the commit of a recovery of the loaded queue \<open>q\<close> amounts to.\<close>

definition rearmedBeads :: "Queue \<Rightarrow> BeadID list" where
  "rearmedBeads q = map item_BeadID (filter (\<lambda>it. item_Status it = ItemStatusFailed) (concat (map group_Items (queue_Groups q))))"

definition recoveredSlot :: "Queue \<Rightarrow> string \<Rightarrow> QueueStore \<Rightarrow> bool" where
  "recoveredSlot q name s \<longleftrightarrow> qs_quarantined s name = None
     \<and> (\<exists>q'. queueAt s name = Some q' \<and> queue_Status q' = QueueStatusActive \<and> queue_Groups q' = map reopened (queue_Groups q))"

definition alreadyRecovered :: "Queue \<Rightarrow> bool" where
  "alreadyRecovered q \<longleftrightarrow> queue_Status q = QueueStatusActive \<and> queue_FailedRecoveryReceiptID q \<noteq> None"

lemma commitFailedRecovery_spec:
  assumes run: "commitFailedRecovery C env newReceipt newTx now name s fs = (res, s', fs')"
    and norm: "NormaliseQueueName name = name" and q: "queueAt s name = Some q"
  shows "\<nexists>n e. res_Err (fr_Result res) = Some (ErrQueueQuarantined n e)"
    and "alreadyRecovered q \<Longrightarrow> s' = s"
    and "s' = s \<or> qs_quarantined s' name \<noteq> None \<or> res_Outcome (fr_Result res) = OutcomeCommittedDurable \<and> res_CleanupErr (fr_Result res) = None"
    and "res_Outcome (fr_Result res) = OutcomeCommittedDurable \<Longrightarrow> res_CleanupErr (fr_Result res) = None \<Longrightarrow>
      if alreadyRecovered q then fr_AlreadyRecovered res
      else \<not> fr_AlreadyRecovered res \<and> queue_Status q = QueueStatusPausedByFailure \<and> rearmedFromReceipt (fr_Receipt res) = rearmedBeads q
        \<and> recoveredSlot q name s' \<and> qs_generations s' name = qs_generations s name + 1"
    and "\<not> alreadyRecovered q \<Longrightarrow> queue_Status q \<noteq> QueueStatusPausedByFailure \<Longrightarrow> s' = s"
    and "\<not> (res_Outcome (fr_Result res) = OutcomeCommittedDurable \<and> res_CleanupErr (fr_Result res) = None) \<Longrightarrow> queueAt s' = queueAt s \<and> qs_generations s' = qs_generations s"
    and "\<forall>other. other \<noteq> name \<longrightarrow> slot other s' = slot other s"
proof -
  have all: "(\<nexists>n e. res_Err (fr_Result res) = Some (ErrQueueQuarantined n e)) \<and> (alreadyRecovered q \<longrightarrow> s' = s)
    \<and> (s' = s \<or> qs_quarantined s' name \<noteq> None \<or> res_Outcome (fr_Result res) = OutcomeCommittedDurable \<and> res_CleanupErr (fr_Result res) = None)
    \<and> (res_Outcome (fr_Result res) = OutcomeCommittedDurable \<longrightarrow> res_CleanupErr (fr_Result res) = None \<longrightarrow>
      (if alreadyRecovered q then fr_AlreadyRecovered res
      else \<not> fr_AlreadyRecovered res \<and> queue_Status q = QueueStatusPausedByFailure \<and> rearmedFromReceipt (fr_Receipt res) = rearmedBeads q
        \<and> recoveredSlot q name s' \<and> qs_generations s' name = qs_generations s name + 1))
    \<and> (\<not> alreadyRecovered q \<longrightarrow> queue_Status q \<noteq> QueueStatusPausedByFailure \<longrightarrow> s' = s)
    \<and> (\<not> (res_Outcome (fr_Result res) = OutcomeCommittedDurable \<and> res_CleanupErr (fr_Result res) = None) \<longrightarrow> queueAt s' = queueAt s \<and> qs_generations s' = qs_generations s)
    \<and> (\<forall>other. other \<noteq> name \<longrightarrow> slot other s' = slot other s)" (is ?all)
  proof (cases "alreadyRecovered q")
    case True
    then show ?thesis
      using run q by (auto simp: commitFailedRecovery_def Let_def Snapshot_def norm alreadyRecovered_def rejectedTransaction_def
          split: sum.splits prod.splits)
  next
    case False
    show ?thesis
    proof (cases "PrepareFailedRecovery C newReceipt newTx q now")
      case (Inl e)
      then show ?thesis using run q False by (auto simp: commitFailedRecovery_def Let_def Snapshot_def norm alreadyRecovered_def rejectedTransaction_def)
    next
      case (Inr p)
      let ?req = "\<lparr>tr_Snapshot = Snapshot s name, tr_TransactionID = fp_TransactionID p, tr_OperationKind = OperationFailedRecovery,
             tr_WakeRequired = True, tr_ArchiveHandoff = None, tr_FailedRecoveryReceiptBinding = Some (fp_Binding p),
             tr_CompletionReceiptBinding = None, tr_Mutate = Some (\<lambda>_. Inr (fp_Candidate p)), tr_Precondition = None\<rparr>"
      have snap: "sn_Queue (Snapshot s name) = queueAt s name" "name = NormaliseQueueName (sn_Name (tr_Snapshot ?req))"
        by (simp_all add: Snapshot_def Let_def norm)
      obtain tres where t: "Transact C env ?req s fs = (tres, s', fs')" and tr: "fr_Result res = tres" "\<not> fr_AlreadyRecovered res"
        "fr_Receipt res = (if res_Outcome tres \<noteq> OutcomeCommittedDurable \<or> res_CleanupErr tres \<noteq> None then None else Some (fp_Receipt p))"
        using run [unfolded commitFailedRecovery_def Let_def norm snap(1) q option.case] False Inr
        by (auto simp: alreadyRecovered_def split: prod.splits)
      note o = Transact_outcomes [OF t snap(2), simplified]
      note sh = PrepareFailedRecovery_shape [OF Inr]
      have "rearmedFromReceipt (fr_Receipt res) = rearmedBeads q" if "res_Outcome tres = OutcomeCommittedDurable" "res_CleanupErr tres = None"
        using tr(3) that sh(6)
        by (simp add: rearmedFromReceipt_def rearmedBeads_def failedRecoveryItems_def map_concat filter_concat failedItemsOf_beads o_def)
      moreover have "\<forall>other. other \<noteq> name \<longrightarrow> slot other s' = slot other s" using Transact_other [OF t] snap(2) by simp
      ultimately show ?thesis using tr(1,2) o sh(1-4) False by (auto simp: recoveredSlot_def)
    qed
  qed
  show "\<nexists>n e. res_Err (fr_Result res) = Some (ErrQueueQuarantined n e)"
    and "alreadyRecovered q \<Longrightarrow> s' = s"
    and "s' = s \<or> qs_quarantined s' name \<noteq> None \<or> res_Outcome (fr_Result res) = OutcomeCommittedDurable \<and> res_CleanupErr (fr_Result res) = None"
    and "res_Outcome (fr_Result res) = OutcomeCommittedDurable \<Longrightarrow> res_CleanupErr (fr_Result res) = None \<Longrightarrow>
      if alreadyRecovered q then fr_AlreadyRecovered res
      else \<not> fr_AlreadyRecovered res \<and> queue_Status q = QueueStatusPausedByFailure \<and> rearmedFromReceipt (fr_Receipt res) = rearmedBeads q
        \<and> recoveredSlot q name s' \<and> qs_generations s' name = qs_generations s name + 1"
    and "\<not> alreadyRecovered q \<Longrightarrow> queue_Status q \<noteq> QueueStatusPausedByFailure \<Longrightarrow> s' = s"
    and "\<not> (res_Outcome (fr_Result res) = OutcomeCommittedDurable \<and> res_CleanupErr (fr_Result res) = None) \<Longrightarrow> queueAt s' = queueAt s \<and> qs_generations s' = qs_generations s"
    and "\<forall>other. other \<noteq> name \<longrightarrow> slot other s' = slot other s"
    using all by blast+
qed




section \<open>What other callers do to a held name\<close>

text \<open>
  The operations of the store, seen by whoever holds the name \<open>held\<close>: all of them but the second half
  of the completion that holds it. The only transaction of the failed-recovery kind is the one of
  \<open>commitFailedRecovery\<close>, and \<open>RecoverFailed\<close> is checks and that call.
\<close>

inductive store_op :: "string \<Rightarrow> QueueStore \<times> FS \<Rightarrow> QueueStore \<times> FS \<Rightarrow> bool" for held where
  set_queue: "store_op held (s, fs) (SetQueue q s, fs)"
| set_by_name: "store_op held (s, fs) (SetQueueByName name oq s, fs)"
| locked_set: "store_op held (s, fs) (LockedSetQueue q s, fs)"
| locked_set_by_name: "store_op held (s, fs) (LockedSetQueueByName name oq s, fs)"
| clear: "store_op held (s, fs) (ClearQueue s, fs)"
| clear_by_name: "store_op held (s, fs) (ClearQueueByName name s, fs)"
| wake: "store_op held (s, fs) (Wake s, fs)"
| transact: "tr_OperationKind req \<noteq> OperationFailedRecovery \<Longrightarrow> Transact C env req s fs = (res, s', fs') \<Longrightarrow> store_op held (s, fs) (s', fs')"
| recover: "commitFailedRecovery C env newReceipt newTx now name s fs = (fr, s', fs') \<Longrightarrow> store_op held (s, fs) (s', fs')"
| completing: "completeBegin C opText decText env req s fs = (r, s', fs') \<Longrightarrow> store_op held (s, fs) (s', fs')"
| completed: "NormaliseQueueName (sn_Name (cq_Snapshot req)) \<noteq> held \<Longrightarrow> completeEnd C sfx req p result g s fs = (cres, s', fs') \<Longrightarrow>
    store_op held (s, fs) (s', fs')"

lemma completeEnd_other:
  assumes "completeEnd C sfx req p result g s fs = (r, s', fs')" "other \<noteq> NormaliseQueueName (sn_Name (cq_Snapshot req))"
  shows "slot other s' = slot other s"
  using assms by (auto simp: completeEnd_def Let_def slot_def split: option.splits sum.splits prod.splits if_splits)

lemma NormaliseQueueName_twice [simp]: "NormaliseQueueName (NormaliseQueueName name) = NormaliseQueueName name"
  by (simp add: NormaliseQueueName_def QueueNameMain_def)

text \<open>A recovered name: a queue paused by failure, now under a fresh quarantine or recovered.\<close>

definition recoveryMoved :: "string \<Rightarrow> QueueStore \<Rightarrow> QueueStore \<Rightarrow> bool" where
  "recoveryMoved name s s' \<longleftrightarrow> (\<exists>q. queueAt s name = Some q \<and> queue_Status q = QueueStatusPausedByFailure
     \<and> (queueAt s' name = Some q \<and> qs_generations s' name = qs_generations s name \<and> qs_quarantined s' name \<noteq> None
        \<or> recoveredSlot q name s' \<and> qs_generations s' name = qs_generations s name + 1))"

lemma commitFailedRecovery_slot:
  assumes run: "commitFailedRecovery C env newReceipt newTx now name0 s fs = (res, s', fs')"
  shows "slot name s' = slot name s \<or> recoveryMoved name s s'"
proof -
  let ?n = "NormaliseQueueName name0"
  have run: "commitFailedRecovery C env newReceipt newTx now ?n s fs = (res, s', fs')"
    using run by (simp add: commitFailedRecovery_def)
  show ?thesis
  proof (cases "queueAt s ?n")
    case None
    then have "s' = s" using run by (auto simp: commitFailedRecovery_def Let_def Snapshot_def)
    then show ?thesis by simp
  next
    case (Some q)
    note sp = commitFailedRecovery_spec [OF run NormaliseQueueName_twice Some]
    show ?thesis
    proof (cases "name = ?n")
      case True
      show ?thesis
      proof (cases "s' = s")
        case False
        then have q: "\<not> alreadyRecovered q" "queue_Status q = QueueStatusPausedByFailure" using sp(2,5) by blast+
        show ?thesis
        proof (cases "res_Outcome (fr_Result res) = OutcomeCommittedDurable \<and> res_CleanupErr (fr_Result res) = None")
          case ok: True
          show ?thesis using sp(4) [OF conjunct1 [OF ok] conjunct2 [OF ok]] q Some True by (simp add: recoveryMoved_def)
        next
          case no: False
          show ?thesis using sp(6) [OF no] sp(3) no False q Some True by (simp add: recoveryMoved_def)
        qed
      qed simp
    next
      case False
      then show ?thesis using sp(7) by simp
    qed
  qed
qed

lemma store_op_quarantined:
  assumes "store_op name x y" "qs_quarantined (fst x) name \<noteq> None"
  shows "slot name (fst y) = slot name (fst x) \<or> recoveryMoved name (fst x) (fst y)"
  using assms
proof (induction rule: store_op.induct)
  case (transact req C env s fs res s' fs')
  then show ?case using Transact_other Transact_quarantined by (cases "name = NormaliseQueueName (sn_Name (tr_Snapshot req))") fastforce+
next
  case (recover C env newReceipt newTx now n s fs fr s' fs')
  then show ?case using commitFailedRecovery_slot by simp
next
  case (completing C opText decText env req s fs r s' fs')
  then show ?case using completeBegin_other completeBegin_quarantined
    by (cases "name = NormaliseQueueName (sn_Name (cq_Snapshot req))") fastforce+
next
  case (completed req C sfx p result g s fs cres s' fs')
  then show ?case using completeEnd_other [OF completed(2)] by simp
qed (auto simp: SetQueue_def SetQueueByName_def LockedSetQueue_def LockedSetQueueByName_def ClearQueue_def ClearQueueByName_def slot_def)

lemma store_ops_quarantined:
  assumes "(store_op name)\<^sup>*\<^sup>* x y" "qs_quarantined (fst x) name \<noteq> None"
    and "\<forall>q. queueAt (fst x) name = Some q \<longrightarrow> queue_Status q \<noteq> QueueStatusPausedByFailure"
  shows "slot name (fst y) = slot name (fst x)"
  using assms
proof (induction rule: rtranclp_induct)
  case (step y z)
  then have same: "slot name (fst y) = slot name (fst x)" by blast
  then have "qs_quarantined (fst y) name \<noteq> None" "\<not> recoveryMoved name (fst y) (fst z)"
    using step.prems by (auto simp: slot_def recoveryMoved_def)
  then show ?case using store_op_quarantined [OF step.hyps(2)] same by metis
qed simp

lemma PrepareCompletion_status:
  "PrepareCompletion C opText q tx r at = Inr p \<Longrightarrow> queue_Status (cp_Candidate p) = QueueStatusCompleted"
  by (auto simp: PrepareCompletion_def CompleteQueue_def Let_def orFail_def status_ops split: if_splits sum.splits option.splits)

text \<open>What a completion holds when it releases the lock.\<close>

lemma completeBegin_held:
  assumes "completeBegin C opText decText env req s fs = (Inr (p, result, g), s1, fs1)" and "name = NormaliseQueueName (sn_Name (cq_Snapshot req))"
  shows "slot name s1 = (Some (cp_Candidate p), g, Some errCompletionObservationInProgress)"
    and "PrepareCompletion C opText (the (cq_Candidate req)) (cq_TransactionID req) (cq_ReceiptID req) (cq_CompletedAt req) = Inr p"
    and "cres_Outcome result = OutcomeCommittedDurable" "cres_CleanupErr result = None" "cres_Phase result = CompletionPhaseObservationAttempted"
    and "\<exists>prior commit. cd_queueJSON C (the (sn_Queue (cq_Snapshot req))) = Inr prior \<and> validateCompletionSnapshotLocked C req name s = None
        \<and> completionWrite C env name p prior fs = (commit, fs1) \<and> Committed commit"
  using assms by (auto simp: completeBegin_def Let_def slot_def Committed_def split: option.splits sum.splits prod.splits if_splits)

lemma held_through:
  assumes "completeBegin C opText decText env req s fs = (Inr (p, result, g), x)" and "name = NormaliseQueueName (sn_Name (cq_Snapshot req))"
    and "(store_op name)\<^sup>*\<^sup>* x y"
  shows "slot name (fst y) = (Some (cp_Candidate p), g, Some errCompletionObservationInProgress)"
proof -
  obtain s1 fs1 where x: "x = (s1, fs1)" by fastforce
  note h = completeBegin_held(1,2) [OF assms(1) [unfolded x] assms(2)]
  show ?thesis using store_ops_quarantined [OF assms(3)] h x PrepareCompletion_status [OF h(2)] by (simp add: slot_def)
qed

section \<open>What a completion leaves on disk\<close>

text \<open>The queues directory is not touched by the work on the receipts.\<close>

definition queuesSame :: "FS \<Rightarrow> FS \<Rightarrow> bool" where
  "queuesSame fs fs' \<longleftrightarrow> fs_dir fs' QueuesDir = fs_dir fs QueuesDir \<and> fs_pend fs' QueuesDir = fs_pend fs QueuesDir"

lemma queuesSame_ops:
  "op_lstat fs = (e, fs') \<Longrightarrow> queuesSame fs fs'"
  "op_lstatFile d p fs = (e, fs') \<Longrightarrow> queuesSame fs fs'"
  "op_readFile d p fs = (x, fs') \<Longrightarrow> queuesSame fs fs'"
  "op_openDir fs = (e, fs') \<Longrightarrow> queuesSame fs fs'"
  "op_close fs = (e, fs') \<Longrightarrow> queuesSame fs fs'"
  "op_create CompletionReceiptsDir p fs = (e, fs') \<Longrightarrow> queuesSame fs fs'"
  "op_write CompletionReceiptsDir p data fs = (e, fs') \<Longrightarrow> queuesSame fs fs'"
  "op_syncFile CompletionReceiptsDir p fs = (e, fs') \<Longrightarrow> queuesSame fs fs'"
  "op_link CompletionReceiptsDir p q fs = (e, fs') \<Longrightarrow> queuesSame fs fs'"
  "op_remove CompletionReceiptsDir p fs = (e, fs') \<Longrightarrow> queuesSame fs fs'"
  "op_syncDirHandle CompletionReceiptsDir fs = (e, fs') \<Longrightarrow> queuesSame fs fs'"
  by (auto simp: queuesSame_def fs_ops op_openDir_def op_lstat_def op_lstatFile_def setDir_def syncDir_def Let_def
      split: fault.splits option.splits if_splits)

lemma queuesSame_trans: "queuesSame fs fs1 \<Longrightarrow> queuesSame fs1 fs2 \<Longrightarrow> queuesSame fs fs2"
  by (simp add: queuesSame_def)

lemma queuesSame_refl [simp]: "queuesSame fs fs"
  by (simp add: queuesSame_def)

lemma queuesSame_helpers:
  "readOptional d p fs = (x, fs') \<Longrightarrow> queuesSame fs fs'"
  "syncDirectory CompletionReceiptsDir fs = (e, fs') \<Longrightarrow> queuesSame fs fs'"
  "durableFile CompletionReceiptsDir p data fs = (e, fs') \<Longrightarrow> queuesSame fs fs'"
  by (auto simp: readOptional_def syncDirectory_def durableFile_def Let_def queuesSame_def dest!: queuesSame_ops
      split: prod.splits sum.splits option.splits FsErr.splits)

lemma queuesSame_noReplace: "durableNoReplace sfx CompletionReceiptsDir p data fs = (x, fs') \<Longrightarrow> queuesSame fs fs'"
  by (auto simp: durableNoReplace_def classifyNoReplaceCleanupFailure_def Let_def queuesSame_def dest!: queuesSame_ops queuesSame_helpers
      split: prod.splits sum.splits option.splits if_splits)

lemma queuesSame_marker: "installCompletionReleaseMarker C sfx i at fs = (x, fs') \<Longrightarrow> queuesSame fs fs'"
  by (auto simp: installCompletionReleaseMarker_def validateCompletionMarkerReceipt_def Let_def queuesSame_def
      dest!: queuesSame_ops queuesSame_helpers queuesSame_noReplace split: prod.splits sum.splits option.splits if_splits)

text \<open>No queue file and no intent of the name, durably.\<close>

definition durablyGone :: "string \<Rightarrow> FS \<Rightarrow> bool" where
  "durablyGone name fs \<longleftrightarrow> within (area {n. n (queuePath name) = None \<and> n (replaceIntentPath name) = None} (\<lambda>_. UNIV)) fs"

lemma queuesSame_gone:
  assumes "queuesSame fs fs'" "durablyGone name fs"
  shows "durablyGone name fs'"
proof -
  have "durablyGone name fs \<longleftrightarrow> (\<forall>n \<in> insert (fs_dir fs QueuesDir) (set (fs_pend fs QueuesDir)). n (queuePath name) = None \<and> n (replaceIntentPath name) = None)" for fs
    by (auto simp: durablyGone_def within_def area_def split: if_splits)
  then show ?thesis using assms by (simp add: queuesSame_def)
qed

lemma cleanupCompletedCanonical_gone:
  assumes r: "cleanupCompletedCanonical C name queueID sha fs = (None, fs')"
  shows "\<exists>n. n (queuePath (NormaliseQueueName name)) = None \<and> within (area {n} (\<lambda>_. UNIV)) fs'"
proof -
  let ?p = "queuePath (NormaliseQueueName name)"
  obtain x fs1 where x: "op_readFile QueuesDir ?p fs = (x, fs1)" by fastforce
  have w: "within (area UNIV (\<lambda>_. UNIV)) fs1" by (simp add: within_def area_def)
  show ?thesis
  proof (cases x)
    case (Inl er)
    then have "er = ErrNotExist" "syncDirectory QueuesDir fs1 = (None, fs')" using r x by (auto simp: cleanupCompletedCanonical_def split: FsErr.splits)
    moreover have "fs_dir fs1 QueuesDir ?p = None"
      using x Inl \<open>er = ErrNotExist\<close> by (auto simp: fs_ops Let_def split: fault.splits option.splits)
    ultimately show ?thesis using sync_narrow [OF w, of fs' "{fs_dir fs1 QueuesDir}"] by auto
  next
    case (Inr data)
    then have "removeAndSync ?p fs1 = (None, fs')"
      using r x by (auto simp: cleanupCompletedCanonical_def split: sum.splits if_splits)
    from removeAndSync_spec(2) [OF w _ this] show ?thesis by (intro exI [of _ "(fs_dir fs1 QueuesDir)(?p := None)"]) simp
  qed
qed

lemma cleanups_gone:
  assumes "cleanupCompletedCanonical C name queueID sha fs = (None, fs1)" "cleanupReplaceIntent name fs1 = (None, fs2)" "NormaliseQueueName name = name"
  shows "durablyGone name fs2"
proof -
  obtain n where n: "n (queuePath name) = None" "within (area {n} (\<lambda>_. UNIV)) fs1"
    using cleanupCompletedCanonical_gone [OF assms(1)] assms(3) by auto
  let ?p = "replaceIntentPath name"
  have d: "fs_dir fs1 QueuesDir = n" using n(2) unfolding within_def by (metis area_simps(1) singletonD)
  have w: "within (area {n, n(?p := None)} (\<lambda>_. UNIV)) fs1" by (rule within_mono [OF n(2)]) (auto simp: area_def)
  have r: "removeAndSync ?p fs1 = (None, fs2)" using assms(2,3) by (simp add: cleanupReplaceIntent_def)
  have "within (area {n(?p := None)} (\<lambda>_. UNIV)) fs2"
    using removeAndSync_spec(2) [OF w _ r refl] by (simp add: d)
  then show ?thesis unfolding durablyGone_def by (rule within_mono) (use n(1) in \<open>auto simp: area_def\<close>)
qed

lemma completeEnd_released:
  assumes "completeEnd C sfx req p result g s fs = (res, s', fs')" "name = NormaliseQueueName (sn_Name (cq_Snapshot req))"
    and "cres_Phase result = CompletionPhaseObservationAttempted" "cres_Phase res \<in> {CompletionPhaseMarkerDurable, CompletionPhaseMarkerFailed}"
  shows "durablyGone name fs'"
proof -
  obtain fs1 fs2 r where c: "cleanupCompletedCanonical C name (queue_QueueID (cp_Candidate p)) (cr_CompletedQueueSHA256 (cp_Receipt p)) fs = (None, fs1)"
    "cleanupReplaceIntent name fs1 = (None, fs2)" "installCompletionReleaseMarker C sfx (cp_MarkerInputs p) (the (cq_ReleaseTime req)) fs2 = (r, fs')"
    using assms unfolding completeEnd_def Let_def by (auto split: if_splits option.splits sum.splits prod.splits)
  show ?thesis
    by (rule queuesSame_gone [OF queuesSame_marker [OF c(3)] cleanups_gone [OF c(1,2)]]) (simp add: assms(2))
qed

text \<open>The candidate is durably in the queue file, and its receipt, the bytes of the binding, in its own.\<close>

definition writtenDurably :: "Codec \<Rightarrow> string \<Rightarrow> CompletionPlan \<Rightarrow> FS \<Rightarrow> bool" where
  "writtenDurably C name p fs \<longleftrightarrow> (\<exists>receipt. cd_unbase64 C (crb_CanonicalBytesBase64 (cp_Binding p)) = Inr receipt \<and>
     within (area {n. n (queuePath name) = Some (File (cp_CandidateBytes p) True)}
       ((\<lambda>_. UNIV)(CompletionReceiptsDir := {n. n (crb_Basename (cp_Binding p)) = Some (File receipt True)}))) fs)"

lemma completionWrite_durable:
  assumes w: "completionWrite C env name p prior fs = (commit, fs1)" and com: "Committed commit" and norm: "NormaliseQueueName name = name"
    and free: "completionFree (Some (cp_Binding p)) fs" and d: "within (area (holdsQueue name (Some prior)) (\<lambda>_. UNIV)) fs"
  shows "writtenDurably C name p fs1"
proof -
  let ?plan = "\<lparr>rp_TransactionID = cp_TransactionID p, rp_OperationKind = OperationCompletion, rp_NormalizedName = name,
        rp_QueueID = queue_QueueID (cp_Candidate p), rp_PriorBytes = Some prior, rp_CandidateBytes = cp_CandidateBytes p,
        rp_WakeRequired = False, rp_ArchiveHandoff = None, rp_FailedRecoveryReceiptBinding = None,
        rp_CompletionReceiptBinding = Some (cp_Binding p)\<rparr>"
  note wr = w [unfolded completionWrite_def]
  obtain i ib where pr: "prepareReplacement C (we_newTx env) (we_newSuccessor env) ?plan = Inr (i, ib)" and ctx: "we_ctxErr env = None"
    using writeReplacement_shape(2) [OF wr] com by (auto simp: Committed_def)
  let ?t = "txOf C (rp_PriorBytes ?plan) (rp_CandidateBytes ?plan) i ib"
  have u: "within (area (untouched ?t) (receiptAbsent ?t)) fs"
    by (rule start_untouched [OF pr _ _ _ _ refl]) (use norm free d in \<open>simp_all add: receiptFree_def\<close>)
  have fine: "within (area (renamedTx ?t) (receiptExact ?t)) fs1"
    using writeReplacement_prepared(1) [OF pr _ refl u wr [unfolded ctx]] com norm by (simp add: wrote_def)
  note b = prepareReplacement_bound [OF pr]
  have v: "validateReplaceIntent C i = None" using b(1) by (simp add: bound_def)
  have bd: "ri_FailedRecoveryReceiptBinding i = None" "ri_CompletionReceiptBinding i = Some (cp_Binding p)"
    using prepared_shape(1,2) [OF pr] by simp_all
  obtain data where data: "cd_unbase64 C (crb_CanonicalBytesBase64 (cp_Binding p)) = Inr data"
    "tx_receipt ?t = Some (CompletionReceiptsDir, crb_Basename (cp_Binding p), data)"
    by (rule completion_receipt_bound [OF b(1) refl bd]) (rule that; assumption)
  have path: "ri_CanonicalBasename i = queuePath name" using tx_names(1) [OF v] b(2) norm by (simp add: queuePath_def)
  show ?thesis unfolding writtenDurably_def
  proof (intro exI conjI)
    show "cd_unbase64 C (crb_CanonicalBytesBase64 (cp_Binding p)) = Inr data" by (rule data(1))
    show "within (area {n. n (queuePath name) = Some (File (cp_CandidateBytes p) True)}
       ((\<lambda>_. UNIV)(CompletionReceiptsDir := {n. n (crb_Basename (cp_Binding p)) = Some (File data True)}))) fs1"
      by (rule within_mono [OF fine], rule area_mono) (use data(2) path in \<open>auto simp: renamedTx_def newC_def receiptExact_def\<close>)
  qed
qed

lemma completeBegin_written:
  assumes run: "completeBegin C opText decText env req s fs = (Inr (p, result, g), s1, fs1)" and name: "name = NormaliseQueueName (sn_Name (cq_Snapshot req))"
    and q: "queueAt s name = Some q" "durableQueue C name (Some q) fs" and free: "completionFree (Some (cp_Binding p)) fs"
  shows "writtenDurably C name p fs1"
proof -
  obtain prior commit where *: "cd_queueJSON C (the (sn_Queue (cq_Snapshot req))) = Inr prior" "validateCompletionSnapshotLocked C req name s = None"
    "completionWrite C env name p prior fs = (commit, fs1)" "Committed commit"
    using completeBegin_held(6) [OF run name] by blast
  obtain b where b: "cd_queueJSON C q = Inr b" "within (area (holdsQueue name (Some b)) (\<lambda>_. UNIV)) fs"
    using q(2) by (auto simp: durableQueue_def marshalOptional_Some split: sum.splits)
  have "b = prior"
    using *(1,2) q(1) b(1) by (auto simp: validateCompletionSnapshotLocked_def sameQueue_def marshalOptional_Some sliceOf_Some split: if_splits)
  then show ?thesis using completionWrite_durable [OF *(3,4) _ free] b(2) name by simp
qed

text \<open>A completion without a fault, over a window that leaves the disk alone, gives the name up.\<close>

lemma cleanupCompletedCanonical_calm:
  assumes calm: "calm fs" and onDisk: "fs_dir fs QueuesDir (queuePath (NormaliseQueueName name)) = Some (File new True)"
    and q: "UnmarshalText C (validateUUIDv7 C) new = Inr q" "queue_QueueID q = queueID" "digestHex C new = sha"
    and r: "cleanupCompletedCanonical C name queueID sha fs = (e, fs')"
  shows "e = None \<and> calm fs'"
proof -
  let ?p = "queuePath (NormaliseQueueName name)"
  obtain x fs1 where x: "op_readFile QueuesDir ?p fs = (x, fs1)" by fastforce
  have c: "calm fs1" "x = Inr new" using calm_ops(1) [OF calm x] onDisk by simp_all
  then have "removeAndSync ?p fs1 = (e, fs')" using r x q by (simp add: cleanupCompletedCanonical_def)
  from removeAndSync_spec(3) [OF _ UNIV_I this c(1), of "\<lambda>_. UNIV"] show ?thesis by (simp add: within_def area_def)
qed

lemma complete_calm:
  assumes go: "validateCompletionSnapshotLocked C req name s = None" "validateCompletionCandidate C decText req name = None"
    and prep: "PrepareCompletion C opText (the (cq_Candidate req)) (cq_TransactionID req) (cq_ReceiptID req) (cq_CompletedAt req) = Inr p"
    and prior: "cd_queueJSON C (the (sn_Queue (cq_Snapshot req))) = Inr prior" "queueAt s name = Some q"
    and pr: "prepareReplacement C (we_newTx env) (we_newSuccessor env)
       \<lparr>rp_TransactionID = cp_TransactionID p, rp_OperationKind = OperationCompletion, rp_NormalizedName = name,
        rp_QueueID = queue_QueueID (cp_Candidate p), rp_PriorBytes = Some prior, rp_CandidateBytes = cp_CandidateBytes p,
        rp_WakeRequired = False, rp_ArchiveHandoff = None, rp_FailedRecoveryReceiptBinding = None,
        rp_CompletionReceiptBinding = Some (cp_Binding p)\<rparr> = Inr (i, ib)"
    and cand: "cd_queueJSON C (cp_Candidate p) = Inr (cp_CandidateBytes p)" "UnmarshalText C (validateUUIDv7 C) (cp_CandidateBytes p) = Inr cq"
      "queue_QueueID cq = queue_QueueID (cp_Candidate p)" "digestHex C (cp_CandidateBytes p) = cr_CompletedQueueSHA256 (cp_Receipt p)"
    and name: "name = NormaliseQueueName (sn_Name (cq_Snapshot req))" and ctx: "we_ctxErr env = None"
    and d: "durableQueue C name (Some q) fs" and free: "completionFree (Some (cp_Binding p)) fs" and calm: "calm fs"
    and names: "fs_dir fs QueuesDir (ri_CandidateTempBasename i) = None" "fs_dir fs QueuesDir (replaceIntentPath name @ ''.tmp-'' @ we_sfx1 env) = None"
      "fs_dir fs CompletionReceiptsDir (crb_Basename (cp_Binding p) @ ''.tmp-'' @ we_sfx2 env) = None"
    and window: "\<And>x. (store_op name)\<^sup>*\<^sup>* x (window x)" "\<And>x. snd (window x) = snd x"
    and run: "complete_store C opText decText env sfx req window s fs = (res, s', fs')"
  shows "cres_Phase res \<in> {CompletionPhaseMarkerDurable, CompletionPhaseMarkerFailed}"
proof -
  let ?plan = "\<lparr>rp_TransactionID = cp_TransactionID p, rp_OperationKind = OperationCompletion, rp_NormalizedName = name,
        rp_QueueID = queue_QueueID (cp_Candidate p), rp_PriorBytes = Some prior, rp_CandidateBytes = cp_CandidateBytes p,
        rp_WakeRequired = False, rp_ArchiveHandoff = None, rp_FailedRecoveryReceiptBinding = None,
        rp_CompletionReceiptBinding = Some (cp_Binding p)\<rparr>"
  let ?t = "txOf C (rp_PriorBytes ?plan) (rp_CandidateBytes ?plan) i ib"
  have norm: "NormaliseQueueName name = name" using name by simp
  obtain commit fs1 where w: "completionWrite C env name p prior fs = (commit, fs1)" by fastforce
  note wr = w [unfolded completionWrite_def]
  obtain b where b: "cd_queueJSON C q = Inr b" "within (area (holdsQueue name (Some b)) (\<lambda>_. UNIV)) fs"
    using d by (auto simp: durableQueue_def marshalOptional_Some split: sum.splits)
  have "b = prior"
    using go(1) prior b(1) by (auto simp: validateCompletionSnapshotLocked_def sameQueue_def marshalOptional_Some sliceOf_Some split: if_splits)
  then have u: "within (area (untouched ?t) (receiptAbsent ?t)) fs"
    by (intro start_untouched [OF pr _ _ _ _ refl]) (use norm free b in \<open>simp_all add: receiptFree_def\<close>)
  have bd: "ri_FailedRecoveryReceiptBinding i = None" "ri_CompletionReceiptBinding i = Some (cp_Binding p)"
    using prepared_shape(1,2) [OF pr] by simp_all
  have tmp: "tmpFree ?t (we_sfx2 env) fs"
    using names(3) bd by (auto simp: tmpFree_def receiptOf_def txOf_def split: sum.splits)
  have iname: "ri_NormalizedName i = name" using prepareReplacement_bound(2) [OF pr] norm by simp
  have com: "Committed commit"
    by (rule writeReplacement_prepared(2) [OF pr _ refl u wr [unfolded ctx] calm names(1)]) (use names(2) iname tmp norm in simp_all)
  obtain result g s1 where beg: "completeBegin C opText decText env req s fs = (Inr (p, result, g), s1, fs1)"
    using go prep prior(1) w com unfolding completeBegin_def Let_def name [symmetric] by simp
  note h = completeBegin_held [OF beg name]
  have onDisk: "fs_dir fs1 QueuesDir (queuePath (NormaliseQueueName name)) = Some (File (cp_CandidateBytes p) True)"
    using completeBegin_written [OF beg name prior(2) d free] norm
    by (auto simp: writtenDurably_def within_def area_def dest: spec [of _ QueuesDir])
  obtain s2 where win: "window (s1, fs1) = (s2, fs1)" using window(2) [of "(s1, fs1)"] by (metis prod.collapse snd_conv)
  have sl: "slot name s2 = (Some (cp_Candidate p), g, Some errCompletionObservationInProgress)"
    using held_through [OF beg name window(1)] win by simp
  obtain e fs2 where c1: "cleanupCompletedCanonical C name (queue_QueueID (cp_Candidate p)) (cr_CompletedQueueSHA256 (cp_Receipt p)) fs1 = (e, fs2)"
    by fastforce
  have e: "e = None \<and> calm fs2"
    by (rule cleanupCompletedCanonical_calm [OF writeReplacement_calm [OF wr calm] onDisk cand(2,3,4) c1])
  obtain e' fs3 where c2: "cleanupReplaceIntent name fs2 = (e', fs3)" by fastforce
  have e': "e' = None" using cleanupReplaceIntent_calm [OF _ c2] e by blast
  have "completeEnd C sfx req p result g s2 fs1 = (res, s', fs')" using run beg win by (simp add: complete_store_def)
  then show ?thesis
    using sl e e' c1 c2 cand(1) unfolding completeEnd_def Let_def name [symmetric]
    by (auto simp: slot_def sameQueue_def marshalOptional_Some split: prod.splits sum.splits if_splits)
qed
section \<open>A concrete store\<close>

lemma newQueueStore_empty [simp]: "queueAt newQueueStore n = None" "qs_quarantined newQueueStore n = None" "qs_generations newQueueStore n = 0"
  by (simp_all add: newQueueStore_def queueAt_def)

definition wit_store :: QueueStore where
  "wit_store = installQueue ''q'' (Some wit_codec_queue) newQueueStore"

definition wit_request :: TransactionRequest where
  "wit_request = \<lparr>tr_Snapshot = Snapshot wit_store ''q'', tr_TransactionID = ''t'', tr_OperationKind = OperationSubmit,
     tr_WakeRequired = True, tr_ArchiveHandoff = None, tr_FailedRecoveryReceiptBinding = None,
     tr_CompletionReceiptBinding = None, tr_Mutate = Some (\<lambda>q. Inr (q\<lparr>queue_Workers := 1\<rparr>)), tr_Precondition = None\<rparr>"

definition wit_env :: WriteEnv where
  "wit_env = \<lparr>we_ctxErr = None, we_newTx = Inr [], we_newSuccessor = Inr [], we_sfx1 = ''x'', we_sfx2 = ''y''\<rparr>"

definition wit_transact :: "(nat \<Rightarrow> fault) \<Rightarrow> TransactionResult \<times> QueueStore \<times> FS" where
  "wit_transact faults = Transact wit_codec wit_env wit_request wit_store (wit_boot faults wit_disk)"

lemma wit_durable: "durableQueue wit_codec ''q'' (queueAt wit_store ''q'') (wit_boot faults wit_disk)"
  by (auto simp: durableQueue_def wit_store_def marshalOptional_def wit_codec_def wit_codec_queue_def zeroQueue_def within_def
      area_def holdsQueue_def wit_boot_def wit_disk_def queuePath_def replaceIntentPath_def replaceIntentSuffix_def)

lemma wit_request_name: "''q'' = NormaliseQueueName (sn_Name (tr_Snapshot wit_request))"
  by (simp add: wit_request_def Snapshot_def Let_def NormaliseQueueName_def)


text \<open>A queue whose last item has just completed, and its completion.\<close>

definition wit_running :: Queue where
  "wit_running = wit_codec_queue\<lparr>queue_Status := QueueStatusActive,
     queue_Groups := [zeroGroup\<lparr>group_Kind := GroupKindWave, group_Status := GroupStatusActive,
       group_Items := [zeroItem\<lparr>item_BeadID := ''b'', item_Status := ItemStatusDispatched, item_RunID := Some ''u''\<rparr>]\<rparr>]\<rparr>"

definition wit_done_group :: Group where
  "wit_done_group = zeroGroup\<lparr>group_Kind := GroupKindWave, group_Status := GroupStatusCompleteSuccess, group_CompletedAt := Some 5000000,
       group_Items := [zeroItem\<lparr>item_BeadID := ''b'', item_Status := ItemStatusCompleted, item_RunID := Some ''u''\<rparr>]\<rparr>"

definition wit_completed :: Queue where
  "wit_completed = wit_codec_queue\<lparr>queue_Status := QueueStatusCompleted, queue_Groups := [wit_done_group]\<rparr>"

definition wit_receipt :: CompletionReceipt where
  "wit_receipt = \<lparr>cr_SchemaVersion = 1, cr_QueueID = ''i'', cr_ReceiptID = ''r'', cr_TransactionID = ''t'', cr_NormalizedName = ''q'',
     cr_FinalGroupIndex = 0, cr_FinalStatus = ''complete-success'', cr_SuccessCount = 1, cr_FailCount = 0, cr_CompletedAt = ''T'',
     cr_CompletedQueueSHA256 = hexEncode (wit_digest ''N'')\<rparr>"

definition wit_done_codec :: Codec where
  "wit_done_codec = wit_codec\<lparr>cd_queueJSON := (\<lambda>q. Inr (if queue_Status q = QueueStatusCompleted then ''N'' else ''O'')),
     cd_queue := (\<lambda>b. Inr (if b = ''N'' then wit_completed else wit_running)), cd_receipt := (\<lambda>b. Inr wit_receipt),
     cd_formatTime := (\<lambda>t. ''T''), cd_parseTime := (\<lambda>s. Some 0)\<rparr>"

definition wit_running_store :: QueueStore where
  "wit_running_store = installQueue ''q'' (Some wit_running) newQueueStore"

definition wit_completion :: CompletionRequest where
  "wit_completion = \<lparr>cq_Snapshot = Snapshot wit_running_store ''q'', cq_Candidate = Some wit_completed,
     cq_DecisionInput = \<lparr>gci_ExpectedQueueID = ''i'', gci_Location = \<lparr>loc_GroupIndex = 0, loc_ItemIndex = 0\<rparr>,
       gci_Outcome = GroupCompletionOutcomeCompleted, gci_CompletedAt = 5000000, gci_CompletionReceiptID = ''r''\<rparr>,
     cq_TransactionID = ''t'', cq_ReceiptID = ''r'', cq_CompletedAt = 5000000, cq_ReleaseTime = Some 2, cq_Observe = Some (\<lambda>_. None)\<rparr>"

definition wit_complete :: "(nat \<Rightarrow> fault) \<Rightarrow> CompletionResult \<times> QueueStore \<times> FS" where
  "wit_complete faults = complete_store wit_done_codec (\<lambda>_. []) (\<lambda>_. []) wit_env ''m'' wit_completion
     (\<lambda>(s, fs). (SetQueueByName ''q'' (Some zeroQueue) s, fs)) wit_running_store (wit_boot faults wit_disk)"

definition wit_binding :: CompletionReceiptBinding where
  "wit_binding = \<lparr>crb_ReceiptID = ''r'', crb_Basename = ''i--r.json'', crb_SchemaVersion = 1, crb_CanonicalBytesBase64 = ''R'',
     crb_SHA256 = hexEncode (wit_digest ''R'')\<rparr>"

definition wit_plan :: CompletionPlan where
  "wit_plan = \<lparr>cp_TransactionID = ''t'', cp_Candidate = wit_completed, cp_CandidateBytes = ''N'', cp_Receipt = wit_receipt,
     cp_ReceiptBytes = ''R'', cp_Binding = wit_binding,
     cp_MarkerInputs = \<lparr>cmi_QueueID = ''i'', cmi_ReceiptID = ''r'', cmi_TransactionID = ''t'', cmi_ReceiptSHA256 = hexEncode (wit_digest ''R''),
       cmi_CompletedQueueSHA256 = hexEncode (wit_digest ''N'')\<rparr>\<rparr>"

definition wit_completion_intent :: ReplaceIntentV1 where
  "wit_completion_intent = wit_intent\<lparr>ri_OperationKind := OperationCompletion, ri_WakeRequired := False, ri_CompletionReceiptBinding := Some wit_binding\<rparr>"

lemma wit_done_codec_sel:
  "cd_queueJSON wit_done_codec q = Inr (if queue_Status q = QueueStatusCompleted then ''N'' else ''O'')"
  "cd_queue wit_done_codec b = Inr (if b = ''N'' then wit_completed else wit_running)" "cd_receipt wit_done_codec b = Inr wit_receipt"
  "cd_formatTime wit_done_codec t = ''T''" "cd_parseTime wit_done_codec v = Some 0" "cd_sha256 wit_done_codec = wit_digest"
  "cd_base64 wit_done_codec = id" "cd_unbase64 wit_done_codec = Inr" "cd_receiptJSON wit_done_codec r = ''R''" "cd_intentJSON wit_done_codec i = ''I''"
  "validateUUIDv7 wit_done_codec v"
  by (simp_all add: wit_done_codec_def wit_codec_def validateUUIDv7_def)

lemma wit_hex: "validSHA256 (hexEncode (wit_digest b))"
  by (simp add: validSHA256_hexEncode wit_digest_def)

lemma wit_hex_done: "digestHex wit_done_codec b = hexEncode (wit_digest b)"
  by (simp add: digestHex_def wit_done_codec_sel)

lemmas wit_queue_defs = wit_done_group_def wit_running_def wit_completed_def wit_codec_queue_def zeroQueue_def zeroGroup_def zeroItem_def

lemma wit_text: "UnmarshalText wit_done_codec (validateUUIDv7 wit_done_codec) b = Inr (if b = ''N'' then wit_completed else wit_running)"
  by (simp add: UnmarshalText_def UnmarshalQueue_def wit_done_codec_sel)
     (simp add: wit_queue_defs schemaVersion_def validatePreclaimTerminalItem_def)

lemma wit_receipt_ok: "DecodeCompletionReceipt wit_done_codec ''R'' = Inr wit_receipt"
proof -
  have "ValidateQueueName ''q'' = (True, [])" by code_simp
  then show ?thesis
    by (simp add: DecodeCompletionReceipt_def wit_done_codec_sel validateReceiptFields_def validRecoveryTimestamp_def parseRecoveryTimestamp_def
        wit_receipt_def wit_hex NormaliseQueueName_def)
qed

lemma wit_binding_ok: "validateCompletionReceiptBinding wit_done_codec (Some wit_binding) ''i'' ''t'' ''q'' (hexEncode (wit_digest ''N'')) = None"
  "decodeBoundCompletionReceipt wit_done_codec wit_binding = Inr wit_receipt"
  by (simp_all add: validateCompletionReceiptBinding_def decodeBoundCompletionReceipt_def boundBytes_def wit_binding_def wit_done_codec_sel
      wit_hex wit_hex_done wit_receipt_ok) (simp add: wit_receipt_def)

lemma wit_plan_prepared: "PrepareCompletion wit_done_codec opText wit_completed ''t'' ''r'' 5000000 = Inr wit_plan"
proof -
  have q: "queue_QueueID wit_completed = ''i''" "queue_Name wit_completed = ''q''" "queue_Status wit_completed = QueueStatusCompleted"
    "queue_Groups wit_completed = [wit_done_group]" "wit_completed\<lparr>queue_Name := ''q''\<rparr> = wit_completed" "wit_completed\<lparr>queue_Groups := [wit_done_group]\<rparr> = wit_completed"
    "wit_done_group\<lparr>group_CompletedAt := Some 5000000\<rparr> = wit_done_group"
    by (simp_all add: wit_completed_def wit_codec_queue_def wit_done_group_def)
  have g: "group_GroupIndex wit_done_group = 0" "group_Status wit_done_group = GroupStatusCompleteSuccess" "group_CompletedAt wit_done_group = Some 5000000"
    "group_Items wit_done_group = [zeroItem\<lparr>item_BeadID := ''b'', item_Status := ItemStatusCompleted, item_RunID := Some ''u''\<rparr>]"
    by (simp_all add: wit_done_group_def zeroGroup_def)
  have c: "CompleteQueue (Some wit_completed) = Inr wit_completed" by (simp add: CompleteQueue_def q g)
  have n: "NormaliseQueueName ''q'' = ''q''" "truncateMillisecond 5000000 = 5000000" by (simp_all add: NormaliseQueueName_def truncateMillisecond_def)
  have json: "cd_queueJSON wit_done_codec wit_completed = Inr ''N''" by (simp add: wit_done_codec_sel q)
  have r: "\<lparr>cr_SchemaVersion = 1, cr_QueueID = ''i'', cr_ReceiptID = ''r'', cr_TransactionID = ''t'', cr_NormalizedName = ''q'',
     cr_FinalGroupIndex = 0, cr_FinalStatus = ''complete-success'', cr_SuccessCount = 1, cr_FailCount = 0, cr_CompletedAt = ''T'',
     cr_CompletedQueueSHA256 = hexEncode (wit_digest ''N'')\<rparr> = wit_receipt" by (simp add: wit_receipt_def)
  have b: "\<lparr>crb_ReceiptID = ''r'', crb_Basename = ''i--r.json'', crb_SchemaVersion = 1, crb_CanonicalBytesBase64 = ''R'',
     crb_SHA256 = hexEncode (wit_digest ''R'')\<rparr> = wit_binding" by (simp add: wit_binding_def)
  have s: "crb_SHA256 wit_binding = hexEncode (wit_digest ''R'')" "cr_CompletedQueueSHA256 wit_receipt = hexEncode (wit_digest ''N'')"
    by (simp_all add: wit_binding_def wit_receipt_def)
  show ?thesis
    unfolding PrepareCompletion_def Let_def CloneQueue_same option.sel q n c sum.case json wit_hex_done
    by (simp add: wit_done_codec_sel(4-11) q n g r b s json wit_hex_done wit_binding_ok orFail_def) (simp add: wit_plan_def)
qed

lemma wit_running_at: "queueAt wit_running_store ''q'' = Some wit_running" "qs_quarantined wit_running_store n = None"
  "qs_generations wit_running_store ''q'' = 1"
  by (simp_all add: wit_running_store_def)

lemma wit_completion_snapshot: "cq_Snapshot wit_completion = \<lparr>sn_Name = ''q'', sn_Queue = Some wit_running, sn_Generation = 1\<rparr>"
  by (simp add: wit_completion_def Snapshot_def Let_def NormaliseQueueName_def wit_running_at)

lemma wit_decided:
  "\<exists>r. DecideGroupCompletion (validateUUIDv7 wit_done_codec) wit_running (cq_DecisionInput wit_completion) = Inr r
     \<and> gcr_Disposition r = GroupCompletionDispositionQueueCompleted \<and> gcr_NextQueue r = Some wit_completed"
proof -
  let ?inp = "cq_DecisionInput wit_completion"
  have uuid: "validateUUIDv7 wit_done_codec v" for v by (rule wit_done_codec_sel)
  have rd: "ready (validateUUIDv7 wit_done_codec) wit_running ?inp"
    by (simp add: ready_def CompletionInput_Validate_def outcome_valid_def truncateMillisecond_def year10000_def
      working_def accepts_item_def wantedStatus_def validCompletionGroupKind_def validCompletionItemStatus_def
      queueAcceptsItemCompletion_def itemIsTerminal_def wit_completion_def wit_queue_defs uuid)
  have l: "length (queue_Groups wit_running) = 1" by (simp add: wit_running_def)
  have t: "allItemsTerminal (workedGroup wit_running ?inp)" "snd (countOutcomes (workedGroup wit_running ?inp)) = 0"
    by (simp_all add: allItemsTerminal_def no_failures_iff outcomeItems_def wantedItemStatus_def itemIsTerminal_def wit_completion_def wit_queue_defs)
  have i: "gci_group ?inp = 0" "gci_CompletionReceiptID ?inp = ''r''" by (simp_all add: wit_completion_def)
  have c: "(setGroup wit_running 0 (closedGroup wit_running ?inp GroupStatusCompleteSuccess))
      \<lparr>queue_Status := QueueStatusCompleted, queue_ResumeOnStart := False\<rparr> = wit_completed"
    by (simp add: setGroup_def closedGroup_def workedGroup_def outcomeItems_def wantedItemStatus_def truncateMillisecond_def wit_completion_def wit_queue_defs)
  show ?thesis unfolding Decide_ready_eq [OF rd]
    by (simp add: readyResult_def refCompletion_def t l i c changedCompletionResult_def)
qed

lemma wit_completion_prepared:
  "prepareReplacement wit_done_codec (we_newTx wit_env) (we_newSuccessor wit_env)
     \<lparr>rp_TransactionID = cp_TransactionID wit_plan, rp_OperationKind = OperationCompletion, rp_NormalizedName = ''q'',
        rp_QueueID = queue_QueueID (cp_Candidate wit_plan), rp_PriorBytes = Some ''O'', rp_CandidateBytes = cp_CandidateBytes wit_plan,
        rp_WakeRequired = False, rp_ArchiveHandoff = None, rp_FailedRecoveryReceiptBinding = None,
        rp_CompletionReceiptBinding = Some (cp_Binding wit_plan)\<rparr> = Inr (wit_completion_intent, ''I'')"
proof -
  have name: "ValidateQueueName ''q'' = (True, [])" by code_simp
  have q: "queue_QueueID wit_completed = ''i''" "queue_Name wit_completed = ''q''" "queue_Name wit_running = ''q''" "queue_Status wit_completed = QueueStatusCompleted"
    "queue_Groups wit_completed = [wit_done_group]"
    by (simp_all add: wit_completed_def wit_running_def wit_codec_queue_def)
  have p: "cp_TransactionID wit_plan = ''t''" "cp_Candidate wit_plan = wit_completed" "cp_CandidateBytes wit_plan = ''N''" "cp_Binding wit_plan = wit_binding"
    by (simp_all add: wit_plan_def)
  show ?thesis
    by (simp add: prepareReplacement_def prepareReplacementWithIDs_def p q wit_env_def validateArchiveOperationCoupling_def
        validateCancellationCoupling_def validateFailedRecoveryPlan_def validateCompletionPlan_def prepareArchiveHandoff_def
        validateReplaceIntent_def validReplaceIntentEnvelope_def validOperationKind_def validateFailedRecoveryIntentCoupling_def
        validateCompletionIntentCoupling_def validateArchiveHandoff_def NormaliseQueueName_def maxQueueFileBytes_def
        orFail_def andThen_def wit_text wit_hex wit_hex_done wit_binding_ok name wit_done_codec_sel)
      (simp add: wit_receipt_def wit_done_group_def zeroGroup_def zeroItem_def wit_completion_intent_def wit_intent_def wit_done_codec_sel)
qed

lemma wit_completion_begins:
  "validateCompletionSnapshotLocked wit_done_codec wit_completion ''q'' wit_running_store = None"
  "validateCompletionCandidate wit_done_codec decText wit_completion ''q'' = None"
proof -
  have q: "queue_QueueID wit_completed = ''i''" "queue_Name wit_completed = ''q''" "queue_QueueID wit_running = ''i''"
    by (simp_all add: wit_completed_def wit_running_def wit_codec_queue_def)
  have r: "cq_Candidate wit_completion = Some wit_completed" "cq_ReceiptID wit_completion = gci_CompletionReceiptID (cq_DecisionInput wit_completion)"
    "cq_Observe wit_completion \<noteq> None" "cq_ReleaseTime wit_completion \<noteq> None"
    by (simp_all add: wit_completion_def)
  have same: "sameQueue wit_done_codec (Some x) (Some x)" for x by (simp add: sameQueue_def marshalOptional_Some wit_done_codec_sel)
  show "validateCompletionSnapshotLocked wit_done_codec wit_completion ''q'' wit_running_store = None"
    using r same by (simp add: validateCompletionSnapshotLocked_def wit_completion_snapshot wit_running_at)
  show "validateCompletionCandidate wit_done_codec decText wit_completion ''q'' = None"
    using wit_decided q same by (auto simp: validateCompletionCandidate_def wit_completion_snapshot r)
qed

lemma wit_running_durable: "durableQueue wit_done_codec ''q'' (Some wit_running) (wit_boot f wit_disk)"
  by (auto simp: durableQueue_def marshalOptional_def wit_done_codec_sel wit_running_def within_def
      area_def holdsQueue_def wit_boot_def wit_disk_def queuePath_def replaceIntentPath_def replaceIntentSuffix_def)

lemma wit_completes:
  "cres_Phase (fst (wit_complete (\<lambda>k. Works))) \<in> {CompletionPhaseMarkerDurable, CompletionPhaseMarkerFailed}"
proof -
  have r: "complete_store wit_done_codec (\<lambda>_. []) (\<lambda>_. []) wit_env ''m'' wit_completion
      (\<lambda>(s, fs). (SetQueueByName ''q'' (Some zeroQueue) s, fs)) wit_running_store (wit_boot f wit_disk) =
      (fst (wit_complete f), fst (snd (wit_complete f)), snd (snd (wit_complete f)))" for f
    by (simp add: wit_complete_def)
  have ops: "(store_op ''q'')\<^sup>*\<^sup>* x ((\<lambda>(s, fs). (SetQueueByName ''q'' (Some zeroQueue) s, fs)) x)" for x
    by (cases x) (auto intro: store_op.set_by_name)
  have prep: "PrepareCompletion wit_done_codec (\<lambda>_. []) (the (cq_Candidate wit_completion)) (cq_TransactionID wit_completion)
      (cq_ReceiptID wit_completion) (cq_CompletedAt wit_completion) = Inr wit_plan"
    by (simp add: wit_completion_def wit_plan_prepared)
  have prior: "cd_queueJSON wit_done_codec (the (sn_Queue (cq_Snapshot wit_completion))) = Inr ''O''"
    by (simp add: wit_completion_snapshot wit_done_codec_sel wit_running_def)
  have p: "cp_Candidate wit_plan = wit_completed" "cp_CandidateBytes wit_plan = ''N''" "cp_Receipt wit_plan = wit_receipt" "cp_Binding wit_plan = wit_binding"
    "queue_Status wit_completed = QueueStatusCompleted" "cr_CompletedQueueSHA256 wit_receipt = hexEncode (wit_digest ''N'')"
    by (simp_all add: wit_plan_def wit_completed_def wit_receipt_def)
  show ?thesis
    by (rule complete_calm [OF wit_completion_begins prep prior wit_running_at(1) wit_completion_prepared _ wit_text _ _ _ _ wit_running_durable _ _ _ _ _ ops _ r])
       (simp_all add: p wit_done_codec_sel wit_hex_done wit_completion_snapshot NormaliseQueueName_def wit_env_def completionFree_def within_def wit_boot_def
          wit_disk_def calm_def wit_completion_intent_def wit_intent_def replaceIntentPath_def replaceIntentSuffix_def split: prod.splits)
qed

section \<open>Properties\<close>

text \<open>
  C1. The store and the disk agree. Of a transaction without archive handoff and without completion
  receipt, started from a queue that is durably what memory says with no intent pending (and, for a
  failed recovery, with the name of its receipt free), under any faults: the name ends quarantined or
  again durably what memory says. It passes only with the generation and the content of its snapshot,
  for a name that is not quarantined unless it is a failed recovery; a rejected one changed nothing; one
  that did not commit left queues and generations as they were. One that committed has as candidate
  exactly what the mutation makes of the current queue, under the normalised name: if that is the current
  queue again, nothing moved; otherwise the candidate is in memory under the next generation, and, when
  the intent was removed, durably in its file, the snapshot of the result is it, and failed recovery has
  lifted the quarantine. If the removal failed, the name is quarantined, and a failed recovery has then
  kept the old queue. No other name is affected.
\<close>

theorem Transact_durable:
  assumes run: "Transact C env req s fs = (res, s', fs')" and name: "name = NormaliseQueueName (sn_Name (tr_Snapshot req))"
    and plain: "tr_ArchiveHandoff req = None" "tr_CompletionReceiptBinding req = None"
    and free: "receiptFree (tr_FailedRecoveryReceiptBinding req) fs" and d: "durableQueue C name (queueAt s name) fs"
  shows "(qs_quarantined s' name = None \<longrightarrow> durableQueue C name (queueAt s' name) fs')
    \<and> (res_Outcome res \<noteq> OutcomeRejected \<longrightarrow> sn_Generation (tr_Snapshot req) = qs_generations s name
        \<and> sameQueue C (queueAt s name) (sn_Queue (tr_Snapshot req))
        \<and> (qs_quarantined s name = None \<or> tr_OperationKind req = OperationFailedRecovery))
    \<and> (res_Outcome res = OutcomeRejected \<longrightarrow> s' = s \<and> fs' = fs)
    \<and> (res_Outcome res \<noteq> OutcomeCommittedDurable \<longrightarrow> queueAt s' = queueAt s \<and> qs_generations s' = qs_generations s)
    \<and> (res_Outcome res = OutcomeCommittedDurable \<longrightarrow> (\<exists>f m candidate. tr_Mutate req = Some f
        \<and> f (case queueAt s name of Some q \<Rightarrow> q | None \<Rightarrow> zeroQueue\<lparr>queue_Name := name\<rparr>) = Inr m \<and> candidate = m\<lparr>queue_Name := name\<rparr>
        \<and> (if sameQueue C (queueAt s name) (Some candidate) then s' = s \<and> fs' = fs \<and> res_CleanupErr res = None
           else if res_CleanupErr res = None
           then queueAt s' name = Some candidate \<and> qs_generations s' name = qs_generations s name + 1
             \<and> (tr_OperationKind req = OperationFailedRecovery \<longrightarrow> qs_quarantined s' name = None)
           else qs_quarantined s' name = res_CleanupErr res
             \<and> (if tr_OperationKind req = OperationFailedRecovery then queueAt s' = queueAt s \<and> qs_generations s' = qs_generations s
                else queueAt s' name = Some candidate \<and> qs_generations s' name = qs_generations s name + 1))))
    \<and> (res_Outcome res = OutcomeCommittedDurable \<and> res_CleanupErr res = None \<longrightarrow>
         durableQueue C name (queueAt s' name) fs'
         \<and> res_Snapshot res = Some \<lparr>sn_Name = name, sn_Queue = queueAt s' name, sn_Generation = qs_generations s' name\<rparr>)
    \<and> (\<forall>n. n \<noteq> name \<longrightarrow> queueAt s' n = queueAt s n \<and> qs_generations s' n = qs_generations s n \<and> qs_quarantined s' n = qs_quarantined s n)"
  using run name
proof (cases rule: Transact_cases)
  case stopped
  have ok: "tr_Mutate req \<noteq> None \<and> sn_Generation (tr_Snapshot req) = qs_generations s name \<and> sameQueue C (queueAt s name) (sn_Queue (tr_Snapshot req))
      \<and> (qs_quarantined s name = None \<or> tr_OperationKind req = OperationFailedRecovery)" if "res_Outcome res \<noteq> OutcomeRejected"
    using transactRefusal_None [OF stopped(3) [OF that] name] by blast
  show ?thesis
  proof (cases "res_Outcome res = OutcomeCommittedDurable")
    case False
    then show ?thesis using stopped(1,2) ok d by auto
  next
    case True
    then obtain f m where "tr_Mutate req = Some f" "f (workingCopy s name) = Inr m" "sameQueue C (queueAt s name) (Some (m\<lparr>queue_Name := name\<rparr>))"
      "res_CleanupErr res = None" "res_Snapshot res = Some \<lparr>sn_Name = name, sn_Queue = queueAt s name, sn_Generation = qs_generations s name\<rparr>"
      using stopped(4) ok by auto
    then show ?thesis using stopped(1,2) ok d True by (auto simp: workingCopy_def)
  qed
next
  case (wrote m candidate priorBytes candidateBytes commit fs1)
  have norm: "NormaliseQueueName name = name" using name by (simp add: NormaliseQueueName_def QueueNameMain_def)
  have d0: "within (area (holdsQueue name priorBytes) (\<lambda>_. UNIV)) fs" using d wrote(2) by (auto simp: durableQueue_def)
  note tw = Transact_write [OF wrote(7) norm plain free d0]
  note ok = transactRefusal_None [OF wrote(1) name]
  note new = different_queue [OF wrote(2,3,6)]
  show ?thesis
  proof (cases "Committed commit")
    case False
    then show ?thesis using wrote(8) tw(1) d writeReplacement_shape(1) [OF wrote(7)] ok by (auto simp: Committed_def)
  next
    case True
    obtain i where i: "rc_Intent commit = Some i" "ri_ArchiveHandoffBinding i = None"
      and clean: "\<And>fs2. cleanupReplaceIntent name fs1 = (None, fs2) \<Longrightarrow> durableQueue C name (Some candidate) fs2"
      using tw(2) [OF True] wrote(3) by (auto simp: durableQueue_def marshalOptional_def)
    obtain e fs2 where c: "cleanupReplaceIntent name fs1 = (e, fs2)" by fastforce
    obtain f where f: "tr_Mutate req = Some f" "f (case queueAt s name of Some q \<Rightarrow> q | None \<Rightarrow> zeroQueue\<lparr>queue_Name := name\<rparr>) = Inr m"
      using ok(1) wrote(4) by (auto simp: workingCopy_def)
    have inst: "installCommitted req name candidate commit s fs1 = (res, s', fs')" by (rule wrote(9) [OF True])
    note committed = installCommitted_spec [OF inst True i c]
    have out: "res_Outcome res = OutcomeCommittedDurable" using committed(1) .
    have cand: "\<exists>f' m' candidate'. tr_Mutate req = Some f'
        \<and> f' (case queueAt s name of Some q \<Rightarrow> q | None \<Rightarrow> zeroQueue\<lparr>queue_Name := name\<rparr>) = Inr m' \<and> candidate' = m'\<lparr>queue_Name := name\<rparr>
        \<and> P candidate'" if "P candidate" for P
      using f wrote(5) that by blast
    show ?thesis
    proof (cases e)
      case None
      then show ?thesis using committed clean c ok out by (intro conjI impI cand) (simp_all add: new)
    next
      case (Some x)
      then show ?thesis using committed ok out by (intro conjI impI cand) (simp_all add: new)
    qed
  qed
qed

lemma wit_mutate: "tr_Mutate wit_request = Some (\<lambda>q. Inr (q\<lparr>queue_Workers := 1\<rparr>))" "queueAt wit_store ''q'' = Some wit_codec_queue"
  "qs_generations wit_store ''q'' = 1" "tr_OperationKind wit_request = OperationSubmit"
  by (simp_all add: wit_request_def wit_store_def)

lemma wit_store_clean: "qs_quarantined wit_store name = None"
  by (simp add: wit_store_def)

lemma wit_new: "\<not> sameQueue wit_codec (Some wit_codec_queue) (Some (wit_codec_queue\<lparr>queue_Workers := 1\<rparr>))"
  "wit_codec_queue\<lparr>queue_Workers := 1, queue_Name := ''q''\<rparr> = wit_codec_queue\<lparr>queue_Workers := 1\<rparr>"
  by (simp_all add: sameQueue_def marshalOptional_def sliceOf_def wit_codec_def wit_codec_queue_def zeroQueue_def)

lemma wit_transact_commits:
  "res_Outcome (fst (wit_transact (\<lambda>k. Works))) = OutcomeCommittedDurable \<and> res_CleanupErr (fst (wit_transact (\<lambda>k. Works))) = None"
proof -
  let ?m = "wit_codec_queue\<lparr>queue_Workers := 1\<rparr>"
  have r: "Transact wit_codec wit_env wit_request wit_store (wit_boot f wit_disk) =
      (fst (wit_transact f), fst (snd (wit_transact f)), snd (snd (wit_transact f)))" for f
    by (simp add: wit_transact_def)
  have snap: "tr_Snapshot wit_request = \<lparr>sn_Name = ''q'', sn_Queue = Some wit_codec_queue, sn_Generation = 1\<rparr>"
    by (simp add: wit_request_def Snapshot_def wit_store_def NormaliseQueueName_def)
  have json: "marshalOptional wit_codec (Some wit_codec_queue) = Inr (Some ''O'')" "cd_queueJSON wit_codec ?m = Inr ''N''"
    by (simp_all add: marshalOptional_def wit_codec_def wit_codec_queue_def zeroQueue_def)
  have refusal: "transactRefusal wit_codec wit_request wit_store = None"
    unfolding transactRefusal_def snap using json(1)
    by (simp add: NormaliseQueueName_def sameQueue_def wit_mutate wit_store_clean CloneQueue_id) (simp add: wit_request_def)
  have plan: "planOf wit_request ''q'' (?m\<lparr>queue_Name := ''q''\<rparr>) (Some ''O'') ''N'' = wit_replacement"
    by (simp add: planOf_def wit_request_def wit_replacement_def wit_codec_queue_def)
  have p: "prepareReplacement wit_codec (we_newTx wit_env) (we_newSuccessor wit_env) (planOf wit_request ''q'' (?m\<lparr>queue_Name := ''q''\<rparr>) (Some ''O'') ''N'') = Inr (wit_intent, ''I'')"
    unfolding plan using wit_prepared by (simp add: wit_env_def)
  show ?thesis
    by (rule Transact_calm [OF r wit_request_name refusal _ _ _ _ p])
      (use json wit_durable in \<open>simp_all add: wit_mutate wit_new workingCopy_def sliceOf_def wit_env_def wit_request_def calm_def wit_boot_def wit_disk_def wit_intent_def replaceIntentPath_def replaceIntentSuffix_def\<close>)
qed

theorem Transact_durable_witness:
  "queueAt (fst (snd (wit_transact (\<lambda>k. Works)))) ''q'' = Some (wit_codec_queue\<lparr>queue_Workers := 1\<rparr>)
   \<and> qs_generations (fst (snd (wit_transact (\<lambda>k. Works)))) ''q'' = 2
   \<and> durableQueue wit_codec ''q'' (Some (wit_codec_queue\<lparr>queue_Workers := 1\<rparr>)) (snd (snd (wit_transact (\<lambda>k. Works))))
   \<and> queueAt (fst (snd (wit_transact (\<lambda>k. if k = 5 then FailsAfter else Works)))) ''other'' = None"
proof -
  have r: "Transact wit_codec wit_env wit_request wit_store (wit_boot f wit_disk) =
      (fst (wit_transact f), fst (snd (wit_transact f)), snd (snd (wit_transact f)))" for f
    by (simp add: wit_transact_def)
  have free: "receiptFree (tr_FailedRecoveryReceiptBinding wit_request) fs" for fs
    by (simp add: receiptFree_def wit_request_def)
  have plain: "tr_ArchiveHandoff wit_request = None" "tr_CompletionReceiptBinding wit_request = None"
    by (simp_all add: wit_request_def)
  note T = Transact_durable [OF r wit_request_name plain free wit_durable]
  have other: "queueAt (fst (snd (wit_transact (\<lambda>k. if k = 5 then FailsAfter else Works)))) ''other'' = None"
    using T [of "\<lambda>k. if k = 5 then FailsAfter else Works"] by (simp add: wit_store_def)
  have fine: "res_Outcome (fst (wit_transact (\<lambda>k. Works))) = OutcomeCommittedDurable \<and> res_CleanupErr (fst (wit_transact (\<lambda>k. Works))) = None"
    by (rule wit_transact_commits)
  show ?thesis using T [of "\<lambda>k. Works"] fine other by (auto simp: wit_mutate wit_new)
qed

text \<open>
  C17. Quarantine holds a name. While a name is quarantined and its queue is not paused by failure,
  whatever other callers do through the store its queue, generation and reason stay; so during the
  observation of a completion, whose second half finds exactly the candidate it installed, under the
  generation it installed. The one operation that passes a quarantine is the failed recovery of a queue
  paused by failure: it keeps the queue under a fresh quarantine, or replaces it, under the next
  generation, with the recovered queue and lifts the quarantine.
\<close>

theorem quarantine_holds_name:
  assumes ops: "(store_op name)\<^sup>*\<^sup>* x y"
  shows "(qs_quarantined (fst x) name \<noteq> None \<and> (\<forall>q. queueAt (fst x) name = Some q \<longrightarrow> queue_Status q \<noteq> QueueStatusPausedByFailure)
         \<longrightarrow> slot name (fst y) = slot name (fst x))
    \<and> (completeBegin C opText decText env req s fs = (Inr (p, result, g), x) \<and> name = NormaliseQueueName (sn_Name (cq_Snapshot req))
         \<longrightarrow> slot name (fst y) = (Some (cp_Candidate p), g, Some errCompletionObservationInProgress))
    \<and> (store_op name y z \<and> qs_quarantined (fst y) name \<noteq> None \<longrightarrow> slot name (fst z) = slot name (fst y)
         \<or> (\<exists>q. queueAt (fst y) name = Some q \<and> queue_Status q = QueueStatusPausedByFailure
             \<and> (queueAt (fst z) name = Some q \<and> qs_generations (fst z) name = qs_generations (fst y) name \<and> qs_quarantined (fst z) name \<noteq> None
                \<or> recoveredSlot q name (fst z) \<and> qs_generations (fst z) name = qs_generations (fst y) name + 1)))"
proof (intro conjI impI)
  show "slot name (fst y) = slot name (fst x)"
    if "qs_quarantined (fst x) name \<noteq> None \<and> (\<forall>q. queueAt (fst x) name = Some q \<longrightarrow> queue_Status q \<noteq> QueueStatusPausedByFailure)"
    using store_ops_quarantined [OF ops] that by blast
  show "slot name (fst y) = (Some (cp_Candidate p), g, Some errCompletionObservationInProgress)"
    if "completeBegin C opText decText env req s fs = (Inr (p, result, g), x) \<and> name = NormaliseQueueName (sn_Name (cq_Snapshot req))"
    by (rule held_through [OF conjunct1 [OF that] conjunct2 [OF that] ops])
qed (use store_op_quarantined [of name y z] in \<open>simp add: recoveryMoved_def\<close>)

theorem quarantine_holds_name_witness:
  "slot ''q'' (fst (SetQueueByName ''q'' None (quarantine ''q'' (Some ''disk full'') wit_store), wit_boot (\<lambda>k. Works) wit_disk))
     = (Some wit_codec_queue, 1, Some ''disk full'')"
proof -
  have s: "(store_op n)\<^sup>*\<^sup>* (s, fs) (SetQueueByName name q s, fs)" for n s fs name q by (rule r_into_rtranclp) (rule store_op.set_by_name)
  have "slot ''q'' (quarantine ''q'' (Some ''disk full'') wit_store) = (Some wit_codec_queue, 1, Some ''disk full'')"
    by (simp add: slot_def wit_store_def)
  then show ?thesis using conjunct1 [OF quarantine_holds_name [OF s [of "''q''" "quarantine ''q'' (Some ''disk full'') wit_store"]]]
    by (simp add: wit_store_def wit_codec_queue_def zeroQueue_def)
qed

text \<open>
  C12. A completion gives a name up only when everything before is done. Its result has a phase of the
  release marker exactly when the queue left memory and the quarantine was lifted; then the write
  committed, both cleanups succeeded, and neither the queue file nor the intent is left on disk, durably.
  When it releases the lock for the observation, having started from the durable queue with the name of
  its receipt free, the completed queue is durably in the queue file and the receipt in its own. A
  rejected request changed neither memory nor disk; and in every other case the name stays owned,
  quarantined, with the old queue or the completed one.
\<close>

theorem complete_ownership:
  assumes run: "complete_store C opText decText env sfx req window s fs = (res, s', fs')"
    and name: "name = NormaliseQueueName (sn_Name (cq_Snapshot req))" and others: "\<And>x. (store_op name)\<^sup>*\<^sup>* x (window x)"
  shows "(cres_Phase res \<in> {CompletionPhaseMarkerDurable, CompletionPhaseMarkerFailed} \<longrightarrow>
        queueAt s' name = None \<and> qs_quarantined s' name = None \<and> cres_Outcome res = OutcomeCommittedDurable \<and> cres_CleanupErr res = None
        \<and> within (area {n. n (queuePath name) = None \<and> n (replaceIntentPath name) = None} (\<lambda>_. UNIV)) fs')
    \<and> (completeBegin C opText decText env req s fs = (Inr (p, result, g), s1, fs1) \<and> queueAt s name = Some q
        \<and> durableQueue C name (Some q) fs \<and> completionFree (Some (cp_Binding p)) fs \<longrightarrow> writtenDurably C name p fs1)
    \<and> (cres_Outcome res = OutcomeRejected \<longrightarrow> s' = s \<and> fs' = fs)
    \<and> (cres_Outcome res \<noteq> OutcomeRejected \<and> cres_Phase res \<notin> {CompletionPhaseMarkerDurable, CompletionPhaseMarkerFailed} \<longrightarrow>
        qs_quarantined s' name \<noteq> None
        \<and> (queueAt s' name = queueAt s name \<or> (\<exists>p. PrepareCompletion C opText (the (cq_Candidate req)) (cq_TransactionID req)
              (cq_ReceiptID req) (cq_CompletedAt req) = Inr p \<and> queueAt s' name = Some (cp_Candidate p))))"
proof -
  note written = completeBegin_written [OF _ name, of C opText decText env s fs p result g s1 fs1 q]
  obtain r t1 gs1 where b: "completeBegin C opText decText env req s fs = (r, t1, gs1)" by (metis surj_pair)
  show ?thesis
  proof (cases r)
    case (Inl result)
    then have "result = res" "t1 = s'" "gs1 = fs'" using run b by (simp_all add: complete_store_def)
    then show ?thesis using completeBegin_stopped [OF b [unfolded Inl] name] written by auto
  next
    case (Inr x)
    obtain p' result' g' where x: "x = (p', result', g')" by (metis surj_pair)
    obtain s2 fs2 where w: "window (t1, gs1) = (s2, fs2)" by fastforce
    have fin: "completeEnd C sfx req p' result' g' s2 fs2 = (res, s', fs')" using run b Inr x w by (simp add: complete_store_def)
    note h = completeBegin_held [OF b [unfolded Inr x] name]
    have "queueAt s2 name = Some (cp_Candidate p')"
      using held_through [OF b [unfolded Inr x] name others] w by (simp add: slot_def)
    moreover have "cres_Phase res \<in> {CompletionPhaseMarkerDurable, CompletionPhaseMarkerFailed} \<longrightarrow>
        within (area {n. n (queuePath name) = None \<and> n (replaceIntentPath name) = None} (\<lambda>_. UNIV)) fs'"
      using completeEnd_released [OF fin name h(5)] by (simp add: durablyGone_def)
    moreover have "(cres_Phase res \<in> {CompletionPhaseMarkerDurable, CompletionPhaseMarkerFailed} \<longrightarrow>
        queueAt s' name = None \<and> qs_quarantined s' name = None \<and> cres_Outcome res = OutcomeCommittedDurable \<and> cres_CleanupErr res = None)
      \<and> cres_Outcome res = OutcomeCommittedDurable
      \<and> (cres_Phase res \<notin> {CompletionPhaseMarkerDurable, CompletionPhaseMarkerFailed} \<longrightarrow> qs_quarantined s' name \<noteq> None \<and> queueAt s' name = queueAt s2 name)"
      using fin h(3-5) by (auto simp: completeEnd_def Let_def name [symmetric] split: if_splits option.splits sum.splits prod.splits)
    ultimately show ?thesis using h(2,3) written by auto
  qed
qed

theorem complete_ownership_witness:
  "queueAt (fst (snd (wit_complete (\<lambda>k. Works)))) ''q'' = None \<and> qs_quarantined (fst (snd (wit_complete (\<lambda>k. Works)))) ''q'' = None
   \<and> cres_Outcome (fst (wit_complete (\<lambda>k. Works))) = OutcomeCommittedDurable
   \<and> within (area {n. n (queuePath ''q'') = None \<and> n (replaceIntentPath ''q'') = None} (\<lambda>_. UNIV)) (snd (snd (wit_complete (\<lambda>k. Works))))"
proof -
  have r: "complete_store wit_done_codec (\<lambda>_. []) (\<lambda>_. []) wit_env ''m'' wit_completion
      (\<lambda>(s, fs). (SetQueueByName ''q'' (Some zeroQueue) s, fs)) wit_running_store (wit_boot (\<lambda>k. Works) wit_disk) =
      (fst (wit_complete (\<lambda>k. Works)), fst (snd (wit_complete (\<lambda>k. Works))), snd (snd (wit_complete (\<lambda>k. Works))))"
    by (simp add: wit_complete_def)
  have n: "''q'' = NormaliseQueueName (sn_Name (cq_Snapshot wit_completion))"
    by (simp add: wit_completion_snapshot NormaliseQueueName_def)
  have ops: "(store_op ''q'')\<^sup>*\<^sup>* x ((\<lambda>(s, fs). (SetQueueByName ''q'' (Some zeroQueue) s, fs)) x)" for x
    by (cases x) (auto intro: store_op.set_by_name)
  show ?thesis using complete_ownership [OF r n ops, THEN conjunct1, THEN mp, OF wit_completes] by blast
qed



text \<open>
  A refusal that is not a stale snapshot is reported as one: repeating the recovery of a recovered
  queue whose receipt cannot be read fails with the retryable reason, and nothing has moved.
\<close>

theorem unreadable_receipt_reported_stale:
  assumes "queueAt s (NormaliseQueueName name0) = Some q" and "alreadyRecovered q"
    and "ReadFailedRecoveryReceipt C q fs = (Inl x, fs1)"
  shows "\<exists>e. RecoverFailed C env newReceipt newTx now beads name0 s fs = (Inl e, s, fs1) \<and> re_Reason e = RecoveryReasonStaleSnapshot"
proof -
  have norm: "NormaliseQueueName (NormaliseQueueName name0) = NormaliseQueueName name0"
    by (simp add: NormaliseQueueName_def QueueNameMain_def)
  show ?thesis using assms
    by (simp add: RecoverFailed_def commitFailedRecovery_def Let_def Snapshot_def norm alreadyRecovered_def
        recoveryTransactionError_def rejectedTransaction_def recoveryError_def)
qed

end
