(* ===== verification/Queue_Persistence.thy ===== *)
theory Queue_Persistence
  imports Completion_Records Queue_Completion Replace_Write
begin

text \<open>
  The queue files outside the replacement protocol, \<^verbatim>\<open>internal/queue/persistence.go\<close> and
  \<^verbatim>\<open>failedarchivelayout.go\<close>: the atomic write, the load, the unlink after completion, the archive of
  a failed queue and its layout, the listing of the queue names and the migration of the legacy
  single-queue file. They run on the faulty file system; the legacy file lives in \<open>HarmonikDir\<close>, the
  archives beside the queues. A listing of the queues directory is an argument, and its entries are
  regular files. A temporary suffix and the text of a timestamp are arguments too.
\<close>

section \<open>Writing\<close>

text \<open>\<^verbatim>\<open>fsyncDir\<close>, also the tail of each operation below: here a failed close is an error.\<close>

definition fsyncDir :: "dirId \<Rightarrow> FS \<Rightarrow> string option \<times> FS" where
  "fsyncDir d fs = (case op_openDir fs of
       (Some e, fs1) \<Rightarrow> (Some (FsErr_text e), fs1)
     | (None, fs1) \<Rightarrow> (case op_syncDirHandle d fs1 of
           (Some e, fs2) \<Rightarrow> (let (c, fs3) = op_close fs2 in (joinErrs [Some (FsErr_text e), toErr c], fs3))
         | (None, fs2) \<Rightarrow> (let (c, fs3) = op_close fs2 in (toErr c, fs3))))"

definition writeTempAndClose :: "dirId \<Rightarrow> string \<Rightarrow> bytes \<Rightarrow> FS \<Rightarrow> string option \<times> FS" where
  "writeTempAndClose d p data fs = (case op_write d p data fs of
       (Some e, fs1) \<Rightarrow> (let (c, fs2) = op_close fs1 in (joinErrs [Some (FsErr_text e), toErr c], fs2))
     | (None, fs1) \<Rightarrow> (case op_syncFile d p fs1 of
           (Some e, fs2) \<Rightarrow> (let (c, fs3) = op_close fs2 in (joinErrs [Some (FsErr_text e), toErr c], fs3))
         | (None, fs2) \<Rightarrow> (let (c, fs3) = op_close fs2 in (toErr c, fs3))))"

datatype PersistError = PersistInvalid "nat \<times> nat \<times> PreclaimError" | ErrTooLarge | ErrPersistFailed string

definition Persist :: "Codec \<Rightarrow> string \<Rightarrow> Queue \<Rightarrow> FS \<Rightarrow> PersistError option \<times> FS" where
  "Persist C sfx q fs = (case validatePreclaimGroups (validateUUIDv7 C) 0 (queue_Groups q) of
       Some x \<Rightarrow> (Some (PersistInvalid x), fs)
     | None \<Rightarrow> (case cd_queueJSON C q of
         Inl e \<Rightarrow> (Some (ErrPersistFailed (wrapErr ''marshal'' e)), fs)
       | Inr data \<Rightarrow>
           if maxQueueFileBytes < length data then (Some ErrTooLarge, fs)
           else (let target = queuePath (NormaliseQueueName (queue_Name q)); tmp = target @ ''.tmp-'' @ sfx;
                     failed = (\<lambda>what e. Some (ErrPersistFailed (wrapErr what e))) in
             case op_mkdirAll fs of
               (Some e, fs1) \<Rightarrow> (failed ''mkdir queues'' (FsErr_text e), fs1)
             | (None, fs1) \<Rightarrow> (case op_create QueuesDir tmp fs1 of
                 (Some e, fs2) \<Rightarrow> (failed ''create temp'' (FsErr_text e), fs2)
               | (None, fs2) \<Rightarrow> (case writeTempAndClose QueuesDir tmp data fs2 of
                   (Some e, fs3) \<Rightarrow> (let (r, fs4) = op_remove QueuesDir tmp fs3 in
                      (failed ''write temp'' (orText (joinErrs [Some e, toErr r])), fs4))
                 | (None, fs3) \<Rightarrow> (case op_rename QueuesDir tmp target fs3 of
                     (Some e, fs4) \<Rightarrow> (let (r, fs5) = op_remove QueuesDir tmp fs4 in
                        (failed ''rename'' (orText (joinErrs [Some (FsErr_text e), toErr r])), fs5))
                   | (None, fs4) \<Rightarrow> (case fsyncDir QueuesDir fs4 of
                       (Some e, fs5) \<Rightarrow> (failed ''fsync parent dir'' e, fs5)
                     | (None, fs5) \<Rightarrow> (None, fs5))))))))"

section \<open>Reading\<close>

datatype LoadError = LoadRead string | ErrCorrupt string

definition Load :: "Codec \<Rightarrow> string \<Rightarrow> FS \<Rightarrow> (LoadError + Queue option) \<times> FS" where
  "Load C name fs = (case op_readFile QueuesDir (queuePath name) fs of
       (Inl ErrNotExist, fs1) \<Rightarrow> (Inr None, fs1)
     | (Inl e, fs1) \<Rightarrow> (Inl (LoadRead (FsErr_text e)), fs1)
     | (Inr data, fs1) \<Rightarrow> (case UnmarshalText C (validateUUIDv7 C) data of
           Inl e \<Rightarrow> (Inl (ErrCorrupt e), fs1)
         | Inr q \<Rightarrow> (Inr (Some q), fs1)))"

section \<open>Removing and archiving\<close>

text \<open>The queues directory exists, so opening it never finds it absent.\<close>

definition Unlink :: "string \<Rightarrow> FS \<Rightarrow> string option \<times> FS" where
  "Unlink name fs = (let (r, fs1) = op_remove QueuesDir (queuePath name) fs in
     case r of
       Some e \<Rightarrow> if e = ErrNotExist
         then (case fsyncDir QueuesDir fs1 of (x, fs2) \<Rightarrow> (map_option (wrapErr ''queue: Unlink'') x, fs2))
         else (Some (wrapErr ''queue: Unlink: remove'' (FsErr_text e)), fs1)
     | None \<Rightarrow> (case fsyncDir QueuesDir fs1 of (x, fs2) \<Rightarrow> (map_option (wrapErr ''queue: Unlink'') x, fs2)))"

definition FailedArchiveInfix :: string where "FailedArchiveInfix = ''.failed-''"

text \<open>\<open>ts\<close> is the time in the layout \<^verbatim>\<open>20060102150405\<close>. The result is the archive path and the error.\<close>

definition ArchiveFailedQueue :: "string \<Rightarrow> string \<Rightarrow> FS \<Rightarrow> (string \<times> string option) \<times> FS" where
  "ArchiveFailedQueue name ts fs = (let src = queuePath name; dst = src @ FailedArchiveInfix @ ts in
     case op_rename QueuesDir src dst fs of
       (Some ErrNotExist, fs1) \<Rightarrow> (([], None), fs1)
     | (Some e, fs1) \<Rightarrow> (([], Some (wrapErr ''queue: ArchiveFailedQueue: rename'' (FsErr_text e))), fs1)
     | (None, fs1) \<Rightarrow> (case fsyncDir QueuesDir fs1 of
           (x, fs2) \<Rightarrow> ((dst, map_option (wrapErr ''queue: ArchiveFailedQueue'') x), fs2)))"

text \<open>\<^verbatim>\<open>strings.Index\<close>\<close>

fun indexOf :: "string \<Rightarrow> string \<Rightarrow> nat option" where
  "indexOf [] p = (if p = [] then Some 0 else None)"
| "indexOf (c # s) p = (if hasPrefix (c # s) p then Some 0 else map_option Suc (indexOf s p))"

definition FailedArchiveQueueName :: "string \<Rightarrow> string" where
  "FailedArchiveQueueName path = (let base = filepath_Base path in
     case indexOf base (''.json'' @ FailedArchiveInfix) of
       None \<Rightarrow> [] | Some idx \<Rightarrow> if idx = 0 then [] else take idx base)"

text \<open>The names the pattern \<^verbatim>\<open>*.json.failed-*\<close> matches.\<close>

definition ListFailedArchives :: "string list \<Rightarrow> string list" where
  "ListFailedArchives entries = filter (\<lambda>name. containsStr name (''.json'' @ FailedArchiveInfix)) entries"

section \<open>Listing\<close>

definition isQueueFileName :: "string \<Rightarrow> bool" where
  "isQueueFileName name \<longleftrightarrow> hasSuffix name ''.json'' \<and> \<not> containsStr name ''.tmp-'' \<and> \<not> containsStr name ''.failed-''
     \<and> \<not> containsStr name ''.cancelled-''"

text \<open>An absent directory lists nothing.\<close>

definition EnumerateQueueNames :: "(FS \<Rightarrow> string + string list) \<Rightarrow> FS \<Rightarrow> string + string list" where
  "EnumerateQueueNames ls fs = (case ls fs of
       Inl e \<Rightarrow> Inl (wrapErr ''queue: EnumerateQueueNames: readdir'' e)
     | Inr entries \<Rightarrow> Inr (map (\<lambda>name. filepath_Base (trimSuffix name ''.json'')) (filter isQueueFileName entries)))"

section \<open>Completion\<close>

text \<open>\<open>completeAndUnlinkResult\<close> is in \<open>Queue_Completion\<close>; these are its two effects.\<close>

definition CompleteAndUnlinkResult :: "Codec \<Rightarrow> string \<Rightarrow> (PersistError \<Rightarrow> string) \<Rightarrow> Queue option \<Rightarrow> FS \<Rightarrow> FS \<times> Queue option \<times> TerminalResult" where
  "CompleteAndUnlinkResult C sfx text q fs = completeAndUnlinkResult
     (\<lambda>fs q. case Persist C sfx q fs of (e, fs1) \<Rightarrow> (fs1, map_option text e))
     (\<lambda>fs name. case Unlink name fs of (e, fs1) \<Rightarrow> (fs1, e)) fs q"

section \<open>Migration\<close>

definition legacyQueuePath :: string where "legacyQueuePath = ''queue.json''"

text \<open>The temporary file of the migration, from its creation to the rename over the main queue.\<close>

definition migrateInstall :: "string \<Rightarrow> bytes \<Rightarrow> FS \<Rightarrow> string option \<times> FS" where
  "migrateInstall sfx data fs =
     (let target = queuePath QueueNameMain; tmp = target @ ''.tmp-migrate-'' @ sfx;
          fail = (\<lambda>what e. Some (wrapErr what (orText e)));
          closeRemove = (\<lambda>e fs. let (c, fs1) = op_close fs; (r, fs2) = op_remove QueuesDir tmp fs1 in (joinErrs [Some e, toErr c, toErr r], fs2)) in
      case op_mkdirAll fs of
        (Some e, fs1) \<Rightarrow> (fail ''mkdir queues'' (toErr (Some e)), fs1)
      | (None, fs1) \<Rightarrow> (case op_create QueuesDir tmp fs1 of
          (Some e, fs2) \<Rightarrow> (fail ''create temp'' (toErr (Some e)), fs2)
        | (None, fs2) \<Rightarrow> (case op_write QueuesDir tmp data fs2 of
            (Some e, fs3) \<Rightarrow> (case closeRemove (FsErr_text e) fs3 of (m, fs4) \<Rightarrow> (fail ''write temp'' m, fs4))
          | (None, fs3) \<Rightarrow> (case op_syncFile QueuesDir tmp fs3 of
              (Some e, fs4) \<Rightarrow> (case closeRemove (FsErr_text e) fs4 of (m, fs5) \<Rightarrow> (fail ''sync temp'' m, fs5))
            | (None, fs4) \<Rightarrow> (case op_close fs4 of
                (Some e, fs5) \<Rightarrow> (let (r, fs6) = op_remove QueuesDir tmp fs5 in
                   (fail ''close temp'' (joinErrs [toErr (Some e), toErr r]), fs6))
              | (None, fs5) \<Rightarrow> (case op_rename QueuesDir tmp target fs5 of
                  (Some e, fs6) \<Rightarrow> (let (r, fs7) = op_remove QueuesDir tmp fs6 in
                     (fail ''rename temp to main'' (joinErrs [toErr (Some e), toErr r]), fs7))
                | (None, fs6) \<Rightarrow> (None, fs6)))))))"

text \<open>The tail: the queues directory is synced before the legacy file goes.\<close>

definition migrateRetire :: "FS \<Rightarrow> string option \<times> FS" where
  "migrateRetire fs = (case fsyncDir QueuesDir fs of
       (Some e, fs1) \<Rightarrow> (Some (wrapErr ''sync queues dir'' e), fs1)
     | (None, fs1) \<Rightarrow> (case op_remove HarmonikDir legacyQueuePath fs1 of
         (r, fs2) \<Rightarrow> if r \<noteq> None \<and> r \<noteq> Some ErrNotExist then (Some (wrapErr ''remove legacy file'' (orText (toErr r))), fs2)
           else (case fsyncDir HarmonikDir fs2 of (x, fs3) \<Rightarrow> (map_option (wrapErr ''sync .harmonik dir'') x, fs3))))"

text \<open>\<open>deepEqual\<close> is \<^verbatim>\<open>reflect.DeepEqual\<close>, which also tells a nil slice from an empty one.\<close>

definition migrateFromLegacy :: "Codec \<Rightarrow> (Queue \<Rightarrow> Queue \<Rightarrow> bool) \<Rightarrow> string \<Rightarrow> FS \<Rightarrow> string option \<times> FS" where
  "migrateFromLegacy C deepEqual sfx fs =
     (let read = UnmarshalText C (validateUUIDv7 C) in
      case op_readFile HarmonikDir legacyQueuePath fs of
        (Inl ErrNotExist, fs1) \<Rightarrow> (case fsyncDir HarmonikDir fs1 of
           (x, fs2) \<Rightarrow> (map_option (wrapErr ''sync .harmonik after absent legacy'') x, fs2))
      | (Inl e, fs1) \<Rightarrow> (Some (wrapErr ''read legacy file'' (FsErr_text e)), fs1)
      | (Inr data, fs1) \<Rightarrow> (case read data of
          Inl e \<Rightarrow> (Some (wrapErr ''legacy queue is corrupt'' e), fs1)
        | Inr legacy \<Rightarrow> (case op_lstatFile QueuesDir (queuePath QueueNameMain) fs1 of
            (None, fs2) \<Rightarrow> (case op_readFile QueuesDir (queuePath QueueNameMain) fs2 of
                (Inl e, fs3) \<Rightarrow> (Some (wrapErr ''read existing main queue'' (FsErr_text e)), fs3)
              | (Inr target, fs3) \<Rightarrow> (case read target of
                  Inl e \<Rightarrow> (Some (wrapErr ''existing main queue is corrupt'' e), fs3)
                | Inr canonical \<Rightarrow>
                    if \<not> deepEqual legacy canonical then (Some ''legacy and existing main queue conflict'', fs3)
                    else migrateRetire fs3))
          | (Some e, fs2) \<Rightarrow>
              if e = ErrNotExist then (case migrateInstall sfx data fs2 of
                  (Some m, fs3) \<Rightarrow> (Some m, fs3) | (None, fs3) \<Rightarrow> migrateRetire fs3)
              else (Some (wrapErr ''stat main queue'' (FsErr_text e)), fs2))))"


section \<open>The temporary file and the rename\<close>

lemma fsyncDir_spec:
  assumes "within A fs" and r: "fsyncDir d fs = (e, fs')"
  shows "stays A fs fs' \<and> frame d P fs fs' \<and> fs_dir fs' = fs_dir fs \<and> (calm fs \<longrightarrow> e = None \<and> calm fs')
     \<and> (e = None \<longrightarrow> fs_pend fs' = (fs_pend fs)(d := [fs_dir fs d]))"
proof -
  obtain e1 fs1 where 1: "op_openDir fs = (e1, fs1)" by fastforce
  note q1 = op_quiet(1) [OF assms(1) 1 [unfolded op_openDir_def], of d P]
  have w1: "within A fs1" using q1 by (blast intro: stays_within)
  obtain e2 fs2 where 2: "op_syncDirHandle d fs1 = (e2, fs2)" by fastforce
  note s2 = op_syncDirHandle_spec [OF w1 2]
  have w2: "within A fs2" using s2 by (blast intro: stays_within)
  obtain e3 fs3 where 3: "op_close fs2 = (e3, fs3)" by fastforce
  note q3 = op_quiet(1) [OF w2 3, of d P]
  have c: "e = None \<and> calm fs'" if "calm fs"
    using r 1 2 3 calm_ops(2) [OF that 1 [unfolded op_openDir_def]] calm_ops(10) [OF _ 2] calm_ops(2) [OF _ 3]
    by (auto simp: fsyncDir_def toErr_def)
  show ?thesis
  proof (cases e1)
    case (Some x)
    then show ?thesis using r 1 q1 c by (auto simp: fsyncDir_def)
  next
    case None
    have "fs' = fs3" "e = None \<longrightarrow> e2 = None"
      using r 1 2 3 None by (auto simp: fsyncDir_def split: option.splits prod.splits)
    moreover have "stays A fs fs3" using q1 s2 q3 by (blast intro: stays_trans)
    moreover have "fs_dir fs3 = fs_dir fs" "frame d P fs fs3" "e2 = None \<longrightarrow> fs_pend fs3 = (fs_pend fs)(d := [fs_dir fs d])"
      using q1 s2 q3 by (auto simp: frame_def)
    ultimately show ?thesis using c by blast
  qed
qed

text \<open>Both writers install a file this way; they differ in their messages.\<close>

definition installTmp :: "string \<Rightarrow> string \<Rightarrow> bytes \<Rightarrow> FS \<Rightarrow> bool \<times> FS" where
  "installTmp tmp target data fs = (case durableFile QueuesDir tmp data fs of
       (Some e, fs1) \<Rightarrow> (False, fs1)
     | (None, fs1) \<Rightarrow> (case op_rename QueuesDir tmp target fs1 of
         (Some e, fs2) \<Rightarrow> (False, snd (op_remove QueuesDir tmp fs2))
       | (None, fs2) \<Rightarrow> (True, fs2)))"

lemma installTmp_spec:
  assumes w: "within A fs" and c: "closedAt A QueuesDir tmp" and neq: "tmp \<noteq> target"
    and i: "\<And>n. n \<in> A QueuesDir \<Longrightarrow> n(target \<mapsto> File data True) \<in> A QueuesDir"
    and r: "installTmp tmp target data fs = (ok, fs')"
  shows "stays A fs fs' \<and> frame QueuesDir {tmp, target} fs fs' \<and> (ok \<longrightarrow> fs_dir fs' QueuesDir target = Some (File data True))
    \<and> (calm fs \<and> fs_dir fs QueuesDir tmp = None \<longrightarrow> ok \<and> calm fs')"
proof -
  let ?P = "{tmp, target}"
  obtain e1 fs1 where 1: "durableFile QueuesDir tmp data fs = (e1, fs1)" by fastforce
  note s1 = durableFile_spec [OF w c 1] and c1 = durableFile_calm [OF _ _ 1]
  have w1: "within A fs1" using s1 by (blast intro: stays_within)
  have f1: "frame QueuesDir ?P fs fs1" using s1 frame_mono [of QueuesDir "{tmp}" fs fs1 ?P] by blast
  show ?thesis
  proof (cases e1)
    case (Some x)
    then show ?thesis using r 1 s1 f1 c1 by (auto simp: installTmp_def)
  next
    case None
    then have t: "fs_dir fs1 QueuesDir tmp = Some (File data True)" using s1 by blast
    have n1: "fs_dir fs1 QueuesDir \<in> A QueuesDir" using w1 by (simp add: within_def)
    have "renamed tmp target (fs_dir fs1 QueuesDir) = (fs_dir fs1 QueuesDir)(tmp := None, target \<mapsto> File data True)"
      by (simp add: renamed_def t)
    moreover have "\<dots> \<in> A QueuesDir" using i c n1 by (simp add: closedAt_def)
    ultimately have m: "renamed tmp target (fs_dir fs1 QueuesDir) \<in> A QueuesDir"
      and new: "renamed tmp target (fs_dir fs1 QueuesDir) target = Some (File data True)" by simp_all
    obtain e2 fs2 where 2: "op_rename QueuesDir tmp target fs1 = (e2, fs2)" by fastforce
    note s2 = op_rename_spec [OF w1 m 2] and c2 = calm_ops(5) [OF _ 2]
    have w2: "within A fs2" using s2 by (blast intro: stays_within)
    obtain e3 fs3 where 3: "op_remove QueuesDir tmp fs2 = (e3, fs3)" by fastforce
    note s3 = op_named(4) [OF w2 c 3]
    have f3: "frame QueuesDir ?P fs2 fs3" using s3 frame_mono [of QueuesDir "{tmp}" fs2 fs3 ?P] by blast
    have "stays A fs fs2" "frame QueuesDir ?P fs fs2" using s1 s2 f1 by (blast intro: stays_trans frame_trans)+
    moreover have "stays A fs fs3" "frame QueuesDir ?P fs fs3" using calculation s3 f3 by (blast intro: stays_trans frame_trans)+
    moreover have "e2 = None \<and> calm fs2" if "calm fs" "fs_dir fs QueuesDir tmp = None"
      using c1 [OF that] c2 t by simp
    ultimately show ?thesis using r 1 2 3 None s2 new by (auto simp: installTmp_def split: option.splits)
  qed
qed

lemma writeTemp_durable:
  assumes "op_create QueuesDir tmp fs = (None, fs1)" "writeTempAndClose QueuesDir tmp data fs1 = (e, fs2)"
  shows "e = None \<Longrightarrow> durableFile QueuesDir tmp data fs = (None, fs2)"
    and "e = Some x \<Longrightarrow> \<exists>m. durableFile QueuesDir tmp data fs = (Some m, snd (op_remove QueuesDir tmp fs2))"
  using assms by (auto simp: durableFile_def writeTempAndClose_def toErr_def Let_def split: prod.splits option.splits)

lemma Persist_install:
  assumes "Persist C sfx q fs = (e, fs')" "target = queuePath (NormaliseQueueName (queue_Name q))"
  obtains (early) "e \<noteq> None" "fs' = fs" "\<not> (validatePreclaimGroups (validateUUIDv7 C) 0 (queue_Groups q) = None
      \<and> (\<exists>data. cd_queueJSON C q = Inr data \<and> length data \<le> maxQueueFileBytes))"
  | (mkdir) x where "op_mkdirAll fs = (Some x, fs')" "e \<noteq> None"
  | (wrote) data fs1 ok fs2 where "cd_queueJSON C q = Inr data" "length data \<le> maxQueueFileBytes"
      "validatePreclaimGroups (validateUUIDv7 C) 0 (queue_Groups q) = None" "op_mkdirAll fs = (None, fs1)"
      "installTmp (target @ ''.tmp-'' @ sfx) target data fs1 = (ok, fs2)" "\<not> ok \<Longrightarrow> e \<noteq> None \<and> fs' = fs2"
      "ok \<Longrightarrow> \<exists>x. fsyncDir QueuesDir fs2 = (x, fs') \<and> (e = None \<longleftrightarrow> x = None)"
proof (cases "validatePreclaimGroups (validateUUIDv7 C) 0 (queue_Groups q) = None \<and> (\<exists>data. cd_queueJSON C q = Inr data \<and> length data \<le> maxQueueFileBytes)")
  case False
  moreover have "e \<noteq> None \<and> fs' = fs" using False assms(1) by (auto simp: Persist_def split: option.splits sum.splits if_splits)
  ultimately show thesis using early by blast
next
  case True
  then obtain data where d: "cd_queueJSON C q = Inr data" "length data \<le> maxQueueFileBytes"
    and v: "validatePreclaimGroups (validateUUIDv7 C) 0 (queue_Groups q) = None" by blast
  let ?tmp = "target @ ''.tmp-'' @ sfx"
  obtain x fs1 where m: "op_mkdirAll fs = (x, fs1)" by fastforce
  note run = assms(1) [unfolded Persist_def, folded assms(2), simplified v d Let_def m prod.case option.case sum.case not_less if_True if_False]
  show thesis
  proof (cases x)
    case (Some y)
    then show thesis using run d m by (intro mkdir [of y]) auto
  next
    case None
    obtain y fs2 where 2: "op_create QueuesDir ?tmp fs1 = (y, fs2)" by fastforce
    show thesis
    proof (cases y)
      case (Some z)
      then have "installTmp ?tmp target data fs1 = (False, fs2)" using 2 by (simp add: installTmp_def durableFile_def)
      moreover have "e \<noteq> None" "fs' = fs2" using run d None 2 Some by auto
      ultimately show thesis using wrote [OF d v] m None by blast
    next
      case y: None
      obtain z fs3 where 3: "writeTempAndClose QueuesDir ?tmp data fs2 = (z, fs3)" by fastforce
      note du = writeTemp_durable [OF 2 [unfolded y] 3]
      show thesis
      proof (cases z)
        case (Some zz)
        then have "installTmp ?tmp target data fs1 = (False, snd (op_remove QueuesDir ?tmp fs3))"
          using du(2) by (auto simp: installTmp_def)
        moreover have "e \<noteq> None" "fs' = snd (op_remove QueuesDir ?tmp fs3)" using run d None 2 y 3 Some by (auto split: prod.splits)
        ultimately show thesis using wrote [OF d v] m None by blast
      next
        case z: None
        obtain u fs4 where 4: "op_rename QueuesDir ?tmp target fs3 = (u, fs4)" by fastforce
        show thesis
        proof (cases u)
          case (Some uu)
          then have "installTmp ?tmp target data fs1 = (False, snd (op_remove QueuesDir ?tmp fs4))"
            using du(1) z 4 by (simp add: installTmp_def)
          moreover have "e \<noteq> None" "fs' = snd (op_remove QueuesDir ?tmp fs4)" using run d None 2 y 3 z 4 Some by (auto split: prod.splits)
          ultimately show thesis using wrote [OF d v] m None by blast
        next
          case u: None
          then have "installTmp ?tmp target data fs1 = (True, fs4)" using du(1) z 4 by (simp add: installTmp_def)
          moreover have "\<exists>x. fsyncDir QueuesDir fs4 = (x, fs') \<and> (e = None \<longleftrightarrow> x = None)"
            using run d None 2 y 3 z 4 u by (cases "fsyncDir QueuesDir fs4") (auto split: option.splits)
          ultimately show thesis using wrote [OF d v] m None by blast
        qed
      qed
    qed
  qed
qed

section \<open>Names\<close>

lemma hasPrefix_simps [simp]: "hasPrefix s []" "hasPrefix [] (c # p) \<longleftrightarrow> False" "hasPrefix (d # s) (c # p) \<longleftrightarrow> d = c \<and> hasPrefix s p"
  by (auto simp: hasPrefix_def)

lemma hasPrefix_append [simp]: "hasPrefix (p @ s) p"
  by (simp add: hasPrefix_def)

lemma containsStr_prefix: "hasPrefix s p \<Longrightarrow> containsStr s p"
  by (cases s; cases p) auto

lemma containsStr_append: "containsStr (a @ p @ b) p"
  by (induction a) (simp_all add: containsStr_prefix)

text \<open>A name has no dot, so it is skipped by a search that starts with one.\<close>

definition plainName :: "string \<Rightarrow> bool" where
  "plainName name \<longleftrightarrow> CHR ''.'' \<notin> set name \<and> CHR ''/'' \<notin> set name \<and> name \<noteq> []"

lemma queueNameMatch_plain: "queueNameMatch name \<Longrightarrow> plainName name"
  by (auto simp: queueNameMatch_def plainName_def list_all_iff queueNameChar_def)

lemma containsStr_skip: "CHR ''.'' \<notin> set a \<Longrightarrow> containsStr (a @ s) (CHR ''.'' # p) \<longleftrightarrow> containsStr s (CHR ''.'' # p)"
  by (induction a) auto

lemma indexOf_skip: "CHR ''.'' \<notin> set a \<Longrightarrow> indexOf (a @ s) (CHR ''.'' # p) = map_option ((+) (length a)) (indexOf s (CHR ''.'' # p))"
proof (induction a)
  case Nil
  then show ?case by (cases "indexOf s (CHR ''.'' # p)") simp_all
next
  case (Cons c a)
  then show ?case by (cases "indexOf s (CHR ''.'' # p)") auto
qed

lemma filepath_Base_plain: "CHR ''/'' \<notin> set p \<Longrightarrow> p \<noteq> [] \<Longrightarrow> filepath_Base p = p"
proof -
  assume p: "CHR ''/'' \<notin> set p" "p \<noteq> []"
  obtain c cs where r: "rev p = c # cs" using p(2) by (cases "rev p") auto
  have "c \<in> set p" using arg_cong [OF r, of set] by auto
  then have "dropWhile (\<lambda>c. c = CHR ''/'') (rev p) = rev p" using p(1) r by auto
  moreover have "takeWhile (\<lambda>c. c \<noteq> CHR ''/'') (rev p) = rev p" using p by (auto simp: takeWhile_eq_all_conv simp del: rev_rev_ident)
  ultimately show ?thesis using p(2) by (simp add: filepath_Base_def Let_def del: takeWhile_eq_all_conv)
qed

lemma archive_name:
  assumes "plainName name" "CHR ''/'' \<notin> set ts"
  shows "FailedArchiveQueueName (queuePath name @ FailedArchiveInfix @ ts) = name"
    and "ListFailedArchives [queuePath name @ FailedArchiveInfix @ ts] = [queuePath name @ FailedArchiveInfix @ ts]"
proof -
  let ?p = "queuePath name @ FailedArchiveInfix @ ts"
  have s: "CHR ''/'' \<notin> set ?p" "?p \<noteq> []" using assms by (auto simp: plainName_def queuePath_def FailedArchiveInfix_def)
  have i: "indexOf ?p (''.json'' @ FailedArchiveInfix) = Some (length name)"
    using assms(1) indexOf_skip [of name] by (simp add: plainName_def queuePath_def FailedArchiveInfix_def)
  show "FailedArchiveQueueName ?p = name"
  proof -
    have t: "take (length name) ?p = name" by (simp add: queuePath_def)
    show ?thesis using assms(1) unfolding FailedArchiveQueueName_def filepath_Base_plain [OF s] Let_def i option.case t
      by (simp add: plainName_def)
  qed
  show "ListFailedArchives [?p] = [?p]"
    using containsStr_append [of name "''.json'' @ FailedArchiveInfix" ts]
    by (simp add: ListFailedArchives_def queuePath_def)
qed

lemma hasSuffix_append [simp]: "hasSuffix (s @ p) p"
  by (simp add: hasSuffix_def)

lemma trimSuffix_app [simp]: "trimSuffix (s @ p) p = s"
  by (simp add: trimSuffix_def)

lemma isQueueFileName_path: "plainName name \<Longrightarrow> isQueueFileName (queuePath name)"
  using containsStr_skip [of name "''.json''"]
  by (simp add: isQueueFileName_def queuePath_def plainName_def)

lemma not_queueFileName: 
  "\<not> isQueueFileName (queuePath name @ ''.tmp-'' @ sfx)" "\<not> isQueueFileName (queuePath name @ FailedArchiveInfix @ ts)"
  "\<not> isQueueFileName (replaceIntentPath name)" "\<not> isQueueFileName (archiveIntentPath name)"
proof -
  show "\<not> isQueueFileName (queuePath name @ ''.tmp-'' @ sfx)" "\<not> isQueueFileName (queuePath name @ FailedArchiveInfix @ ts)"
    using containsStr_append [of "queuePath name" "''.tmp-''" sfx] containsStr_append [of "queuePath name" "''.failed-''" ts]
    unfolding isQueueFileName_def FailedArchiveInfix_def by blast+
  show "\<not> isQueueFileName (replaceIntentPath name)" "\<not> isQueueFileName (archiveIntentPath name)"
    by (auto simp: isQueueFileName_def replaceIntentPath_def replaceIntentSuffix_def archiveIntentPath_def hasSuffix_def)
qed

lemma EnumerateQueueNames_iff:
  assumes "EnumerateQueueNames ls fs = Inr names" "ls fs = Inr entries" "\<forall>e \<in> set entries. CHR ''/'' \<notin> set e" "plainName name"
  shows "name \<in> set names \<longleftrightarrow> queuePath name \<in> set entries"
proof
  assume "queuePath name \<in> set entries"
  then have "filepath_Base (trimSuffix (queuePath name) ''.json'') \<in> set names"
    using assms(1,2) isQueueFileName_path [OF assms(4)] by (auto simp: EnumerateQueueNames_def)
  then show "name \<in> set names" using assms(4) by (simp add: queuePath_def filepath_Base_plain plainName_def)
next
  assume "name \<in> set names"
  then obtain e where e: "e \<in> set entries" "isQueueFileName e" "name = filepath_Base (trimSuffix e ''.json'')"
    using assms(1,2) by (auto simp: EnumerateQueueNames_def)
  then obtain b where b: "e = b @ ''.json''" by (auto simp: isQueueFileName_def hasSuffix_def) (metis append_take_drop_id)
  have "b \<noteq> []" using e(3) assms(4) b by (auto simp: filepath_Base_def plainName_def)
  moreover have "CHR ''/'' \<notin> set b" using assms(3) e(1) b by auto
  ultimately have "name = b" using e(3) b by (simp add: filepath_Base_plain)
  then show "queuePath name \<in> set entries" using e(1) b by (simp add: queuePath_def)
qed

section \<open>Durability\<close>

text \<open>The namespaces in which the file \<open>p\<close> of the directory \<open>d\<close> is one of \<open>X\<close>.\<close>

definition fileIn :: "dirId \<Rightarrow> string \<Rightarrow> fnode option set \<Rightarrow> dirId \<Rightarrow> ns set" where
  "fileIn d p X = (\<lambda>_. UNIV)(d := {n. n p \<in> X})"

lemma fileIn_simps [simp]: "n \<in> fileIn d p X d' \<longleftrightarrow> (d' = d \<longrightarrow> n p \<in> X)"
  by (simp add: fileIn_def)

lemma fileIn_mono: "within (fileIn d p X) fs \<Longrightarrow> X \<subseteq> Y \<Longrightarrow> within (fileIn d p Y) fs"
  unfolding within_def fileIn_def by (fastforce simp: subset_iff split: if_splits)

lemma fileIn_closedAt: "q \<noteq> p \<Longrightarrow> closedAt (fileIn d p X) d q"
  by (simp add: closedAt_def)

text \<open>After a successful sync the directory is what it shows.\<close>

lemma fsyncDir_durable:
  assumes "fsyncDir d fs = (None, fs')" "fs_dir fs d p \<in> X"
  shows "within (fileIn d p X) fs'"
proof -
  have "within (\<lambda>_. UNIV) fs" by (simp add: within_def)
  from fsyncDir_spec [OF this assms(1)] assms(2) show ?thesis by (simp add: within_def subset_iff)
qed

lemma op_mkdirAll_quiet:
  assumes "within A fs" "op_mkdirAll fs = (e, fs')"
  shows "stays A fs fs' \<and> fs_dir fs' = fs_dir fs \<and> (calm fs \<longrightarrow> e = None \<and> calm fs')"
  using op_quiet(2) [OF assms] calm_ops(3) [OF _ assms(2)] by blast

lemma tmp_neq: "queuePath name @ ''.tmp-'' @ sfx \<noteq> queuePath name" "queuePath name @ ''.tmp-migrate-'' @ sfx \<noteq> queuePath name"
  by simp_all

section \<open>Properties\<close>

text \<open>
  C24. Writing a queue file is atomic and durable. Whatever fails, and wherever a crash cuts it, the
  file of the queue is what it was or exactly the new content, and no other file than the
  temporary one changes; a reported success means the new content is on disk for good, within the
  size bound; a queue that is invalid or too large changes nothing; and without faults a valid queue
  of admissible size is written.
\<close>

theorem Persist_atomic:
  assumes run: "Persist C sfx q fs = (e, fs')" and target: "target = queuePath (NormaliseQueueName (queue_Name q))"
    and start: "within (fileIn QueuesDir target {old}) fs" and json: "cd_queueJSON C q = Inr data"
  shows "guarded (\<lambda>m. m QueuesDir target \<in> {old, Some (File data True)}) fs fs'
    \<and> (e = None \<longrightarrow> within (fileIn QueuesDir target {Some (File data True)}) fs' \<and> length data \<le> 2 ^ 20)
    \<and> (\<forall>d p. (d, p) \<notin> {(QueuesDir, target), (QueuesDir, target @ ''.tmp-'' @ sfx)} \<longrightarrow> fs_dir fs' d p = fs_dir fs d p)
    \<and> (2 ^ 20 < length data \<longrightarrow> e \<noteq> None \<and> fs' = fs)
    \<and> (calm fs \<and> fs_dir fs QueuesDir (target @ ''.tmp-'' @ sfx) = None \<and> length data \<le> 2 ^ 20
        \<and> validatePreclaimGroups (validateUUIDv7 C) 0 (queue_Groups q) = None \<longrightarrow> e = None)"
proof -
  let ?A = "fileIn QueuesDir target {old, Some (File data True)}" and ?tmp = "target @ ''.tmp-'' @ sfx"
  have w: "within ?A fs" using start by (rule fileIn_mono) simp
  have bound: "maxQueueFileBytes = 2 ^ 20" by (simp add: maxQueueFileBytes_def)
  have size: "2 ^ 20 < length data \<longrightarrow> e \<noteq> None \<and> fs' = fs"
    using run json by (auto simp: Persist_def bound split: option.splits)
  have all: "stays ?A fs fs' \<and> frame QueuesDir {?tmp, target} fs fs' \<and> (e = None \<longrightarrow> within (fileIn QueuesDir target {Some (File data True)}) fs' \<and> length data \<le> 2 ^ 20)
    \<and> (calm fs \<and> fs_dir fs QueuesDir ?tmp = None \<and> length data \<le> 2 ^ 20 \<and> validatePreclaimGroups (validateUUIDv7 C) 0 (queue_Groups q) = None \<longrightarrow> e = None)"
    using run target
  proof (cases rule: Persist_install)
    case early
    then show ?thesis using json w by (auto simp: bound)
  next
    case (mkdir x)
    then show ?thesis using op_mkdirAll_quiet [OF w mkdir(1)] op_quiet(2) [OF w mkdir(1)] by auto
  next
    case (wrote data' fs1 ok fs2)
    have d: "data' = data" using wrote(1) json by simp
    note m = op_mkdirAll_quiet [OF w wrote(4)] op_quiet(2) [OF w wrote(4), of QueuesDir "{?tmp, target}"]
    have w1: "within ?A fs1" using m by (blast intro: stays_within)
    have neq: "?tmp \<noteq> target" by simp
    note s = installTmp_spec [OF w1 fileIn_closedAt [OF neq] neq _ wrote(5) [unfolded d]]
    have s: "stays ?A fs1 fs2 \<and> frame QueuesDir {?tmp, target} fs1 fs2 \<and> (ok \<longrightarrow> fs_dir fs2 QueuesDir target = Some (File data True))
      \<and> (calm fs1 \<and> fs_dir fs1 QueuesDir ?tmp = None \<longrightarrow> ok \<and> calm fs2)" by (rule s) simp
    have p: "stays ?A fs fs2" "frame QueuesDir {?tmp, target} fs fs2" using m s by (blast intro: stays_trans frame_trans)+
    show ?thesis
    proof (cases ok)
      case False
      then show ?thesis using wrote(6) p s m by auto
    next
      case True
      then obtain x where x: "fsyncDir QueuesDir fs2 = (x, fs')" "e = None \<longleftrightarrow> x = None" using wrote(7) by blast
      have w2: "within ?A fs2" using p by (blast intro: stays_within)
      note y = fsyncDir_spec [OF w2 x(1), of "{?tmp, target}"]
      have "stays ?A fs fs'" "frame QueuesDir {?tmp, target} fs fs'" using p y by (blast intro: stays_trans frame_trans)+
      moreover have "within (fileIn QueuesDir target {Some (File data True)}) fs'" if "x = None"
        using fsyncDir_durable [of QueuesDir fs2 fs' target "{Some (File data True)}"] x(1) that s True by simp
      ultimately show ?thesis using x y s m wrote(2) d bound by auto
    qed
  qed
  have "guarded (\<lambda>m. m QueuesDir target \<in> {old, Some (File data True)}) fs fs'"
    by (rule stays_guarded [OF conjunct1 [OF all]]) (metis fileIn_simps)
  moreover have "\<forall>d p. (d, p) \<notin> {(QueuesDir, target), (QueuesDir, ?tmp)} \<longrightarrow> fs_dir fs' d p = fs_dir fs d p"
  proof (intro allI impI)
    fix d p assume "(d, p) \<notin> {(QueuesDir, target), (QueuesDir, ?tmp)}"
    moreover have "frame QueuesDir {?tmp, target} fs fs'" using all by blast
    ultimately show "fs_dir fs' d p = fs_dir fs d p" by (cases "d = QueuesDir") (simp_all add: frame_def)
  qed
  ultimately show ?thesis using all size by blast
qed

theorem Persist_atomic_witness:
  "guarded (\<lambda>m. m QueuesDir ''q.json'' \<in> {Some (File ''O'' True), Some (File ''N'' True)}) (wit_boot (\<lambda>k. if k = 4 then FailsAfter else Works) wit_disk)
     (snd (Persist wit_codec ''z'' (wit_codec_queue\<lparr>queue_Workers := 1\<rparr>) (wit_boot (\<lambda>k. if k = 4 then FailsAfter else Works) wit_disk)))
   \<and> fst (Persist wit_codec ''z'' (wit_codec_queue\<lparr>queue_Workers := 1\<rparr>) (wit_boot (\<lambda>k. Works) wit_disk)) = None"
proof -
  let ?q = "wit_codec_queue\<lparr>queue_Workers := 1\<rparr>"
  have t: "''q.json'' = queuePath (NormaliseQueueName (queue_Name ?q))"
    by (simp add: wit_codec_queue_def queuePath_def NormaliseQueueName_def)
  have w: "within (fileIn QueuesDir ''q.json'' {Some (File ''O'' True)}) (wit_boot f wit_disk)" for f
    by (simp add: within_def fileIn_def wit_boot_def wit_disk_def)
  have j: "cd_queueJSON wit_codec ?q = Inr ''N''" by (simp add: wit_codec_def)
  have g: "validatePreclaimGroups u 0 (queue_Groups ?q) = None" for u by (simp add: wit_codec_queue_def zeroQueue_def)
  have c: "calm (wit_boot (\<lambda>k. Works) wit_disk)" "fs_dir (wit_boot (\<lambda>k. Works) wit_disk) QueuesDir (''q.json'' @ ''.tmp-'' @ ''z'') = None"
    by (simp_all add: calm_def wit_boot_def wit_disk_def)
  show ?thesis
    using conjunct1 [OF Persist_atomic [where sfx = "''z''", OF surjective_pairing t w j, of "\<lambda>k. if k = 4 then FailsAfter else Works"]]
      Persist_atomic [where sfx = "''z''", OF surjective_pairing t w j, of "\<lambda>k. Works"] g c by simp
qed

text \<open>
  C25. A written queue is read back. After a successful write, and after any crash that follows it, a
  load of the name whose read works gives the queue that was written, for a queue the JSON functions
  return unchanged.
\<close>

theorem Persist_Load_roundtrip:
  assumes "Persist C sfx q fs = (None, fs')" and "restarted m fs1" and "\<forall>d. m d \<in> set (fs_pend fs' d)"
    and "\<And>data. cd_queueJSON C q = Inr data \<Longrightarrow> cd_queue C data = Inr q" and "queue_SchemaVersion q = schemaVersion"
    and "Load C (NormaliseQueueName (queue_Name q)) fs1 = (r, fs2)"
  shows "(r = Inr (Some q) \<or> (\<exists>e. r = Inl (LoadRead e))) \<and> (calm fs1 \<longrightarrow> r = Inr (Some q))"
proof -
  let ?t = "queuePath (NormaliseQueueName (queue_Name q))"
  obtain data where d: "cd_queueJSON C q = Inr data" and v: "validatePreclaimGroups (validateUUIDv7 C) 0 (queue_Groups q) = None"
    using assms(1) by (auto simp: Persist_def split: option.splits sum.splits)
  have read: "UnmarshalText C (validateUUIDv7 C) data = Inr q"
    using assms(4) [OF d] assms(5) v by (simp add: UnmarshalText_def UnmarshalQueue_def)
  have "fs_pend fs' QueuesDir = [fs_dir fs' QueuesDir] \<and> fs_dir fs' QueuesDir ?t = Some (File data True)"
    using assms(1) refl
  proof (cases rule: Persist_install)
    case (wrote data' fsa ok fsb)
    have u: "within (\<lambda>_. UNIV) fsa" "within (\<lambda>_. UNIV) fsb" by (simp_all add: within_def)
    have ok: ok using wrote(6) by blast
    then have f: "fsyncDir QueuesDir fsb = (None, fs')" using wrote(7) by auto
    have "fs_dir fsb QueuesDir ?t = Some (File data True)"
      using installTmp_spec [OF u(1) _ _ _ wrote(5)] ok wrote(1) d by (auto simp: closedAt_def)
    then show ?thesis using fsyncDir_spec [OF u(2) f] by simp
  qed simp_all
  moreover have "m QueuesDir \<in> set (fs_pend fs' QueuesDir)" using assms(3) by blast
  ultimately have "m QueuesDir ?t = Some (File data True)" by simp
  then have "fs_dir fs1 QueuesDir ?t = Some (File data True)" using assms(2) by (simp add: restarted_def)
  then show ?thesis using assms(6) read
    by (auto simp: Load_def op_readFile_def nextFault_def calm_def Let_def split: fault.splits)
qed

theorem Persist_Load_roundtrip_witness:
  "fst (Load wit_codec ''q'' (wit_boot (\<lambda>k. Works)
      (fs_dir (snd (Persist wit_codec ''z'' wit_codec_queue (wit_boot (\<lambda>k. Works) (\<lambda>_. Map.empty))))))) = Inr (Some wit_codec_queue)"
proof -
  let ?s = "wit_boot (\<lambda>k. Works) (\<lambda>_. Map.empty)" and ?r = "Persist wit_codec ''z'' wit_codec_queue (wit_boot (\<lambda>k. Works) (\<lambda>_. Map.empty))"
  have n: "NormaliseQueueName (queue_Name wit_codec_queue) = ''q''" by (simp add: wit_codec_queue_def NormaliseQueueName_def)
  have e: "?r = (None, snd ?r)" and p: "fs_pend (snd ?r) = (\<lambda>d. [fs_dir (snd ?r) d])"
    by (simp_all add: Persist_def wit_codec_queue_def zeroQueue_def wit_codec_def maxQueueFileBytes_def Let_def fs_ops fsyncDir_def writeTempAndClose_def
        setDir_def syncDir_def wit_boot_def NormaliseQueueName_def queuePath_def toErr_def fun_eq_iff)
  have law: "cd_queue wit_codec data = Inr wit_codec_queue" for data by (simp add: wit_codec_def)
  have "fst (Load wit_codec (NormaliseQueueName (queue_Name wit_codec_queue)) (wit_boot (\<lambda>k. Works) (fs_dir (snd ?r)))) = Inr (Some wit_codec_queue)"
    using Persist_Load_roundtrip [OF e wit_restarted [of "fs_dir (snd ?r)" "\<lambda>k. Works"] _ law _ surjective_pairing] p
    by (simp add: wit_codec_queue_def zeroQueue_def schemaVersion_def calm_def wit_boot_def)
  then show ?thesis by (simp only: n)
qed

text \<open>
  C26. Archiving evacuates a queue without losing it. Whatever fails, the content is in the queue file
  or, with the queue file gone, in the archive; success means the latter, durably. The archive is
  never listed as a queue, is found by the reader of archives, and gives back the queue's name.
\<close>

theorem archive_evacuates:
  assumes run: "ArchiveFailedQueue name ts fs = ((dst, e), fs')" and src: "src = queuePath name" and arc: "arc = src @ FailedArchiveInfix @ ts"
    and plain: "queueNameMatch name" "CHR ''/'' \<notin> set ts" and start: "within (fileIn QueuesDir src {Some fl}) fs"
  shows "guarded (\<lambda>m. m QueuesDir src = Some fl \<or> m QueuesDir src = None \<and> m QueuesDir arc = Some fl) fs fs'
    \<and> (e = None \<longrightarrow> dst = arc \<and> within ((\<lambda>_. UNIV)(QueuesDir := {n. n src = None \<and> n arc = Some fl})) fs')
    \<and> (calm fs \<longrightarrow> e = None)
    \<and> \<not> isQueueFileName arc \<and> ListFailedArchives [arc] = [arc] \<and> FailedArchiveQueueName arc = name"
proof -
  let ?B = "{n. n src = None \<and> n arc = Some fl}" and ?G = "\<lambda>m. m QueuesDir src = Some fl \<or> m QueuesDir src = None \<and> m QueuesDir arc = Some fl"
  let ?A = "(\<lambda>_. UNIV)(QueuesDir := {n. n src = Some fl} \<union> ?B)"
  have neq: "src \<noteq> arc" by (simp add: arc FailedArchiveInfix_def)
  have w: "within ?A fs" by (rule within_mono [OF start]) (auto simp: fileIn_def)
  have src0: "fs_dir fs QueuesDir src = Some fl" using start by (auto simp: within_def fileIn_def dest: spec [of _ QueuesDir])
  have m: "renamed src arc (fs_dir fs QueuesDir) = (fs_dir fs QueuesDir)(src := None, arc \<mapsto> fl)" by (simp add: renamed_def src0)
  obtain x fs1 where 1: "op_rename QueuesDir src arc fs = (x, fs1)" by fastforce
  note s1 = op_rename_spec [OF w _ 1, unfolded m] and c1 = calm_ops(5) [OF _ 1]
  have s1: "stays ?A fs fs1 \<and> (x = None \<longrightarrow> fs_dir fs1 QueuesDir = (fs_dir fs QueuesDir)(src := None, arc \<mapsto> fl))"
    using s1 neq by simp
  have x: "x \<noteq> Some ErrNotExist" using 1 src0 by (auto simp: op_rename_def nextFault_def Let_def split: fault.splits)
  have w1: "within ?A fs1" using s1 by (blast intro: stays_within)
  have all: "stays ?A fs fs' \<and> (e = None \<longrightarrow> dst = arc \<and> within ((\<lambda>_. UNIV)(QueuesDir := ?B)) fs') \<and> (calm fs \<longrightarrow> e = None)"
  proof (cases x)
    case (Some y)
    then have "e \<noteq> None" "fs' = fs1" using run 1 x by (auto simp: ArchiveFailedQueue_def Let_def src arc split: FsErr.splits)
    then show ?thesis using s1 c1 Some src0 by auto
  next
    case None
    obtain y fs2 where 2: "fsyncDir QueuesDir fs1 = (y, fs2)" by fastforce
    note s2 = fsyncDir_spec [OF w1 2, of "{}"]
    have f: "dst = arc" "fs' = fs2" "e = None \<longleftrightarrow> y = None"
      using run 1 2 None by (auto simp: ArchiveFailedQueue_def Let_def src arc)
    have "within ((\<lambda>_. UNIV)(QueuesDir := ?B)) fs2" if "y = None"
      using s2 s1 None that neq by (simp add: within_def)
    then show ?thesis using f s1 s2 c1 None src0 by (auto intro: stays_trans)
  qed
  have "?G m" if "\<forall>d. m d \<in> ?A d" for m using that [rule_format, of QueuesDir] by simp
  then have "guarded ?G fs fs'" by (intro stays_guarded [OF conjunct1 [OF all]]) blast
  moreover have "\<not> isQueueFileName arc" using not_queueFileName(2) [of name ts] by (simp add: arc src)
  ultimately show ?thesis using all archive_name [OF queueNameMatch_plain [OF plain(1)] plain(2), folded src, folded arc] by blast
qed

theorem archive_evacuates_witness:
  "fst (ArchiveFailedQueue ''q'' ''20260101000000'' (wit_boot (\<lambda>k. Works) wit_disk)) = (''q.json.failed-20260101000000'', None)
   \<and> FailedArchiveQueueName ''q.json.failed-20260101000000'' = ''q''"
proof -
  let ?r = "ArchiveFailedQueue ''q'' ''20260101000000'' (wit_boot (\<lambda>k. Works) wit_disk)"
  have m: "queueNameMatch ''q''" by (simp add: queueNameMatch_def queueNameChar_def less_eq_char_def)
  have w: "within (fileIn QueuesDir (queuePath ''q'') {Some (File ''O'' True)}) (wit_boot (\<lambda>k. Works) wit_disk)"
    by (simp add: within_def fileIn_def wit_boot_def wit_disk_def queuePath_def)
  have r: "?r = ((fst (fst ?r), snd (fst ?r)), snd ?r)" by simp
  have c: "calm (wit_boot (\<lambda>k. Works) wit_disk)" by (simp add: calm_def wit_boot_def)
  have a: "''q.json.failed-20260101000000'' = queuePath ''q'' @ FailedArchiveInfix @ ''20260101000000''"
    by (simp add: queuePath_def FailedArchiveInfix_def)
  have "snd (fst ?r) = None \<and> fst (fst ?r) = ''q.json.failed-20260101000000'' \<and> FailedArchiveQueueName ''q.json.failed-20260101000000'' = ''q''"
    using archive_evacuates [OF r refl a m _ w] c by simp
  then show ?thesis by (metis prod.collapse)
qed

lemma migrateInstall_install:
  assumes "migrateInstall sfx data fs = (e, fs')" "target = queuePath QueueNameMain"
  obtains (mkdir) x where "op_mkdirAll fs = (Some x, fs')" "e \<noteq> None"
  | (wrote) fs1 ok where "op_mkdirAll fs = (None, fs1)" "installTmp (target @ ''.tmp-migrate-'' @ sfx) target data fs1 = (ok, fs')" "e = None \<longleftrightarrow> ok"
proof -
  obtain tmp where tmp: "target @ ''.tmp-migrate-'' @ sfx = tmp" by blast
  obtain x fs1 where m: "op_mkdirAll fs = (x, fs1)" by fastforce
  have "\<exists>ok. installTmp tmp target data fs1 = (ok, fs') \<and> (e = None \<longleftrightarrow> ok)" if "x = None"
  proof -
    obtain a f2 where 1: "op_create QueuesDir tmp fs1 = (a, f2)" by fastforce
    obtain b f3 where 2: "op_write QueuesDir tmp data f2 = (b, f3)" by fastforce
    obtain c f4 where 3: "op_syncFile QueuesDir tmp f3 = (c, f4)" by fastforce
    obtain d f5 where 4: "op_close f4 = (d, f5)" by fastforce
    obtain g f6 where 5: "op_rename QueuesDir tmp target f5 = (g, f6)" by fastforce
    note run = assms(1) [unfolded migrateInstall_def assms(2) [symmetric] Let_def tmp m that prod.case option.case 1]
    note inst = installTmp_def durableFile_def Let_def 1
    show ?thesis
    proof (cases a)
      case None
      note run1 = run [unfolded None option.case 2 prod.case]
      show ?thesis
      proof (cases b)
        case n2: None
        note run2 = run1 [unfolded n2 option.case 3 prod.case]
        show ?thesis
        proof (cases c)
          case n3: None
          note run3 = run2 [unfolded n3 option.case 4 prod.case]
          show ?thesis
          proof (cases d)
            case n4: None
            show ?thesis using run3 [unfolded n4 option.case 5 prod.case]
              by (cases g) (auto simp: inst None 2 n2 3 n3 4 n4 5 case_prod_beta)
          qed (use run3 in \<open>auto simp: inst None 2 n2 3 n3 4 case_prod_beta\<close>)
        qed (use run2 in \<open>auto simp: inst None 2 n2 3 case_prod_beta\<close>)
      qed (use run1 in \<open>auto simp: inst None 2 case_prod_beta\<close>)
    qed (use run in \<open>auto simp: inst\<close>)
  qed
  moreover have "op_mkdirAll fs = (Some y, fs') \<and> e \<noteq> None" if "x = Some y" for y
    using assms(1) m that by (auto simp: migrateInstall_def Let_def)
  ultimately show thesis using m mkdir wrote [unfolded tmp] by (cases x) blast+
qed

text \<open>The main queue file holds a queue equal to the one the legacy bytes encode.\<close>

definition holdsLegacy :: "Codec \<Rightarrow> (Queue \<Rightarrow> Queue \<Rightarrow> bool) \<Rightarrow> bytes \<Rightarrow> ns \<Rightarrow> bool" where
  "holdsLegacy C deepEqual data n \<longleftrightarrow> (\<exists>fl q q'. n (queuePath QueueNameMain) = Some fl
     \<and> UnmarshalText C (validateUUIDv7 C) data = Inr q \<and> UnmarshalText C (validateUUIDv7 C) (content fl) = Inr q' \<and> deepEqual q q')"

lemma migrateRetire_spec:
  assumes w: "within (fileIn HarmonikDir legacyQueuePath {Some (File data True)}) fs"
    and h: "\<And>n. n \<in> H \<Longrightarrow> J2 n" and m: "fs_dir fs QueuesDir \<in> H" and r: "migrateRetire fs = (e, fs')"
  shows "guarded (\<lambda>m. m HarmonikDir legacyQueuePath = Some (File data True) \<or> J2 (m QueuesDir)) fs fs'
    \<and> (e = None \<longrightarrow> within ((\<lambda>_. UNIV)(HarmonikDir := {n. n legacyQueuePath = None}, QueuesDir := H)) fs') \<and> (calm fs \<longrightarrow> e = None)"
proof -
  let ?J = "\<lambda>m. m HarmonikDir legacyQueuePath = Some (File data True) \<or> J2 (m QueuesDir)"
  let ?A = "fileIn HarmonikDir legacyQueuePath {Some (File data True)}" and ?B = "(\<lambda>_. UNIV)(QueuesDir := H)"
  obtain x fs1 where 1: "fsyncDir QueuesDir fs = (x, fs1)" by fastforce
  note s1 = fsyncDir_spec [OF w 1, of "{}"]
  have "?J m" if "\<forall>d. m d \<in> ?A d" for m using that [rule_format, of HarmonikDir] by simp
  then have g1: "guarded ?J fs fs1" by (intro stays_guarded [OF conjunct1 [OF s1]]) blast
  show ?thesis
  proof (cases x)
    case (Some y)
    then show ?thesis using r 1 g1 s1 by (auto simp: migrateRetire_def)
  next
    case None
    have w1: "within ?B fs1" using s1 None m by (simp add: within_def)
    obtain y fs2 where 2: "op_remove HarmonikDir legacyQueuePath fs1 = (y, fs2)" by fastforce
    have "closedAt ?B HarmonikDir legacyQueuePath" by (simp add: closedAt_def)
    note s2 = op_named(4) [OF w1 this 2] and c2 = calm_ops(4) [OF _ 2]
    have w2: "within ?B fs2" using s2 by (blast intro: stays_within)
    have J: "?J m" if "\<forall>d. m d \<in> ?B d" for m using that [rule_format, of QueuesDir] h by simp
    have g2: "guarded ?J fs1 fs2" by (rule stays_guarded [OF conjunct1 [OF s2] J]) simp
    show ?thesis
    proof (cases "y \<noteq> None \<and> y \<noteq> Some ErrNotExist")
      case True
      then have "e \<noteq> None" "fs' = fs2" using r 1 2 None by (auto simp: migrateRetire_def)
      then show ?thesis using g1 g2 s1 c2 None True by (auto intro: guarded_trans split: if_splits)
    next
      case False
      obtain z fs3 where 3: "fsyncDir HarmonikDir fs2 = (z, fs3)" by fastforce
      note s3 = fsyncDir_spec [OF w2 3, of "{}"]
      have g3: "guarded ?J fs2 fs3" by (rule stays_guarded [OF conjunct1 [OF s3] J]) simp
      have f: "fs' = fs3" "e = None \<longleftrightarrow> z = None" using r 1 2 3 None False by (auto simp: migrateRetire_def)
      have "within ((\<lambda>_. UNIV)(HarmonikDir := {n. n legacyQueuePath = None}, QueuesDir := H)) fs3" if "z = None"
      proof -
        have "fs_dir fs2 QueuesDir \<in> H" "set (fs_pend fs2 QueuesDir) \<subseteq> H"
          using w2 [unfolded within_def, rule_format, of QueuesDir] by simp_all
        then show ?thesis using s3 s2 that False by (auto simp: within_def)
      qed
      then show ?thesis using f g1 g2 g3 s1 c2 s3 None by (auto intro: guarded_trans)
    qed
  qed
qed

lemma op_readFile_result:
  assumes "op_readFile d p fs = (x, fs')" and "fs_dir fs d p = Some fl"
  shows "x = Inr (content fl) \<or> (\<exists>e. x = Inl e \<and> e \<noteq> ErrNotExist \<and> \<not> calm fs)"
  using assms by (auto simp: op_readFile_def nextFault_def calm_def Let_def split: fault.splits)

lemma op_lstatFile_result:
  assumes "op_lstatFile d p fs = (x, fs')" and w: "within A fs"
  shows "stays A fs fs' \<and> fs_dir fs' = fs_dir fs \<and> (x = Some ErrNotExist \<longleftrightarrow> fs_dir fs d p = None)
    \<and> (calm fs \<longrightarrow> calm fs' \<and> (x = None \<longleftrightarrow> fs_dir fs d p \<noteq> None)) \<and> (x = None \<longrightarrow> fs_dir fs d p \<noteq> None)"
  using assms by (auto simp: op_lstatFile_def nextFault_def calm_def Let_def split: fault.splits if_splits)

lemma migrateInstall_stays:
  assumes "migrateInstall sfx data fs = (e, fs')" and "main = queuePath QueueNameMain" and tmp: "tmp = main @ ''.tmp-migrate-'' @ sfx"
    and w: "within A fs" and c: "closedAt A QueuesDir tmp"
    and A: "\<And>n. n \<in> A QueuesDir \<Longrightarrow> n(main \<mapsto> File data True) \<in> A QueuesDir"
  shows "stays A fs fs' \<and> (e = None \<longrightarrow> fs_dir fs' QueuesDir main = Some (File data True))
    \<and> (calm fs \<and> fs_dir fs QueuesDir tmp = None \<longrightarrow> e = None \<and> calm fs')"
  using assms(1,2)
proof (cases rule: migrateInstall_install)
  case (mkdir u)
  then show ?thesis using op_mkdirAll_quiet [OF w mkdir(1)] by auto
next
  case (wrote f1 ok)
  note m = op_mkdirAll_quiet [OF w wrote(1)]
  have w1: "within A f1" using m by (blast intro: stays_within)
  have neq: "tmp \<noteq> main" by (simp add: tmp)
  from installTmp_spec [OF w1 c neq _ wrote(2) [folded tmp]] A m wrote(3) show ?thesis by (auto intro: stays_trans)
qed

text \<open>The migration either stops early, with an error, or reaches its tail with the main file in place.\<close>

lemma migrateFromLegacy_runs:
  assumes run: "migrateFromLegacy C deepEqual sfx fs = (e, fs')" and main: "main = queuePath QueueNameMain"
    and tmp: "tmp = main @ ''.tmp-migrate-'' @ sfx" and w: "within A fs" and c: "closedAt A QueuesDir tmp"
    and A: "\<forall>n \<in> A QueuesDir. n(main \<mapsto> File data True) \<in> A QueuesDir" and refl: "\<And>q. deepEqual q q"
    and leg: "fs_dir fs HarmonikDir legacyQueuePath = Some (File data True)"
    and good: "good \<longleftrightarrow> (\<exists>q. UnmarshalText C (validateUUIDv7 C) data = Inr q) \<and> (fs_dir fs QueuesDir main = None \<or> holdsLegacy C deepEqual data (fs_dir fs QueuesDir))"
  obtains (stop) "e \<noteq> None" "stays A fs fs'" "good \<or> fs_dir fs' = fs_dir fs" "\<not> (good \<and> calm fs \<and> fs_dir fs QueuesDir tmp = None)"
    | (retire) fs3 where "stays A fs fs3" "migrateRetire fs3 = (e, fs')" "holdsLegacy C deepEqual data (fs_dir fs3 QueuesDir)" "good"
        "calm fs \<and> fs_dir fs QueuesDir tmp = None \<Longrightarrow> calm fs3"
proof -
  let ?read = "UnmarshalText C (validateUUIDv7 C)"
  obtain x fs1 where 1: "op_readFile HarmonikDir legacyQueuePath fs = (x, fs1)" by fastforce
  note s1 = op_quiet(3) [OF w 1, of QueuesDir "{}"] and c1 = calm_ops(1) [OF _ 1] and x = op_readFile_result [OF 1 leg, unfolded fnode.sel]
  have w1: "within A fs1" using s1 by (blast intro: stays_within)
  obtain y fs2 where 2: "op_lstatFile QueuesDir main fs1 = (y, fs2)" by fastforce
  note s2 = op_lstatFile_result [OF 2 w1]
  have w2: "within A fs2" and p2: "stays A fs fs2" "fs_dir fs2 = fs_dir fs" "calm fs \<longrightarrow> calm fs2"
    using s1 s2 c1 by (auto intro: stays_trans stays_within)
  obtain z fs3 where 3: "op_readFile QueuesDir main fs2 = (z, fs3)" by fastforce
  note s3 = op_quiet(3) [OF w2 3, of QueuesDir "{}"] and c3 = calm_ops(1) [OF _ 3]
  obtain i fs4 where 4: "migrateInstall sfx data fs2 = (i, fs4)" by fastforce
  note s4 = migrateInstall_stays [OF 4 main tmp w2 c A [rule_format]]
  note run' = run [unfolded migrateFromLegacy_def Let_def main [symmetric] 1 prod.case]
  consider (unread) "x \<noteq> Inr data \<or> (\<exists>m. ?read data = Inl m)" | (read) q where "x = Inr data" "?read data = Inr q"
    by (cases "?read data") blast+
  then show thesis
  proof cases
    case unread
    have "e \<noteq> None \<and> fs' = fs1" using run' x unread by (auto split: sum.splits FsErr.splits)
    then show thesis using stop s1 x unread good by auto
  next
    case (read q)
    note run' = run' [unfolded read sum.case 2 prod.case]
    consider (other) "y \<noteq> None" "y \<noteq> Some ErrNotExist" | (present) fl where "y = None" "fs_dir fs QueuesDir main = Some fl"
      | (absent) "y = Some ErrNotExist" "fs_dir fs QueuesDir main = None" using s1 s2 by fastforce
    then show thesis
    proof cases
      case other
      then have "e \<noteq> None \<and> fs' = fs2" using run' by auto
      then show thesis using stop p2 s2 s1 c1 other by auto
    next
      case (present fl)
      have hold: "good \<longleftrightarrow> (\<exists>q'. ?read (content fl) = Inr q' \<and> deepEqual q q')"
        using present read by (simp add: good holdsLegacy_def main)
      have z: "z = Inr (content fl) \<or> (\<exists>e. z = Inl e) \<and> \<not> calm fs2" using op_readFile_result [OF 3, of fl] present p2 by auto
      have p3: "stays A fs fs3" "fs_dir fs3 = fs_dir fs" "calm fs \<longrightarrow> calm fs3" using p2 s3 c3 by (auto intro: stays_trans)
      show thesis
      proof (cases "z = Inr (content fl) \<and> good")
        case False
        have "e \<noteq> None \<and> fs' = fs3" using run' 3 present False z hold by (auto split: sum.splits if_splits)
        then show thesis using stop p3 p2 z False by auto
      next
        case True
        have "migrateRetire fs3 = (e, fs')" using run' 3 present True hold by auto
        then show thesis using retire p3 True present good by auto
      qed
    next
      case absent
      have g: "good" using absent read good by auto
      have p4: "stays A fs fs4" using p2 s4 by (blast intro: stays_trans)
      have f: "if i = None then migrateRetire fs4 = (e, fs') else e \<noteq> None \<and> fs' = fs4" using run' 4 absent by (auto split: option.splits)
      have "holdsLegacy C deepEqual data (fs_dir fs4 QueuesDir)" if "i = None" using s4 that read refl by (simp add: holdsLegacy_def main)
      then show thesis using stop retire f p4 s4 p2 g by (cases i) auto
    qed
  qed
qed

text \<open>
  C23. The migration of the legacy queue file never loses it. Whatever fails, and wherever a crash cuts
  it, the legacy file is still there or the main queue file holds a queue equal to it; success means
  the legacy file is gone for good and the main file holds the queue for good; an unreadable legacy
  file, or a main queue that differs, is refused with both files as they were; and without faults,
  with no main queue or an equal one, the migration succeeds.
\<close>

theorem migration_keeps_queue:
  assumes run: "migrateFromLegacy C deepEqual sfx fs = (e, fs')" and main: "main = queuePath QueueNameMain"
    and legacy: "within (fileIn HarmonikDir legacyQueuePath {Some (File data True)}) fs"
    and start: "within (fileIn QueuesDir main {old}) fs" and refl: "\<And>q. deepEqual q q"
  shows "guarded (\<lambda>m. m HarmonikDir legacyQueuePath = Some (File data True) \<or> holdsLegacy C deepEqual data (m QueuesDir)) fs fs'
    \<and> (e = None \<longrightarrow> within ((\<lambda>_. UNIV)(HarmonikDir := {n. n legacyQueuePath = None}, QueuesDir := {n. holdsLegacy C deepEqual data n})) fs')
    \<and> ((\<exists>x. UnmarshalText C (validateUUIDv7 C) data = Inl x) \<or> old \<noteq> None \<and> \<not> holdsLegacy C deepEqual data (fs_dir fs QueuesDir) \<longrightarrow> e \<noteq> None \<and> fs_dir fs' = fs_dir fs)
    \<and> (calm fs \<and> fs_dir fs QueuesDir (main @ ''.tmp-migrate-'' @ sfx) = None \<and> (\<exists>q. UnmarshalText C (validateUUIDv7 C) data = Inr q)
        \<and> (old = None \<or> holdsLegacy C deepEqual data (fs_dir fs QueuesDir)) \<longrightarrow> e = None)"
proof -
  let ?H = "{n. holdsLegacy C deepEqual data n}" and ?leg = "File data True"
  let ?A = "(\<lambda>_. UNIV)(HarmonikDir := {n. n legacyQueuePath = Some ?leg}, QueuesDir := {n. n main \<in> {old, Some ?leg}})"
  let ?J = "\<lambda>m. m HarmonikDir legacyQueuePath = Some ?leg \<or> holdsLegacy C deepEqual data (m QueuesDir)"
  obtain good where good: "good \<longleftrightarrow> (\<exists>q. UnmarshalText C (validateUUIDv7 C) data = Inr q) \<and> (fs_dir fs QueuesDir main = None \<or> holdsLegacy C deepEqual data (fs_dir fs QueuesDir))" by blast
  obtain tmp where tmp: "tmp = main @ ''.tmp-migrate-'' @ sfx" by blast
  have "tmp \<noteq> main" by (simp add: tmp)
  then have c: "closedAt ?A QueuesDir tmp" by (simp add: closedAt_def)
  have leg0: "fs_dir fs HarmonikDir legacyQueuePath = Some ?leg" and main0: "fs_dir fs QueuesDir main = old"
    using legacy start by (auto simp: within_def fileIn_def dest: spec [of _ HarmonikDir] spec [of _ QueuesDir])
  have w: "within ?A fs"
    using legacy [unfolded within_def, rule_format, of HarmonikDir] start [unfolded within_def, rule_format, of QueuesDir]
    by (auto simp: within_def)
  have g: "guarded ?J fs f" if "stays ?A fs f" for f by (rule stays_guarded [OF that]) (auto dest: spec [of _ HarmonikDir])
  have put: "\<forall>n \<in> ?A QueuesDir. n(main \<mapsto> ?leg) \<in> ?A QueuesDir" by simp
  from run main tmp w c put refl leg0 good show ?thesis
  proof (cases rule: migrateFromLegacy_runs)
    case stop
    show ?thesis using g [OF stop(2)] stop(1,3,4) main0 unfolding good tmp by (cases "UnmarshalText C (validateUUIDv7 C) data") auto
  next
    case (retire fs3)
    have w3: "within (fileIn HarmonikDir legacyQueuePath {Some ?leg}) fs3"
      by (rule within_mono [OF stays_within [OF retire(1)]]) (simp add: fileIn_def)
    have "guarded ?J fs3 fs' \<and> (e = None \<longrightarrow> within ((\<lambda>_. UNIV)(HarmonikDir := {n. n legacyQueuePath = None}, QueuesDir := ?H)) fs') \<and> (calm fs3 \<longrightarrow> e = None)"
      by (rule migrateRetire_spec [OF w3 _ _ retire(2)]) (use retire(3) in auto)
    then show ?thesis using guarded_trans [OF g [OF retire(1)]] retire(4,5) main0 by (auto simp: good tmp)
  qed
qed

theorem migration_keeps_queue_witness:
  "fst (migrateFromLegacy wit_codec (=) ''z'' (wit_boot (\<lambda>k. Works) ((\<lambda>_. Map.empty)(HarmonikDir := [''queue.json'' \<mapsto> File ''O'' True])))) = None"
proof -
  let ?m = "(\<lambda>_. Map.empty)(HarmonikDir := [''queue.json'' \<mapsto> File ''O'' True])" and ?f = "wit_boot (\<lambda>k. Works)"
  have l: "within (fileIn HarmonikDir legacyQueuePath {Some (File ''O'' True)}) (?f ?m)"
    by (simp add: within_def fileIn_def wit_boot_def legacyQueuePath_def)
  have q: "within (fileIn QueuesDir (queuePath QueueNameMain) {None}) (?f ?m)"
    by (simp add: within_def fileIn_def wit_boot_def)
  have c: "calm (?f ?m)" "fs_dir (?f ?m) QueuesDir p = None" for p by (simp_all add: calm_def wit_boot_def)
  have r: "UnmarshalText wit_codec u ''O'' = Inr wit_codec_queue" for u
    by (simp add: UnmarshalText_def UnmarshalQueue_def wit_codec_def wit_codec_queue_def zeroQueue_def schemaVersion_def)
  show ?thesis using migration_keeps_queue [where C = wit_codec and deepEqual = "(=)" and sfx = "''z''", OF surjective_pairing refl l q refl] c r by simp
qed
end
