(* ===== verification/Spawn_Cap.thy ===== *)
theory Spawn_Cap
  imports Transition_Systems "HOL-Library.Word"
begin

text \<open>
  The session cap of the daemon: the resizable semaphore and the two-semaphore spawn cap with its
  reserved terminal slot (\<^verbatim>\<open>internal/daemon/tmuxsubstrate.go\<close>), the dispatch ceiling
  (\<^verbatim>\<open>concurrencycontroller.go\<close>) and the command that moves both,
  \<^verbatim>\<open>HandleQueueSetConcurrency\<close> of \<^verbatim>\<open>internal/queue/rpc.go\<close>.

  A semaphore method is one critical section, so a function on the semaphore; a wait is the loop
  body that a wake-up runs. The spawns are a list; each step below is what one goroutine does
  between two critical sections, and every interleaving is a path. A context that is cancelled and
  an acquire budget that is used up are flags of the spawn, set at any moment. The tmux calls of a
  spawn, which run while it holds its slots, are not modelled: they end in the release. Go's \<^verbatim>\<open>int\<close>
  has 64 bits; where a computation on a requested number can wrap around, the wrap is written out.
\<close>

definition int64 :: "int \<Rightarrow> int" where "int64 x = signed_take_bit 63 x"
definition int32 :: "int \<Rightarrow> int" where "int32 x = signed_take_bit 31 x"

lemma int64_id [simp]: "- (2 ^ 63) \<le> x \<Longrightarrow> x < 2 ^ 63 \<Longrightarrow> int64 x = x"
  by (simp add: int64_def signed_take_bit_int_eq_self)

lemma int32_id [simp]: "- (2 ^ 31) \<le> x \<Longrightarrow> x < 2 ^ 31 \<Longrightarrow> int32 x = x"
  by (simp add: int32_def signed_take_bit_int_eq_self)

section \<open>The resizable semaphore\<close>

record resizableSemaphore =
  sm_capacity :: int
  sm_inUse :: int
  sm_keepsOneFree :: bool
  sm_desired :: int

definition newResizableSemaphore :: "int \<Rightarrow> resizableSemaphore" where
  "newResizableSemaphore n = \<lparr>sm_capacity = n, sm_inUse = 0, sm_keepsOneFree = False, sm_desired = 0\<rparr>"

definition newReservingSemaphore :: "int \<Rightarrow> resizableSemaphore" where
  "newReservingSemaphore n = (newResizableSemaphore n)\<lparr>sm_keepsOneFree := True, sm_desired := n\<rparr>"

definition TryAcquire :: "resizableSemaphore \<Rightarrow> bool \<times> resizableSemaphore" where
  "TryAcquire s = (if sm_inUse s < sm_capacity s then (True, s\<lparr>sm_inUse := sm_inUse s + 1\<rparr>) else (False, s))"

datatype AcquireResult = Acquired | AcqContext | AcqTimeout | AcqWait

text \<open>The body of the wait loop of \<open>Acquire\<close>: a free slot is taken even after a cancellation.\<close>

definition acquireWake :: "bool \<Rightarrow> bool \<Rightarrow> resizableSemaphore \<Rightarrow> AcquireResult \<times> resizableSemaphore" where
  "acquireWake cancelled timedOut s =
     (if sm_inUse s \<ge> sm_capacity s then (if cancelled then AcqContext else if timedOut then AcqTimeout else AcqWait, s)
      else (Acquired, s\<lparr>sm_inUse := sm_inUse s + 1\<rparr>))"

definition capacityKeepingOneFree :: "int \<Rightarrow> int \<Rightarrow> int" where
  "capacityKeepingOneFree n inUse = (if inUse \<ge> n then inUse + 1 else n)"

definition Release :: "resizableSemaphore \<Rightarrow> resizableSemaphore" where
  "Release s = (let u = (if sm_inUse s > 0 then sm_inUse s - 1 else sm_inUse s); s = s\<lparr>sm_inUse := u\<rparr> in
     if sm_keepsOneFree s then s\<lparr>sm_capacity := capacityKeepingOneFree (sm_desired s) u\<rparr> else s)"

definition SetCapacity :: "int \<Rightarrow> resizableSemaphore \<Rightarrow> resizableSemaphore" where
  "SetCapacity n s = s\<lparr>sm_capacity := n\<rparr>"

definition SetCapacityKeepingOneFree :: "int \<Rightarrow> resizableSemaphore \<Rightarrow> resizableSemaphore" where
  "SetCapacityKeepingOneFree n s = s\<lparr>sm_desired := n, sm_capacity := capacityKeepingOneFree n (sm_inUse s)\<rparr>"

section \<open>Spawns under the cap\<close>

datatype SpawnError = ErrSpawnCapTimeout | ErrSpawnContext

text \<open>
  Where a spawn is: about to acquire, waiting for \<open>nonTerminalSem\<close>, holding it and about to try
  \<open>spawnSem\<close>, waiting for \<open>spawnSem\<close>, giving \<open>nonTerminalSem\<close> back after a failure, hosting a session,
  between the two releases, and over.
\<close>

datatype SpawnPc = SpStart | SpWaitN | SpHoldN | SpWaitS | SpDropN SpawnError | SpRunning | SpReleaseN | SpDone "SpawnError option"

record Spawn =
  sp_terminal :: bool
  sp_cancelled :: bool
  sp_over :: bool
  sp_pc :: SpawnPc

text \<open>The half of a resize that is still to do, under \<open>capResizeMu\<close>.\<close>

datatype CapResize = CapIdle | CapRaising int | CapLowering int

record SpawnCap =
  cp_spawnSem :: resizableSemaphore
  cp_nonTerminalSem :: resizableSemaphore
  cp_spawns :: "Spawn list"
  cp_resize :: CapResize

text \<open>Without a positive cap there are no semaphores and nothing is bounded.\<close>

definition WithSpawnCap :: "int \<Rightarrow> SpawnCap option" where
  "WithSpawnCap n = (if n > 0 then Some \<lparr>cp_spawnSem = newReservingSemaphore (int64 (n + 1)),
     cp_nonTerminalSem = newResizableSemaphore n, cp_spawns = [], cp_resize = CapIdle\<rparr> else None)"

definition SpawnSlotsInUse :: "SpawnCap option \<Rightarrow> int" where
  "SpawnSlotsInUse c = (case c of None \<Rightarrow> 0 | Some c \<Rightarrow> sm_inUse (cp_spawnSem c))"

definition SpawnCapSize :: "SpawnCap option \<Rightarrow> int" where
  "SpawnCapSize c = (case c of None \<Rightarrow> 0 | Some c \<Rightarrow> sm_capacity (cp_nonTerminalSem c))"

abbreviation spawnAt :: "SpawnCap \<Rightarrow> nat \<Rightarrow> Spawn" where "spawnAt c i \<equiv> cp_spawns c ! i"

definition goto :: "nat \<Rightarrow> SpawnPc \<Rightarrow> SpawnCap \<Rightarrow> SpawnCap" where
  "goto i pc c = c\<lparr>cp_spawns := (cp_spawns c)[i := (spawnAt c i)\<lparr>sp_pc := pc\<rparr>]\<rparr>"

text \<open>
  The next critical section of spawn \<open>i\<close> in \<open>acquireSpawnSlot\<close>; \<open>None\<close> when it has to wait. \<open>bounded\<close>
  says that \<open>spawnAcquireTimeout\<close> is positive; a terminal spawn waits without a bound.
\<close>

definition acquireSpawnSlot :: "bool \<Rightarrow> nat \<Rightarrow> SpawnCap \<Rightarrow> SpawnCap option" where
  "acquireSpawnSlot bounded i c = (let p = spawnAt c i in case sp_pc p of
       SpStart \<Rightarrow> (if sp_terminal p
          then (case TryAcquire (cp_spawnSem c) of
             (True, s) \<Rightarrow> Some (goto i SpRunning (c\<lparr>cp_spawnSem := s\<rparr>)) | (False, s) \<Rightarrow> Some (goto i SpWaitS c))
          else (case TryAcquire (cp_nonTerminalSem c) of
             (True, s) \<Rightarrow> Some (goto i SpHoldN (c\<lparr>cp_nonTerminalSem := s\<rparr>)) | (False, s) \<Rightarrow> Some (goto i SpWaitN c)))
     | SpWaitN \<Rightarrow> (case acquireWake (sp_cancelled p) (bounded \<and> sp_over p) (cp_nonTerminalSem c) of
          (Acquired, s) \<Rightarrow> Some (goto i SpHoldN (c\<lparr>cp_nonTerminalSem := s\<rparr>))
        | (AcqContext, _) \<Rightarrow> Some (goto i (SpDone (Some ErrSpawnContext)) c)
        | (AcqTimeout, _) \<Rightarrow> Some (goto i (SpDone (Some ErrSpawnCapTimeout)) c)
        | (AcqWait, _) \<Rightarrow> None)
     | SpHoldN \<Rightarrow> (case TryAcquire (cp_spawnSem c) of
          (True, s) \<Rightarrow> Some (goto i SpRunning (c\<lparr>cp_spawnSem := s\<rparr>))
        | (False, _) \<Rightarrow> Some (goto i (if bounded \<and> sp_over p then SpDropN ErrSpawnCapTimeout else SpWaitS) c))
     | SpWaitS \<Rightarrow> (let failed = (\<lambda>e. if sp_terminal p then SpDone (Some e) else SpDropN e) in
        case acquireWake (sp_cancelled p) (bounded \<and> \<not> sp_terminal p \<and> sp_over p) (cp_spawnSem c) of
          (Acquired, s) \<Rightarrow> Some (goto i SpRunning (c\<lparr>cp_spawnSem := s\<rparr>))
        | (AcqContext, _) \<Rightarrow> Some (goto i (failed ErrSpawnContext) c)
        | (AcqTimeout, _) \<Rightarrow> Some (goto i (failed ErrSpawnCapTimeout) c)
        | (AcqWait, _) \<Rightarrow> None)
     | SpDropN e \<Rightarrow> Some (goto i (SpDone (Some e)) (c\<lparr>cp_nonTerminalSem := Release (cp_nonTerminalSem c)\<rparr>))
     | _ \<Rightarrow> None)"

text \<open>The two halves of \<open>releaseSpawnSlotFor\<close>, which a session runs once, when it is killed or its window fails.\<close>

definition releaseSpawnSlotFor :: "nat \<Rightarrow> SpawnCap \<Rightarrow> SpawnCap option" where
  "releaseSpawnSlotFor i c = (case sp_pc (spawnAt c i) of
       SpRunning \<Rightarrow> Some (goto i (if sp_terminal (spawnAt c i) then SpDone None else SpReleaseN) (c\<lparr>cp_spawnSem := Release (cp_spawnSem c)\<rparr>))
     | SpReleaseN \<Rightarrow> Some (goto i (SpDone None) (c\<lparr>cp_nonTerminalSem := Release (cp_nonTerminalSem c)\<rparr>))
     | _ \<Rightarrow> None)"

text \<open>\<open>SetSpawnCap\<close> up to the gap between its two moves, and the second move.\<close>

definition SetSpawnCap :: "int \<Rightarrow> SpawnCap \<Rightarrow> SpawnCap" where
  "SetSpawnCap n c =
     (if n \<le> 0 then c
      else if n = sm_capacity (cp_nonTerminalSem c) then c
      else if n > sm_capacity (cp_nonTerminalSem c)
        then c\<lparr>cp_spawnSem := SetCapacityKeepingOneFree (int64 (n + 1)) (cp_spawnSem c), cp_resize := CapRaising n\<rparr>
      else c\<lparr>cp_nonTerminalSem := SetCapacity n (cp_nonTerminalSem c), cp_resize := CapLowering n\<rparr>)"

definition SetSpawnCap_second :: "SpawnCap \<Rightarrow> SpawnCap option" where
  "SetSpawnCap_second c = (case cp_resize c of
       CapIdle \<Rightarrow> None
     | CapRaising n \<Rightarrow> Some (c\<lparr>cp_nonTerminalSem := SetCapacity n (cp_nonTerminalSem c), cp_resize := CapIdle\<rparr>)
     | CapLowering n \<Rightarrow> Some (c\<lparr>cp_spawnSem := SetCapacityKeepingOneFree (int64 (n + 1)) (cp_spawnSem c), cp_resize := CapIdle\<rparr>))"

text \<open>
  The steps of the cap on its own, and all steps. \<open>allowed\<close> says which resizes are asked for, from
  the cap in force and the new one.
\<close>

inductive cap_own :: "bool \<Rightarrow> SpawnCap \<Rightarrow> SpawnCap \<Rightarrow> bool" for bounded where
  acquire: "i < length (cp_spawns c) \<Longrightarrow> acquireSpawnSlot bounded i c = Some c' \<Longrightarrow> cap_own bounded c c'"
| release: "i < length (cp_spawns c) \<Longrightarrow> releaseSpawnSlotFor i c = Some c' \<Longrightarrow> cap_own bounded c c'"
| second: "SetSpawnCap_second c = Some c' \<Longrightarrow> cap_own bounded c c'"

inductive cap_step :: "(int \<Rightarrow> int \<Rightarrow> bool) \<Rightarrow> bool \<Rightarrow> SpawnCap \<Rightarrow> SpawnCap \<Rightarrow> bool" for allowed bounded where
  own: "cap_own bounded c c' \<Longrightarrow> cap_step allowed bounded c c'"
| spawn: "cap_step allowed bounded c (c\<lparr>cp_spawns := cp_spawns c @ [\<lparr>sp_terminal = t, sp_cancelled = False, sp_over = False, sp_pc = SpStart\<rparr>]\<rparr>)"
| cancel: "cap_step allowed bounded c (c\<lparr>cp_spawns := (cp_spawns c)[i := (spawnAt c i)\<lparr>sp_cancelled := True\<rparr>]\<rparr>)"
| expire: "cap_step allowed bounded c (c\<lparr>cp_spawns := (cp_spawns c)[i := (spawnAt c i)\<lparr>sp_over := True\<rparr>]\<rparr>)"
| resize: "cp_resize c = CapIdle \<Longrightarrow> allowed (sm_capacity (cp_nonTerminalSem c)) n \<Longrightarrow> cap_step allowed bounded c (SetSpawnCap n c)"

section \<open>The invariant\<close>

text \<open>A spawn between the two semaphores holds the non-terminal slot alone.\<close>

fun holdsN :: "Spawn \<Rightarrow> bool" where
  "holdsN p \<longleftrightarrow> sp_pc p = SpHoldN \<or> sp_pc p = SpReleaseN \<or> (\<exists>e. sp_pc p = SpDropN e) \<or> \<not> sp_terminal p \<and> (sp_pc p = SpWaitS \<or> sp_pc p = SpRunning)"

fun holdsS :: "Spawn \<Rightarrow> bool" where "holdsS p \<longleftrightarrow> sp_pc p = SpRunning"

definition holders :: "(Spawn \<Rightarrow> bool) \<Rightarrow> SpawnCap \<Rightarrow> nat" where
  "holders P c = sum_list (map (\<lambda>p. if P p then 1 else 0) (cp_spawns c))"

definition pc_ok :: "Spawn \<Rightarrow> bool" where
  "pc_ok p \<longleftrightarrow> (sp_terminal p \<longrightarrow> sp_pc p \<in> {SpStart, SpWaitS, SpRunning} \<or> (\<exists>r. sp_pc p = SpDone r))"

definition slots_ok :: "SpawnCap \<Rightarrow> bool" where
  "slots_ok c \<longleftrightarrow> sm_inUse (cp_spawnSem c) = int (holders holdsS c) \<and> sm_inUse (cp_nonTerminalSem c) = int (holders holdsN c)
     \<and> (\<forall>p \<in> set (cp_spawns c). pc_ok p)"

definition sem_ok :: "resizableSemaphore \<Rightarrow> bool" where
  "sem_ok s \<longleftrightarrow> sm_keepsOneFree s \<and> 1 < sm_desired s \<and> sm_desired s \<le> sm_capacity s \<and> sm_inUse s \<le> sm_capacity s
     \<and> (sm_desired s < sm_capacity s \<longrightarrow> sm_capacity s \<le> sm_inUse s + 1)"

definition caps_ok :: "SpawnCap \<Rightarrow> bool" where
  "caps_ok c \<longleftrightarrow> sem_ok (cp_spawnSem c) \<and> \<not> sm_keepsOneFree (cp_nonTerminalSem c) \<and> 0 < sm_capacity (cp_nonTerminalSem c)
     \<and> sm_capacity (cp_nonTerminalSem c) < 2 ^ 63 - 1
     \<and> (case cp_resize c of
          CapIdle \<Rightarrow> sm_desired (cp_spawnSem c) = sm_capacity (cp_nonTerminalSem c) + 1
        | CapRaising n \<Rightarrow> sm_desired (cp_spawnSem c) = n + 1 \<and> sm_capacity (cp_nonTerminalSem c) < n \<and> n < 2 ^ 63 - 1
        | CapLowering n \<Rightarrow> sm_capacity (cp_nonTerminalSem c) = n \<and> n + 1 < sm_desired (cp_spawnSem c))"

definition cap_inv :: "SpawnCap \<Rightarrow> bool" where "cap_inv c \<longleftrightarrow> slots_ok c \<and> caps_ok c"

lemma goto_simps [simp]:
  "cp_spawnSem (goto i pc c) = cp_spawnSem c" "cp_nonTerminalSem (goto i pc c) = cp_nonTerminalSem c" "cp_resize (goto i pc c) = cp_resize c"
  "holders P (c\<lparr>cp_spawnSem := s\<rparr>) = holders P c" "holders P (c\<lparr>cp_nonTerminalSem := s\<rparr>) = holders P c" "holders P (c\<lparr>cp_resize := r\<rparr>) = holders P c"
  "cp_spawns (goto i pc c) = (cp_spawns c)[i := (spawnAt c i)\<lparr>sp_pc := pc\<rparr>]"
  by (simp_all add: goto_def holders_def)

lemma holders_pos: "i < length (cp_spawns c) \<Longrightarrow> P (spawnAt c i) \<Longrightarrow> 0 < holders P c"
  using elem_le_sum_list [of i "map (\<lambda>p. if P p then 1 else 0 :: nat) (cp_spawns c)"] by (simp add: holders_def)

lemma slots_move:
  assumes "slots_ok c" and i: "i < length (cp_spawns c)" and up: "cp_spawns c' = (cp_spawns c)[i := spawnAt c' i]"
    and S: "sm_inUse (cp_spawnSem c') = sm_inUse (cp_spawnSem c) + of_bool (holdsS (spawnAt c' i)) - of_bool (holdsS (spawnAt c i))"
    and N: "sm_inUse (cp_nonTerminalSem c') = sm_inUse (cp_nonTerminalSem c) + of_bool (holdsN (spawnAt c' i)) - of_bool (holdsN (spawnAt c i))"
    and ok: "pc_ok (spawnAt c' i)"
  shows "slots_ok c'"
proof -
  have h: "int (holders P c') = int (holders P c) + of_bool (P (spawnAt c' i)) - of_bool (P (spawnAt c i))" for P
    using sum_list_map_update [OF i, of "\<lambda>p. if P p then 1 else 0" "spawnAt c' i"] up by (simp add: holders_def split: if_splits)
  have "set (cp_spawns c') \<subseteq> insert (spawnAt c' i) (set (cp_spawns c))" using up set_update_subset_insert by metis
  then have "\<forall>p \<in> set (cp_spawns c'). pc_ok p" using assms(1) ok by (auto simp: slots_ok_def)
  then show ?thesis using assms(1) unfolding slots_ok_def S N h by simp
qed

lemma slots_acquire:
  assumes ok: "slots_ok c" and i: "i < length (cp_spawns c)" and a: "acquireSpawnSlot bounded i c = Some c'"
  shows "slots_ok c'"
proof -
  have p: "pc_ok (spawnAt c i)" using ok i by (simp add: slots_ok_def)
  have u: "0 < sm_inUse (cp_nonTerminalSem c)" if "holdsN (spawnAt c i)"
    using holders_pos [OF i, of holdsN, OF that] ok by (simp add: slots_ok_def)
  show ?thesis
  proof (cases "sp_pc (spawnAt c i)")
    case SpStart
    show ?thesis by (rule slots_move [OF ok i]; insert a p i SpStart; auto simp: acquireSpawnSlot_def TryAcquire_def Let_def pc_ok_def split: if_splits)
  next
    case SpWaitN
    show ?thesis by (rule slots_move [OF ok i]; insert a p i SpWaitN; auto simp: acquireSpawnSlot_def acquireWake_def Let_def pc_ok_def split: if_splits)
  next
    case SpHoldN
    show ?thesis by (rule slots_move [OF ok i]; insert a p i SpHoldN; auto simp: acquireSpawnSlot_def TryAcquire_def Let_def pc_ok_def split: if_splits)
  next
    case SpWaitS
    show ?thesis by (rule slots_move [OF ok i]; insert a p i SpWaitS; auto simp: acquireSpawnSlot_def acquireWake_def pc_ok_def Let_def split: if_splits)
  next
    case (SpDropN e)
    show ?thesis by (rule slots_move [OF ok i]; insert a p i u SpDropN; auto simp: acquireSpawnSlot_def Release_def pc_ok_def Let_def split: if_splits)
  qed (insert a, simp_all add: acquireSpawnSlot_def)
qed

lemma slots_release:
  assumes ok: "slots_ok c" and i: "i < length (cp_spawns c)" and a: "releaseSpawnSlotFor i c = Some c'"
  shows "slots_ok c'"
proof -
  have p: "pc_ok (spawnAt c i)" using ok i by (simp add: slots_ok_def)
  have u: "holdsN (spawnAt c i) \<longrightarrow> 0 < sm_inUse (cp_nonTerminalSem c)" "holdsS (spawnAt c i) \<longrightarrow> 0 < sm_inUse (cp_spawnSem c)"
    using holders_pos [OF i, of holdsN] holders_pos [OF i, of holdsS] ok by (auto simp: slots_ok_def)
  show ?thesis
    by (rule slots_move [OF ok i]; use a p u i in \<open>cases "sp_pc (spawnAt c i)"; auto simp: releaseSpawnSlotFor_def Release_def Let_def pc_ok_def split: if_splits\<close>)
qed

text \<open>The capacities: an acquire, a release and the two moves of a resize.\<close>

lemma sem_acquired: "sem_ok s \<Longrightarrow> sm_inUse s < sm_capacity s \<Longrightarrow> sem_ok (s\<lparr>sm_inUse := sm_inUse s + 1\<rparr>)"
  by (auto simp: sem_ok_def)

lemma sem_released:
  "sem_ok s \<Longrightarrow> sem_ok (Release s) \<and> sm_desired (Release s) = sm_desired s"
  by (auto simp: sem_ok_def Release_def Let_def capacityKeepingOneFree_def)

lemma sem_resized:
  assumes "sem_ok s" and "1 < n"
  shows "sem_ok (SetCapacityKeepingOneFree n s) \<and> sm_desired (SetCapacityKeepingOneFree n s) = n"
  using assms by (auto simp: sem_ok_def SetCapacityKeepingOneFree_def capacityKeepingOneFree_def)

lemma plain_released: "\<not> sm_keepsOneFree s \<Longrightarrow> sm_capacity (Release s) = sm_capacity s \<and> \<not> sm_keepsOneFree (Release s)"
  by (simp add: Release_def Let_def)

lemma caps_cong:
  assumes "caps_ok c" and "cp_resize c' = cp_resize c" and "sem_ok (cp_spawnSem c')" "sm_desired (cp_spawnSem c') = sm_desired (cp_spawnSem c)"
    and "sm_capacity (cp_nonTerminalSem c') = sm_capacity (cp_nonTerminalSem c)" "\<not> sm_keepsOneFree (cp_nonTerminalSem c')"
  shows "caps_ok c'"
  using assms by (auto simp: caps_ok_def split: CapResize.splits)

lemma caps_acquire:
  assumes ok: "caps_ok c" and a: "acquireSpawnSlot bounded i c = Some c'"
  shows "caps_ok c'"
proof -
  have "sem_ok (cp_spawnSem c)" "\<not> sm_keepsOneFree (cp_nonTerminalSem c)" using ok by (simp_all add: caps_ok_def)
  then show ?thesis
    by (intro caps_cong [OF ok]; use a in \<open>cases "sp_pc (spawnAt c i)"; auto simp: acquireSpawnSlot_def TryAcquire_def acquireWake_def Let_def plain_released not_le
        intro!: sem_acquired split: if_splits\<close>)
qed

lemma caps_release:
  assumes ok: "caps_ok c" and a: "releaseSpawnSlotFor i c = Some c'"
  shows "caps_ok c'"
proof -
  have "sem_ok (cp_spawnSem c)" "\<not> sm_keepsOneFree (cp_nonTerminalSem c)" using ok by (simp_all add: caps_ok_def)
  then show ?thesis
    by (intro caps_cong [OF ok]; use a in \<open>cases "sp_pc (spawnAt c i)"; auto simp: releaseSpawnSlotFor_def plain_released sem_released split: if_splits\<close>)
qed

lemma caps_second: "caps_ok c \<Longrightarrow> SetSpawnCap_second c = Some c' \<Longrightarrow> caps_ok c'"
  by (auto simp: caps_ok_def SetSpawnCap_second_def SetCapacity_def sem_resized split: CapResize.splits)

lemma caps_resize:
  assumes "caps_ok c" and "cp_resize c = CapIdle" and "n < 2 ^ 63 - 1"
  shows "caps_ok (SetSpawnCap n c)"
  using assms by (auto simp: caps_ok_def SetSpawnCap_def SetCapacity_def sem_resized)

lemma slots_sems:
  assumes "slots_ok c" and "cp_spawns c' = cp_spawns c" and "sm_inUse (cp_spawnSem c') = sm_inUse (cp_spawnSem c)"
    and "sm_inUse (cp_nonTerminalSem c') = sm_inUse (cp_nonTerminalSem c)"
  shows "slots_ok c'"
  using assms by (simp add: slots_ok_def holders_def)

lemma slots_second: "slots_ok c \<Longrightarrow> SetSpawnCap_second c = Some c' \<Longrightarrow> slots_ok c'"
  by (erule slots_sems) (auto simp: SetSpawnCap_second_def SetCapacity_def SetCapacityKeepingOneFree_def split: CapResize.splits)

lemma slots_resize: "slots_ok c \<Longrightarrow> slots_ok (SetSpawnCap n c)"
  by (erule slots_sems) (auto simp: SetSpawnCap_def SetCapacity_def SetCapacityKeepingOneFree_def)

lemma slots_flag:
  assumes "slots_ok c" and "\<And>p. pc_ok p \<Longrightarrow> pc_ok (f p)" "\<And>p. sp_pc (f p) = sp_pc p \<and> sp_terminal (f p) = sp_terminal p"
  shows "slots_ok (c\<lparr>cp_spawns := (cp_spawns c)[i := f (spawnAt c i)]\<rparr>)"
proof (cases "i < length (cp_spawns c)")
  case True
  show ?thesis by (rule slots_move [OF assms(1) True]) (use assms True in \<open>simp_all add: slots_ok_def\<close>)
next
  case False
  then show ?thesis using assms(1) by (simp add: list_update_beyond)
qed

lemma cap_inv_own: "cap_inv c \<Longrightarrow> cap_own bounded c c' \<Longrightarrow> cap_inv c'"
  by (erule cap_own.cases) (auto simp: cap_inv_def intro: slots_acquire slots_release slots_second caps_acquire caps_release caps_second)

lemma cap_inv_step:
  assumes "\<And>m n. allowed m n \<Longrightarrow> n < 2 ^ 63 - 1" and inv: "cap_inv c" and "cap_step allowed bounded c c'"
  shows "cap_inv c'"
  using assms(3)
proof cases
  case own
  then show ?thesis using inv by (blast intro: cap_inv_own)
next
  case (spawn t)
  then show ?thesis using inv by (auto simp: cap_inv_def slots_ok_def caps_ok_def holders_def pc_ok_def split: CapResize.splits)
next
  case (cancel i)
  have "slots_ok c'" unfolding cancel by (rule slots_flag) (use inv in \<open>auto simp: cap_inv_def pc_ok_def\<close>)
  then show ?thesis using inv cancel by (auto simp: cap_inv_def caps_ok_def split: CapResize.splits)
next
  case (expire i)
  have "slots_ok c'" unfolding expire by (rule slots_flag) (use inv in \<open>auto simp: cap_inv_def pc_ok_def\<close>)
  then show ?thesis using inv expire by (auto simp: cap_inv_def caps_ok_def split: CapResize.splits)
next
  case (resize n)
  then show ?thesis using inv assms(1) caps_resize slots_resize by (auto simp: cap_inv_def)
qed

section \<open>Settling\<close>

fun pcWork :: "SpawnPc \<Rightarrow> nat" where
  "pcWork SpStart = 6" | "pcWork SpWaitN = 5" | "pcWork SpHoldN = 4" | "pcWork SpWaitS = 3" | "pcWork SpRunning = 2"
| "pcWork (SpDropN e) = 1" | "pcWork SpReleaseN = 1" | "pcWork (SpDone r) = 0"

definition cap_work :: "SpawnCap \<Rightarrow> nat" where
  "cap_work c = sum_list (map (\<lambda>p. pcWork (sp_pc p)) (cp_spawns c)) + (if cp_resize c = CapIdle then 0 else 1)"

definition cap_rest :: "SpawnCap \<Rightarrow> bool" where
  "cap_rest c \<longleftrightarrow> cp_resize c = CapIdle \<and> (\<forall>p \<in> set (cp_spawns c). \<exists>r. sp_pc p = SpDone r)"


text \<open>A step of a spawn moves its program counter down and leaves the capacities asked for.\<close>

lemma spawn_moves:
  assumes "acquireSpawnSlot bounded i c = Some c' \<or> releaseSpawnSlotFor i c = Some c'" and "i < length (cp_spawns c)"
  shows "cp_spawns c' = (cp_spawns c)[i := (spawnAt c i)\<lparr>sp_pc := sp_pc (spawnAt c' i)\<rparr>]
    \<and> pcWork (sp_pc (spawnAt c' i)) < pcWork (sp_pc (spawnAt c i)) \<and> cp_resize c' = cp_resize c
    \<and> (\<not> sm_keepsOneFree (cp_nonTerminalSem c) \<longrightarrow> sm_capacity (cp_nonTerminalSem c') = sm_capacity (cp_nonTerminalSem c))"
  using assms by (cases "sp_pc (spawnAt c i)")
    (auto simp: acquireSpawnSlot_def releaseSpawnSlotFor_def TryAcquire_def acquireWake_def plain_released Let_def split: if_splits)

lemma spawn_work:
  assumes "acquireSpawnSlot bounded i c = Some c' \<or> releaseSpawnSlotFor i c = Some c'" and "i < length (cp_spawns c)"
  shows "cap_work c' < cap_work c"
  using sum_list_map_update [OF assms(2), of "\<lambda>p. pcWork (sp_pc p)" "(spawnAt c i)\<lparr>sp_pc := sp_pc (spawnAt c' i)\<rparr>"] spawn_moves [OF assms]
  by (auto simp: cap_work_def)

lemma cap_own_less: "cap_own bounded c c' \<Longrightarrow> cap_work c' < cap_work c"
  by (erule cap_own.cases) (auto simp: SetSpawnCap_second_def cap_work_def split: CapResize.splits dest: spawn_work [rotated])


text \<open>Unless everything is over somebody can move: a wait for a slot is a wait for a session that can be killed.\<close>

lemma holders_zero: "holders P c = 0 \<longleftrightarrow> (\<forall>p \<in> set (cp_spawns c). \<not> P p)"
  by (auto simp: holders_def)

lemma cap_own_progress:
  assumes inv: "cap_inv c" and busy: "\<not> cap_rest c"
  shows "\<exists>c'. cap_own bounded c c'"
proof (rule ccontr)
  assume stuck: "\<nexists>c'. cap_own bounded c c'"
  have r: "cp_resize c = CapIdle"
    using stuck cap_own.second [of c] by (cases "cp_resize c") (auto simp: SetSpawnCap_second_def)
  have none: "acquireSpawnSlot bounded i c = None" "releaseSpawnSlotFor i c = None" if "i < length (cp_spawns c)" for i
    using stuck cap_own.acquire [OF that] cap_own.release [OF that] by (meson not_Some_eq)+
  have waits: "sp_pc p \<in> {SpWaitN, SpWaitS} \<or> (\<exists>r. sp_pc p = SpDone r)" if "p \<in> set (cp_spawns c)" for p
  proof -
    obtain i where "i < length (cp_spawns c)" "p = spawnAt c i" using \<open>p \<in> _\<close> by (auto simp: in_set_conv_nth)
    then show ?thesis using none [of i]
      by (cases "sp_pc p") (auto simp: acquireSpawnSlot_def releaseSpawnSlotFor_def TryAcquire_def Let_def split: if_splits)
  qed
  have free: "sm_inUse (cp_spawnSem c) < sm_capacity (cp_spawnSem c)"
  proof -
    have "holders holdsS c = 0" unfolding holders_zero using waits by fastforce
    then show ?thesis using inv by (auto simp: cap_inv_def slots_ok_def caps_ok_def sem_ok_def)
  qed
  have noS: "sp_pc p \<noteq> SpWaitS" if "p \<in> set (cp_spawns c)" for p
  proof -
    obtain i where "i < length (cp_spawns c)" "p = spawnAt c i" using \<open>p \<in> _\<close> by (auto simp: in_set_conv_nth)
    then show ?thesis using none [of i] free by (auto simp: acquireSpawnSlot_def acquireWake_def Let_def)
  qed
  then have "holders holdsN c = 0" using waits by (fastforce simp: holders_zero)
  then have freeN: "sm_inUse (cp_nonTerminalSem c) < sm_capacity (cp_nonTerminalSem c)"
    using inv by (auto simp: cap_inv_def slots_ok_def caps_ok_def)
  have "sp_pc p \<noteq> SpWaitN" if "p \<in> set (cp_spawns c)" for p
  proof -
    obtain i where "i < length (cp_spawns c)" "p = spawnAt c i" using \<open>p \<in> _\<close> by (auto simp: in_set_conv_nth)
    then show ?thesis using none [of i] freeN by (auto simp: acquireSpawnSlot_def acquireWake_def Let_def)
  qed
  then show False using busy r waits noS by (fastforce simp: cap_rest_def)
qed

text \<open>The resizes: any that does not wrap around, and only those that raise the cap.\<close>

definition resizable :: "int \<Rightarrow> int \<Rightarrow> bool" where "resizable m n \<longleftrightarrow> n < 2 ^ 63 - 1"
definition raising :: "int \<Rightarrow> int \<Rightarrow> bool" where "raising m n \<longleftrightarrow> m \<le> n \<and> n < 2 ^ 63 - 1"

definition cap_start :: "SpawnCap \<Rightarrow> bool" where
  "cap_start c \<longleftrightarrow> (\<exists>n < 2 ^ 63 - 1. WithSpawnCap n = Some c)"

lemma cap_inv_start: "cap_start c \<Longrightarrow> cap_inv c"
  by (auto simp: cap_start_def WithSpawnCap_def cap_inv_def slots_ok_def holders_def caps_ok_def sem_ok_def
      newReservingSemaphore_def newResizableSemaphore_def split: if_splits)

interpretation spawn_cap: settling_system "cap_step resizable bounded" cap_start cap_inv "cap_own bounded" cap_rest cap_work
  for bounded
proof unfold_locales
  show "cap_inv c'" if "cap_inv c" "cap_step resizable bounded c c'" for c c'
    by (rule cap_inv_step [OF _ that]) (simp add: resizable_def)
qed (rule cap_inv_start cap_step.own cap_own_less cap_own_progress; assumption)+

text \<open>While the cap is only raised, the sessions that are not terminal fit the non-terminal cap.\<close>

definition reserve_inv :: "SpawnCap \<Rightarrow> bool" where
  "reserve_inv c \<longleftrightarrow> cap_inv c \<and> sm_inUse (cp_nonTerminalSem c) \<le> sm_capacity (cp_nonTerminalSem c) \<and> (\<forall>n. cp_resize c \<noteq> CapLowering n)"

lemma acquire_within:
  assumes "acquireSpawnSlot bounded i c = Some c' \<or> releaseSpawnSlotFor i c = Some c'" "\<not> sm_keepsOneFree (cp_nonTerminalSem c)"
    "sm_inUse (cp_nonTerminalSem c) \<le> sm_capacity (cp_nonTerminalSem c)"
  shows "sm_inUse (cp_nonTerminalSem c') \<le> sm_capacity (cp_nonTerminalSem c') \<and> cp_resize c' = cp_resize c"
  using assms by (cases "sp_pc (spawnAt c i)")
    (auto simp: acquireSpawnSlot_def releaseSpawnSlotFor_def TryAcquire_def acquireWake_def Release_def Let_def split: if_splits)

lemma reserve_own: "reserve_inv c \<Longrightarrow> cap_own bounded c c' \<Longrightarrow> reserve_inv c'"
proof -
  assume inv: "reserve_inv c" and st: "cap_own bounded c c'"
  have n: "\<not> sm_keepsOneFree (cp_nonTerminalSem c)" "sm_inUse (cp_nonTerminalSem c) \<le> sm_capacity (cp_nonTerminalSem c)"
    using inv by (simp_all add: reserve_inv_def cap_inv_def caps_ok_def)
  have "sm_inUse (cp_nonTerminalSem c') \<le> sm_capacity (cp_nonTerminalSem c') \<and> (\<forall>n. cp_resize c' \<noteq> CapLowering n)"
    using st
  proof cases
    case second
    then show ?thesis using inv by (auto simp: SetSpawnCap_second_def SetCapacity_def reserve_inv_def cap_inv_def caps_ok_def split: CapResize.splits)
  qed (use inv in \<open>metis acquire_within [OF _ n] reserve_inv_def\<close>)+
  then show "reserve_inv c'" using inv st by (auto simp: reserve_inv_def intro: cap_inv_own)
qed

lemma reserve_step:
  assumes "reserve_inv c" and "cap_step raising bounded c c'"
  shows "reserve_inv c'"
proof -
  have "cap_inv c'" using cap_inv_step [OF _ _ assms(2)] assms(1) by (auto simp: raising_def reserve_inv_def)
  moreover have "sm_inUse (cp_nonTerminalSem c') \<le> sm_capacity (cp_nonTerminalSem c') \<and> (\<forall>n. cp_resize c' \<noteq> CapLowering n)"
    using assms(2)
  proof cases
    case own
    then show ?thesis using reserve_own [OF assms(1)] by (simp add: reserve_inv_def)
  qed (use assms(1) in \<open>auto simp: reserve_inv_def SetSpawnCap_def SetCapacityKeepingOneFree_def raising_def\<close>)
  ultimately show ?thesis by (simp add: reserve_inv_def)
qed

interpretation raised_cap: transition_system "cap_step raising bounded" cap_start reserve_inv
  for bounded
proof unfold_locales
  fix c assume "cap_start c"
  then show "reserve_inv c" using cap_inv_start [of c]
    by (auto simp: reserve_inv_def cap_start_def WithSpawnCap_def newResizableSemaphore_def split: if_splits)
qed (rule reserve_step)

lemma running_le: "\<forall>p \<in> set (cp_spawns c). \<not> (sp_terminal p \<and> sp_pc p = SpRunning) \<Longrightarrow> holders holdsS c \<le> holders holdsN c"
  unfolding holders_def by (rule sum_list_mono) auto

lemma reserve_free:
  assumes "cap_inv c" "sm_inUse (cp_nonTerminalSem c) \<le> sm_capacity (cp_nonTerminalSem c)" "\<forall>p \<in> set (cp_spawns c). \<not> (sp_terminal p \<and> sp_pc p = SpRunning)"
  shows "sm_inUse (cp_spawnSem c) < sm_capacity (cp_spawnSem c)"
  using running_le [OF assms(3)] assms(1,2) by (auto simp: cap_inv_def slots_ok_def caps_ok_def sem_ok_def split: CapResize.splits)

section \<open>The dispatch ceiling and its command\<close>

text \<open>The ceiling is an \<^verbatim>\<open>atomic.Int32\<close>.\<close>

definition NewConcurrencyController :: "int \<Rightarrow> int" where
  "NewConcurrencyController initial = int32 (if initial < 1 then 1 else initial)"

definition ConcurrencyController_Set :: "int \<Rightarrow> int \<Rightarrow> (int \<times> int) option" where
  "ConcurrencyController_Set n val = (if n < 1 then None else Some (val, int32 n))"

datatype SetConcurrencyError = InvalidConcurrency | ConcurrencyNotWired
  | SpawnCapExceeded (requested: int) (spawnCap: int) (hostBound: "int option") (safeMax: int)

text \<open>
  The wiring of the adapter: the floor and ceiling of the spawn cap, and whether the substrate can
  be resized and the ceiling set.
\<close>

record CapPorts =
  po_spawnCapFloor :: int
  po_spawnCapCeiling :: int
  po_spawnCapSet :: bool
  po_concurrencySet :: bool

definition SetSpawnCapBounds :: "int \<Rightarrow> int \<Rightarrow> CapPorts \<Rightarrow> CapPorts" where
  "SetSpawnCapBounds floor ceiling a = a\<lparr>po_spawnCapFloor := floor,
     po_spawnCapCeiling := (if ceiling > 0 \<and> floor > ceiling then floor else ceiling)\<rparr>"

definition resolveSpawnCap :: "CapPorts \<Rightarrow> int \<Rightarrow> int \<Rightarrow> SetConcurrencyError + int" where
  "resolveSpawnCap a n currentCap =
     (let want = int64 (n * 2); want = (if want < po_spawnCapFloor a then po_spawnCapFloor a else want) in
      if want \<le> currentCap then Inr want
      else if \<not> po_spawnCapSet a then Inl (SpawnCapExceeded n currentCap None (currentCap div 2))
      else if po_spawnCapCeiling a > 0 \<and> want > po_spawnCapCeiling a
        then Inl (SpawnCapExceeded n currentCap (Some (po_spawnCapCeiling a)) (po_spawnCapCeiling a div 2))
      else Inr want)"

text \<open>Both moves of \<open>SetSpawnCap\<close>, which the caller waits for.\<close>

definition SetSpawnCap_both :: "int \<Rightarrow> SpawnCap \<Rightarrow> SpawnCap" where
  "SetSpawnCap_both n c = (case SetSpawnCap_second (SetSpawnCap n c) of None \<Rightarrow> SetSpawnCap n c | Some c' \<Rightarrow> c')"

text \<open>The answer is the old ceiling, the new one and the spawn cap; then the cap and the ceiling in force.\<close>

definition HandleQueueSetConcurrency ::
    "CapPorts \<Rightarrow> int \<Rightarrow> SpawnCap option \<Rightarrow> int \<Rightarrow> (SetConcurrencyError + int \<times> int \<times> int) \<times> SpawnCap option \<times> int" where
  "HandleQueueSetConcurrency a n c val =
     (if n < 1 then (Inl InvalidConcurrency, c, val)
      else if \<not> po_concurrencySet a then (Inl ConcurrencyNotWired, c, val)
      else let cap = SpawnCapSize c; answer = (\<lambda>cap c. case ConcurrencyController_Set n val of
             None \<Rightarrow> (Inl InvalidConcurrency, c, val) | Some (old, new) \<Rightarrow> (Inr (old, n, cap), c, new)) in
        if cap > 0 then (case resolveSpawnCap a n cap of
            Inl e \<Rightarrow> (Inl e, c, val)
          | Inr newCap \<Rightarrow> if po_spawnCapSet a \<and> newCap \<noteq> cap then answer newCap (map_option (SetSpawnCap_both newCap) c) else answer cap c)
        else answer cap c)"

section \<open>Concrete runs\<close>

datatype CapMove = MoveSpawn bool | MoveAcquire nat | MoveRelease nat | MoveResize int | MoveSecond

fun capMove :: "bool \<Rightarrow> CapMove \<Rightarrow> SpawnCap \<Rightarrow> SpawnCap option" where
  "capMove bounded (MoveSpawn t) c = Some (c\<lparr>cp_spawns := cp_spawns c @ [\<lparr>sp_terminal = t, sp_cancelled = False, sp_over = False, sp_pc = SpStart\<rparr>]\<rparr>)"
| "capMove bounded (MoveAcquire i) c = (if i < length (cp_spawns c) then acquireSpawnSlot bounded i c else None)"
| "capMove bounded (MoveRelease i) c = (if i < length (cp_spawns c) then releaseSpawnSlotFor i c else None)"
| "capMove bounded (MoveResize n) c = (if cp_resize c = CapIdle then Some (SetSpawnCap n c) else None)"
| "capMove bounded MoveSecond c = SetSpawnCap_second c"

fun capMoves :: "bool \<Rightarrow> CapMove list \<Rightarrow> SpawnCap \<Rightarrow> SpawnCap option" where
  "capMoves bounded [] c = Some c"
| "capMoves bounded (m # ms) c = Option.bind (capMove bounded m c) (capMoves bounded ms)"

lemma capMove_step:
  assumes "capMove bounded m c = Some c'" and "\<And>n. m = MoveResize n \<Longrightarrow> allowed (sm_capacity (cp_nonTerminalSem c)) n"
  shows "cap_step allowed bounded c c'"
  using assms by (cases m) (auto intro: cap_step.intros cap_own.intros split: if_splits)

lemma capMoves_path:
  "capMoves bounded ms c = Some c' \<Longrightarrow> (\<And>m n. MoveResize n \<in> set ms \<Longrightarrow> allowed m n) \<Longrightarrow> (cap_step allowed bounded)\<^sup>*\<^sup>* c c'"
proof (induction ms arbitrary: c)
  case (Cons m ms)
  then obtain d where d: "capMove bounded m c = Some d" "capMoves bounded ms d = Some c'" by (auto simp: bind_eq_Some_conv)
  have "cap_step allowed bounded c d" using d(1) Cons.prems(2) by (auto intro: capMove_step)
  then show ?case using Cons.IH [OF d(2)] Cons.prems(2) by (auto intro: converse_rtranclp_into_rtranclp)
qed simp

lemma case_SomeD: "(case x of None \<Rightarrow> False | Some c \<Rightarrow> P c) \<Longrightarrow> \<exists>c. x = Some c \<and> P c"
  by (cases x) auto

definition wit_cap :: SpawnCap where "wit_cap = the (WithSpawnCap 2)"

lemma wit_cap_start: "cap_start wit_cap"
  unfolding cap_start_def by (rule exI [of _ 2]) (simp add: wit_cap_def WithSpawnCap_def)

section \<open>Properties\<close>

text \<open>
  The spawn cap keeps its books at every instant, whatever the interleaving of spawns, kills,
  cancellations, timeouts and resizes. The slots in use are exactly the running sessions and
  exactly the non-terminal spawns that hold theirs; the total cap is never exceeded; it stays above
  the non-terminal cap by at least the reserved slot, also between the two moves of a resize; and
  what a resize left above the configured size is never idle: at most one slot of it is free.
\<close>

theorem spawn_cap_accounting:
  assumes "cap_start c0" and "(cap_step resizable bounded)\<^sup>*\<^sup>* c0 c"
  shows "sm_inUse (cp_spawnSem c) = int (length (filter (\<lambda>p. sp_pc p = SpRunning) (cp_spawns c)))
    \<and> sm_inUse (cp_nonTerminalSem c) = int (length (filter holdsN (cp_spawns c)))
    \<and> sm_inUse (cp_spawnSem c) \<le> sm_capacity (cp_spawnSem c)
    \<and> SpawnCapSize (Some c) + 1 \<le> sm_capacity (cp_spawnSem c)
    \<and> sm_capacity (cp_spawnSem c) \<le> max (sm_desired (cp_spawnSem c)) (SpawnSlotsInUse (Some c) + 1)
    \<and> (cp_resize c = CapIdle \<longrightarrow> sm_desired (cp_spawnSem c) = SpawnCapSize (Some c) + 1)"
proof -
  have inv: "cap_inv c" using spawn_cap.reach_inv [OF assms] .
  have count: "holders P c = length (filter P (cp_spawns c))" for P by (simp add: holders_def sum_list_map_filter' [symmetric] sum_list_triv)
  have "holdsS = (\<lambda>p. sp_pc p = SpRunning)" by (simp add: fun_eq_iff)
  then show ?thesis using inv count [of holdsS] count [of holdsN]
    by (auto simp: cap_inv_def slots_ok_def caps_ok_def sem_ok_def SpawnCapSize_def SpawnSlotsInUse_def split: CapResize.splits)
qed

theorem spawn_cap_accounting_witness:
  "\<exists>c. (cap_step resizable True)\<^sup>*\<^sup>* wit_cap c \<and> map sp_pc (cp_spawns c) = [SpRunning, SpRunning] \<and> sm_inUse (cp_spawnSem c) = 2
     \<and> sm_inUse (cp_spawnSem c) \<le> sm_capacity (cp_spawnSem c)"
proof -
  let ?ms = "[MoveSpawn False, MoveAcquire 0, MoveAcquire 0, MoveSpawn True, MoveAcquire 1]"
  have "case capMoves True ?ms wit_cap of None \<Rightarrow> False
      | Some c \<Rightarrow> map sp_pc (cp_spawns c) = [SpRunning, SpRunning] \<and> length (filter (\<lambda>p. sp_pc p = SpRunning) (cp_spawns c)) = 2" by code_simp
  from case_SomeD [OF this] obtain c where c: "capMoves True ?ms wit_cap = Some c
      \<and> map sp_pc (cp_spawns c) = [SpRunning, SpRunning] \<and> length (filter (\<lambda>p. sp_pc p = SpRunning) (cp_spawns c)) = 2" by (rule exE)
  have path: "(cap_step resizable True)\<^sup>*\<^sup>* wit_cap c" using conjunct1 [OF c] by (rule capMoves_path) (auto simp: resizable_def)
  show ?thesis using spawn_cap_accounting [OF wit_cap_start path] conjunct2 [OF c] path by (intro exI [of _ c]) simp
qed



text \<open>
  The terminal slot is reserved. As long as the cap is only ever raised, in any state in which no
  terminal session runs a slot is free: a terminal spawn gets it at its first attempt, and so does
  a non-terminal one that already passed its own cap, also between the two moves of a raise. After
  a lowering the same holds whenever the non-terminal slots in use fit the non-terminal cap.
\<close>

theorem terminal_reserve:
  assumes "cap_start c0" and "(cap_step raising bounded)\<^sup>*\<^sup>* c0 c \<or> (cap_step resizable bounded)\<^sup>*\<^sup>* c0 c \<and> sm_inUse (cp_nonTerminalSem c) \<le> SpawnCapSize (Some c)"
    and "\<forall>p \<in> set (cp_spawns c). \<not> (sp_terminal p \<and> sp_pc p = SpRunning)" and "i < length (cp_spawns c)"
    and "sp_terminal (spawnAt c i) \<and> sp_pc (spawnAt c i) = SpStart \<or> sp_pc (spawnAt c i) \<in> {SpHoldN, SpWaitS}"
  shows "\<exists>c'. acquireSpawnSlot bounded i c = Some c' \<and> sp_pc (spawnAt c' i) = SpRunning \<and> SpawnSlotsInUse (Some c') = SpawnSlotsInUse (Some c) + 1"
proof -
  have "cap_inv c" "sm_inUse (cp_nonTerminalSem c) \<le> sm_capacity (cp_nonTerminalSem c)"
    using assms(2) raised_cap.reach_inv [OF assms(1)] spawn_cap.reach_inv [OF assms(1)] by (auto simp: reserve_inv_def SpawnCapSize_def)
  then have "sm_inUse (cp_spawnSem c) < sm_capacity (cp_spawnSem c)" using assms(3) by (rule reserve_free)
  then show ?thesis using assms(4,5) by (auto simp: acquireSpawnSlot_def TryAcquire_def acquireWake_def Let_def SpawnSlotsInUse_def)
qed

theorem terminal_reserve_witness:
  "\<exists>c c'. (cap_step raising True)\<^sup>*\<^sup>* wit_cap c \<and> map sp_pc (cp_spawns c) = [SpRunning, SpRunning, SpStart]
     \<and> acquireSpawnSlot True 2 c = Some c' \<and> sp_pc (spawnAt c' 2) = SpRunning"
proof -
  let ?ms = "[MoveSpawn False, MoveAcquire 0, MoveAcquire 0, MoveSpawn False, MoveAcquire 1, MoveAcquire 1, MoveSpawn True]"
  have "case capMoves True ?ms wit_cap of None \<Rightarrow> False
      | Some c \<Rightarrow> map sp_pc (cp_spawns c) = [SpRunning, SpRunning, SpStart] \<and> map sp_terminal (cp_spawns c) = [False, False, True]" by code_simp
  from case_SomeD [OF this] obtain c where c: "capMoves True ?ms wit_cap = Some c
      \<and> map sp_pc (cp_spawns c) = [SpRunning, SpRunning, SpStart] \<and> map sp_terminal (cp_spawns c) = [False, False, True]" by (rule exE)
  have path: "(cap_step raising True)\<^sup>*\<^sup>* wit_cap c" using conjunct1 [OF c] by (rule capMoves_path) (auto simp: raising_def)
  obtain p q r where spawns: "cp_spawns c = [p, q, r]" "sp_pc p = SpRunning" "sp_pc q = SpRunning" "sp_pc r = SpStart"
    "\<not> sp_terminal p" "\<not> sp_terminal q" "sp_terminal r" using conjunct2 [OF c] by (auto simp: map_eq_Cons_conv)
  show ?thesis using terminal_reserve [OF wit_cap_start disjI1 [OF path], of 2] path spawns by auto
qed

text \<open>
  Lowering the cap can lose the reserve. Two non-terminal spawns that passed their own cap of two
  take both slots of the total cap when it is lowered to one in between; a terminal spawn then finds
  no slot although no terminal session runs, and it waits without a bound.
\<close>

theorem lowering_loses_reserve:
  "\<exists>c0 c. cap_start c0 \<and> (cap_step resizable bounded)\<^sup>*\<^sup>* c0 c \<and> cp_resize c = CapIdle \<and> SpawnCapSize (Some c) = 1
     \<and> map sp_terminal (cp_spawns c) = [False, False, True] \<and> map sp_pc (cp_spawns c) = [SpRunning, SpRunning, SpWaitS]
     \<and> acquireSpawnSlot bounded 2 c = None"
proof -
  let ?ms = "[MoveSpawn False, MoveAcquire 0, MoveSpawn False, MoveAcquire 1, MoveResize 1, MoveSecond, MoveAcquire 0, MoveAcquire 1,
    MoveSpawn True, MoveAcquire 2]"
  let ?good = "\<lambda>b c. cp_resize c = CapIdle \<and> SpawnCapSize (Some c) = 1 \<and> map sp_terminal (cp_spawns c) = [False, False, True]
     \<and> map sp_pc (cp_spawns c) = [SpRunning, SpRunning, SpWaitS] \<and> acquireSpawnSlot b 2 c = None"
  let ?ends = "\<lambda>b. case capMoves b ?ms wit_cap of None \<Rightarrow> False | Some c \<Rightarrow> ?good b c"
  have "?ends True" "?ends False" by code_simp+
  then have "?ends bounded" by (rule bool.induct [of ?ends])
  from case_SomeD [OF this] obtain c where c: "capMoves bounded ?ms wit_cap = Some c \<and> ?good bounded c" by (rule exE)
  have "(cap_step resizable bounded)\<^sup>*\<^sup>* wit_cap c" using conjunct1 [OF c] by (rule capMoves_path) (auto simp: resizable_def)
  then show ?thesis by (intro exI conjI) (rule wit_cap_start, assumption, insert conjunct2 [OF c], (elim conjE, assumption)+)
qed

text \<open>
  The set-concurrency command moves both limits together or neither. For a request below 2^30 it
  succeeds exactly when it is positive, the ceiling can be set, and there is no spawn cap, or the
  sessions it needs (two per run, at least the floor) fit the cap in force or, when it can be
  resized, the host's bound; then the ceiling is the request, the spawn cap is what the sessions
  need, and both bound each other. A refusal changes nothing.
\<close>

theorem setConcurrency_spec:
  assumes small: "n < 2 ^ 30" "- (2 ^ 62) \<le> n" and idle: "\<And>c'. c = Some c' \<Longrightarrow> cp_resize c' = CapIdle" and floor: "po_spawnCapFloor a < 2 ^ 63 - 1"
    and run: "HandleQueueSetConcurrency a n c val = (r, c2, val2)" and want: "want = max (2 * n) (po_spawnCapFloor a)"
  shows "((\<exists>v. r = Inr v) \<longleftrightarrow> 1 \<le> n \<and> po_concurrencySet a
        \<and> (SpawnCapSize c \<le> 0 \<or> want \<le> SpawnCapSize c \<or> po_spawnCapSet a \<and> (po_spawnCapCeiling a \<le> 0 \<or> want \<le> po_spawnCapCeiling a)))
    \<and> (\<forall>e. r = Inl e \<longrightarrow> c2 = c \<and> val2 = val)
    \<and> (\<forall>old new cap. r = Inr (old, new, cap) \<longrightarrow> old = val \<and> new = n \<and> val2 = n \<and> cap = SpawnCapSize c2
        \<and> (0 < SpawnCapSize c \<longrightarrow> 2 * n \<le> cap \<and> (if po_spawnCapSet a then cap = want else cap = SpawnCapSize c)))"
proof -
  have w: "int64 (n * 2) = 2 * n" using small by (simp add: mult.commute)
  have n32: "int32 n = n" if "1 \<le> n" using small that by simp
  have resized: "SpawnCapSize (map_option (SetSpawnCap_both want) c) = want" if "0 < want" "0 < SpawnCapSize c"
    using that idle by (cases c) (auto simp: SpawnCapSize_def SetSpawnCap_both_def SetSpawnCap_def SetSpawnCap_second_def SetCapacity_def)
  have m: "(if 2 * n < po_spawnCapFloor a then po_spawnCapFloor a else 2 * n) = want" by (simp add: want)
  let ?fits = "want \<le> SpawnCapSize c \<or> po_spawnCapSet a \<and> (po_spawnCapCeiling a \<le> 0 \<or> want \<le> po_spawnCapCeiling a)"
  have res: "if ?fits then resolveSpawnCap a n (SpawnCapSize c) = Inr want else \<exists>e. resolveSpawnCap a n (SpawnCapSize c) = Inl e"
    by (auto simp: resolveSpawnCap_def w m)
  consider (bad) "n < 1 \<or> \<not> po_concurrencySet a" | (free) "1 \<le> n" "po_concurrencySet a" "SpawnCapSize c \<le> 0"
    | (capped) "1 \<le> n" "po_concurrencySet a" "0 < SpawnCapSize c" by linarith
  then show ?thesis
  proof cases
    case bad
    then have "(\<exists>e. r = Inl e) \<and> c2 = c \<and> val2 = val" using run by (auto simp: HandleQueueSetConcurrency_def split: if_splits)
    then show ?thesis using bad by auto
  next
    case free
    then have "r = Inr (val, n, SpawnCapSize c) \<and> c2 = c \<and> val2 = n"
      using run n32 by (auto simp: HandleQueueSetConcurrency_def ConcurrencyController_Set_def)
    then show ?thesis using free by auto
  next
    case capped
    show ?thesis
    proof (cases ?fits)
      case True
      then have "resolveSpawnCap a n (SpawnCapSize c) = Inr want" using res by simp
      then have "r = Inr (val, n, SpawnCapSize c2) \<and> val2 = n \<and> SpawnCapSize c2 = (if po_spawnCapSet a then want else SpawnCapSize c)"
        using run n32 capped resized want by (auto simp: HandleQueueSetConcurrency_def ConcurrencyController_Set_def Let_def split: if_splits)
      then show ?thesis using capped True want by auto
    next
      case False
      then obtain e where "resolveSpawnCap a n (SpawnCapSize c) = Inl e" using res by auto
      then have "r = Inl e \<and> c2 = c \<and> val2 = val" using run capped by (auto simp: HandleQueueSetConcurrency_def Let_def)
      then show ?thesis using capped False by auto
    qed
  qed
qed

theorem setConcurrency_spec_witness:
  "\<exists>v. fst (HandleQueueSetConcurrency \<lparr>po_spawnCapFloor = 2, po_spawnCapCeiling = 8, po_spawnCapSet = True, po_concurrencySet = True\<rparr> 3 (Some wit_cap) 1) = Inr v"
proof -
  let ?a = "\<lparr>po_spawnCapFloor = 2, po_spawnCapCeiling = 8, po_spawnCapSet = True, po_concurrencySet = True\<rparr>"
  obtain r c2 val2 where run: "HandleQueueSetConcurrency ?a 3 (Some wit_cap) 1 = (r, c2, val2)" by (metis prod_cases3)
  have idle: "cp_resize c' = CapIdle" if "Some wit_cap = Some c'" for c' using that by (auto simp: wit_cap_def WithSpawnCap_def)
  show ?thesis using setConcurrency_spec [OF _ _ idle _ run refl] run by simp
qed

text \<open>
  A request of 2^62 slips past every bound: the sessions it needs wrap around to a negative
  number, so the host's bound does not refuse it, and the ceiling it stores is zero, with which no
  local run is admitted, while the answer names 2^62 as the new ceiling.
\<close>

theorem setConcurrency_wraps:
  "HandleQueueSetConcurrency \<lparr>po_spawnCapFloor = 2, po_spawnCapCeiling = 8, po_spawnCapSet = True, po_concurrencySet = True\<rparr> (2 ^ 62) (Some wit_cap) 1
     = (Inr (1, 2 ^ 62, 2), Some wit_cap, 0)"
  by code_simp

end
