(* ===== verification/Spec2Isabelle.thy ===== *)
theory Spec2Isabelle
  imports Queue_Deferral Queue_Append Queue_Completion Orchestrator Policy Run_Machine Dispatch_Machine Session_Lifecycle
    Run_Lease Merge_Queue Queue_Store Queue_Persistence Spawn_Cap
begin

text \<open>
  Harmonik, the daemon that works off queues of beads with coding agents: its decision and
  durability core.

  The program. An operator submits queues: ordered groups (waves and streams) of items, each naming a
  bead of an external ledger. The daemon validates and persists them (\<^verbatim>\<open>internal/queue\<close>), keeps the
  live ones in a store (\<^verbatim>\<open>internal/queuewiring\<close>), and each tick selects a queue and admits items
  (\<^verbatim>\<open>internal/orchestrator\<close>, \<^verbatim>\<open>internal/policy\<close>). An admitted item becomes a run: a reducer decides from
  events what to do next (\<^verbatim>\<open>internal/runexec\<close>), the daemon performs the actions, holds resources in
  leases (\<^verbatim>\<open>internal/runlease\<close>), and serialises work on the shared repository through one merge queue
  (\<^verbatim>\<open>internal/mergeq\<close>). The end of a run completes its item, then its group, then its queue, through the
  same store and the same replacement protocol on disk.

  The theories, in the order of the code.

  Base. \<open>Harmonik_Prelude\<close> has the common types, the run of a reactor, and the contracts (locales)
  that components share: \<open>reactor\<close> and \<open>reactor_history\<close> (a pure step function with terminal states
  and an invariant of the whole action history) and \<open>guarded_transition\<close> (a status change that is
  refused, or allowed exactly from given states). \<open>Transition_Systems\<close> has the contracts of concurrent
  components: \<open>transition_system\<close> (an invariant on all interleavings) and \<open>settling_system\<close> (a measure
  under which the component, left to itself, comes to rest).

  Queues as values. \<open>Queue_Types\<close> models \<^verbatim>\<open>types.go\<close>, \<^verbatim>\<open>status_transition.go\<close>, \<^verbatim>\<open>resume.go\<close>, \<^verbatim>\<open>clone.go\<close>
  and \<^verbatim>\<open>preclaim_terminal.go\<close> of \<^verbatim>\<open>internal/queue\<close>; each status operation is an interpretation of
  \<open>guarded_transition\<close>, and from these, with the budget writes of the daemon's spend meter and the
  completion of a live queue, come the graph of queue statuses and the resume-on-start bit. \<open>Queue_State\<close> models
  \<^verbatim>\<open>state.go\<close>: advancement of groups, eligibility, deferral; \<open>Queue_Deferral\<close> proves what the deferral
  decides, that propagating a failure reaches exactly the descendants of the failed bead whatever the
  order of the Go map, and that its loop ends. \<open>Queue_Validation\<close> models \<^verbatim>\<open>validation.go\<close> and the
  error tables of \<^verbatim>\<open>errors.go\<close>: the ordered rules, and when they accept. \<open>Queue_Append\<close> models
  \<^verbatim>\<open>append.go\<close>. \<open>Queue_Completion\<close> models \<^verbatim>\<open>group_completion.go\<close>, \<^verbatim>\<open>group_completion_decision.go\<close> and
  the completion of \<^verbatim>\<open>persistence.go\<close>, with a refinement to an abstract decision over outcomes.

  Queues on disk. \<open>File_System\<close> models the durable helpers of \<^verbatim>\<open>transaction.go\<close> over an environment:
  directories of files, where every operation may work, fail without effect or fail after its
  effect, and where a crash leaves any namespace since the last sync of the directory and loses the
  content of a file that was not synced. \<open>Replace_Intent\<close> has the intent, receipt and handoff records
  and their validators, \<open>Replace_Protocol\<close> the write (\<^verbatim>\<open>writeReplacement\<close>) and the recovery
  (\<^verbatim>\<open>intentrecovery.go\<close>). \<open>Replace_Safety\<close> classifies every state a faulty run can leave,
  \<open>Replace_Recovery\<close> proves that recovery resolves them, \<open>Replace_Write\<close> that the write only leaves
  such states and that what it reports is true; together: after any number of crashes the queue file
  is the old or the new one, whole. The intent of an archive handoff, which a cancellation writes, is
  refused by the recovery and left for the operator, and the theorems say so. \<open>Completion_Records\<close> models \<^verbatim>\<open>completion_marker.go\<close>,
  \<^verbatim>\<open>completion_status.go\<close> and \<^verbatim>\<open>completion_gc.go\<close>: receipts outlive their retention and are removed
  before the marker that dates them. \<open>Queue_Persistence\<close> models the writes outside the protocol:
  \<^verbatim>\<open>Persist\<close>, \<^verbatim>\<open>Load\<close>, the archive of failed queues and the migration of the legacy file. \<open>Queue_Store\<close>
  models \<^verbatim>\<open>store.go\<close> and \<^verbatim>\<open>recovery.go\<close> of \<^verbatim>\<open>internal/queuewiring\<close>: memory and disk agree after every
  outcome of \<^verbatim>\<open>Transact\<close> without archive handoff and completion receipt, or the name is quarantined; a
  quarantine is passed only by the failed recovery of a queue paused by failure, and a completion gives
  its name up only when queue file and intent are durably gone.

  Scheduling. \<open>Orchestrator\<close> models \<^verbatim>\<open>admission.go\<close>, \<^verbatim>\<open>select.go\<close>, \<^verbatim>\<open>eagerfill.go\<close> and
  \<^verbatim>\<open>claimfailure.go\<close>: fairness of the selection, soundness of the fill. \<open>Policy\<close> models \<^verbatim>\<open>drain.go\<close>,
  \<^verbatim>\<open>gate.go\<close>, \<^verbatim>\<open>ratelimit.go\<close> and \<^verbatim>\<open>autoresume.go\<close> of \<^verbatim>\<open>internal/policy\<close>; durations are 64-bit words.

  Runs. \<open>Run_Vocab\<close> has the events and actions (\<^verbatim>\<open>vocab.go\<close>) and the driver loop of
  \<^verbatim>\<open>internal/substrate\<close>. \<open>Run_Machine\<close> models \<^verbatim>\<open>run.go\<close>, \<open>Dispatch_Machine\<close> \<^verbatim>\<open>dispatch.go\<close>, and
  \<open>Session_Lifecycle\<close> the table, machine and ring buffer of \<^verbatim>\<open>internal/handlercontract/lifecycle\<close>. All
  are interpretations of \<open>reactor_history\<close>: one outcome per run, closes only for a stated reason,
  bounded merges, one launch and bounded briefs, the timers of every phase, a faithful history. \<open>Run_Lease\<close> models
  \<^verbatim>\<open>disposition.go\<close>, \<^verbatim>\<open>lease.go\<close> and \<^verbatim>\<open>scope.go\<close> on a heap, sequentially and with any number of
  goroutines; \<open>Merge_Queue\<close> models \<^verbatim>\<open>mergeq.go\<close> with any number of submitters. \<open>Spawn_Cap\<close> models the
  semaphores of \<^verbatim>\<open>internal/daemon/tmuxsubstrate.go\<close> that cap the agent sessions, their live resize and the
  command that moves cap and dispatch ceiling together (\<^verbatim>\<open>concurrencycontroller.go\<close>, \<^verbatim>\<open>rpc.go\<close>). All three
  are interpretations of \<open>settling_system\<close>: a lease is given back once and none leaks; critical sections
  run one at a time in intake order, every answer is true, and no submitter is left waiting; no session
  slot leaks and the terminal slot is reserved as long as the cap is not lowered.

  Correspondence. A definition has the name of the Go function, with a suffix where HOL has the
  name already. A Go error is the left of a sum or the \<open>Some\<close> of an option; a pointer that may be
  nil is an option; a mutex section is one step. String types read from JSON have an \<open>Other\<close> case for
  undeclared values. Loops are recursion on the data; the fixed point of the failure propagation
  recurs on a measure, and the backoff loop on the number of attempts, so no definition needs fuel. Go's integers are unbounded here where only counting up could wrap them
  (the round-robin cursor); a computation on a requested number is wrapped at its width.

  Parameters. JSON, base64, SHA-256, UUID parsing and time layouts are one record of functions
  (\<open>Codec\<close>); the bead ledger, the handler-pause registry, the clock, fresh identifiers and temporary
  suffixes, a directory listing, and the effects a lease or a critical section performs are arguments.
  Where a theorem needs a law of one of them (decoding undoes encoding, say) it is a hypothesis, and
  its witness instantiates it.

  Not modelled, and why. The daemon's processes, sockets, tmux and git calls, the twins and the
  harness adapters are effects around the decisions modelled here. The command lines, configuration,
  keeper, digests and reports read files and print. Log lines, metrics and most error texts are left
  out. Directory entries themselves, permissions and symbolic links of the file system are outside
  its model, and its directories always exist, so the branches for a missing one have no counterpart. Several further pure parts (the workflow validator, the event bus, the dispatch broker,
  schedules) would fit the same style and are not yet modelled.
\<close>

end
